(* ===== verification/NSB_Prelude.thy ===== *)
theory NSB_Prelude
  imports Main "HOL-Library.Word" "HOL-Library.Char_ord" "HOL-Library.List_Lexorder"
begin

text \<open>
  Shared vocabulary of the development: the C++ integer and string types, the decimal
  printing of \<open>std::to_string\<close>, C strings (what \<open>c_str()\<close> hands to a C function), and the
  search-and-remove idiom \<open>std::find_if\<close> followed by \<open>erase\<close> on a \<open>std::list\<close>,
  with the list lemmas every buffer proof uses.  Facts that drive automation are
  collected in \<open>nsb_simps\<close> (rewriting).
\<close>

named_theorems nsb_simps \<open>rewrite rules shared by the component proofs\<close>

unbundle bit_operations_syntax

section \<open>Types\<close>

text \<open>A C++ \<open>int\<close> (and a proto3 \<open>int32\<close>) is a 32-bit word read with \<open>sint\<close>; a file
  descriptor is the integer the kernel returned; a \<open>std::string\<close> is a list of bytes.\<close>

type_synonym i32 = "32 word"
type_synonym fd = int

abbreviation int_max :: nat where
  "int_max \<equiv> 2 ^ 31 - 1"

text \<open>\<open>static_cast<int>(s.size())\<close>: the length reduced to 32 bits.\<close>

definition int_of_size :: "'a list \<Rightarrow> i32" where
  "int_of_size s = of_nat (length s)"

lemma sint_int_of_size:
  "sint (int_of_size s) = signed_take_bit 31 (int (length s))"
  by (simp add: int_of_size_def signed_of_nat)

lemma sint_int_of_size_small [nsb_simps]:
  "length s \<le> int_max \<Longrightarrow> sint (int_of_size s) = int (length s)"
  unfolding sint_int_of_size by (rule signed_take_bit_int_eq_self) auto

lemma sint_int_of_size_negative:
  assumes "2 ^ 31 \<le> length s" "length s < 2 ^ 32"
  shows "sint (int_of_size s) = int (length s) - 2 ^ 32"
proof -
  have "signed_take_bit 31 (int (length s)) = take_bit 32 (int (length s) + 2 ^ 31) - 2 ^ 31"
    by (simp add: signed_take_bit_eq_take_bit_shift)
  also have "take_bit 32 (int (length s) + 2 ^ 31) = int (length s) + 2 ^ 31 - 2 ^ 32"
    unfolding take_bit_eq_mod
    by (rule mod_pos_geq [THEN trans]) (use assms in \<open>auto intro!: mod_pos_pos_trivial\<close>)
  finally show ?thesis by (simp add: sint_int_of_size)
qed

section \<open>Decimal numerals\<close>

definition digit_char :: "nat \<Rightarrow> char" where
  "digit_char d = ''0123456789'' ! d"

definition is_digit :: "char \<Rightarrow> bool" where
  "is_digit c \<longleftrightarrow> c \<in> set ''0123456789''"

definition digit_val :: "char \<Rightarrow> nat" where
  "digit_val c = of_char c - 48"

fun nat_digits :: "nat \<Rightarrow> string" where
  "nat_digits n = (if n < 10 then [digit_char n] else nat_digits (n div 10) @ [digit_char (n mod 10)])"

declare nat_digits.simps [simp del]

text \<open>\<open>std::to_string(int)\<close>: a minus sign for negative values, then the digits.\<close>

definition to_string :: "int \<Rightarrow> string" where
  "to_string i = (if i < 0 then CHR ''-'' # nat_digits (nat (- i)) else nat_digits (nat i))"

definition digits_val :: "string \<Rightarrow> nat" where
  "digits_val s = foldl (\<lambda>a c. 10 * a + digit_val c) 0 s"

lemma less_10_cases:
  "d < (10::nat) \<Longrightarrow> d = 0 \<or> d = 1 \<or> d = 2 \<or> d = 3 \<or> d = 4 \<or> d = 5 \<or> d = 6 \<or> d = 7 \<or> d = 8 \<or> d = 9"
  by arith

lemma digit_val_char [simp]: "d < 10 \<Longrightarrow> digit_val (digit_char d) = d"
  by (drule less_10_cases) (auto simp: digit_val_def digit_char_def)

lemma is_digit_char [simp]: "d < 10 \<Longrightarrow> is_digit (digit_char d)"
  by (drule less_10_cases) (auto simp: is_digit_def digit_char_def)

lemma minus_not_digit [simp]: "\<not> is_digit CHR ''-''"
  by (simp add: is_digit_def)

lemma nat_digits_all_digits: "c \<in> set (nat_digits n) \<Longrightarrow> is_digit c"
proof (induction n rule: nat_digits.induct)
  case (1 n)
  then show ?case
    by (cases "n < 10") (auto simp: nat_digits.simps [of n])
qed

lemma nat_digits_nonempty [simp]: "nat_digits n \<noteq> []"
  by (subst nat_digits.simps) simp

lemma digits_val_nat_digits [simp]: "digits_val (nat_digits n) = n"
proof (induction n rule: nat_digits.induct)
  case (1 n)
  show ?case
  proof (cases "n < 10")
    case True
    then show ?thesis by (simp add: nat_digits.simps [of n] digits_val_def)
  next
    case False
    with 1 have "digits_val (nat_digits (n div 10)) = n div 10" by simp
    with False show ?thesis by (simp add: nat_digits.simps [of n] digits_val_def)
  qed
qed

lemma nat_digits_inj [simp]: "nat_digits m = nat_digits n \<longleftrightarrow> m = n"
  by (metis digits_val_nat_digits)

lemma minus_notin_nat_digits [simp]: "CHR ''-'' \<notin> set (nat_digits n)"
  using nat_digits_all_digits by fastforce

lemma to_string_inj [simp]: "to_string i = to_string j \<longleftrightarrow> i = j"
proof
  assume eq: "to_string i = to_string j"
  have neq: "nat_digits n \<noteq> CHR ''-'' # xs" for n xs
    by (metis list.set_intros(1) minus_notin_nat_digits)
  show "i = j"
    using eq neq neq [symmetric] by (auto simp: to_string_def split: if_splits)
qed simp

lemma to_string_nonempty [simp]: "to_string i \<noteq> []"
  by (simp add: to_string_def)

section \<open>Calls that may not return\<close>

text \<open>Why a call yields no value: it waits or loops for as long as the kernel's behaviour that
  was given to the model lasts, \<open>at()\<close> throws, \<open>std::exit\<close> ends the process, or a null
  pointer is dereferenced.\<close>

datatype io_stop = NoReturn | OutOfRange | ProcessExit | NullPointer

definition bind_res :: "'e + 'a \<Rightarrow> ('a \<Rightarrow> 'e + 'b) \<Rightarrow> 'e + 'b" where
  "bind_res r f = (case r of Inl e \<Rightarrow> Inl e | Inr x \<Rightarrow> f x)"

lemma bind_res_simps [simp]: "bind_res (Inl e) f = Inl e" "bind_res (Inr x) f = f x"
  by (simp_all add: bind_res_def)

lemma bind_res_Inr: "bind_res r f = Inr y \<longleftrightarrow> (\<exists>x. r = Inr x \<and> f x = Inr y)"
  by (cases r) simp_all

lemma bind_res_assoc: "bind_res (bind_res r f) g = bind_res r (\<lambda>x. bind_res (f x) g)"
  by (cases r) simp_all

section \<open>C strings\<close>

text \<open>What a C function reading \<open>s.c_str()\<close> as a NUL-terminated string sees.\<close>

definition c_str :: "string \<Rightarrow> string" where
  "c_str s = takeWhile (\<lambda>c. c \<noteq> CHR 0x00) s"

lemma c_str_id: "CHR 0x00 \<notin> set s \<Longrightarrow> c_str s = s"
  by (auto simp: c_str_def takeWhile_eq_all_conv)

lemma c_str_append_nul: "CHR 0x00 \<notin> set s \<Longrightarrow> c_str (s @ CHR 0x00 # t) = s"
  by (auto simp: c_str_def takeWhile_append)

section \<open>Search and remove\<close>

text \<open>\<open>auto it = std::find_if(l.begin(), l.end(), p); if (it != l.end()) \<dots> l.erase(it)\<close>:
  the first element that satisfies the predicate and the list without it.\<close>

fun find_erase :: "('a \<Rightarrow> bool) \<Rightarrow> 'a list \<Rightarrow> 'a option \<times> 'a list" where
  "find_erase p [] = (None, [])"
| "find_erase p (x # xs) =
     (if p x then (Some x, xs)
      else (let (r, ys) = find_erase p xs in (r, x # ys)))"

text \<open>\<open>if (!l.empty()) \<dots> l.front(); l.pop_front();\<close>\<close>

definition pop_front :: "'a list \<Rightarrow> 'a option \<times> 'a list" where
  "pop_front l = (case l of [] \<Rightarrow> (None, []) | x # xs \<Rightarrow> (Some x, xs))"

lemma find_erase_none: "\<forall>x\<in>set xs. \<not> p x \<Longrightarrow> find_erase p xs = (None, xs)"
  by (induction xs) auto

lemma find_erase_split: "p x \<Longrightarrow> \<forall>u\<in>set us. \<not> p u \<Longrightarrow> find_erase p (us @ x # vs) = (Some x, us @ vs)"
  by (induction us) auto

lemma find_erase_cases:
  obtains (none) "find_erase p xs = (None, xs)" "\<forall>x\<in>set xs. \<not> p x"
  | (found) us x vs where "xs = us @ x # vs" "find_erase p xs = (Some x, us @ vs)"
      "p x" "\<forall>u\<in>set us. \<not> p u"
proof (cases "\<exists>x\<in>set xs. p x")
  case True
  then obtain us x vs where "xs = us @ x # vs" "p x" "\<forall>u\<in>set us. \<not> p u"
    using split_list_first_prop [OF True] by blast
  with found show ?thesis by (simp add: find_erase_split)
next
  case False
  with none show ?thesis by (simp add: find_erase_none)
qed

lemma find_erase_None: "find_erase p xs = (None, ys) \<longleftrightarrow> ys = xs \<and> (\<forall>x\<in>set xs. \<not> p x)"
  by (cases rule: find_erase_cases [where p = p and xs = xs]) auto

lemma find_erase_SomeD:
  assumes "find_erase p xs = (Some x, ys)"
  obtains us vs where "xs = us @ x # vs" "ys = us @ vs" "p x" "\<forall>u\<in>set us. \<not> p u"
  using assms by (cases rule: find_erase_cases [where p = p and xs = xs]) auto

lemma find_erase_subset:
  "find_erase p xs = (r, ys) \<Longrightarrow> set ys \<subseteq> set xs \<and> (\<forall>x. r = Some x \<longrightarrow> x \<in> set xs)"
  by (cases rule: find_erase_cases [where p = p and xs = xs]) auto

lemma pop_front_simps [simp]: "pop_front [] = (None, [])" "pop_front (x # xs) = (Some x, xs)"
  by (simp_all add: pop_front_def)

text \<open>The pop is the search with the predicate that always holds.\<close>

lemma pop_front_eq_find_erase: "pop_front xs = find_erase (\<lambda>_. True) xs"
  by (cases xs) simp_all

lemma filter_find_erase_Some:
  "find_erase p xs = (Some x, ys) \<Longrightarrow> filter p xs = x # filter p ys"
  by (erule find_erase_SomeD) (simp add: filter_empty_conv [THEN iffD2])

lemma filter_find_erase_other:
  assumes "find_erase p xs = (r, ys)" "\<And>x. p x \<Longrightarrow> \<not> q x"
  shows "filter q ys = filter q xs"
  using assms by (cases rule: find_erase_cases [where p = p and xs = xs]) auto

end
