(* ===== verification/NSB_Std_Map.thy ===== *)
theory NSB_Std_Map
  imports NSB_Prelude
begin

text \<open>
  \<open>std::map\<close> as the code uses it: an ordered sequence of key/value pairs.  The daemon keeps
  its client registries and the file-descriptor table in such maps
  (\<open>cpp/include/nsb_daemon.h\<close>), the socket interfaces their channels.  What its clients rely
  on is stated once as the locale \<open>registry_table\<close> (look-up and \<open>emplace\<close>, which never
  overwrites) and its extension \<open>assignable_table\<close> (\<open>operator[]\<close> assignment); both are
  interpreted below on the ordered association list that the components use.
\<close>

section \<open>The contract\<close>

locale registry_table =
  fixes empty :: "'m"
    and find :: "'m \<Rightarrow> 'k \<Rightarrow> 'v option"
    and emplace :: "'k \<Rightarrow> 'v \<Rightarrow> 'm \<Rightarrow> 'm"
    and count :: "'m \<Rightarrow> nat"
    and ok :: "'m \<Rightarrow> bool"
  assumes ok_empty: "ok empty"
    and find_empty: "find empty k = None"
    and count_empty: "count empty = 0"
    and ok_emplace: "ok m \<Longrightarrow> ok (emplace k v m)"
    and find_emplace: "ok m \<Longrightarrow> find (emplace k v m) k' =
        (if k' = k \<and> find m k = None then Some v else find m k')"
    and count_emplace: "ok m \<Longrightarrow> count (emplace k v m) = (if find m k = None then Suc (count m) else count m)"
begin

lemma emplace_keeps: "ok m \<Longrightarrow> find m k = Some v \<Longrightarrow> find (emplace k' w m) k = Some v"
  by (auto simp: find_emplace)

lemma emplace_new: "ok m \<Longrightarrow> find m k = None \<Longrightarrow> find (emplace k v m) k = Some v"
  by (simp add: find_emplace)

lemma ok_emplace_all: "ok m \<Longrightarrow> ok (fold (\<lambda>(k, v). emplace k v) kvs m)"
  by (induction kvs arbitrary: m) (auto simp: ok_emplace)

text \<open>A history of insertions: for every key the first one is the one that stays.\<close>

lemma find_emplace_all:
  "ok m \<Longrightarrow> find (fold (\<lambda>(k, v). emplace k v) kvs m) k =
     (case find m k of Some v \<Rightarrow> Some v | None \<Rightarrow> map_of kvs k)"
proof (induction kvs arbitrary: m)
  case Nil
  then show ?case by (simp split: option.split)
next
  case (Cons kv kvs)
  then show ?case
    by (cases kv) (auto simp: ok_emplace find_emplace split: option.split)
qed

lemma count_emplace_le: "ok m \<Longrightarrow> count m \<le> count (emplace k v m)"
  by (simp add: count_emplace)

end

locale assignable_table = registry_table +
  fixes assign :: "'k \<Rightarrow> 'v \<Rightarrow> 'm \<Rightarrow> 'm"
  assumes ok_assign: "ok m \<Longrightarrow> ok (assign k v m)"
    and find_assign: "ok m \<Longrightarrow> find (assign k v m) k' = (if k' = k then Some v else find m k')"
begin

text \<open>Where the key is new, \<open>emplace\<close> and assignment store the same; where it is not, only the
  assignment is seen by a later look-up.\<close>

lemma assign_vs_emplace:
  "ok m \<Longrightarrow> find (emplace k v m) k = find (assign k v m) k \<longleftrightarrow> find m k = None \<or> find m k = Some v"
  by (auto simp: find_emplace find_assign)

end

section \<open>Ordered association lists\<close>

type_synonym ('k, 'v) std_map = "('k \<times> 'v) list"

definition map_ok :: "('k::linorder, 'v) std_map \<Rightarrow> bool" where
  "map_ok m \<longleftrightarrow> sorted_wrt (<) (map fst m)"

text \<open>\<open>m.find(k)\<close> (\<open>None\<close> is \<open>m.end()\<close>), \<open>m.size()\<close> and \<open>m.begin()\<close>.\<close>

definition map_find :: "('k::linorder, 'v) std_map \<Rightarrow> 'k \<Rightarrow> 'v option" where
  "map_find m k = map_of m k"

definition map_size :: "('k::linorder, 'v) std_map \<Rightarrow> nat" where
  "map_size m = length m"

definition map_begin :: "('k::linorder, 'v) std_map \<Rightarrow> ('k \<times> 'v) option" where
  "map_begin m = (case m of [] \<Rightarrow> None | kv # _ \<Rightarrow> Some kv)"

text \<open>\<open>m.emplace(k, v)\<close> and \<open>m.insert({k, v})\<close>: no effect when the key is present.\<close>

fun map_emplace :: "'k::linorder \<Rightarrow> 'v \<Rightarrow> ('k, 'v) std_map \<Rightarrow> ('k, 'v) std_map" where
  "map_emplace k v [] = [(k, v)]"
| "map_emplace k v (p # m) =
     (if k < fst p then (k, v) # p # m
      else if k = fst p then p # m
      else p # map_emplace k v m)"

text \<open>\<open>m[k] = v\<close>.\<close>

fun map_assign :: "'k::linorder \<Rightarrow> 'v \<Rightarrow> ('k, 'v) std_map \<Rightarrow> ('k, 'v) std_map" where
  "map_assign k v [] = [(k, v)]"
| "map_assign k v (p # m) =
     (if k < fst p then (k, v) # p # m
      else if k = fst p then (k, v) # m
      else p # map_assign k v m)"

lemma map_ok_Nil [simp]: "map_ok []"
  by (simp add: map_ok_def)

lemma map_ok_single [simp]: "map_ok [p]"
  by (simp add: map_ok_def)

lemma map_ok_Cons: "map_ok (p # m) \<longleftrightarrow> (\<forall>q\<in>set m. fst p < fst q) \<and> map_ok m"
  by (auto simp: map_ok_def)

lemma set_map_emplace: "set (map_emplace k v m) \<subseteq> insert (k, v) (set m)"
  by (induction m) auto

lemma set_map_assign: "set (map_assign k v m) \<subseteq> insert (k, v) (set m)"
  by (induction m) auto

lemma map_ok_emplace: "map_ok m \<Longrightarrow> map_ok (map_emplace k v m)"
  by (induction m) (use set_map_emplace in \<open>fastforce simp: map_ok_Cons\<close>)+

lemma map_ok_assign: "map_ok m \<Longrightarrow> map_ok (map_assign k v m)"
  by (induction m) (use set_map_assign in \<open>fastforce simp: map_ok_Cons\<close>)+

lemma map_of_less_None: "\<forall>q\<in>set m. (k::'k::linorder) < fst q \<Longrightarrow> map_of m k = None"
  by (induction m) auto

lemma map_of_emplace:
  "map_ok m \<Longrightarrow> map_of (map_emplace k v m) k' = (if k' = k \<and> map_of m k = None then Some v else map_of m k')"
proof (induction m)
  case Nil
  then show ?case by simp
next
  case (Cons p m)
  then have "k < fst p \<Longrightarrow> map_of m k = None"
    by (auto simp: map_ok_Cons intro!: map_of_less_None dest: less_trans)
  with Cons show ?case by (cases p) (auto simp: map_ok_Cons)
qed

lemma map_of_assign:
  "map_ok m \<Longrightarrow> map_of (map_assign k v m) k' = (if k' = k then Some v else map_of m k')"
  by (induction m) (auto simp: map_ok_Cons)

lemma length_emplace:
  "map_ok m \<Longrightarrow> length (map_emplace k v m) = (if map_of m k = None then Suc (length m) else length m)"
proof (induction m)
  case Nil
  then show ?case by simp
next
  case (Cons p m)
  then have "k < fst p \<Longrightarrow> map_of m k = None"
    by (auto simp: map_ok_Cons intro!: map_of_less_None dest: less_trans)
  with Cons show ?case by (cases p) (auto simp: map_ok_Cons)
qed

interpretation std_map: assignable_table "[]" map_find map_emplace map_size map_ok map_assign
  by unfold_locales
    (auto simp: map_find_def map_size_def map_ok_emplace map_ok_assign map_of_emplace
      map_of_assign length_emplace)

lemma map_begin_in: "map_begin m = Some (k, v) \<Longrightarrow> (k, v) \<in> set m"
  by (auto simp: map_begin_def split: list.splits)

lemma map_begin_least:
  assumes "map_ok m" "map_begin m = Some (k, v)" "map_find m k' = Some v'"
  shows "k \<le> k'"
  using assms by (cases m) (auto simp: map_begin_def map_find_def map_ok_Cons
      split: if_splits dest!: map_of_SomeD)

lemma map_begin_None [simp]: "map_begin m = None \<longleftrightarrow> m = []"
  by (cases m) (auto simp: map_begin_def)

lemma map_begin_Nil [simp]: "map_begin [] = None"
  by (simp add: map_begin_def)

lemma map_size_0 [simp]: "map_size m = 0 \<longleftrightarrow> m = []"
  by (simp add: map_size_def)

end
