(* ===== verification/NSB_Proto.thy ===== *)
theory NSB_Proto
  imports NSB_Prelude
begin

text \<open>
  The message type \<open>nsbm\<close> of \<open>proto/nsb.proto\<close>: its enumerations, its sub-messages and the
  field access that the proto3 language gives them (a field that was never set reads as its
  default; setting a member of the \<open>oneof\<close> clears the others).  proto3 enumerations are open:
  a value outside the declared ones is kept, here as the last constructor of each type.
  Byte encodings are not modelled: \<open>ParseFromArray\<close> and \<open>SerializeToArray\<close> are generated
  code and appear as parameters of the components that call them.
\<close>

section \<open>Enumerations\<close>

text \<open>The numbers that an enumeration with the values \<open>0\<close> to \<open>k\<close> does not declare: with these as arguments of the
  last constructors, a number has one representation.\<close>

typedef undeclared_op = "{n :: i32. 8 \<le> n}" by (rule exI [of _ 8]) simp
typedef undeclared_originator = "{n :: i32. 3 \<le> n}" by (rule exI [of _ 3]) simp
typedef undeclared_mode = "{n :: i32. 2 \<le> n}" by (rule exI [of _ 2]) simp

datatype operation = PING | INIT | SEND | FETCH | POST | RECEIVE | FORWARD | EXIT | OtherOp undeclared_op

datatype originator = DAEMON | APP_CLIENT | SIM_CLIENT | OtherOriginator undeclared_originator

datatype op_code = SUCCESS | FAILURE | CLIENT_REQUEST | DAEMON_RESPONSE | IMPLICIT_TARGET
  | EXPLICIT_TARGET | MESSAGE | NO_MESSAGE | OtherCode undeclared_op

datatype system_mode = PULL | PUSH | OtherSystemMode undeclared_mode

datatype simulator_mode = SYSTEM_WIDE | PER_NODE | OtherSimulatorMode undeclared_mode

text \<open>The number of a mode that is neither of the two.\<close>

definition other_mode :: "i32 \<Rightarrow> undeclared_mode" where
  "other_mode n = Abs_undeclared_mode (if 2 \<le> n then n else 2)"

lemma Abs_Rep_mode [code abstype]: "Abs_undeclared_mode (Rep_undeclared_mode m) = m"
  by (rule Rep_undeclared_mode_inverse)

lemma Rep_other_mode [code abstract]: "Rep_undeclared_mode (other_mode n) = (if 2 \<le> n then n else 2)"
  unfolding other_mode_def by (rule Abs_undeclared_mode_inverse) simp

section \<open>Messages\<close>

record manifest_msg =
  man_op :: operation
  man_og :: originator
  man_code :: op_code

record metadata_msg =
  src_id :: string
  dest_id :: string
  payload_size :: i32

record config_params =
  sys_mode :: system_mode
  sim_mode :: simulator_mode
  use_db :: bool
  db_address :: string
  db_port :: i32
  db_num :: i32

record intro_details =
  client_identifier :: string
  address :: string
  ch_CTRL :: i32
  ch_SEND :: i32
  ch_RECV :: i32

datatype body =
    Payload string
  | MsgKey string
  | Intro intro_details
  | ConfigBody config_params

record nsbm =
  manifest_field :: "manifest_msg option"
  metadata_field :: "metadata_msg option"
  body_field :: "body option"

section \<open>Defaults\<close>

definition empty_manifest :: manifest_msg where
  "empty_manifest = \<lparr>man_op = PING, man_og = DAEMON, man_code = SUCCESS\<rparr>"

definition empty_metadata :: metadata_msg where
  "empty_metadata = \<lparr>src_id = [], dest_id = [], payload_size = 0\<rparr>"

definition empty_config :: config_params where
  "empty_config = \<lparr>sys_mode = PULL, sim_mode = SYSTEM_WIDE, use_db = False,
     db_address = [], db_port = 0, db_num = 0\<rparr>"

definition empty_intro :: intro_details where
  "empty_intro = \<lparr>client_identifier = [], address = [], ch_CTRL = 0, ch_SEND = 0, ch_RECV = 0\<rparr>"

definition empty_nsbm :: nsbm where
  "empty_nsbm = \<lparr>manifest_field = None, metadata_field = None, body_field = None\<rparr>"

section \<open>Field access\<close>

definition manifest :: "nsbm \<Rightarrow> manifest_msg" where
  "manifest m = (case manifest_field m of None \<Rightarrow> empty_manifest | Some x \<Rightarrow> x)"

definition metadata :: "nsbm \<Rightarrow> metadata_msg" where
  "metadata m = (case metadata_field m of None \<Rightarrow> empty_metadata | Some x \<Rightarrow> x)"

definition payload :: "nsbm \<Rightarrow> string" where
  "payload m = (case body_field m of Some (Payload p) \<Rightarrow> p | _ \<Rightarrow> [])"

definition msg_key :: "nsbm \<Rightarrow> string" where
  "msg_key m = (case body_field m of Some (MsgKey k) \<Rightarrow> k | _ \<Rightarrow> [])"

definition intro :: "nsbm \<Rightarrow> intro_details" where
  "intro m = (case body_field m of Some (Intro i) \<Rightarrow> i | _ \<Rightarrow> empty_intro)"

definition config :: "nsbm \<Rightarrow> config_params" where
  "config m = (case body_field m of Some (ConfigBody c) \<Rightarrow> c | _ \<Rightarrow> empty_config)"

definition has_manifest :: "nsbm \<Rightarrow> bool" where
  "has_manifest m \<longleftrightarrow> manifest_field m \<noteq> None"

definition has_metadata :: "nsbm \<Rightarrow> bool" where
  "has_metadata m \<longleftrightarrow> metadata_field m \<noteq> None"

definition has_payload :: "nsbm \<Rightarrow> bool" where
  "has_payload m \<longleftrightarrow> (case body_field m of Some (Payload _) \<Rightarrow> True | _ \<Rightarrow> False)"

definition has_intro :: "nsbm \<Rightarrow> bool" where
  "has_intro m \<longleftrightarrow> (case body_field m of Some (Intro _) \<Rightarrow> True | _ \<Rightarrow> False)"

definition has_config :: "nsbm \<Rightarrow> bool" where
  "has_config m \<longleftrightarrow> (case body_field m of Some (ConfigBody _) \<Rightarrow> True | _ \<Rightarrow> False)"

text \<open>\<open>mutable_manifest()\<close>, \<open>mutable_metadata()\<close>, \<open>mutable_intro()\<close> and \<open>mutable_config()\<close>
  create the sub-message if it is not there; the setters then update it.  The last two are
  members of the \<open>oneof\<close>, so creating one drops whatever member was set.\<close>

definition set_manifest :: "(manifest_msg \<Rightarrow> manifest_msg) \<Rightarrow> nsbm \<Rightarrow> nsbm" where
  "set_manifest f m = m\<lparr>manifest_field := Some (f (manifest m))\<rparr>"

definition set_metadata :: "(metadata_msg \<Rightarrow> metadata_msg) \<Rightarrow> nsbm \<Rightarrow> nsbm" where
  "set_metadata f m = m\<lparr>metadata_field := Some (f (metadata m))\<rparr>"

definition set_intro :: "(intro_details \<Rightarrow> intro_details) \<Rightarrow> nsbm \<Rightarrow> nsbm" where
  "set_intro f m = m\<lparr>body_field := Some (Intro (f (intro m)))\<rparr>"

definition set_config :: "(config_params \<Rightarrow> config_params) \<Rightarrow> nsbm \<Rightarrow> nsbm" where
  "set_config f m = m\<lparr>body_field := Some (ConfigBody (f (config m)))\<rparr>"

definition set_payload :: "string \<Rightarrow> nsbm \<Rightarrow> nsbm" where
  "set_payload p m = m\<lparr>body_field := Some (Payload p)\<rparr>"

definition set_msg_key :: "string \<Rightarrow> nsbm \<Rightarrow> nsbm" where
  "set_msg_key k m = m\<lparr>body_field := Some (MsgKey k)\<rparr>"

text \<open>The three setters every message of the program is started with.\<close>

definition head_of :: "operation \<Rightarrow> originator \<Rightarrow> op_code \<Rightarrow> nsbm \<Rightarrow> nsbm" where
  "head_of opn ogn c = set_manifest (\<lambda>h. h\<lparr>man_op := opn, man_og := ogn, man_code := c\<rparr>)"

section \<open>Merging\<close>

text \<open>\<open>MergeFrom\<close>: a scalar of the second message overwrites the first where it is not the
  default, sub-messages merge field by field, a \<open>oneof\<close> member replaces another member.\<close>

definition pick :: "'a \<Rightarrow> 'a \<Rightarrow> 'a \<Rightarrow> 'a" where
  "pick d a b = (if b = d then a else b)"

definition merge_manifest :: "manifest_msg \<Rightarrow> manifest_msg \<Rightarrow> manifest_msg" where
  "merge_manifest a b = \<lparr>man_op = pick PING (man_op a) (man_op b),
     man_og = pick DAEMON (man_og a) (man_og b), man_code = pick SUCCESS (man_code a) (man_code b)\<rparr>"

definition merge_metadata :: "metadata_msg \<Rightarrow> metadata_msg \<Rightarrow> metadata_msg" where
  "merge_metadata a b = \<lparr>src_id = pick [] (src_id a) (src_id b),
     dest_id = pick [] (dest_id a) (dest_id b),
     payload_size = pick 0 (payload_size a) (payload_size b)\<rparr>"

definition merge_config :: "config_params \<Rightarrow> config_params \<Rightarrow> config_params" where
  "merge_config a b = \<lparr>sys_mode = pick PULL (sys_mode a) (sys_mode b),
     sim_mode = pick SYSTEM_WIDE (sim_mode a) (sim_mode b),
     use_db = pick False (use_db a) (use_db b),
     db_address = pick [] (db_address a) (db_address b),
     db_port = pick 0 (db_port a) (db_port b), db_num = pick 0 (db_num a) (db_num b)\<rparr>"

definition merge_intro :: "intro_details \<Rightarrow> intro_details \<Rightarrow> intro_details" where
  "merge_intro a b = \<lparr>client_identifier = pick [] (client_identifier a) (client_identifier b),
     address = pick [] (address a) (address b), ch_CTRL = pick 0 (ch_CTRL a) (ch_CTRL b),
     ch_SEND = pick 0 (ch_SEND a) (ch_SEND b), ch_RECV = pick 0 (ch_RECV a) (ch_RECV b)\<rparr>"

fun merge_body :: "body \<Rightarrow> body \<Rightarrow> body" where
  "merge_body (Intro a) (Intro b) = Intro (merge_intro a b)"
| "merge_body (ConfigBody a) (ConfigBody b) = ConfigBody (merge_config a b)"
| "merge_body _ b = b"

fun merge_opt :: "('a \<Rightarrow> 'a \<Rightarrow> 'a) \<Rightarrow> 'a option \<Rightarrow> 'a option \<Rightarrow> 'a option" where
  "merge_opt f None y = y"
| "merge_opt f (Some x) None = Some x"
| "merge_opt f (Some x) (Some y) = Some (f x y)"

definition merge_from :: "nsbm \<Rightarrow> nsbm \<Rightarrow> nsbm" where
  "merge_from a b = \<lparr>manifest_field = merge_opt merge_manifest (manifest_field a) (manifest_field b),
     metadata_field = merge_opt merge_metadata (metadata_field a) (metadata_field b),
     body_field = merge_opt merge_body (body_field a) (body_field b)\<rparr>"

section \<open>Field laws\<close>

text \<open>Reading back what the setters wrote; these equations are all the later proofs need.\<close>

lemma manifest_set [nsb_simps]:
  "manifest (set_manifest f m) = f (manifest m)"
  "manifest (set_metadata g m) = manifest m"
  "manifest (set_intro h m) = manifest m"
  "manifest (set_config c m) = manifest m"
  "manifest (set_payload p m) = manifest m"
  "manifest (set_msg_key k m) = manifest m"
  by (simp_all add: manifest_def set_manifest_def set_metadata_def set_intro_def set_config_def
      set_payload_def set_msg_key_def)

lemma metadata_set [nsb_simps]:
  "metadata (set_metadata g m) = g (metadata m)"
  "metadata (set_manifest f m) = metadata m"
  "metadata (set_payload p m) = metadata m"
  "metadata (set_msg_key k m) = metadata m"
  "metadata (set_intro h m) = metadata m"
  "metadata (set_config c m) = metadata m"
  by (simp_all add: metadata_def set_manifest_def set_metadata_def set_intro_def set_config_def
      set_payload_def set_msg_key_def)

lemma body_set [nsb_simps]:
  "payload (set_payload p m) = p" "payload (set_msg_key k m) = []"
  "payload (set_manifest f m) = payload m" "payload (set_metadata g m) = payload m"
  "payload (set_intro h m) = []" "payload (set_config c m) = []"
  "msg_key (set_msg_key k m) = k" "msg_key (set_payload p m) = []"
  "msg_key (set_manifest f m) = msg_key m" "msg_key (set_metadata g m) = msg_key m"
  "msg_key (set_intro h m) = []" "msg_key (set_config c m) = []"
  "intro (set_intro h m) = h (intro m)" "intro (set_manifest f m) = intro m"
  "intro (set_metadata g m) = intro m"
  "config (set_config c m) = c (config m)" "config (set_manifest f m) = config m"
  "config (set_metadata g m) = config m"
  by (simp_all add: payload_def msg_key_def intro_def config_def set_manifest_def
      set_metadata_def set_intro_def set_config_def set_payload_def set_msg_key_def)

lemma has_set [nsb_simps]:
  "has_manifest (set_manifest f m)" "has_metadata (set_metadata g m)"
  "has_metadata (set_manifest f m) = has_metadata m"
  "has_manifest (set_metadata g m) = has_manifest m"
  "has_metadata (set_payload p m) = has_metadata m" "has_metadata (set_msg_key k m) = has_metadata m"
  "has_metadata (set_intro h m) = has_metadata m"
  "has_intro (set_intro h m)" "has_intro (set_manifest f m) = has_intro m"
  "has_intro (set_metadata g m) = has_intro m"
  "has_config (set_config c m)" "has_config (set_manifest f m) = has_config m"
  "has_payload (set_payload p m)" "\<not> has_payload (set_msg_key k m)"
  "has_payload (set_metadata g m) = has_payload m" "has_payload (set_manifest f m) = has_payload m"
  by (simp_all add: has_manifest_def has_metadata_def has_intro_def has_config_def has_payload_def
      set_manifest_def set_metadata_def set_intro_def set_config_def set_payload_def set_msg_key_def)

lemma empty_nsbm_fields [nsb_simps]:
  "manifest empty_nsbm = empty_manifest" "metadata empty_nsbm = empty_metadata"
  "payload empty_nsbm = []" "msg_key empty_nsbm = []" "intro empty_nsbm = empty_intro"
  "config empty_nsbm = empty_config" "\<not> has_metadata empty_nsbm" "\<not> has_intro empty_nsbm"
  "\<not> has_config empty_nsbm" "\<not> has_manifest empty_nsbm" "\<not> has_payload empty_nsbm"
  by (simp_all add: empty_nsbm_def manifest_def metadata_def payload_def msg_key_def intro_def
      config_def has_metadata_def has_intro_def has_config_def has_manifest_def has_payload_def)

lemma empty_metadata_sel [simp]:
  "src_id empty_metadata = []" "dest_id empty_metadata = []" "payload_size empty_metadata = 0"
  by (simp_all add: empty_metadata_def)

lemma head_of_fields [nsb_simps]:
  "man_op (manifest (head_of opn ogn c m)) = opn"
  "man_og (manifest (head_of opn ogn c m)) = ogn"
  "man_code (manifest (head_of opn ogn c m)) = c"
  "metadata (head_of opn ogn c m) = metadata m" "payload (head_of opn ogn c m) = payload m"
  "msg_key (head_of opn ogn c m) = msg_key m" "intro (head_of opn ogn c m) = intro m"
  "config (head_of opn ogn c m) = config m" "has_manifest (head_of opn ogn c m)"
  "has_metadata (head_of opn ogn c m) = has_metadata m" "has_intro (head_of opn ogn c m) = has_intro m"
  "has_config (head_of opn ogn c m) = has_config m" "has_payload (head_of opn ogn c m) = has_payload m"
  by (simp_all add: head_of_def nsb_simps)

lemma merge_opt_None2 [simp]: "merge_opt f x None = x"
  by (cases x) simp_all

lemma merge_from_empty [simp]: "merge_from empty_nsbm m = m"
  by (simp add: merge_from_def empty_nsbm_def)

lemma merge_from_empty2 [simp]: "merge_from m empty_nsbm = m"
  by (simp add: merge_from_def empty_nsbm_def)

end
