(* ===== verification/NSB_Types.thy ===== *)
theory NSB_Types
  imports NSB_Proto
begin

text \<open>
  The value types of \<open>cpp/include/nsb.h\<close>: \<open>Config\<close>, \<open>MessageEntry\<close> and the channel
  enumeration of \<open>Comms\<close> with its names, and the parameters that stand for code outside the
  repository (the generated Protobuf functions, the allocator, \<open>select\<close> on a socket).
\<close>

section \<open>Config\<close>

record cfg =
  SYSTEM_MODE :: system_mode
  SIMULATOR_MODE :: simulator_mode
  USE_DB :: bool
  DB_ADDRESS :: string
  DB_PORT :: i32
  DB_NUM :: i32

text \<open>\<open>Config::Config()\<close>.\<close>

definition default_cfg :: cfg where
  "default_cfg = \<lparr>SYSTEM_MODE = PULL, SIMULATOR_MODE = SYSTEM_WIDE, USE_DB = False,
     DB_ADDRESS = [], DB_PORT = 0, DB_NUM = 0\<rparr>"

text \<open>\<open>Config::Config(nsb::nsbm msg)\<close>.  The three database members are class members without
  an initialiser of their own, so when \<open>use_db\<close> is off this constructor leaves the integers
  indeterminate; \<open>raw\<close> is what was in that memory.\<close>

definition cfg_of_msg :: "cfg \<Rightarrow> nsbm \<Rightarrow> cfg" where
  "cfg_of_msg raw msg = (let c = config msg in
     \<lparr>SYSTEM_MODE = sys_mode c, SIMULATOR_MODE = sim_mode c, USE_DB = use_db c,
      DB_ADDRESS = (if use_db c then db_address c else []),
      DB_PORT = (if use_db c then db_port c else DB_PORT raw),
      DB_NUM = (if use_db c then db_num c else DB_NUM raw)\<rparr>)"

section \<open>MessageEntry\<close>

record message_entry =
  source :: string
  destination :: string
  payload_obj :: string
  entry_size :: i32

definition empty_entry :: message_entry where
  "empty_entry = \<lparr>source = [], destination = [], payload_obj = [], entry_size = 0\<rparr>"

definition mk_entry :: "string \<Rightarrow> string \<Rightarrow> string \<Rightarrow> i32 \<Rightarrow> message_entry" where
  "mk_entry src dest data sz = \<lparr>source = src, destination = dest, payload_obj = data, entry_size = sz\<rparr>"

text \<open>\<open>MessageEntry::exists()\<close>.\<close>

definition entry_exists :: "message_entry \<Rightarrow> bool" where
  "entry_exists e \<longleftrightarrow> source e \<noteq> [] \<and> destination e \<noteq> [] \<and> payload_obj e \<noteq> []"

lemma empty_entry_not_exists [simp]: "\<not> entry_exists empty_entry"
  by (simp add: entry_exists_def empty_entry_def)

lemma mk_entry_sel [simp]:
  "source (mk_entry s d p n) = s" "destination (mk_entry s d p n) = d"
  "payload_obj (mk_entry s d p n) = p" "entry_size (mk_entry s d p n) = n"
  by (simp_all add: mk_entry_def)

lemma mk_entry_exists [simp]: "entry_exists (mk_entry s d p n) \<longleftrightarrow> s \<noteq> [] \<and> d \<noteq> [] \<and> p \<noteq> []"
  by (simp add: entry_exists_def)

lemma mk_entry_eta [simp]: "mk_entry (source e) (destination e) (payload_obj e) (entry_size e) = e"
  by (simp add: mk_entry_def)

section \<open>Channels\<close>

datatype channel = CTRL | SEND_CH | RECV_CH

fun channel_code :: "channel \<Rightarrow> nat" where
  "channel_code CTRL = 0"
| "channel_code SEND_CH = 1"
| "channel_code RECV_CH = 2"

text \<open>\<open>Comms::Channels\<close> and \<open>Comms::getChannelName\<close>.\<close>

definition Channels :: "channel list" where
  "Channels = [CTRL, SEND_CH, RECV_CH]"

fun channel_name :: "channel \<Rightarrow> string" where
  "channel_name CTRL = ''CTRL''"
| "channel_name SEND_CH = ''SEND''"
| "channel_name RECV_CH = ''RECV''"

lemma channel_code_inj: "channel_code a = channel_code b \<Longrightarrow> a = b"
  by (cases a; cases b) simp_all

text \<open>The channels are ordered by their enumeration value, so that they can key a
  \<open>std::map\<close>.\<close>

instantiation channel :: linorder
begin

definition less_eq_channel :: "channel \<Rightarrow> channel \<Rightarrow> bool" where
  "less_eq_channel a b \<longleftrightarrow> channel_code a \<le> channel_code b"

definition less_channel :: "channel \<Rightarrow> channel \<Rightarrow> bool" where
  "less_channel a b \<longleftrightarrow> channel_code a < channel_code b"

instance
  by standard (auto simp: less_eq_channel_def less_channel_def intro: channel_code_inj)

end

lemma Channels_all: "c \<in> set Channels"
  by (cases c) (simp_all add: Channels_def)

lemma Channels_distinct: "distinct Channels"
  by (simp add: Channels_def)

section \<open>The environment of a component\<close>

text \<open>
  \<open>parse\<close> stands for \<open>ParseFromArray\<close>/\<open>ParseFromString\<close> (\<open>None\<close>: it returned false),
  \<open>serialize\<close> for \<open>SerializeToArray\<close>/\<open>SerializeAsString\<close>, \<open>alloc_ok\<close> for a \<open>malloc\<close>
  that does not return null, \<open>writable\<close> for a \<open>select\<close> for writing that reports the
  descriptor, \<open>select_fails\<close> for one that returns an error (a \<open>select\<close> without a time-out does one or the other or
  does not return).  \<open>peer_reads n f\<close>: when the daemon calls \<open>send\<close> for the \<open>n\<close>-th time, on \<open>f\<close>, the peer has not
  gone; otherwise the call raises \<open>SIGPIPE\<close>, which the program does not handle.  \<open>erase_resumes\<close>: after \<open>erase(it)\<close> on a
  vector \<open>it\<close> stands at the next element; the language leaves this undefined, libraries whose iterators are
  pointers do it.  \<open>'b\<close> is the type of the bytes on the wire.
\<close>

record 'b io_env =
  parse :: "'b list \<Rightarrow> nsbm option"
  serialize :: "nsbm \<Rightarrow> 'b list option"
  alloc_ok :: "nat \<Rightarrow> bool"
  writable :: "fd \<Rightarrow> bool"
  select_fails :: "fd \<Rightarrow> bool"
  peer_reads :: "nat \<Rightarrow> fd \<Rightarrow> bool"
  erase_resumes :: bool

text \<open>What Protobuf documents about one message: it can be serialised into memory that can be
  allocated, and parsing the bytes gives it back.\<close>

definition transmits :: "'b io_env \<Rightarrow> nsbm \<Rightarrow> bool" where
  "transmits env m \<longleftrightarrow> (case serialize env m of None \<Rightarrow> False
     | Some bs \<Rightarrow> bs \<noteq> [] \<and> alloc_ok env (length bs) \<and> parse env bs = Some m)"

text \<open>What holds of any message, also of one that Protobuf cannot carry (a string field that is not
  UTF-8, an encoding of 2 GiB): if there are bytes at all, then they parse to the message or do
  not parse.\<close>

definition faithful :: "'b io_env \<Rightarrow> nsbm \<Rightarrow> bool" where
  "faithful env m \<longleftrightarrow> (case serialize env m of None \<Rightarrow> True
     | Some bs \<Rightarrow> parse env bs = None \<or> parse env bs = Some m)"

text \<open>A concrete instance of the parameters, used by the witnesses: the wire carries message
  fragments, the bytes of a message are one fragment, and parsing merges the fragments in
  order, as Protobuf does for a concatenation of encodings.\<close>

definition fragment_env :: "nsbm io_env" where
  "fragment_env = \<lparr>parse = (\<lambda>bs. Some (foldl merge_from empty_nsbm bs)),
     serialize = (\<lambda>m. Some [m]), alloc_ok = (\<lambda>_. True), writable = (\<lambda>_. True),
     select_fails = (\<lambda>_. False), peer_reads = (\<lambda>_ _. True), erase_resumes = True\<rparr>"

lemma transmitsE:
  assumes "transmits env m"
  obtains bs where "serialize env m = Some bs" "bs \<noteq> []" "alloc_ok env (length bs)" "parse env bs = Some m"
  using assms by (auto simp: transmits_def split: option.splits)

lemma fragment_env_transmits [simp]: "transmits fragment_env m"
  by (simp add: transmits_def fragment_env_def)

lemma fragment_env_faithful [simp]: "faithful fragment_env m"
  by (simp add: faithful_def fragment_env_def)

lemma fragment_env_sel [simp]:
  "parse fragment_env bs = Some (foldl merge_from empty_nsbm bs)"
  "serialize fragment_env m = Some [m]" "alloc_ok fragment_env n" "writable fragment_env fd"
  "peer_reads fragment_env i fd" "erase_resumes fragment_env"
  by (simp_all add: fragment_env_def)

end
