(* ===== verification/NSB_Buffer.thy ===== *)
theory NSB_Buffer
  imports NSB_Types
begin

text \<open>
  The contract of the daemon's message buffers (\<open>tx_buffer\<close> and \<open>rx_buffer\<close> of
  \<open>cpp/include/nsb_daemon.h\<close>): messages are appended at the back, and a consumer takes the
  first message that satisfies its criterion.  The locale \<open>keyed_fifo\<close> states it over any
  representation; its main consequence is that, in any history of pushes and takes, the
  messages of one class leave in the order in which they came and none is lost or doubled.
  It is interpreted on the \<open>std::list\<close> operations the daemon performs.
\<close>

section \<open>Histories\<close>

datatype 'e buf_op = Push 'e | Take "'e \<Rightarrow> bool"

fun buf_step :: "('e \<Rightarrow> 'b \<Rightarrow> 'b) \<Rightarrow> (('e \<Rightarrow> bool) \<Rightarrow> 'b \<Rightarrow> 'e option \<times> 'b) \<Rightarrow> 'e buf_op \<Rightarrow> 'b \<Rightarrow> 'e option \<times> 'b" where
  "buf_step push_op take_op (Push e) b = (None, push_op e b)"
| "buf_step push_op take_op (Take p) b = take_op p b"

fun buf_run :: "('e \<Rightarrow> 'b \<Rightarrow> 'b) \<Rightarrow> (('e \<Rightarrow> bool) \<Rightarrow> 'b \<Rightarrow> 'e option \<times> 'b) \<Rightarrow> 'e buf_op list \<Rightarrow> 'b \<Rightarrow> 'e list \<times> 'b" where
  "buf_run push_op take_op [] b = ([], b)"
| "buf_run push_op take_op (x # xs) b =
     (let (r, b1) = buf_step push_op take_op x b; (rs, b2) = buf_run push_op take_op xs b1
      in (case r of None \<Rightarrow> rs | Some e \<Rightarrow> e # rs, b2))"

fun pushed :: "'e buf_op list \<Rightarrow> 'e list" where
  "pushed [] = []"
| "pushed (Push e # xs) = e # pushed xs"
| "pushed (Take p # xs) = pushed xs"

text \<open>A criterion respects a class of messages if it covers the class or avoids it.\<close>

definition covers_class :: "('e \<Rightarrow> bool) \<Rightarrow> 'e buf_op \<Rightarrow> bool" where
  "covers_class q x = (case x of Push _ \<Rightarrow> True
     | Take p \<Rightarrow> (\<forall>e. q e \<longrightarrow> p e) \<or> (\<forall>e. p e \<longrightarrow> \<not> q e))"

lemma covers_class_Push [simp]: "covers_class q (Push e)"
  by (simp add: covers_class_def)

section \<open>The contract\<close>

locale keyed_fifo =
  fixes contents :: "'b \<Rightarrow> 'e list"
    and push_op :: "'e \<Rightarrow> 'b \<Rightarrow> 'b"
    and take_op :: "('e \<Rightarrow> bool) \<Rightarrow> 'b \<Rightarrow> 'e option \<times> 'b"
  assumes contents_push: "contents (push_op e b) = contents b @ [e]"
    and take_first: "contents b = us @ x # vs \<Longrightarrow> p x \<Longrightarrow> (\<forall>u\<in>set us. \<not> p u) \<Longrightarrow>
        fst (take_op p b) = Some x \<and> contents (snd (take_op p b)) = us @ vs"
    and take_none: "(\<forall>x\<in>set (contents b). \<not> p x) \<Longrightarrow>
        fst (take_op p b) = None \<and> contents (snd (take_op p b)) = contents b"
begin

lemma take_cases:
  obtains (none) "take_op p b = (None, snd (take_op p b))" "contents (snd (take_op p b)) = contents b"
      "\<forall>x\<in>set (contents b). \<not> p x"
  | (found) us x vs where "take_op p b = (Some x, snd (take_op p b))" "contents b = us @ x # vs"
      "contents (snd (take_op p b)) = us @ vs" "p x" "\<forall>u\<in>set us. \<not> p u"
proof (cases rule: find_erase_cases [where p = p and xs = "contents b"])
  assume n: "\<forall>x\<in>set (contents b). \<not> p x"
  with take_none show ?thesis by (intro none) (auto simp: prod_eq_iff)
next
  fix us x vs
  assume f: "contents b = us @ x # vs" "p x" "\<forall>u\<in>set us. \<not> p u"
  with take_first show ?thesis by (intro found) (auto simp: prod_eq_iff)
qed

lemma step_conserves:
  assumes "covers_class q x" "buf_step push_op take_op x b = (r, b')"
  shows "filter q (contents b) @ filter q (pushed [x])
       = filter q (case r of None \<Rightarrow> [] | Some e \<Rightarrow> [e]) @ filter q (contents b')"
proof (cases x)
  case (Push e)
  with assms show ?thesis by (auto simp: contents_push)
next
  case (Take p)
  with assms have res: "(\<forall>e. q e \<longrightarrow> p e) \<or> (\<forall>e. p e \<longrightarrow> \<not> q e)"
    and t: "take_op p b = (r, b')" by (simp_all add: covers_class_def)
  show ?thesis
  proof (cases rule: take_cases [of p b])
    case none
    with t Take show ?thesis by simp
  next
    case (found us y vs)
    with res have "q y \<Longrightarrow> filter q us = []" by (auto simp: filter_empty_conv)
    with found t Take show ?thesis by (auto split: if_splits)
  qed
qed

text \<open>Order and conservation over a whole history.\<close>

lemma run_conserves:
  assumes "\<forall>x\<in>set xs. covers_class q x" "buf_run push_op take_op xs b = (rs, b')"
  shows "filter q (contents b @ pushed xs) = filter q (rs @ contents b')"
  using assms
proof (induction xs arbitrary: b rs)
  case Nil
  then show ?case by simp
next
  case (Cons x xs)
  obtain r b1 where s: "buf_step push_op take_op x b = (r, b1)" by fastforce
  obtain rs1 where t: "buf_run push_op take_op xs b1 = (rs1, b')"
    and rs: "rs = (case r of None \<Rightarrow> rs1 | Some e \<Rightarrow> e # rs1)"
    using Cons.prems(2) s by (auto split: prod.splits)
  have IH: "filter q (contents b1 @ pushed xs) = filter q (rs1 @ contents b')"
    using Cons.IH [OF _ t] Cons.prems(1) by simp
  have st: "filter q (contents b) @ filter q (pushed [x])
       = filter q (case r of None \<Rightarrow> [] | Some e \<Rightarrow> [e]) @ filter q (contents b1)"
    using step_conserves [OF _ s] Cons.prems(1) by simp
  have "pushed (x # xs) = pushed [x] @ pushed xs" by (cases x) simp_all
  with st IH show ?case unfolding rs by (cases r) (auto simp flip: append_assoc)
qed

lemma step_subset:
  "buf_step push_op take_op x b = (r, b') \<Longrightarrow> set (contents b') \<subseteq> set (contents b) \<union> set (pushed [x])"
proof (cases x)
  case (Push e)
  moreover assume "buf_step push_op take_op x b = (r, b')"
  ultimately show ?thesis by (auto simp: contents_push)
next
  case (Take p)
  moreover assume "buf_step push_op take_op x b = (r, b')"
  ultimately have "b' = snd (take_op p b)" by auto
  then show ?thesis by (cases rule: take_cases [of p b]) auto
qed

lemma run_subset:
  "buf_run push_op take_op xs b = (rs, b') \<Longrightarrow> set (contents b') \<subseteq> set (contents b) \<union> set (pushed xs)"
proof (induction xs arbitrary: b rs)
  case Nil
  then show ?case by simp
next
  case (Cons x xs)
  obtain r b1 where s: "buf_step push_op take_op x b = (r, b1)" by fastforce
  with Cons obtain rs1 where t: "buf_run push_op take_op xs b1 = (rs1, b')"
    by (auto split: prod.splits)
  have "set (pushed (x # xs)) = set (pushed [x]) \<union> set (pushed xs)" by (cases x) auto
  with step_subset [OF s] Cons.IH [OF t] show ?case by auto
qed

text \<open>The case of the class of all messages and criteria that accept everything: a plain
  first-in-first-out queue.\<close>

lemma run_fifo:
  assumes "\<forall>x\<in>set xs. \<forall>p. x = Take p \<longrightarrow> (\<forall>e. p e)" "buf_run push_op take_op xs b = (rs, b')"
  shows "contents b @ pushed xs = rs @ contents b'"
proof -
  have "\<forall>x\<in>set xs. covers_class (\<lambda>_. True) x"
    using assms(1) by (auto simp: covers_class_def split: buf_op.split)
  from run_conserves [OF this assms(2)] show ?thesis by simp
qed

end

section \<open>The daemon's lists\<close>

text \<open>\<open>buffer.push_back(entry)\<close>; the take is \<open>find_erase\<close>.\<close>

definition push_back :: "'e \<Rightarrow> 'e list \<Rightarrow> 'e list" where
  "push_back e l = l @ [e]"

interpretation list_fifo: keyed_fifo "\<lambda>b. b" push_back find_erase
  by unfold_locales (auto simp: push_back_def find_erase_split find_erase_none)

end
