(* ===== verification/NSB_Daemon.thy ===== *)
theory NSB_Daemon
  imports NSB_Std_Map NSB_Buffer
begin

text \<open>
  The NSB daemon (\<open>cpp/include/nsb_daemon.h\<close>, \<open>cpp/src/nsb_daemon.cc\<close>): its state, its
  configuration, one definition per message handler and the dispatcher \<open>handle_message\<close>.
  A handler returns the new state, the outgoing message, whether a response is required and
  what it sent itself.  Executions that the C++ language gives no meaning to (dereferencing
  \<open>end()\<close>, \<open>FD_SET\<close> outside \<open>fd_set\<close>) or that leave by an exception are values of
  \<open>daemon_fault\<close>.
\<close>

section \<open>State\<close>

record client_details =
  cd_identifier :: string
  cd_address :: string
  ch_CTRL_port :: i32
  ch_CTRL_fd :: fd
  ch_SEND_port :: i32
  ch_SEND_fd :: fd
  ch_RECV_port :: i32
  ch_RECV_fd :: fd

record daemon =
  d_cfg :: cfg
  running :: bool
  server_port :: i32
  sim_client_lookup :: "(string, client_details) std_map"
  app_client_lookup :: "(string, client_details) std_map"
  fd_lookup :: "(string, fd) std_map"
  tx_buffer :: "message_entry list"
  rx_buffer :: "message_entry list"

text \<open>\<open>SelectHangs\<close>: a \<open>select\<close> without a time-out that does not return; \<open>BrokenPipe\<close>: \<open>SIGPIPE\<close> ends the process;
  \<open>ErasedIterator\<close>: an iterator is used after \<open>erase\<close> has invalidated it.\<close>

datatype daemon_fault = DerefEnd | MapAtMissing | BadFdSet | YamlException | SelectHangs | BrokenPipe | ErasedIterator

text \<open>The key of the descriptor table, \<open>address + ":" + std::to_string(port)\<close>.\<close>

definition addr_key :: "string \<Rightarrow> i32 \<Rightarrow> string" where
  "addr_key addr port = addr @ '':'' @ to_string (sint port)"

definition fd_or_minus1 :: "(string, fd) std_map \<Rightarrow> string \<Rightarrow> fd" where
  "fd_or_minus1 m k = (case map_find m k of Some f \<Rightarrow> f | None \<Rightarrow> -1)"

text \<open>\<open>ClientDetails(nsb_msg, fd_lookup)\<close>; the map is passed by value.\<close>

definition client_details_of :: "nsbm \<Rightarrow> (string, fd) std_map \<Rightarrow> client_details" where
  "client_details_of m fds = (let i = intro m in
     \<lparr>cd_identifier = client_identifier i, cd_address = address i,
      ch_CTRL_port = ch_CTRL i, ch_CTRL_fd = fd_or_minus1 fds (addr_key (address i) (ch_CTRL i)),
      ch_SEND_port = ch_SEND i, ch_SEND_fd = fd_or_minus1 fds (addr_key (address i) (ch_SEND i)),
      ch_RECV_port = ch_RECV i, ch_RECV_fd = fd_or_minus1 fds (addr_key (address i) (ch_RECV i))\<rparr>)"

section \<open>Configuration\<close>

text \<open>What \<open>YAML::LoadFile\<close> returned: \<open>None\<close> where \<open>as<T>()\<close> throws.\<close>

record yaml_doc =
  y_is_null :: bool
  y_int :: "string \<Rightarrow> string \<Rightarrow> i32 option"
  y_bool :: "string \<Rightarrow> string \<Rightarrow> bool option"
  y_string :: "string \<Rightarrow> string \<Rightarrow> string option"

text \<open>\<open>static_cast\<close> from \<open>int\<close> to the two mode enumerations.\<close>

definition system_mode_of_int :: "i32 \<Rightarrow> system_mode" where
  "system_mode_of_int n = (if n = 0 then PULL else if n = 1 then PUSH else OtherSystemMode (other_mode n))"

definition simulator_mode_of_int :: "i32 \<Rightarrow> simulator_mode" where
  "simulator_mode_of_int n = (if n = 0 then SYSTEM_WIDE else if n = 1 then PER_NODE else OtherSimulatorMode (other_mode n))"

text \<open>\<open>NSBDaemon::configure\<close>; the document is \<open>None\<close> when \<open>LoadFile\<close> throws.\<close>

definition configure :: "yaml_doc option \<Rightarrow> daemon \<Rightarrow> daemon_fault + daemon" where
  "configure doc d = (case doc of None \<Rightarrow> Inl YamlException
     | Some y \<Rightarrow>
        if y_is_null y then Inr d
        else (case y_int y ''system'' ''mode'' of None \<Rightarrow> Inl YamlException
          | Some sysm \<Rightarrow> (case y_int y ''system'' ''simulator_mode'' of None \<Rightarrow> Inl YamlException
          | Some simm \<Rightarrow> (case y_bool y ''database'' ''use_db'' of None \<Rightarrow> Inl YamlException
          | Some udb \<Rightarrow>
             let c = (d_cfg d)\<lparr>SYSTEM_MODE := system_mode_of_int sysm,
                        SIMULATOR_MODE := simulator_mode_of_int simm, USE_DB := udb\<rparr>
             in if udb then
                  (case y_string y ''database'' ''db_address'' of None \<Rightarrow> Inl YamlException
                   | Some a \<Rightarrow> (case y_int y ''database'' ''db_port'' of None \<Rightarrow> Inl YamlException
                   | Some p \<Rightarrow> Inr (d\<lparr>d_cfg := c\<lparr>DB_ADDRESS := a, DB_PORT := p\<rparr>\<rparr>)))
                else Inr (d\<lparr>d_cfg := c\<rparr>)))))"

text \<open>\<open>NSBDaemon::NSBDaemon(s_port, filename)\<close>.\<close>

definition new_daemon :: "i32 \<Rightarrow> yaml_doc option \<Rightarrow> daemon_fault + daemon" where
  "new_daemon port doc = configure doc
     \<lparr>d_cfg = default_cfg, running = False, server_port = port, sim_client_lookup = [],
      app_client_lookup = [], fd_lookup = [], tx_buffer = [], rx_buffer = []\<rparr>"

text \<open>\<open>NSBDaemon::stop\<close> and \<open>NSBDaemon::is_running\<close>.\<close>

definition stop :: "daemon \<Rightarrow> daemon" where
  "stop d = (if running d then d\<lparr>running := False\<rparr> else d)"

definition is_running :: "daemon \<Rightarrow> bool" where
  "is_running d = running d"

section \<open>Helpers of the handlers\<close>

definition msg_get_payload_obj :: "daemon \<Rightarrow> nsbm \<Rightarrow> string" where
  "msg_get_payload_obj d m = (if USE_DB (d_cfg d) then msg_key m else payload m)"

definition msg_set_payload_obj :: "daemon \<Rightarrow> string \<Rightarrow> nsbm \<Rightarrow> nsbm" where
  "msg_set_payload_obj d obj m = (if USE_DB (d_cfg d) then set_msg_key obj m else set_payload obj m)"

text \<open>The entry that SEND and POST store.\<close>

definition entry_of_msg :: "daemon \<Rightarrow> nsbm \<Rightarrow> message_entry" where
  "entry_of_msg d m = mk_entry (src_id (metadata m)) (dest_id (metadata m))
     (msg_get_payload_obj d m) (payload_size (metadata m))"

text \<open>The metadata and payload of a FETCH or RECEIVE response that carries a message.\<close>

definition put_entry :: "daemon \<Rightarrow> message_entry \<Rightarrow> nsbm \<Rightarrow> nsbm" where
  "put_entry d e m = msg_set_payload_obj d (payload_obj e)
     (set_metadata (\<lambda>h. h\<lparr>src_id := source e, dest_id := destination e, payload_size := entry_size e\<rparr>) m)"

type_synonym 'b sends = "(fd \<times> 'b list) list"

text \<open>\<open>fd_set\<close> holds the descriptors below \<open>FD_SETSIZE\<close> (1024); \<open>FD_SET\<close> of another one
  writes outside it.\<close>

definition fd_set_ok :: "fd \<Rightarrow> bool" where
  "fd_set_ok f \<longleftrightarrow> 0 \<le> f \<and> f < 1024"

text \<open>Serialise a message into a fresh buffer and \<open>send\<close> it; nothing is sent when the
  allocation or the serialisation fails.\<close>

definition send_serialized :: "'b io_env \<Rightarrow> fd \<Rightarrow> nsbm \<Rightarrow> 'b sends" where
  "send_serialized env f m = (case serialize env m of None \<Rightarrow> []
     | Some bs \<Rightarrow> if alloc_ok env (length bs) then [(f, bs)] else [])"

text \<open>The forwarding block of PUSH mode, from \<open>FD_SET\<close> to \<open>send\<close>: \<open>select\<close> waits until the descriptor can be
  written, fails, or waits for ever.\<close>

definition forward_to :: "'b io_env \<Rightarrow> fd \<Rightarrow> nsbm \<Rightarrow> daemon_fault + 'b sends" where
  "forward_to env f m = (if \<not> fd_set_ok f then Inl BadFdSet
     else if writable env f then Inr (send_serialized env f m)
     else if select_fails env f then Inr [] else Inl SelectHangs)"

text \<open>The FORWARD copy of the incoming message: \<open>Clear\<close>, \<open>MergeFrom\<close>, \<open>set_op\<close>.\<close>

definition forward_copy :: "nsbm \<Rightarrow> nsbm" where
  "forward_copy m = set_manifest (\<lambda>h. h\<lparr>man_op := FORWARD\<rparr>) (merge_from empty_nsbm m)"

section \<open>Handlers\<close>

definition init_reply :: "daemon \<Rightarrow> bool \<Rightarrow> nsbm \<Rightarrow> nsbm" where
  "init_reply d success out = (let c = d_cfg d;
       o1 = head_of INIT DAEMON (if success then SUCCESS else FAILURE) out;
       o2 = set_config (\<lambda>p. p\<lparr>sys_mode := SYSTEM_MODE c, use_db := USE_DB c, sim_mode := SIMULATOR_MODE c\<rparr>) o1
     in if USE_DB c
        then set_config (\<lambda>p. p\<lparr>db_address := DB_ADDRESS c, db_port := DB_PORT c, db_num := DB_NUM c\<rparr>) o2
        else o2)"

definition handle_init :: "nsbm \<Rightarrow> nsbm \<Rightarrow> daemon \<Rightarrow> daemon \<times> nsbm \<times> bool" where
  "handle_init incoming out d =
     (if \<not> has_intro incoming then (d, out, False)
      else let cd = client_details_of incoming (fd_lookup d);
               ident = client_identifier (intro incoming)
        in case man_og (manifest incoming) of
             APP_CLIENT \<Rightarrow>
               (let d1 = d\<lparr>app_client_lookup := map_emplace ident cd (app_client_lookup d)\<rparr>
                in (d1, init_reply d1 True out, True))
           | SIM_CLIENT \<Rightarrow>
               (case SIMULATOR_MODE (d_cfg d) of
                  PER_NODE \<Rightarrow>
                    (let d1 = d\<lparr>sim_client_lookup := map_emplace ident cd (sim_client_lookup d)\<rparr>
                     in (d1, init_reply d1 True out, True))
                | SYSTEM_WIDE \<Rightarrow>
                    (if map_size (sim_client_lookup d) > 0 then (d, init_reply d False out, True)
                     else let d1 = d\<lparr>sim_client_lookup := map_emplace ''simulator'' cd (sim_client_lookup d)\<rparr>
                          in (d1, init_reply d1 True out, True))
                | OtherSimulatorMode _ \<Rightarrow> (d, init_reply d False out, True))
           | _ \<Rightarrow> (d, out, False))"

definition handle_ping :: "nsbm \<Rightarrow> nsbm \<Rightarrow> daemon \<Rightarrow> daemon \<times> nsbm \<times> bool" where
  "handle_ping incoming out d = (d, head_of PING DAEMON SUCCESS out, True)"

definition handle_send :: "'b io_env \<Rightarrow> nsbm \<Rightarrow> nsbm \<Rightarrow> daemon \<Rightarrow>
    daemon_fault + daemon \<times> nsbm \<times> bool \<times> 'b sends" where
  "handle_send env incoming out d = (case SYSTEM_MODE (d_cfg d) of
     PULL \<Rightarrow> Inr (d\<lparr>tx_buffer := push_back (entry_of_msg d incoming) (tx_buffer d)\<rparr>, out, False, [])
   | PUSH \<Rightarrow>
      (let fwd = forward_copy incoming;
           go = (\<lambda>sim. case forward_to env (ch_RECV_fd sim) fwd of Inl e \<Rightarrow> Inl e
                     | Inr s \<Rightarrow> Inr (d, fwd, False, s))
       in case SIMULATOR_MODE (d_cfg d) of
            SYSTEM_WIDE \<Rightarrow> (case map_begin (sim_client_lookup d) of None \<Rightarrow> Inl DerefEnd
                           | Some (_, sim) \<Rightarrow> go sim)
          | PER_NODE \<Rightarrow> (case map_find (sim_client_lookup d) (src_id (metadata incoming)) of
                            None \<Rightarrow> Inl MapAtMissing | Some sim \<Rightarrow> go sim)
          | OtherSimulatorMode _ \<Rightarrow> Inr (d, fwd, False, []))
   | OtherSystemMode _ \<Rightarrow> Inr (d, out, False, []))"

text \<open>The search of FETCH (by source) and RECEIVE (by destination): nothing without metadata,
  the first match for a given key, the front of the list for an empty key.\<close>

definition take_keyed :: "(message_entry \<Rightarrow> string) \<Rightarrow> bool \<Rightarrow> string \<Rightarrow> message_entry list \<Rightarrow>
    message_entry option \<times> message_entry list" where
  "take_keyed key has_md k l = (if \<not> has_md then (None, l)
     else if k \<noteq> [] then find_erase (\<lambda>e. key e = k) l
     else pop_front l)"

definition entry_reply :: "daemon \<Rightarrow> operation \<Rightarrow> message_entry \<Rightarrow> nsbm \<Rightarrow> nsbm" where
  "entry_reply d opn e out = (if entry_exists e
     then put_entry d e (head_of opn DAEMON MESSAGE out)
     else head_of opn DAEMON NO_MESSAGE out)"

definition entry_or_blank :: "message_entry option \<Rightarrow> message_entry" where
  "entry_or_blank r = (case r of None \<Rightarrow> empty_entry | Some e \<Rightarrow> e)"

definition handle_fetch :: "nsbm \<Rightarrow> nsbm \<Rightarrow> daemon \<Rightarrow> daemon \<times> nsbm \<times> bool" where
  "handle_fetch incoming out d =
     (let (r, tx) = take_keyed source (has_metadata incoming) (src_id (metadata incoming)) (tx_buffer d)
      in (d\<lparr>tx_buffer := tx\<rparr>, entry_reply d FETCH (entry_or_blank r) out, True))"

definition handle_post :: "'b io_env \<Rightarrow> nsbm \<Rightarrow> nsbm \<Rightarrow> daemon \<Rightarrow>
    daemon_fault + daemon \<times> nsbm \<times> bool \<times> 'b sends" where
  "handle_post env incoming out d = (case SYSTEM_MODE (d_cfg d) of
     PULL \<Rightarrow> (if man_code (manifest incoming) = MESSAGE
        then Inr (d\<lparr>rx_buffer := push_back (entry_of_msg d incoming) (rx_buffer d)\<rparr>, out, False, [])
        else Inr (d, out, False, []))
   | PUSH \<Rightarrow>
      (let fwd = forward_copy incoming;
           target_fd = (case map_find (app_client_lookup d) (dest_id (metadata incoming)) of
                          Some app \<Rightarrow> ch_RECV_fd app | None \<Rightarrow> -1)
       in if target_fd \<noteq> -1
          then (case forward_to env target_fd fwd of Inl e \<Rightarrow> Inl e | Inr s \<Rightarrow> Inr (d, fwd, False, s))
          else Inr (d, fwd, False, []))
   | OtherSystemMode _ \<Rightarrow> Inr (d, out, False, []))"

definition handle_receive :: "nsbm \<Rightarrow> nsbm \<Rightarrow> daemon \<Rightarrow> daemon \<times> nsbm \<times> bool" where
  "handle_receive incoming out d =
     (let (r, rx) = take_keyed destination (has_metadata incoming) (dest_id (metadata incoming)) (rx_buffer d)
      in (d\<lparr>rx_buffer := rx\<rparr>, entry_reply d RECEIVE (entry_or_blank r) out, True))"

section \<open>Dispatch\<close>

text \<open>The response template: \<open>mutable_manifest\<close> on a fresh message.\<close>

definition response_template :: nsbm where
  "response_template = set_manifest id empty_nsbm"

definition no_sends :: "daemon \<times> nsbm \<times> bool \<Rightarrow> daemon_fault + daemon \<times> nsbm \<times> bool \<times> 'b sends" where
  "no_sends r = (case r of (d, out, b) \<Rightarrow> Inr (d, out, b, []))"

definition dispatch :: "'b io_env \<Rightarrow> nsbm \<Rightarrow> daemon \<Rightarrow> daemon_fault + daemon \<times> nsbm \<times> bool \<times> 'b sends" where
  "dispatch env msg d = (let out = response_template in
     case man_op (manifest msg) of
       INIT \<Rightarrow> no_sends (handle_init msg out d)
     | PING \<Rightarrow> no_sends (handle_ping msg out d)
     | SEND \<Rightarrow> handle_send env msg out d
     | FETCH \<Rightarrow> no_sends (handle_fetch msg out d)
     | POST \<Rightarrow> handle_post env msg out d
     | RECEIVE \<Rightarrow> no_sends (handle_receive msg out d)
     | EXIT \<Rightarrow> Inr (stop d, out, False, [])
     | _ \<Rightarrow> Inr (d, head_of PING DAEMON FAILURE out, False, []))"

definition handle_message :: "'b io_env \<Rightarrow> fd \<Rightarrow> 'b list \<Rightarrow> daemon \<Rightarrow> daemon_fault + daemon \<times> 'b sends" where
  "handle_message env f bytes d = (case parse env bytes of None \<Rightarrow> Inr (d, [])
     | Some msg \<Rightarrow> (case dispatch env msg d of Inl e \<Rightarrow> Inl e
        | Inr (d', out, required, fwd) \<Rightarrow>
            Inr (d', fwd @ (if required then send_serialized env f out else []))))"

end
