(* ===== verification/NSB_Daemon_Facts.thy ===== *)
theory NSB_Daemon_Facts
  imports NSB_Daemon
begin

text \<open>
  What the daemon's handlers guarantee.  The first part collects frame and case lemmas for
  the handlers; the second shows that, in PULL mode, every message acts on the two buffers as
  at most one operation of the \<open>keyed_fifo\<close> contract, so that the contract's conservation
  law gives the delivery properties of whole message sequences; the last part treats
  registration, PUSH forwarding and the executions that end in a fault.
\<close>

section \<open>Runs\<close>

text \<open>The messages the daemon handles one after the other, each with the descriptor it came
  from; a fault ends the run.\<close>

fun run_messages :: "'b io_env \<Rightarrow> (fd \<times> 'b list) list \<Rightarrow> daemon \<Rightarrow> daemon_fault + daemon \<times> 'b sends" where
  "run_messages env [] d = Inr (d, [])"
| "run_messages env ((f, bs) # ms) d = (case handle_message env f bs d of Inl e \<Rightarrow> Inl e
     | Inr (d1, s1) \<Rightarrow> (case run_messages env ms d1 of Inl e \<Rightarrow> Inl e
        | Inr (d2, s2) \<Rightarrow> Inr (d2, s1 @ s2)))"

text \<open>The documented behaviour of Protobuf that delivery rests on: whatever is sent arrives as it
  was, if it arrives.\<close>

definition codec :: "'b io_env \<Rightarrow> bool" where
  "codec env \<longleftrightarrow> (\<forall>m. has_manifest m \<longrightarrow> faithful env m)"

lemma codecD: "codec env \<Longrightarrow> has_manifest m \<Longrightarrow> faithful env m"
  by (simp add: codec_def)

lemma codec_fragment_env [simp]: "codec fragment_env"
  by (simp add: codec_def)

text \<open>An entry that a response can carry: it is not blank, and the response with it fits the memory
  and the limits of Protobuf.\<close>

definition deliverable :: "'b io_env \<Rightarrow> daemon \<Rightarrow> message_entry \<Rightarrow> bool" where
  "deliverable env d e \<longleftrightarrow> entry_exists e \<and> (\<forall>opn. transmits env (entry_reply d opn e response_template))"

lemma deliverable_exists: "deliverable env d e \<Longrightarrow> entry_exists e"
  by (simp add: deliverable_def)

lemma deliverable_fragment_env [simp]: "deliverable fragment_env d e \<longleftrightarrow> entry_exists e"
  by (simp add: deliverable_def)

text \<open>The messages that arrive (those that parse), and the messages in what is sent.\<close>

definition arrived :: "'b io_env \<Rightarrow> (fd \<times> 'b list) list \<Rightarrow> nsbm list" where
  "arrived env ms = concat (map (\<lambda>p. case parse env (snd p) of None \<Rightarrow> [] | Some m \<Rightarrow> [m]) ms)"

lemma arrived_simps [simp]:
  "arrived env [] = []"
  "arrived env ((f, bs) # ms) = (case parse env bs of None \<Rightarrow> arrived env ms | Some m \<Rightarrow> m # arrived env ms)"
  "arrived env (xs @ ys) = arrived env xs @ arrived env ys"
  by (simp_all add: arrived_def split: option.split)

definition is_op :: "operation \<Rightarrow> nsbm \<Rightarrow> bool" where
  "is_op opn m \<longleftrightarrow> man_op (manifest m) = opn"

text \<open>The entries that the SEND (or POST) messages of a sequence ask to store, and those that
  the FETCH (or RECEIVE) responses carry.\<close>

definition sent_entries :: "daemon \<Rightarrow> nsbm list \<Rightarrow> message_entry list" where
  "sent_entries d ms = map (entry_of_msg d) (filter (is_op SEND) ms)"

definition posted_entries :: "daemon \<Rightarrow> nsbm list \<Rightarrow> message_entry list" where
  "posted_entries d ms = map (entry_of_msg d)
     (filter (\<lambda>m. is_op POST m \<and> man_code (manifest m) = MESSAGE) ms)"

definition reply_entries :: "operation \<Rightarrow> daemon \<Rightarrow> nsbm list \<Rightarrow> message_entry list" where
  "reply_entries opn d ms = map (entry_of_msg d)
     (filter (\<lambda>m. is_op opn m \<and> man_code (manifest m) = MESSAGE) ms)"

lemma entries_simps:
  "sent_entries d [] = []" "posted_entries d [] = []" "reply_entries opn d [] = []"
  "sent_entries d (m # ms) = (if is_op SEND m then entry_of_msg d m # sent_entries d ms else sent_entries d ms)"
  "posted_entries d (m # ms) = (if is_op POST m \<and> man_code (manifest m) = MESSAGE
     then entry_of_msg d m # posted_entries d ms else posted_entries d ms)"
  "reply_entries opn d (m # ms) = (if is_op opn m \<and> man_code (manifest m) = MESSAGE
     then entry_of_msg d m # reply_entries opn d ms else reply_entries opn d ms)"
  by (simp_all add: sent_entries_def posted_entries_def reply_entries_def)

section \<open>Frame lemmas\<close>

lemma sel_stop [nsb_simps]:
  "d_cfg (stop d) = d_cfg d" "tx_buffer (stop d) = tx_buffer d" "rx_buffer (stop d) = rx_buffer d"
  "sim_client_lookup (stop d) = sim_client_lookup d" "app_client_lookup (stop d) = app_client_lookup d"
  "fd_lookup (stop d) = fd_lookup d" "running (stop d) = False"
  by (simp_all add: stop_def)

lemma entry_of_put_entry [nsb_simps]: "entry_of_msg d (put_entry d e m) = e"
  by (simp add: entry_of_msg_def put_entry_def msg_set_payload_obj_def msg_get_payload_obj_def nsb_simps)

lemma manifest_put_entry [nsb_simps]: "manifest (put_entry d e m) = manifest m"
  by (simp add: put_entry_def msg_set_payload_obj_def nsb_simps)

lemma has_manifest_set_obj [nsb_simps]: "has_manifest (msg_set_payload_obj d p m) = has_manifest m"
  by (simp add: msg_set_payload_obj_def has_manifest_def set_msg_key_def set_payload_def)

lemma has_manifest_put_entry [nsb_simps]: "has_manifest (put_entry d e m) = has_manifest m"
  by (simp add: put_entry_def nsb_simps)

lemma entry_reply_manifest [nsb_simps]:
  "man_op (manifest (entry_reply d opn e out)) = opn"
  "man_og (manifest (entry_reply d opn e out)) = DAEMON"
  "man_code (manifest (entry_reply d opn e out)) = (if entry_exists e then MESSAGE else NO_MESSAGE)"
  "has_manifest (entry_reply d opn e out)"
  by (simp_all add: entry_reply_def nsb_simps)

lemma entry_of_entry_reply [nsb_simps]: "entry_exists e \<Longrightarrow> entry_of_msg d (entry_reply d opn e out) = e"
  by (simp add: entry_reply_def nsb_simps)

lemma handle_init_frame:
  "handle_init m out d = (d', out', req) \<Longrightarrow>
     d_cfg d' = d_cfg d \<and> tx_buffer d' = tx_buffer d \<and> rx_buffer d' = rx_buffer d \<and>
     running d' = running d \<and> fd_lookup d' = fd_lookup d"
  by (auto simp: handle_init_def Let_def split: if_splits originator.splits simulator_mode.splits)

lemma handle_send_frame:
  "handle_send env m out d = Inr (d', out', req, s) \<Longrightarrow>
     d_cfg d' = d_cfg d \<and> rx_buffer d' = rx_buffer d \<and> running d' = running d \<and> req = False \<and>
     fd_lookup d' = fd_lookup d \<and> sim_client_lookup d' = sim_client_lookup d \<and>
     app_client_lookup d' = app_client_lookup d"
  by (auto simp: handle_send_def Let_def split: system_mode.splits simulator_mode.splits
      option.splits sum.splits prod.splits)

lemma handle_post_frame:
  "handle_post env m out d = Inr (d', out', req, s) \<Longrightarrow>
     d_cfg d' = d_cfg d \<and> tx_buffer d' = tx_buffer d \<and> running d' = running d \<and> req = False \<and>
     fd_lookup d' = fd_lookup d \<and> sim_client_lookup d' = sim_client_lookup d \<and>
     app_client_lookup d' = app_client_lookup d"
  by (auto simp: handle_post_def Let_def split: system_mode.splits simulator_mode.splits
      option.splits sum.splits prod.splits if_splits)

lemmas handler_defs = handle_init_def handle_ping_def handle_send_def handle_fetch_def
  handle_post_def handle_receive_def

lemma dispatch_frame:
  assumes "dispatch env m d = Inr (d', out, req, s)"
  shows "d_cfg d' = d_cfg d" "fd_lookup d' = fd_lookup d"
  using assms
  by (auto simp: dispatch_def Let_def no_sends_def handle_ping_def handle_fetch_def handle_receive_def
      sel_stop split: operation.splits prod.splits
      dest: handle_init_frame handle_send_frame handle_post_frame)

text \<open>The configuration and the descriptor table never change while messages are handled.\<close>

lemma handle_message_frame:
  "handle_message env f bs d = Inr (d', s) \<Longrightarrow> d_cfg d' = d_cfg d \<and> fd_lookup d' = fd_lookup d"
  by (auto simp: handle_message_def split: option.splits sum.splits prod.splits dest: dispatch_frame)

lemma run_messages_frame:
  "run_messages env ms d = Inr (d', s) \<Longrightarrow> d_cfg d' = d_cfg d \<and> fd_lookup d' = fd_lookup d"
proof (induction ms arbitrary: d s)
  case Nil
  then show ?case by simp
next
  case (Cons p ms)
  obtain f bs where p: "p = (f, bs)" by (cases p)
  with Cons.prems obtain d1 s1 s2 where "handle_message env f bs d = Inr (d1, s1)"
    and "run_messages env ms d1 = Inr (d', s2)"
    by (auto split: sum.splits prod.splits)
  then show ?case using Cons.IH by (auto dest: handle_message_frame)
qed

section \<open>PULL mode as operations on two keyed queues\<close>

definition take_ops :: "(message_entry \<Rightarrow> string) \<Rightarrow> bool \<Rightarrow> string \<Rightarrow> message_entry buf_op list" where
  "take_ops key has_md k = (if \<not> has_md then []
     else [Take (if k \<noteq> [] then (\<lambda>e. key e = k) else (\<lambda>_. True))])"

definition tx_ops :: "daemon \<Rightarrow> nsbm \<Rightarrow> message_entry buf_op list" where
  "tx_ops d m = (case man_op (manifest m) of
     SEND \<Rightarrow> [Push (entry_of_msg d m)]
   | FETCH \<Rightarrow> take_ops source (has_metadata m) (src_id (metadata m))
   | _ \<Rightarrow> [])"

definition rx_ops :: "daemon \<Rightarrow> nsbm \<Rightarrow> message_entry buf_op list" where
  "rx_ops d m = (case man_op (manifest m) of
     POST \<Rightarrow> (if man_code (manifest m) = MESSAGE then [Push (entry_of_msg d m)] else [])
   | RECEIVE \<Rightarrow> take_ops destination (has_metadata m) (dest_id (metadata m))
   | _ \<Rightarrow> [])"

abbreviation list_run :: "message_entry buf_op list \<Rightarrow> message_entry list \<Rightarrow> message_entry list \<times> message_entry list" where
  "list_run \<equiv> buf_run push_back find_erase"

lemma take_keyed_run:
  "take_keyed key h k l = (r, l') \<Longrightarrow>
     list_run (take_ops key h k) l = ((case r of None \<Rightarrow> [] | Some e \<Rightarrow> [e]), l')"
  by (auto simp: take_keyed_def take_ops_def pop_front_eq_find_erase split: if_splits option.split)

lemma buf_run_append:
  "buf_run pu ta (xs @ ys) b = (let (r1, b1) = buf_run pu ta xs b; (r2, b2) = buf_run pu ta ys b1 in (r1 @ r2, b2))"
  by (induction xs arbitrary: b) (auto split: prod.splits option.splits)

text \<open>The entries that a step's response carries, where it is a response at all.\<close>

definition out_entries :: "operation \<Rightarrow> daemon \<Rightarrow> bool \<Rightarrow> nsbm \<Rightarrow> message_entry list" where
  "out_entries opn d req out = (if req then reply_entries opn d [out] else [])"

lemma reply_entries_entry_reply [simp]:
  "reply_entries opn d [entry_reply d opn (entry_or_blank None) out] = []"
  "entry_exists e \<Longrightarrow> reply_entries opn d [entry_reply d opn (entry_or_blank (Some e)) out] = [e]"
  by (simp_all add: reply_entries_def is_op_def nsb_simps entry_or_blank_def)

lemma reply_entries_other [simp]:
  "man_op (manifest out) \<noteq> opn \<Longrightarrow> reply_entries opn d [out] = []"
  by (simp add: reply_entries_def is_op_def)

lemma init_reply_manifest [nsb_simps]:
  "man_op (manifest (init_reply d b out)) = INIT" "has_manifest (init_reply d b out)"
  "man_og (manifest (init_reply d b out)) = DAEMON"
  "man_code (manifest (init_reply d b out)) = (if b then SUCCESS else FAILURE)"
  by (simp_all add: init_reply_def Let_def nsb_simps has_manifest_def set_config_def head_of_def set_manifest_def manifest_def)

lemma take_keyed_subset: "take_keyed key h k l = (r, l') \<Longrightarrow> set l' \<subseteq> set l \<and> (\<forall>e. r = Some e \<longrightarrow> e \<in> set l)"
  by (auto simp: take_keyed_def pop_front_eq_find_erase split: if_splits dest: find_erase_subset)

text \<open>One message in PULL mode: it never faults, it sends nothing besides its response, and its
  effect on each buffer is that of its queue operations.  \<open>dispatch_pull\<close> gives the four facts
  that the run lemmas below need.\<close>

lemma dispatch_pull_ok:
  assumes "SYSTEM_MODE (d_cfg d) = PULL"
  shows "\<exists>d' out req. dispatch env m d = Inr (d', out, req, [])"
  using assms
  by (auto simp: dispatch_def Let_def no_sends_def handle_send_def handle_post_def
      split: operation.split prod.split)

lemma has_manifest_head_of [simp]: "has_manifest (head_of opn ogn c m)"
  by (simp add: nsb_simps)

lemma dispatch_response_manifest:
  assumes "dispatch env m d = Inr (d', out, req, s)" "req"
  shows "has_manifest out"
  using assms
  by (auto simp: dispatch_def Let_def no_sends_def handle_ping_def handle_fetch_def
      handle_receive_def handle_init_def nsb_simps split: operation.splits prod.splits if_splits
      originator.splits simulator_mode.splits dest: handle_send_frame handle_post_frame)

lemma handle_init_out:
  "handle_init m out d = (d', out', True) \<Longrightarrow> man_op (manifest out') = INIT"
  by (auto simp: handle_init_def Let_def nsb_simps split: if_splits originator.splits simulator_mode.splits)

lemma dispatch_tx:
  assumes "SYSTEM_MODE (d_cfg d) = PULL" "\<forall>e\<in>set (tx_buffer d). entry_exists e"
    "dispatch env m d = Inr (d', out, req, s)"
  shows "list_run (tx_ops d m) (tx_buffer d) = (out_entries FETCH d req out, tx_buffer d')"
proof (cases "man_op (manifest m)")
  case FETCH
  obtain r tx where t: "take_keyed source (has_metadata m) (src_id (metadata m)) (tx_buffer d) = (r, tx)"
    by fastforce
  with assms(2) have "r = Some e \<Longrightarrow> entry_exists e" for e
    by (auto dest: take_keyed_subset)
  with assms(3) FETCH t show ?thesis
    by (auto simp: tx_ops_def dispatch_def no_sends_def handle_fetch_def out_entries_def
        take_keyed_run [OF t] split: option.split)
next
  case RECEIVE
  with assms show ?thesis
    by (auto simp: tx_ops_def dispatch_def no_sends_def handle_receive_def out_entries_def nsb_simps
        split: prod.splits)
next
  case INIT
  with assms(3) have i: "handle_init m response_template d = (d', out, req)"
    by (auto simp: dispatch_def no_sends_def split: prod.splits)
  with INIT show ?thesis
    using handle_init_frame [OF i] handle_init_out [of m response_template d d' out]
    by (auto simp: tx_ops_def out_entries_def)
next
  case POST
  with assms show ?thesis
    by (auto simp: tx_ops_def dispatch_def handle_post_def out_entries_def split: if_splits)
qed (use assms in \<open>auto simp: tx_ops_def dispatch_def no_sends_def handle_ping_def handle_send_def
       push_back_def out_entries_def nsb_simps\<close>)

lemma dispatch_rx:
  assumes "SYSTEM_MODE (d_cfg d) = PULL" "\<forall>e\<in>set (rx_buffer d). entry_exists e"
    "dispatch env m d = Inr (d', out, req, s)"
  shows "list_run (rx_ops d m) (rx_buffer d) = (out_entries RECEIVE d req out, rx_buffer d')"
proof (cases "man_op (manifest m)")
  case RECEIVE
  obtain r rx where t: "take_keyed destination (has_metadata m) (dest_id (metadata m)) (rx_buffer d) = (r, rx)"
    by fastforce
  with assms(2) have "r = Some e \<Longrightarrow> entry_exists e" for e
    by (auto dest: take_keyed_subset)
  with assms(3) RECEIVE t show ?thesis
    by (auto simp: rx_ops_def dispatch_def no_sends_def handle_receive_def out_entries_def
        take_keyed_run [OF t] split: option.split)
next
  case FETCH
  with assms show ?thesis
    by (auto simp: rx_ops_def dispatch_def no_sends_def handle_fetch_def out_entries_def nsb_simps
        split: prod.splits)
next
  case INIT
  with assms(3) have i: "handle_init m response_template d = (d', out, req)"
    by (auto simp: dispatch_def no_sends_def split: prod.splits)
  with INIT show ?thesis
    using handle_init_frame [OF i] handle_init_out [of m response_template d d' out]
    by (auto simp: rx_ops_def out_entries_def)
next
  case SEND
  with assms show ?thesis
    by (auto simp: rx_ops_def dispatch_def handle_send_def out_entries_def)
qed (use assms in \<open>auto simp: rx_ops_def dispatch_def no_sends_def handle_ping_def handle_post_def
       push_back_def out_entries_def nsb_simps\<close>)

lemma entry_of_msg_cong: "d_cfg d = d_cfg d' \<Longrightarrow> entry_of_msg d = entry_of_msg d'"
  by (auto simp: entry_of_msg_def msg_get_payload_obj_def fun_eq_iff)

lemma reply_entries_cong: "d_cfg d = d_cfg d' \<Longrightarrow> reply_entries opn d = reply_entries opn d'"
  using entry_of_msg_cong [of d d'] by (auto simp: reply_entries_def fun_eq_iff)

lemma entry_reply_cfg: "d_cfg d = d_cfg d' \<Longrightarrow> entry_reply d = entry_reply d'"
  by (simp add: entry_reply_def put_entry_def msg_set_payload_obj_def fun_eq_iff)

lemma deliverable_cong: "d_cfg d = d_cfg d' \<Longrightarrow> deliverable env d = deliverable env d'"
  using entry_reply_cfg [of d d'] by (simp add: deliverable_def fun_eq_iff)

lemma deliverable_transmits:
  "deliverable env d0 e \<Longrightarrow> d_cfg d = d_cfg d0 \<Longrightarrow> transmits env (entry_reply d opn e response_template)"
  using deliverable_cong [of d d0 env] unfolding deliverable_def fun_eq_iff by blast

lemma tx_ops_cong: "d_cfg d = d_cfg d' \<Longrightarrow> tx_ops d = tx_ops d'"
  using entry_of_msg_cong [of d d'] by (auto simp: tx_ops_def fun_eq_iff split: operation.split)

lemma rx_ops_cong: "d_cfg d = d_cfg d' \<Longrightarrow> rx_ops d = rx_ops d'"
  using entry_of_msg_cong [of d d'] by (auto simp: rx_ops_def fun_eq_iff split: operation.split)

lemma reply_entries_append: "reply_entries opn d (xs @ ys) = reply_entries opn d xs @ reply_entries opn d ys"
  by (simp add: reply_entries_def)

lemma pushed_append [simp]: "pushed (xs @ ys) = pushed xs @ pushed ys"
  by (induction xs rule: pushed.induct) auto

lemma pushed_take_ops [simp]: "pushed (take_ops key h k) = []"
  by (simp add: take_ops_def)

section \<open>Mailboxes\<close>

definition queue_ops :: "(daemon \<Rightarrow> nsbm \<Rightarrow> message_entry buf_op list) \<Rightarrow> daemon \<Rightarrow> nsbm list \<Rightarrow>
    message_entry buf_op list" where
  "queue_ops ops d ms = concat (map (ops d) ms)"

text \<open>
  What the two directions share, as an interface: a buffer of the daemon, the queue operations
  a message performs on it, and the operation whose responses carry its entries.
\<close>

locale mailbox =
  fixes env :: "'b io_env"
    and buf :: "daemon \<Rightarrow> message_entry list"
    and ops :: "daemon \<Rightarrow> nsbm \<Rightarrow> message_entry buf_op list"
    and opn :: operation
  assumes step: "SYSTEM_MODE (d_cfg d) = PULL \<Longrightarrow> \<forall>e\<in>set (buf d). entry_exists e \<Longrightarrow>
        dispatch env m d = Inr (d', out, req, s) \<Longrightarrow>
        list_run (ops d m) (buf d) = (out_entries opn d req out, buf d')"
    and ops_cong: "d_cfg d = d_cfg d' \<Longrightarrow> ops d = ops d'"
    and carried: "dispatch env m d = Inr (d', out, True, s) \<Longrightarrow> reply_entries opn d [out] \<noteq> [] \<Longrightarrow>
        \<exists>e\<in>set (buf d). out = entry_reply d opn e response_template"
    and buf_fd_lookup: "buf (d\<lparr>fd_lookup := fds\<rparr>) = buf d"
begin

lemma message_step:
  assumes c: "codec env" and pull: "SYSTEM_MODE (d_cfg d) = PULL"
    and dl: "\<forall>e\<in>set (buf d). deliverable env d e"
  obtains d1 s1 where "handle_message env f bs d = Inr (d1, s1)"
    "list_run (queue_ops ops d (arrived env [(f, bs)])) (buf d) = (reply_entries opn d (arrived env s1), buf d1)"
proof (cases "parse env bs")
  case None
  then show ?thesis
    by (intro that [of d "[]"]) (simp_all add: handle_message_def queue_ops_def reply_entries_def)
next
  case (Some m)
  have ex: "\<forall>e\<in>set (buf d). entry_exists e" using dl by (blast intro: deliverable_exists)
  obtain d1 out req where d: "dispatch env m d = Inr (d1, out, req, [])"
    using dispatch_pull_ok [OF pull] by blast
  let ?s = "if req then send_serialized env f out else []"
  have h: "handle_message env f bs d = Inr (d1, ?s)"
    using Some d by (simp add: handle_message_def)
  have "reply_entries opn d (arrived env ?s) = out_entries opn d req out"
  proof (cases "req \<and> reply_entries opn d [out] \<noteq> []")
    case True
    with d have "dispatch env m d = Inr (d1, out, True, [])" by simp
    with True obtain e where "e \<in> set (buf d)" "out = entry_reply d opn e response_template"
      using carried by blast
    with dl have "transmits env out" by (simp add: deliverable_def)
    then have "arrived env ?s = [out]" using True by (auto simp: send_serialized_def elim!: transmitsE)
    with True show ?thesis by (simp add: out_entries_def)
  next
    case False
    have "req \<Longrightarrow> faithful env out"
      using codecD [OF c dispatch_response_manifest [OF d]] .
    with False show ?thesis
      by (auto simp: out_entries_def send_serialized_def faithful_def reply_entries_def split: option.splits)
  qed
  with step [OF pull ex d] Some show ?thesis
    by (intro that [OF h]) (simp add: queue_ops_def)
qed

lemma queue_ops_cong: "d_cfg d = d_cfg d' \<Longrightarrow> queue_ops ops d ms = queue_ops ops d' ms"
  using ops_cong [of d d'] by (simp add: queue_ops_def)

text \<open>The whole run in one equation: what the buffer held and received leaves it as the run of
  its queue operations says, and what leaves it is what the responses carry.\<close>

lemma run:
  assumes c: "codec env" and "SYSTEM_MODE (d_cfg d) = PULL"
    and "\<forall>e\<in>set (buf d @ pushed (queue_ops ops d (arrived env ms))). deliverable env d e"
  shows "\<exists>d' sends. run_messages env ms d = Inr (d', sends) \<and>
     list_run (queue_ops ops d (arrived env ms)) (buf d) = (reply_entries opn d (arrived env sends), buf d')"
  using assms(2-)
proof (induction ms arbitrary: d)
  case Nil
  then show ?case by (simp add: queue_ops_def reply_entries_def)
next
  case (Cons x ms)
  obtain f bs where x: "x = (f, bs)" by (cases x)
  obtain d1 s1 where h: "handle_message env f bs d = Inr (d1, s1)"
    and r1: "list_run (queue_ops ops d (arrived env [x])) (buf d) = (reply_entries opn d (arrived env s1), buf d1)"
    using message_step [OF c, of d f bs] Cons.prems x by auto
  have split: "queue_ops ops d (arrived env (x # ms)) = queue_ops ops d (arrived env [x]) @ queue_ops ops d1 (arrived env ms)"
    and cfg: "d_cfg d1 = d_cfg d"
    using handle_message_frame [OF h] queue_ops_cong [of d1 d]
    by (auto simp: x queue_ops_def split: option.split)
  have "\<forall>e\<in>set (buf d1 @ pushed (queue_ops ops d1 (arrived env ms))). deliverable env d1 e"
    using list_fifo.run_subset [OF r1] Cons.prems(2) unfolding split deliverable_cong [OF cfg] by auto
  with Cons.IH [of d1] Cons.prems(1) cfg obtain d2 s2 where r: "run_messages env ms d1 = Inr (d2, s2)"
    and r2: "list_run (queue_ops ops d1 (arrived env ms)) (buf d1) = (reply_entries opn d1 (arrived env s2), buf d2)"
    by auto
  have "list_run (queue_ops ops d (arrived env (x # ms))) (buf d)
      = (reply_entries opn d (arrived env (s1 @ s2)), buf d2)"
    unfolding split buf_run_append r1 using r2 reply_entries_cong [OF cfg]
    by (simp add: reply_entries_append)
  with h r x show ?case by simp
qed

text \<open>Hence, for every class of entries that the consumers' criteria respect, what was held and
  what came in leaves in that order, and none of it is lost or doubled.\<close>

lemma conserves:
  assumes c: "codec env" and pull: "SYSTEM_MODE (d_cfg d) = PULL"
    and ex: "\<forall>e\<in>set (buf d @ pushed (queue_ops ops d (arrived env ms))). deliverable env d e"
    and cov: "\<forall>m\<in>set (arrived env ms). \<forall>x\<in>set (ops d m). covers_class q x"
  shows "\<exists>d' sends. run_messages env ms d = Inr (d', sends) \<and>
     filter q (buf d @ pushed (queue_ops ops d (arrived env ms)))
       = filter q (reply_entries opn d (arrived env sends) @ buf d')"
  using run [OF c pull ex] list_fifo.run_conserves [of "queue_ops ops d (arrived env ms)" q "buf d"] cov
  by (fastforce simp: queue_ops_def)

end

lemma carried_entry:
  assumes "take_keyed key h k l = (r, l')" "reply_entries opn d [entry_reply d opn (entry_or_blank r) out] \<noteq> []"
  shows "\<exists>e\<in>set l. entry_or_blank r = e"
proof (cases r)
  case None
  with assms(2) show ?thesis by simp
next
  case (Some e)
  with take_keyed_subset [OF assms(1)] show ?thesis by (auto simp: entry_or_blank_def)
qed

lemma carried_tx:
  assumes "dispatch env m d = Inr (d', out, True, s)" "reply_entries FETCH d [out] \<noteq> []"
  shows "\<exists>e\<in>set (tx_buffer d). out = entry_reply d FETCH e response_template"
  using assms
  by (auto simp: dispatch_def Let_def no_sends_def handle_ping_def handle_fetch_def handle_receive_def nsb_simps
      split: operation.splits prod.splits
      dest: handle_send_frame handle_post_frame handle_init_out carried_entry)

lemma carried_rx:
  assumes "dispatch env m d = Inr (d', out, True, s)" "reply_entries RECEIVE d [out] \<noteq> []"
  shows "\<exists>e\<in>set (rx_buffer d). out = entry_reply d RECEIVE e response_template"
  using assms
  by (auto simp: dispatch_def Let_def no_sends_def handle_ping_def handle_fetch_def handle_receive_def nsb_simps
      split: operation.splits prod.splits
      dest: handle_send_frame handle_post_frame handle_init_out carried_entry)

interpretation tx: mailbox env tx_buffer tx_ops FETCH for env
  by unfold_locales (blast intro: dispatch_tx, erule tx_ops_cong, erule (1) carried_tx, simp)

interpretation rx: mailbox env rx_buffer rx_ops RECEIVE for env
  by unfold_locales (blast intro: dispatch_rx, erule rx_ops_cong, erule (1) carried_rx, simp)

lemma pushed_tx_ops: "pushed (tx_ops d m) = (if is_op SEND m then [entry_of_msg d m] else [])"
  by (simp add: tx_ops_def is_op_def split: operation.split)

lemma pushed_rx_ops: "pushed (rx_ops d m) =
    (if is_op POST m \<and> man_code (manifest m) = MESSAGE then [entry_of_msg d m] else [])"
  by (simp add: rx_ops_def is_op_def split: operation.split)

lemma pushed_tx: "pushed (queue_ops tx_ops d ms) = sent_entries d ms"
  by (induction ms) (simp_all add: queue_ops_def sent_entries_def pushed_tx_ops)

lemma pushed_rx: "pushed (queue_ops rx_ops d ms) = posted_entries d ms"
  by (induction ms) (simp_all add: queue_ops_def posted_entries_def pushed_rx_ops)

text \<open>Which classes the two criteria respect: everything with one key, when every consumer names
  a key; the whole buffer, when none does.\<close>

lemma covers_take_ops:
  "k \<noteq> [] \<Longrightarrow> x \<in> set (take_ops key h k) \<Longrightarrow> covers_class (\<lambda>e. key e = k') x"
  by (auto simp: take_ops_def covers_class_def split: if_splits)

lemma covers_take_ops_any:
  "x \<in> set (take_ops key h []) \<Longrightarrow> covers_class (\<lambda>_. True) x"
  by (auto simp: take_ops_def covers_class_def split: if_splits)

definition keyed_request :: "operation \<Rightarrow> (metadata_msg \<Rightarrow> string) \<Rightarrow> nsbm \<Rightarrow> bool" where
  "keyed_request opn key m \<longleftrightarrow> (is_op opn m \<longrightarrow> key (metadata m) \<noteq> [])"

lemma covers_tx:
  "keyed_request FETCH src_id m \<Longrightarrow> x \<in> set (tx_ops d m) \<Longrightarrow> covers_class (\<lambda>e. source e = k) x"
  by (auto simp: tx_ops_def keyed_request_def is_op_def covers_take_ops split: operation.splits)

lemma covers_rx:
  "keyed_request RECEIVE dest_id m \<Longrightarrow> x \<in> set (rx_ops d m) \<Longrightarrow> covers_class (\<lambda>e. destination e = k) x"
  by (auto simp: rx_ops_def keyed_request_def is_op_def covers_take_ops split: operation.splits if_splits)

end
