(* ===== verification/NSB_Server.thy ===== *)
theory NSB_Server
  imports NSB_Daemon_Facts
begin

text \<open>
  The server loop of the daemon (\<open>NSBDaemon::start\<close> and \<open>NSBDaemon::start_server\<close> in
  \<open>cpp/src/nsb_daemon.cc\<close>): what one pass of \<open>select\<close> does with the connected descriptors and
  with a new connection, and the loop over a schedule of kernel events.  The theorems lift
  the delivery properties of message sequences to the running server, and show where the
  loop departs from \<^emph>\<open>one message per read\<close>.
\<close>

section \<open>Kernel events\<close>

text \<open>The server socket: a set-up call that failed before the descriptor existed, one after it
  (it is then closed), or success.\<close>

datatype socket_setup = SocketFails | SetupFails fd | Listening fd

text \<open>What \<open>accept\<close> and the two \<open>fcntl\<close> calls gave: the descriptor, the peer's address and port.\<close>

datatype accept_result = AcceptFails | FlagsFail fd | NewChannel fd string i32

text \<open>One return of \<open>select\<close>: an error (and whether its \<open>errno\<close> is one of the three excused), a
  timeout, or activity: for each readable descriptor the results of \<open>recv\<close> in turn, up to the
  first that is not positive, and what became of a connection request.\<close>

datatype 'b server_event =
    SelectFails bool
  | Idle
  | Activity "fd \<Rightarrow> 'b list list option" "accept_result option"

record 'b server =
  sv_daemon :: daemon
  channel_fds :: "fd list"
  sv_handled :: "(fd \<times> 'b list) list"
  sv_sent :: "'b sends"
  sv_closed :: "fd list"

definition new_server :: "daemon \<Rightarrow> 'b server" where
  "new_server d = \<lparr>sv_daemon = d, channel_fds = [], sv_handled = [], sv_sent = [], sv_closed = []\<rparr>"

section \<open>One pass\<close>

text \<open>The chunks of at most \<open>MAX_BUFFER_SIZE - 1\<close> bytes are joined until \<open>recv\<close> gives nothing.\<close>

definition MAX_BUFFER_SIZE :: nat where "MAX_BUFFER_SIZE = 4096"

definition read_all :: "'b list list \<Rightarrow> 'b list" where
  "read_all chunks = concat (takeWhile (\<lambda>c. c \<noteq> []) chunks)"

text \<open>What \<open>handle_message\<close> hands to \<open>send\<close>, in order, goes out unless a peer has gone; \<open>n\<close> is the number of calls of
  \<open>send\<close> before.\<close>

fun pipes_ok :: "'b io_env \<Rightarrow> nat \<Rightarrow> 'b sends \<Rightarrow> bool" where
  "pipes_ok env n [] = True"
| "pipes_ok env n ((f, _) # out) = (peer_reads env n f \<and> pipes_ok env (Suc n) out)"

definition serve_read :: "'b io_env \<Rightarrow> fd \<Rightarrow> 'b list \<Rightarrow> 'b server \<Rightarrow> daemon_fault + 'b server" where
  "serve_read env f msg s = bind_res (handle_message env f msg (sv_daemon s))
     (\<lambda>(d, out). if \<not> pipes_ok env (length (sv_sent s)) out then Inl BrokenPipe
        else Inr (s\<lparr>sv_daemon := d, sv_handled := sv_handled s @ [(f, msg)], sv_sent := sv_sent s @ out\<rparr>))"

text \<open>The loop over the descriptors; the first result is the descriptors that stay.  After a disconnection the loop goes on
  with the iterator that \<open>erase(it)\<close> has invalidated.\<close>

fun serve_fds :: "'b io_env \<Rightarrow> (fd \<Rightarrow> 'b list list option) \<Rightarrow> fd list \<Rightarrow> 'b server \<Rightarrow>
    daemon_fault + fd list \<times> 'b server" where
  "serve_fds env rd [] s = Inr ([], s)"
| "serve_fds env rd (f # fs) s = (case rd f of
       None \<Rightarrow> bind_res (serve_fds env rd fs s) (\<lambda>(keep, s'). Inr (f # keep, s'))
     | Some chunks \<Rightarrow>
         (if read_all chunks \<noteq> []
          then bind_res (serve_read env f (read_all chunks) s)
                 (\<lambda>s1. bind_res (serve_fds env rd fs s1) (\<lambda>(keep, s'). Inr (f # keep, s')))
          else if \<not> erase_resumes env then Inl ErasedIterator
          else serve_fds env rd fs (s\<lparr>sv_closed := sv_closed s @ [f]\<rparr>)))"

definition accept_channel :: "accept_result option \<Rightarrow> 'b server \<Rightarrow> 'b server" where
  "accept_channel a s = (case a of
     Some (NewChannel f ip port) \<Rightarrow>
       s\<lparr>sv_daemon := (sv_daemon s)\<lparr>fd_lookup := map_emplace (addr_key ip port) f (fd_lookup (sv_daemon s))\<rparr>,
         channel_fds := channel_fds s @ [f]\<rparr>
   | Some (FlagsFail f) \<Rightarrow> s\<lparr>sv_closed := sv_closed s @ [f]\<rparr>
   | _ \<Rightarrow> s)"

definition serve_activity :: "'b io_env \<Rightarrow> (fd \<Rightarrow> 'b list list option) \<Rightarrow> accept_result option \<Rightarrow>
    'b server \<Rightarrow> daemon_fault + 'b server" where
  "serve_activity env rd acc s = bind_res (serve_fds env rd (channel_fds s) s)
     (\<lambda>(keep, s'). Inr (accept_channel acc (s'\<lparr>channel_fds := keep\<rparr>)))"

section \<open>The loop\<close>

text \<open>After the loop: every channel and the server socket are closed.\<close>

definition shut_server :: "fd \<Rightarrow> 'b server \<Rightarrow> 'b server" where
  "shut_server sfd s = s\<lparr>sv_closed := sv_closed s @ channel_fds s @ [sfd]\<rparr>"

text \<open>The flag says whether the loop was left; when the schedule ends first, the server is still
  serving.\<close>

fun serve :: "'b io_env \<Rightarrow> fd \<Rightarrow> 'b server_event list \<Rightarrow> 'b server \<Rightarrow> daemon_fault + bool \<times> 'b server" where
  "serve env sfd evs s =
     (if \<not> running (sv_daemon s) then Inr (True, shut_server sfd s)
      else if \<not> (\<forall>f\<in>set (sfd # channel_fds s). fd_set_ok f) then Inl BadFdSet
      else case evs of
          [] \<Rightarrow> Inr (False, s)
        | SelectFails excused # es \<Rightarrow> (if excused then serve env sfd es s else Inr (True, shut_server sfd s))
        | Idle # es \<Rightarrow> serve env sfd es s
        | Activity rd acc # es \<Rightarrow> bind_res (serve_activity env rd acc s) (\<lambda>s'. serve env sfd es s'))"

declare serve.simps [simp del]

text \<open>\<open>start()\<close>, with \<open>start_server\<close> inside.\<close>

definition start :: "'b io_env \<Rightarrow> socket_setup \<Rightarrow> 'b server_event list \<Rightarrow> daemon \<Rightarrow> daemon_fault + bool \<times> 'b server" where
  "start env su evs d = (if running d then Inr (True, new_server d)
     else let s = new_server (d\<lparr>running := True\<rparr>) in
       (case su of SocketFails \<Rightarrow> Inr (True, s)
        | SetupFails f \<Rightarrow> Inr (True, s\<lparr>sv_closed := [f]\<rparr>)
        | Listening f \<Rightarrow> serve env f evs s))"

text \<open>\<open>~NSBDaemon\<close>, and \<open>main\<close>: its exit status and the server (status \<open>None\<close>: the daemon still
  serves); \<open>exists\<close>: \<open>access\<close> finds the configuration file.\<close>

definition destroy_daemon :: "daemon \<Rightarrow> daemon" where
  "destroy_daemon d = (if running d then stop d else d)"

definition daemon_main :: "nat \<Rightarrow> bool \<Rightarrow> yaml_doc option \<Rightarrow> 'b io_env \<Rightarrow> socket_setup \<Rightarrow> 'b server_event list \<Rightarrow>
    daemon_fault + int option \<times> 'b server option" where
  "daemon_main argc file_exists doc env su evs =
     (if argc \<noteq> 2 then Inr (Some 1, None)
      else if \<not> file_exists then Inr (Some 1, None)
      else bind_res (new_daemon 65432 doc) (\<lambda>d. bind_res (start env su evs d)
        (\<lambda>(left_loop, s). Inr (if left_loop
           then (Some 0, Some (s\<lparr>sv_daemon := destroy_daemon (stop (sv_daemon s))\<rparr>)) else (None, Some s)))))"

lemma daemon_main_stopped:
  "daemon_main argc file_exists doc env su evs = Inr (Some 0, s) \<Longrightarrow> \<exists>sv. s = Some sv \<and> \<not> running (sv_daemon sv)"
  by (auto simp: daemon_main_def bind_res_Inr destroy_daemon_def stop_def split: if_splits)

section \<open>Invariants of the server\<close>

lemma serve_readE:
  assumes "serve_read env f msg s = Inr s'"
  obtains d out where "handle_message env f msg (sv_daemon s) = Inr (d, out)"
    "s' = s\<lparr>sv_daemon := d, sv_handled := sv_handled s @ [(f, msg)], sv_sent := sv_sent s @ out\<rparr>"
  using assms by (auto simp: serve_read_def bind_res_Inr split: if_splits)

text \<open>Peers that stay never break a pipe.\<close>

definition peers_read :: "'b io_env \<Rightarrow> bool" where
  "peers_read env \<longleftrightarrow> (\<forall>n f. peer_reads env n f)"

lemma pipes_read: "peers_read env \<Longrightarrow> pipes_ok env n out"
  by (induction out arbitrary: n) (auto simp: peers_read_def)

lemma peers_read_fragment [simp]: "peers_read fragment_env"
  by (simp add: peers_read_def)

lemma pipes_ok_fragment [simp]: "pipes_ok fragment_env n out"
  by (simp add: pipes_read)

text \<open>An interface for invariants of the server: what every read and every new entry of the descriptor
  table keeps, and what does not speak of the open and the closed channels, holds after any schedule.\<close>

locale server_invariant =
  fixes env :: "'b io_env"
    and P :: "'b server \<Rightarrow> bool"
  assumes read_keeps: "P s \<Longrightarrow> serve_read env f msg s = Inr s' \<Longrightarrow> P s'"
    and lookup_keeps: "P s \<Longrightarrow> P (s\<lparr>sv_daemon := (sv_daemon s)\<lparr>fd_lookup := map_emplace k f (fd_lookup (sv_daemon s))\<rparr>\<rparr>)"
    and channels_keep: "P s \<Longrightarrow> P (s\<lparr>channel_fds := fs\<rparr>)"
    and closed_keeps: "P s \<Longrightarrow> P (s\<lparr>sv_closed := fs\<rparr>)"
begin

lemma accept_keeps:
  assumes "P s"
  shows "P (accept_channel acc s)"
  using channels_keep [OF lookup_keeps [OF assms]] closed_keeps [OF assms] assms
  by (auto simp: accept_channel_def split: option.split accept_result.split)

lemma fds_keep: "P s \<Longrightarrow> serve_fds env rd fs s = Inr (keep, s') \<Longrightarrow> P s'"
proof (induction fs arbitrary: s keep)
  case (Cons f fs)
  show ?case
  proof (cases "rd f")
    case None
    with Cons show ?thesis by (auto simp: bind_res_Inr)
  next
    case (Some chunks)
    with Cons read_keeps closed_keeps [OF Cons.prems(1)] show ?thesis
      by (fastforce simp: bind_res_Inr split: if_splits)
  qed
qed simp

lemma activity_keeps:
  assumes "P s" "serve_activity env rd acc s = Inr s'"
  shows "P s'"
proof -
  obtain keep s1 where s1: "serve_fds env rd (channel_fds s) s = Inr (keep, s1)"
    and s': "s' = accept_channel acc (s1\<lparr>channel_fds := keep\<rparr>)"
    using assms(2) by (auto simp: serve_activity_def bind_res_Inr)
  show ?thesis unfolding s' by (rule accept_keeps [OF channels_keep [OF fds_keep [OF assms(1) s1]]])
qed

lemma shut_keeps: "P s \<Longrightarrow> P (shut_server sfd s)"
  by (simp add: shut_server_def closed_keeps)

lemma serve_keeps: "P s \<Longrightarrow> serve env sfd evs s = Inr (b, s') \<Longrightarrow> P s'"
proof (induction evs arbitrary: s)
  case Nil
  then show ?case
    by (subst (asm) serve.simps) (auto split: if_splits intro: shut_keeps)
next
  case (Cons ev evs)
  show ?case
  proof (cases "running (sv_daemon s) \<and> (\<forall>f\<in>set (sfd # channel_fds s). fd_set_ok f)")
    case True
    with Cons.prems(2) show ?thesis
      by (subst (asm) serve.simps, cases ev)
        (use True Cons in \<open>auto simp: bind_res_Inr split: if_splits intro: shut_keeps activity_keeps\<close>)
  next
    case False
    with Cons.prems show ?thesis
      by (subst (asm) serve.simps) (auto split: if_splits intro: shut_keeps)
  qed
qed

lemma start_keeps:
  assumes "P (new_server d)" "P (new_server (d\<lparr>running := True\<rparr>))" "start env su evs d = Inr (b, s)"
  shows "P s"
  using assms serve_keeps [OF assms(2)] closed_keeps [OF assms(2)]
  by (auto simp: start_def Let_def split: if_splits socket_setup.splits)

end

section \<open>Lifting the mailbox laws\<close>

text \<open>A buffer follows the queue operations of the messages handled so far, since daemon \<open>d0\<close>.\<close>

definition follows :: "'b io_env \<Rightarrow> (daemon \<Rightarrow> message_entry list) \<Rightarrow>
    (daemon \<Rightarrow> nsbm \<Rightarrow> message_entry buf_op list) \<Rightarrow> operation \<Rightarrow> daemon \<Rightarrow> 'b server \<Rightarrow> bool" where
  "follows env buf ops opn d0 s \<longleftrightarrow> d_cfg (sv_daemon s) = d_cfg d0 \<and>
     ((\<forall>e\<in>set (buf d0 @ pushed (queue_ops ops d0 (arrived env (sv_handled s)))). deliverable env d0 e) \<longrightarrow>
      list_run (queue_ops ops d0 (arrived env (sv_handled s))) (buf d0) =
        (reply_entries opn d0 (arrived env (sv_sent s)), buf (sv_daemon s)))"

lemma queue_ops_append: "queue_ops ops d (xs @ ys) = queue_ops ops d xs @ queue_ops ops d ys"
  by (simp add: queue_ops_def)

context mailbox
begin

lemma follows_read:
  assumes c: "codec env" and pull: "SYSTEM_MODE (d_cfg d0) = PULL"
    and fo: "follows env buf ops opn d0 s" and r: "serve_read env f msg s = Inr s'"
  shows "follows env buf ops opn d0 s'"
proof -
  let ?h = "arrived env (sv_handled s)"
  obtain d out where h: "handle_message env f msg (sv_daemon s) = Inr (d, out)"
    and s': "s' = s\<lparr>sv_daemon := d, sv_handled := sv_handled s @ [(f, msg)], sv_sent := sv_sent s @ out\<rparr>"
    using r by (rule serve_readE)
  have cfg: "d_cfg (sv_daemon s) = d_cfg d0" "d_cfg d = d_cfg d0"
    using fo handle_message_frame [OF h] by (simp_all add: follows_def)
  have "list_run (queue_ops ops d0 (arrived env (sv_handled s'))) (buf d0) =
        (reply_entries opn d0 (arrived env (sv_sent s')), buf (sv_daemon s'))"
    if ex: "\<forall>e\<in>set (buf d0 @ pushed (queue_ops ops d0 (arrived env (sv_handled s')))). deliverable env d0 e"
  proof -
    have r1: "list_run (queue_ops ops d0 ?h) (buf d0) =
        (reply_entries opn d0 (arrived env (sv_sent s)), buf (sv_daemon s))"
      using fo ex by (auto simp: follows_def s' queue_ops_append)
    have "\<forall>e\<in>set (buf (sv_daemon s)). deliverable env (sv_daemon s) e"
      using list_fifo.run_subset [OF r1] ex deliverable_cong [OF cfg(1), of env] by (auto simp: s' queue_ops_append)
    then have "list_run (queue_ops ops (sv_daemon s) (arrived env [(f, msg)])) (buf (sv_daemon s)) =
        (reply_entries opn (sv_daemon s) (arrived env out), buf d)"
      using message_step [OF c, of "sv_daemon s" f msg] pull cfg h by (metis Pair_inject sum.inject(2))
    then show ?thesis
      unfolding s' using queue_ops_cong [OF cfg(1)] reply_entries_cong [OF cfg(1)]
      by (simp add: queue_ops_append buf_run_append r1 reply_entries_append del: arrived_simps(2))
  qed
  with cfg show ?thesis by (simp add: follows_def s')
qed

lemma follows_invariant:
  assumes "codec env" "SYSTEM_MODE (d_cfg d0) = PULL"
  shows "server_invariant env (follows env buf ops opn d0)"
proof
  show "follows env buf ops opn d0 s'" if "follows env buf ops opn d0 s" "serve_read env f msg s = Inr s'" for s f msg s'
    using follows_read [OF assms that] .
qed (simp_all add: follows_def buf_fd_lookup)

text \<open>The conservation law for a served schedule.\<close>

lemma follows_conserves:
  assumes fo: "follows env buf ops opn d0 s"
    and ex: "\<forall>e\<in>set (buf d0 @ pushed (queue_ops ops d0 (arrived env (sv_handled s)))). deliverable env d0 e"
    and cov: "\<forall>m\<in>set (arrived env (sv_handled s)). \<forall>x\<in>set (ops d0 m). covers_class q x"
  shows "filter q (buf d0 @ pushed (queue_ops ops d0 (arrived env (sv_handled s))))
       = filter q (reply_entries opn d0 (arrived env (sv_sent s)) @ buf (sv_daemon s))"
proof -
  have "list_run (queue_ops ops d0 (arrived env (sv_handled s))) (buf d0) =
        (reply_entries opn d0 (arrived env (sv_sent s)), buf (sv_daemon s))"
    using fo ex by (simp add: follows_def)
  from list_fifo.run_conserves [OF _ this, of q] cov show ?thesis by (fastforce simp: queue_ops_def)
qed

lemma start_conserves:
  assumes c: "codec env" and pull: "SYSTEM_MODE (d_cfg d) = PULL"
    and buf: "\<And>r. buf (d\<lparr>running := r\<rparr>) = buf d"
    and st: "start env (Listening sfd) evs d = Inr (b, s)"
    and ex: "\<forall>e\<in>set (buf d @ pushed (queue_ops ops d (arrived env (sv_handled s)))). deliverable env d e"
    and cov: "\<forall>m\<in>set (arrived env (sv_handled s)). \<forall>x\<in>set (ops d m). covers_class q x"
  shows "filter q (buf d @ pushed (queue_ops ops d (arrived env (sv_handled s))))
       = filter q (reply_entries opn d (arrived env (sv_sent s)) @ buf (sv_daemon s))"
proof -
  have "follows env buf ops opn d (new_server d)" "follows env buf ops opn d (new_server (d\<lparr>running := True\<rparr>))"
    by (simp_all add: follows_def new_server_def queue_ops_def reply_entries_def buf)
  from server_invariant.start_keeps [OF follows_invariant [OF c pull] this st] have "follows env buf ops opn d s" .
  from follows_conserves [OF this ex cov] show ?thesis .
qed

end

end
