(* ===== verification/NSB_Socket.thy ===== *)
theory NSB_Socket
  imports NSB_Types NSB_Std_Map
begin

text \<open>
  \<open>Comms\<close> and \<open>SocketInterface\<close> (\<open>cpp/include/nsb.h\<close>, \<open>cpp/src/nsb.cc\<close>): connecting the
  three channels, the sending loop and the receiving loop over non-blocking sockets.  The
  kernel is a schedule: for every \<open>send\<close> how many bytes it has room for, for every \<open>select\<close>
  its outcome and for every \<open>recv\<close> the bytes that have arrived by then.  A call for which the
  schedule runs out is still waiting, \<open>Inl NoReturn\<close>.
\<close>

section \<open>The interface\<close>

text \<open>The methods that every communication interface defines (\<open>nsb.h\<close>: other interfaces must
  define the same methods with the same arguments).  \<open>'w\<close> is the state of the world the
  interface talks to.\<close>

record ('b, 'w) comms =
  sendMessage :: "channel \<Rightarrow> 'b list \<Rightarrow> 'w \<Rightarrow> io_stop + i32 \<times> 'w"
  receiveMessage :: "channel \<Rightarrow> i32 option \<Rightarrow> 'w \<Rightarrow> io_stop + 'b list \<times> 'w"

section \<open>Kernel schedules\<close>

datatype send_event = Accept nat | Again | SendError

datatype 'b round = SelectError | SelectTimeout | Ready "'b list list"

record 'b socket_state =
  conns :: "(channel, fd) std_map"
  sk_send :: "fd \<Rightarrow> send_event list"
  sk_wire :: "fd \<Rightarrow> 'b list"
  sk_queue :: "fd \<Rightarrow> 'b list"
  sk_rounds :: "fd \<Rightarrow> 'b round list"

section \<open>connectToServer\<close>

text \<open>One pass through the retry loop: \<open>socket\<close> failed; an option could not be set (the
  descriptor is closed); the connection was refused (closed, then a pause); connected.\<close>

datatype attempt = SocketFailed | OptionFailed fd | Refused fd | Connected fd

datatype connect_end = Returns i32 | ThrowsOutOfRange

text \<open>The retry loop of one channel.  Every evaluation of \<open>system_clock::now()\<close> takes one reading.
  \<open>None\<close>: the schedule ended.  The flag says whether the loop was left without \<open>return -1\<close>.\<close>

fun connect_loop :: "int \<Rightarrow> channel \<Rightarrow> int list \<Rightarrow> attempt list \<Rightarrow> (channel, fd) std_map \<Rightarrow>
    (bool \<times> int list \<times> attempt list \<times> (channel, fd) std_map) option" where
  "connect_loop target ch [] as cs = None"
| "connect_loop target ch (t # ts) as cs =
     (if \<not> t < target then Some (True, ts, as, cs)
      else case as of [] \<Rightarrow> None
        | SocketFailed # as' \<Rightarrow> Some (False, ts, as', cs)
        | OptionFailed f # as' \<Rightarrow> Some (False, ts, as', cs)
        | Refused f # as' \<Rightarrow> connect_loop target ch ts as' cs
        | Connected f # as' \<Rightarrow> Some (True, ts, as', map_emplace ch f cs))"

fun connect_all :: "int \<Rightarrow> channel list \<Rightarrow> int list \<Rightarrow> attempt list \<Rightarrow> (channel, fd) std_map \<Rightarrow>
    (bool \<times> (channel, fd) std_map) option" where
  "connect_all target [] ts as cs = Some (True, cs)"
| "connect_all target (ch # chs) ts as cs = (case connect_loop target ch ts as cs of
       None \<Rightarrow> None
     | Some (False, ts', as', cs') \<Rightarrow> Some (False, cs')
     | Some (True, [], as', cs') \<Rightarrow> None
     | Some (True, t # ts', as', cs') \<Rightarrow>
         (if t > target then Some (False, cs') else connect_all target chs ts' as' cs'))"

text \<open>The second loop: \<open>fcntl\<close> on every channel; \<open>fcntl_ok\<close> says whether it succeeds.\<close>

fun set_nonblocking :: "(fd \<Rightarrow> bool) \<Rightarrow> (channel, fd) std_map \<Rightarrow> channel list \<Rightarrow> connect_end" where
  "set_nonblocking fcntl_ok cs [] = Returns 0"
| "set_nonblocking fcntl_ok cs (ch # chs) = (case map_find cs ch of None \<Rightarrow> ThrowsOutOfRange
     | Some f \<Rightarrow> if fcntl_ok f then set_nonblocking fcntl_ok cs chs else Returns (-1))"

definition connectToServer :: "(fd \<Rightarrow> bool) \<Rightarrow> int \<Rightarrow> int list \<Rightarrow> attempt list \<Rightarrow> (channel, fd) std_map \<Rightarrow>
    (connect_end \<times> (channel, fd) std_map) option" where
  "connectToServer fcntl_ok timeout ts as cs = (case ts of [] \<Rightarrow> None
     | start # ts' \<Rightarrow> (case connect_all (start + timeout) Channels ts' as cs of
          None \<Rightarrow> None
        | Some (False, cs') \<Rightarrow> Some (Returns (-1), cs')
        | Some (True, cs') \<Rightarrow> Some (set_nonblocking fcntl_ok cs' Channels, cs')))"

definition SERVER_CONNECTION_TIMEOUT :: int where "SERVER_CONNECTION_TIMEOUT = 10"

text \<open>\<open>SocketInterface::SocketInterface\<close>: the process exits unless the connection is made.  The
  clock counts in ticks of which \<open>tps\<close> make a second.\<close>

definition new_socket_interface :: "(fd \<Rightarrow> bool) \<Rightarrow> int \<Rightarrow> int list \<Rightarrow> attempt list \<Rightarrow>
    io_stop + (channel, fd) std_map" where
  "new_socket_interface fcntl_ok tps ts as =
     (case connectToServer fcntl_ok (SERVER_CONNECTION_TIMEOUT * tps) ts as [] of
        None \<Rightarrow> Inl NoReturn
      | Some (ThrowsOutOfRange, cs) \<Rightarrow> Inl OutOfRange
      | Some (Returns r, cs) \<Rightarrow> if r \<noteq> 0 then Inl ProcessExit else Inr cs)"

section \<open>closeConnection\<close>

datatype sys_call = Shutdown fd | Close fd

fun close_channels :: "(channel, fd) std_map \<Rightarrow> channel list \<Rightarrow> io_stop + sys_call list" where
  "close_channels cs [] = Inr []"
| "close_channels cs (ch # chs) = (case map_find cs ch of None \<Rightarrow> Inl OutOfRange
     | Some f \<Rightarrow> bind_res (close_channels cs chs) (\<lambda>r. Inr (Shutdown f # Close f # r)))"

definition closeConnection :: "(channel, fd) std_map \<Rightarrow> io_stop + sys_call list" where
  "closeConnection cs = close_channels cs Channels"

section \<open>sendMessage\<close>

text \<open>\<open>send(fd, data + totalBytesSent, totalSize - totalBytesSent, 0)\<close> with room for \<open>n\<close> bytes
  takes as many as there are, at most \<open>n\<close>.\<close>

fun send_loop :: "'b list \<Rightarrow> i32 \<Rightarrow> i32 \<Rightarrow> send_event list \<Rightarrow> 'b list \<Rightarrow>
    io_stop + i32 \<times> send_event list \<times> 'b list" where
  "send_loop msg tot sent evs wire =
     (if \<not> sint sent < sint tot then Inr (0, evs, wire)
      else case evs of [] \<Rightarrow> Inl NoReturn
        | Again # es \<Rightarrow> send_loop msg tot sent es wire
        | SendError # es \<Rightarrow> Inr (-1, es, wire)
        | Accept n # es \<Rightarrow>
            (let k = min n (nat (sint (tot - sent))) in
             send_loop msg tot (sent + of_nat k) es (wire @ take k (drop (nat (sint sent)) msg))))"

declare send_loop.simps [simp del]

definition socket_send :: "channel \<Rightarrow> 'b list \<Rightarrow> 'b socket_state \<Rightarrow> io_stop + i32 \<times> 'b socket_state" where
  "socket_send ch msg w = (if sint (int_of_size msg) \<le> 0 then Inr (0, w)
     else case map_find (conns w) ch of None \<Rightarrow> Inl OutOfRange
     | Some f \<Rightarrow> bind_res (send_loop msg (int_of_size msg) 0 (sk_send w f) (sk_wire w f))
         (\<lambda>(r, evs, wire). Inr (r, w\<lparr>sk_send := (sk_send w)(f := evs), sk_wire := (sk_wire w)(f := wire)\<rparr>)))"

section \<open>receiveMessage\<close>

definition RECEIVE_BUFFER_SIZE :: nat where "RECEIVE_BUFFER_SIZE = 4096"

text \<open>The inner loop: \<open>recv\<close> of at most \<open>RECEIVE_BUFFER_SIZE - 1\<close> bytes until there is nothing;
  before each \<open>recv\<close> the next arrivals join the kernel's queue.  The result is the message and
  what the kernel holds afterwards.\<close>

function drain :: "'b list \<Rightarrow> 'b list list \<Rightarrow> 'b list \<times> 'b list" where
  "drain q as = (let q1 = q @ (case as of [] \<Rightarrow> [] | a # _ \<Rightarrow> a) in
     if q1 = [] then ([], concat (tl as))
     else (let (m, r) = drain (drop (RECEIVE_BUFFER_SIZE - 1) q1) (tl as)
           in (take (RECEIVE_BUFFER_SIZE - 1) q1 @ m, r)))"
  by pat_completeness auto

termination
proof (relation "measure (\<lambda>(q, as). length q + length (concat as))", goal_cases)
  case (2 q as q1)
  then have "0 < length q1" by simp
  moreover have "length q1 + length (concat (tl as)) = length q + length (concat as)"
    using 2(1) by (cases as) simp_all
  ultimately show ?case by (simp add: RECEIVE_BUFFER_SIZE_def del: length_greater_0_conv)
qed simp

declare drain.simps [simp del]

fun receive_loop :: "'b list \<Rightarrow> 'b round list \<Rightarrow> io_stop + 'b list \<times> 'b list \<times> 'b round list" where
  "receive_loop q [] = Inl NoReturn"
| "receive_loop q (SelectError # rs) = Inr ([], q, rs)"
| "receive_loop q (SelectTimeout # rs) = Inr ([], q, rs)"
| "receive_loop q (Ready as # rs) = (let (m, q') = drain q as in
     if m \<noteq> [] then Inr (m, q', rs) else receive_loop q' rs)"

definition socket_receive :: "channel \<Rightarrow> i32 option \<Rightarrow> 'b socket_state \<Rightarrow> io_stop + 'b list \<times> 'b socket_state" where
  "socket_receive ch timeout w = (case map_find (conns w) ch of None \<Rightarrow> Inl OutOfRange
     | Some f \<Rightarrow> bind_res (receive_loop (sk_queue w f) (sk_rounds w f))
         (\<lambda>(m, q, rs). Inr (m, w\<lparr>sk_queue := (sk_queue w)(f := q), sk_rounds := (sk_rounds w)(f := rs)\<rparr>)))"

definition SocketInterface :: "('b, 'b socket_state) comms" where
  "SocketInterface = \<lparr>sendMessage = socket_send, receiveMessage = socket_receive\<rparr>"

section \<open>What is sent\<close>

text \<open>The loop at a position \<open>j\<close> that fits an \<open>int\<close>.\<close>

lemma word_pos:
  assumes "j \<le> n" "n \<le> int_max"
  shows "sint (of_nat j :: i32) = int j" "sint (of_nat n - of_nat j :: i32) = int (n - j)"
proof -
  have a: "sint (of_nat k :: i32) = int k" if "k \<le> int_max" for k
    using that by (simp add: signed_of_nat signed_take_bit_int_eq_self)
  have "of_nat n - of_nat j = (of_nat (n - j) :: i32)"
    using assms(1) by (simp add: of_nat_diff)
  then show "sint (of_nat n - of_nat j :: i32) = int (n - j)"
    using a [of "n - j"] assms(2) by (simp only:)
  show "sint (of_nat j :: i32) = int j" using a assms by simp
qed

lemma send_loop_step:
  assumes "j \<le> length msg" "length msg \<le> int_max"
  shows "send_loop msg (of_nat (length msg)) (of_nat j) evs wire =
     (if j = length msg then Inr (0, evs, wire)
      else case evs of [] \<Rightarrow> Inl NoReturn
        | Again # es \<Rightarrow> send_loop msg (of_nat (length msg)) (of_nat j) es wire
        | SendError # es \<Rightarrow> Inr (-1, es, wire)
        | Accept n # es \<Rightarrow> (let k = min n (length msg - j) in
            send_loop msg (of_nat (length msg)) (of_nat (j + k)) es (wire @ take k (drop j msg))))"
proof (cases "j = length msg")
  case True
  then show ?thesis by (subst send_loop.simps) simp
next
  case False
  have d: "sint (of_nat j :: i32) = int j" "sint (of_nat (length msg) :: i32) = int (length msg)"
    "sint (of_nat (length msg) - of_nat j :: i32) = int (length msg - j)"
    using word_pos [OF assms] word_pos [OF order_refl assms(2)] by blast+
  from False assms(1) have "int j < int (length msg)" by simp
  with False show ?thesis
    by (subst send_loop.simps, unfold d nat_int) (simp add: Let_def split: list.split send_event.split)
qed

text \<open>What the loop has put on the wire when it ends: everything on 0, a proper prefix on -1.\<close>

lemma send_loop_result:
  assumes "j \<le> length msg" "length msg \<le> int_max"
    and "send_loop msg (of_nat (length msg)) (of_nat j) evs wire = Inr (r, evs', wire')"
  shows "(r = 0 \<and> wire' = wire @ drop j msg) \<or>
     (r = -1 \<and> (\<exists>k. j \<le> k \<and> k < length msg \<and> wire' = wire @ take (k - j) (drop j msg)))"
  using assms(1,3)
proof (induction evs arbitrary: j wire)
  case Nil
  then show ?case by (auto simp: send_loop_step [OF _ assms(2)] split: if_splits)
next
  case (Cons e es)
  show ?case
  proof (cases "j = length msg")
    case True
    with Cons.prems show ?thesis by (simp add: send_loop_step [OF _ assms(2)])
  next
    case False
    show ?thesis
    proof (cases e)
      case (Accept n)
      let ?k = "min n (length msg - j)"
      have "send_loop msg (of_nat (length msg)) (of_nat (j + ?k)) es (wire @ take ?k (drop j msg)) = Inr (r, evs', wire')"
        using Cons.prems False Accept by (simp add: send_loop_step [OF _ assms(2)] Let_def)
      note IH = Cons.IH [OF _ this]
      have dr: "drop (j + ?k) msg = drop ?k (drop j msg)" by (simp only: drop_drop add.commute)
      have cat: "take ?k (drop j msg) @ drop (j + ?k) msg = drop j msg"
        "take ?k (drop j msg) @ take i (drop (j + ?k) msg) = take (?k + i) (drop j msg)" for i
        unfolding dr by (simp_all only: append_take_drop_id take_add)
      have jk: "j + ?k \<le> length msg" using Cons.prems by simp
      from IH [OF jk] show ?thesis
      proof (elim disjE conjE exE)
        assume "r = 0" "wire' = (wire @ take ?k (drop j msg)) @ drop (j + ?k) msg"
        then show ?thesis using cat(1) by simp
      next
        fix k assume k: "r = -1" "j + ?k \<le> k" "k < length msg"
          "wire' = (wire @ take ?k (drop j msg)) @ take (k - (j + ?k)) (drop (j + ?k) msg)"
        then have "wire' = wire @ take (k - j) (drop j msg)"
          using cat(2) [of "k - (j + ?k)"] by simp
        with k show ?thesis by (intro disjI2 conjI exI [of _ k]) simp_all
      qed
    qed (use Cons False in \<open>auto simp: send_loop_step [OF _ assms(2)]\<close>)
  qed
qed

text \<open>It ends when the kernel gives no error and takes enough bytes.\<close>

fun room :: "send_event list \<Rightarrow> nat" where
  "room [] = 0"
| "room (Accept n # es) = n + room es"
| "room (_ # es) = room es"

lemma send_loop_returns:
  assumes "length msg \<le> int_max" "j \<le> length msg" "length msg - j \<le> room evs" "SendError \<notin> set evs"
  shows "\<exists>evs'. send_loop msg (of_nat (length msg)) (of_nat j) evs wire = Inr (0, evs', wire @ drop j msg)"
  using assms(2-)
proof (induction evs arbitrary: j wire)
  case Nil
  then show ?case using send_loop_step [OF Nil(1) assms(1), of "[]" wire] by simp
next
  case (Cons e es)
  show ?case
  proof (cases "j = length msg")
    case True
    with Cons.prems show ?thesis by (simp add: send_loop_step [OF _ assms(1)])
  next
    case False
    show ?thesis
    proof (cases e)
      case (Accept n)
      let ?k = "min n (length msg - j)"
      have "drop (j + ?k) msg = drop ?k (drop j msg)" by (simp only: drop_drop add.commute)
      then have "take ?k (drop j msg) @ drop (j + ?k) msg = drop j msg"
        by (simp only: append_take_drop_id)
      moreover have "\<exists>evs'. send_loop msg (of_nat (length msg)) (of_nat (j + ?k)) es (wire @ take ?k (drop j msg))
          = Inr (0, evs', (wire @ take ?k (drop j msg)) @ drop (j + ?k) msg)"
        using Cons.prems Accept by (intro Cons.IH) auto
      ultimately show ?thesis
        using Cons.prems False Accept by (simp add: send_loop_step [OF _ assms(1)] Let_def)
    next
      case Again
      then have "send_loop msg (of_nat (length msg)) (of_nat j) (e # es) wire =
          send_loop msg (of_nat (length msg)) (of_nat j) es wire"
        using send_loop_step [OF Cons.prems(1) assms(1), of "e # es" wire] False by simp
      moreover have "\<exists>evs'. send_loop msg (of_nat (length msg)) (of_nat j) es wire = Inr (0, evs', wire @ drop j msg)"
        using Cons.prems Again by (intro Cons.IH) auto
      ultimately show ?thesis by simp
    qed (use Cons in simp)
  qed
qed

section \<open>What is received\<close>

lemma drain_conserves: "drain q as = (m, r) \<Longrightarrow> m @ r = q @ concat as"
proof (induction q as arbitrary: m r rule: drain.induct)
  case (1 q as)
  let ?q1 = "q @ (case as of [] \<Rightarrow> [] | a # _ \<Rightarrow> a)"
  show ?case
  proof (cases "?q1 = []")
    case True
    with "1.prems" show ?thesis
      by (subst (asm) drain.simps) (auto simp: Let_def split: list.splits)
  next
    case False
    obtain m1 r1 where d: "drain (drop (RECEIVE_BUFFER_SIZE - 1) ?q1) (tl as) = (m1, r1)" by fastforce
    then have "drain q as = (take (RECEIVE_BUFFER_SIZE - 1) ?q1 @ m1, r1)"
      using False by (subst drain.simps) (simp only: Let_def if_False prod.case)
    with "1.prems" have "m = take (RECEIVE_BUFFER_SIZE - 1) ?q1 @ m1" "r = r1"
      by simp_all
    with "1.IH" [OF refl False d] have "m @ r = ?q1 @ concat (tl as)"
      by (metis append_assoc append_take_drop_id)
    then show ?thesis by (cases as) simp_all
  qed
qed

text \<open>The bytes that a schedule delivers.\<close>

fun arrivals :: "'b round list \<Rightarrow> 'b list" where
  "arrivals [] = []"
| "arrivals (Ready as # rs) = concat as @ arrivals rs"
| "arrivals (_ # rs) = arrivals rs"

lemma receive_loop_conserves:
  "receive_loop q rs = Inr (m, q', rs') \<Longrightarrow> m @ q' @ arrivals rs' = q @ arrivals rs"
proof (induction q rs rule: receive_loop.induct)
  case (4 q as rs)
  obtain m1 q1 where d: "drain q as = (m1, q1)" by fastforce
  with 4 have "m1 \<noteq> [] \<and> m = m1 \<and> q' = q1 \<and> rs' = rs \<or> m1 = [] \<and> receive_loop q1 rs = Inr (m, q', rs')"
    by (auto split: if_splits)
  with "4.IH" [OF d [symmetric] refl] drain_conserves [OF d] show ?case
    by (auto simp flip: append_assoc)
qed simp_all

text \<open>A peer that has closed its end: every \<open>select\<close> reports the socket readable and every
  \<open>recv\<close> returns 0.\<close>

definition peer_closed :: "'b round list \<Rightarrow> bool" where
  "peer_closed rs \<longleftrightarrow> (\<forall>r\<in>set rs. case r of Ready as \<Rightarrow> concat as = [] | _ \<Rightarrow> False)"

lemma receive_loop_closed: "peer_closed (rs :: 'a round list) \<Longrightarrow> receive_loop [] rs = Inl NoReturn"
proof (induction "[] :: 'a list" rs rule: receive_loop.induct)
  case (4 as rs)
  obtain m q1 where d: "drain [] as = (m, q1)" by fastforce
  have "concat as = []" "peer_closed rs" using 4(2) by (simp_all add: peer_closed_def)
  with drain_conserves [OF d] have "m = []" "q1 = []" by (metis append_Nil append_is_Nil_conv)+
  with "4.hyps" [of "(m, q1)" m] d \<open>peer_closed rs\<close> show ?case by simp
qed (auto simp: peer_closed_def)

section \<open>Connecting\<close>

text \<open>A table that holds a descriptor for each of the given channels.\<close>

definition has_channels :: "(channel, fd) std_map \<Rightarrow> channel list \<Rightarrow> bool" where
  "has_channels cs chs \<longleftrightarrow> (\<forall>ch\<in>set chs. map_find cs ch \<noteq> None)"

lemma set_nonblocking_returns_0: "set_nonblocking ok cs chs = Returns 0 \<Longrightarrow> has_channels cs chs"
  by (induction ok cs chs rule: set_nonblocking.induct)
    (auto simp: has_channels_def split: option.splits if_splits)

lemma close_channels_ok:
  "has_channels cs chs \<Longrightarrow>
     close_channels cs chs = Inr (concat (map (\<lambda>ch. [Shutdown (the (map_find cs ch)), Close (the (map_find cs ch))]) chs))"
  by (induction chs) (auto simp: has_channels_def)

lemma connect_loop_table:
  "connect_loop target ch ts as cs = Some (b, ts', as', cs') \<Longrightarrow>
     cs' = cs \<or> (\<exists>f. Connected f \<in> set as \<and> cs' = map_emplace ch f cs)"
  by (induction target ch ts as cs rule: connect_loop.induct)
    (auto split: if_splits list.splits attempt.splits)

lemma connect_loop_as: "connect_loop target ch ts as cs = Some (b, ts', as', cs') \<Longrightarrow> set as' \<subseteq> set as"
  by (induction target ch ts as cs rule: connect_loop.induct)
    (force split: if_splits list.splits attempt.splits)+

lemma connect_all_table:
  "connect_all target chs ts as cs = Some (b, cs') \<Longrightarrow> map_ok cs \<Longrightarrow>
     map_ok cs' \<and> (\<forall>ch f. map_find cs' ch = Some f \<longrightarrow> map_find cs ch = Some f \<or> Connected f \<in> set as)"
proof (induction chs arbitrary: ts as cs)
  case (Cons ch chs)
  from Cons.prems obtain b1 ts1 as1 cs1 where l: "connect_loop target ch ts as cs = Some (b1, ts1, as1, cs1)"
    by (auto split: option.splits)
  have cs1: "map_ok cs1" "\<And>c f. map_find cs1 c = Some f \<Longrightarrow> map_find cs c = Some f \<or> Connected f \<in> set as"
    using connect_loop_table [OF l] Cons.prems(2)
    by (auto simp: std_map.ok_emplace std_map.find_emplace split: if_splits)
  show ?case
  proof (cases "b1 \<and> (\<exists>t ts2. ts1 = t # ts2 \<and> \<not> t > target)")
    case True
    then obtain t ts2 where t: "ts1 = t # ts2" "\<not> t > target" "b1" by blast
    with Cons.prems(1) l have "connect_all target chs ts2 as1 cs1 = Some (b, cs')" by simp
    from Cons.IH [OF this cs1(1)] cs1(2) connect_loop_as [OF l] show ?thesis by blast
  next
    case False
    with Cons.prems(1) l have "cs' = cs1"
      by (auto split: bool.splits list.splits if_splits)
    with cs1 show ?thesis by blast
  qed
qed auto

section \<open>Properties\<close>

text \<open>C35: \<open>sendMessage\<close>, for every message of at most \<open>INT_MAX\<close> bytes: when it returns, either
  it returned 0 and exactly the message was written to the channel's socket, after what was
  written before, or it returned -1 and a proper prefix of the message was written; no other
  socket is touched.\<close>

theorem sendMessage_writes:
  assumes "length msg \<le> int_max" "map_find (conns w) ch = Some f"
    and "socket_send ch msg w = Inr (r, w')"
  shows "(r = 0 \<and> sk_wire w' f = sk_wire w f @ msg \<or>
          r = -1 \<and> (\<exists>k<length msg. sk_wire w' f = sk_wire w f @ take k msg))
     \<and> (\<forall>g. g \<noteq> f \<longrightarrow> sk_wire w' g = sk_wire w g) \<and> sk_queue w' = sk_queue w \<and> conns w' = conns w"
proof (cases "msg = []")
  case True
  with assms show ?thesis by (simp add: socket_send_def int_of_size_def)
next
  case False
  with assms(1) have pos: "\<not> sint (int_of_size msg) \<le> 0" by (simp add: nsb_simps)
  with assms(2,3) obtain evs wire where
    l: "send_loop msg (of_nat (length msg)) (of_nat 0) (sk_send w f) (sk_wire w f) = Inr (r, evs, wire)"
    and w': "w' = w\<lparr>sk_send := (sk_send w)(f := evs), sk_wire := (sk_wire w)(f := wire)\<rparr>"
    by (auto simp: socket_send_def int_of_size_def bind_res_Inr)
  from send_loop_result [OF _ assms(1) l] w' show ?thesis by auto
qed

definition wit_socket :: "nat socket_state" where
  "wit_socket = \<lparr>conns = [(CTRL, 3), (SEND_CH, 4), (RECV_CH, 5)],
     sk_send = (\<lambda>_. [Accept 2, Again, Accept 5]), sk_wire = (\<lambda>_. []), sk_queue = (\<lambda>_. []),
     sk_rounds = (\<lambda>_. [Ready [[]], Ready [[1, 2], [3], [], [4]]])\<rparr>"

theorem sendMessage_writes_witness:
  "\<exists>w'. socket_send CTRL [7, 8, 9] wit_socket = Inr (0, w') \<and> sk_wire w' 3 = [7, 8, 9]"
proof -
  have "\<exists>w'. socket_send CTRL [7, 8, 9] wit_socket = Inr (0, w')"
    by (simp add: socket_send_def int_of_size_def wit_socket_def map_find_def send_loop.simps)
  then obtain w' where "socket_send CTRL [7, 8, 9] wit_socket = Inr (0, w')" by blast
  with sendMessage_writes [of "[7, 8, 9]" wit_socket CTRL 3, OF _ _ this] show ?thesis
    by (auto simp: wit_socket_def map_find_def)
qed

text \<open>\<open>sendMessage\<close> terminates and delivers: if the kernel reports no error and, over the
  calls of \<open>send\<close>, has room for the message, the loop ends with 0 and the whole message is on
  the wire, however the kernel splits it and however often it answers \<open>EAGAIN\<close>.\<close>

theorem sendMessage_terminates:
  assumes "length msg \<le> int_max" "map_find (conns w) ch = Some f"
    and "length msg \<le> room (sk_send w f)" "SendError \<notin> set (sk_send w f)"
  shows "\<exists>w'. socket_send ch msg w = Inr (0, w') \<and> sk_wire w' f = sk_wire w f @ msg"
proof (cases "msg = []")
  case True
  with assms show ?thesis by (simp add: socket_send_def int_of_size_def)
next
  case False
  with assms(1) have pos: "\<not> sint (int_of_size msg) \<le> 0" by (simp add: nsb_simps)
  obtain evs where "send_loop msg (of_nat (length msg)) (of_nat 0) (sk_send w f) (sk_wire w f)
      = Inr (0, evs, sk_wire w f @ drop 0 msg)"
    using send_loop_returns [of msg 0 "sk_send w f" "sk_wire w f"] assms by auto
  with pos assms(2) show ?thesis
    by (auto simp: socket_send_def int_of_size_def bind_res_def)
qed

theorem sendMessage_terminates_witness:
  "\<exists>w'. socket_send SEND_CH [7, 8, 9] wit_socket = Inr (0, w') \<and> sk_wire w' 4 = sk_wire wit_socket 4 @ [7, 8, 9]"
  by (rule sendMessage_terminates) (simp_all add: wit_socket_def map_find_def)

text \<open>C40: The size is narrowed to an \<open>int\<close>: a message of between 2^31 and 2^32 bytes makes
  \<open>sendMessage\<close> return 0, success, without writing a byte.\<close>

theorem sendMessage_huge_dropped:
  assumes "2 ^ 31 \<le> length msg" "length msg < 2 ^ 32"
  shows "socket_send ch msg w = Inr (0, w)"
  using sint_int_of_size_negative [OF assms] assms(2) by (simp add: socket_send_def)

theorem sendMessage_huge_dropped_witness:
  "socket_send CTRL (replicate (2 ^ 31) (0::nat)) wit_socket = Inr (0, wit_socket)"
  by (rule sendMessage_huge_dropped) simp_all

text \<open>C36: \<open>receiveMessage\<close> neither loses, reorders nor invents bytes: what it returns, followed by
  what the kernel still holds and what is yet to arrive, is what the kernel held and what was to
  arrive before; the other sockets are untouched.\<close>

theorem receiveMessage_conserves:
  assumes "map_find (conns w) ch = Some f" "socket_receive ch timeout w = Inr (m, w')"
  shows "m @ sk_queue w' f @ arrivals (sk_rounds w' f) = sk_queue w f @ arrivals (sk_rounds w f)
     \<and> (\<forall>g. g \<noteq> f \<longrightarrow> sk_queue w' g = sk_queue w g \<and> sk_rounds w' g = sk_rounds w g)
     \<and> sk_wire w' = sk_wire w \<and> conns w' = conns w"
  using assms by (auto simp: socket_receive_def bind_res_Inr dest!: receive_loop_conserves)

theorem receiveMessage_conserves_witness:
  "\<exists>w'. socket_receive RECV_CH None wit_socket = Inr ([1, 2, 3], w') \<and> sk_queue w' 5 = [4]"
proof -
  have "\<exists>w'. socket_receive RECV_CH None wit_socket = Inr ([1, 2, 3], w')"
    by (simp add: socket_receive_def wit_socket_def map_find_def drain.simps RECEIVE_BUFFER_SIZE_def)
  then obtain w' where r: "socket_receive RECV_CH None wit_socket = Inr ([1, 2, 3], w')" by blast
  moreover have "sk_rounds w' 5 = []"
    using r by (auto simp: socket_receive_def wit_socket_def map_find_def drain.simps RECEIVE_BUFFER_SIZE_def)
  moreover note receiveMessage_conserves [of wit_socket RECV_CH 5, OF _ r]
  ultimately show ?thesis by (auto simp: wit_socket_def map_find_def)
qed

text \<open>C37: Once the daemon has closed the connection and nothing is left to read, \<open>receiveMessage\<close>
  never returns, whatever timeout was asked for: \<open>select\<close> reports the socket readable at once,
  \<open>recv\<close> returns 0, and the outer loop starts again.  It holds for schedules of every length.\<close>

theorem receiveMessage_spins_on_closed_peer:
  assumes "map_find (conns w) ch = Some f" "sk_queue w f = []" "peer_closed (sk_rounds w f)"
  shows "socket_receive ch timeout w = Inl NoReturn"
  using assms by (simp add: socket_receive_def receive_loop_closed)

theorem receiveMessage_spins_on_closed_peer_witness:
  "\<forall>n. socket_receive CTRL (Some 30) (wit_socket\<lparr>sk_rounds := \<lambda>_. replicate n (Ready [])\<rparr>) = Inl NoReturn"
proof
  fix n
  show "socket_receive CTRL (Some 30) (wit_socket\<lparr>sk_rounds := \<lambda>_. replicate n (Ready [])\<rparr>) = Inl NoReturn"
    by (rule receiveMessage_spins_on_closed_peer [of _ _ 3])
      (simp_all add: wit_socket_def map_find_def peer_closed_def)
qed

text \<open>A \<open>SocketInterface\<close> that is constructed has a connected descriptor for each of the three
  channels, so \<open>conns.at\<close> cannot throw afterwards and \<open>closeConnection\<close> shuts down and closes the
  three of them, in channel order.\<close>

theorem new_socket_interface_connected:
  assumes "new_socket_interface fcntl_ok tps ts as = Inr cs"
  shows "(\<forall>ch. \<exists>f. map_find cs ch = Some f \<and> Connected f \<in> set as) \<and>
    closeConnection cs = Inr (concat (map (\<lambda>ch. [Shutdown (the (map_find cs ch)),
      Close (the (map_find cs ch))]) Channels))"
proof -
  obtain start ts' where ts: "ts = start # ts'"
    and a: "connect_all (start + SERVER_CONNECTION_TIMEOUT * tps) Channels ts' as [] = Some (True, cs)"
    and n: "set_nonblocking fcntl_ok cs Channels = Returns 0"
    using assms by (auto simp: new_socket_interface_def connectToServer_def
        split: option.splits list.splits connect_end.splits if_splits bool.splits)
  have h: "has_channels cs Channels" by (rule set_nonblocking_returns_0 [OF n])
  with connect_all_table [OF a] Channels_all have "\<forall>ch. \<exists>f. map_find cs ch = Some f \<and> Connected f \<in> set as"
    unfolding has_channels_def by (metis map_ok_Nil option.distinct(1) option.exhaust std_map.find_empty)
  moreover have "closeConnection cs = Inr (concat (map (\<lambda>ch. [Shutdown (the (map_find cs ch)),
      Close (the (map_find cs ch))]) Channels))"
    unfolding closeConnection_def by (rule close_channels_ok [OF h])
  ultimately show ?thesis ..
qed

theorem new_socket_interface_connected_witness:
  "\<exists>cs. new_socket_interface (\<lambda>_. True) 1 [0, 1, 1, 2, 3, 3, 4, 4] [Refused 9, Connected 3, Connected 4, Connected 5] = Inr cs
     \<and> closeConnection cs = Inr [Shutdown 3, Close 3, Shutdown 4, Close 4, Shutdown 5, Close 5]"
proof -
  let ?cs = "[(CTRL, 3), (SEND_CH, 4), (RECV_CH, 5)]"
  have n: "new_socket_interface (\<lambda>_. True) 1 [0, 1, 1, 2, 3, 3, 4, 4] [Refused 9, Connected 3, Connected 4, Connected 5] = Inr ?cs"
    by (simp add: new_socket_interface_def connectToServer_def Channels_def SERVER_CONNECTION_TIMEOUT_def
        less_channel_def map_find_def)
  from new_socket_interface_connected [OF n] n show ?thesis
    by (simp add: Channels_def map_find_def)
qed

text \<open>The time-out test of \<open>connectToServer\<close> is strict on both sides: a clock reading that equals
  the deadline ends the retry loop and passes the test after it, so the channels stay
  unconnected and \<open>conns.at\<close> throws.\<close>

theorem connect_at_deadline_throws:
  "new_socket_interface fcntl_ok tps
     (t # replicate 6 (t + SERVER_CONNECTION_TIMEOUT * tps)) as = Inl OutOfRange"
  by (simp add: new_socket_interface_def connectToServer_def Channels_def numeral_eq_Suc map_find_def)

end
