(* ===== verification/NSB_Redis.thy ===== *)
theory NSB_Redis
  imports NSB_Types
begin

text \<open>
  The payload store of \<open>cpp/include/nsb.h\<close> and \<open>cpp/src/nsb.cc\<close>: the key generator of
  \<open>DBConnector\<close> and the operations of \<open>RedisConnector\<close>.  The Redis server and the hiredis
  library are parameters: \<open>exec\<close> receives the argument vector of a command and returns the
  reply, \<open>None\<close> when the connection failed (hiredis then returns a null reply and sets
  \<open>context->err\<close>).  What Redis documents about the three commands is \<open>redis_laws\<close>.
\<close>

section \<open>Connectors\<close>

datatype redis_reply = NilReply | StrReply string | StatusReply string | ErrorReply string

text \<open>\<open>reply->str\<close> and \<open>reply->len\<close> of a reply that carries a string.\<close>

fun reply_str :: "redis_reply \<Rightarrow> string" where
  "reply_str (StrReply s) = s"
| "reply_str (StatusReply s) = s"
| "reply_str (ErrorReply s) = s"
| "reply_str NilReply = []"

type_synonym 's redis_exec = "string list \<Rightarrow> 's \<Rightarrow> redis_reply option \<times> 's"

text \<open>\<open>rctx\<close> is the context pointer: \<open>None\<close> for a null pointer and otherwise says whether \<open>context->err\<close> is set.\<close>

record redis_connector =
  rc_client :: string
  plctr :: i32
  rc_address :: string
  rc_port :: i32
  rctx :: "bool option"

datatype redis_fault = NullContext | NullReply

text \<open>\<open>DBConnector::generatePayloadId\<close>; \<open>now\<close> is \<open>system_clock::now().time_since_epoch().count()\<close>,
  which is cast to a 32-bit \<open>int\<close>.\<close>

definition payload_id :: "i32 \<Rightarrow> string \<Rightarrow> i32 \<Rightarrow> string" where
  "payload_id tms cid ctr = to_string (sint tms) @ ''-'' @ cid @ ''-'' @ to_string (sint ctr)"

definition generatePayloadId :: "int \<Rightarrow> redis_connector \<Rightarrow> string \<times> redis_connector" where
  "generatePayloadId now c = (let ctr = (plctr c + 1) AND 0xFFFFF; tms = (word_of_int now :: i32)
     in (payload_id tms (rc_client c) ctr, c\<lparr>plctr := ctr\<rparr>))"

definition isConnected :: "redis_connector \<Rightarrow> bool" where
  "isConnected c \<longleftrightarrow> rctx c = Some False"

text \<open>\<open>RedisConnector::connect\<close>: \<open>redisConnect\<close> returned \<open>ctx\<close>, a null pointer when it could
  not allocate a context; \<open>context->err\<close> is then read through it.\<close>

definition connect :: "bool option \<Rightarrow> redis_connector \<Rightarrow> redis_fault + redis_connector \<times> bool" where
  "connect ctx c = (case ctx of None \<Rightarrow> Inl NullContext
     | Some err \<Rightarrow> Inr (c\<lparr>rctx := Some err\<rparr>, \<not> err))"

text \<open>The constructor: a fresh counter, then \<open>connect\<close>.\<close>

definition new_redis :: "bool option \<Rightarrow> string \<Rightarrow> string \<Rightarrow> i32 \<Rightarrow> redis_fault + redis_connector \<times> bool" where
  "new_redis ctx cid addr port = connect ctx
     \<lparr>rc_client = cid, plctr = 0, rc_address = addr, rc_port = port, rctx = None\<rparr>"

text \<open>\<open>disconnect\<close>, with the context that goes to \<open>redisFree\<close> (nothing for a null pointer), and the
  destructor, which calls it only while there is no error.\<close>

definition disconnect :: "redis_connector \<Rightarrow> bool list" where
  "disconnect c = (case rctx c of None \<Rightarrow> [] | Some err \<Rightarrow> [err])"

definition destroy_redis :: "redis_connector \<Rightarrow> bool list" where
  "destroy_redis c = (if isConnected c then disconnect c else [])"

lemma destroy_redis_frees: "destroy_redis c = (if rctx c = Some False then [False] else [])"
  by (simp add: destroy_redis_def isConnected_def disconnect_def)

section \<open>Operations\<close>

text \<open>\<open>redisCommand(context, "SET %s %s", key.c_str(), value.c_str())\<close> and its siblings:
  every \<open>%s\<close> becomes one argument, read up to its NUL.\<close>

definition set_cmd :: "string \<Rightarrow> string \<Rightarrow> string list" where
  "set_cmd k v = [''SET'', c_str k, c_str v]"

definition getdel_cmd :: "string \<Rightarrow> string list" where
  "getdel_cmd k = [''GETDEL'', c_str k]"

definition get_cmd :: "string \<Rightarrow> string list" where
  "get_cmd k = [''GET'', c_str k]"

definition mark_err :: "redis_connector \<Rightarrow> redis_connector" where
  "mark_err c = c\<lparr>rctx := Some True\<rparr>"

definition store :: "'s redis_exec \<Rightarrow> int \<Rightarrow> string \<Rightarrow> redis_connector \<Rightarrow> 's \<Rightarrow>
    string \<times> redis_connector \<times> 's" where
  "store exec now v c s = (if \<not> isConnected c then ([], c, s)
     else let (key, c1) = generatePayloadId now c in
       (case exec (set_cmd key v) s of
          (None, s1) \<Rightarrow> ([], mark_err c1, s1)
        | (Some reply, s1) \<Rightarrow> (key, c1, s1)))"

definition checkOut :: "'s redis_exec \<Rightarrow> string \<Rightarrow> redis_connector \<Rightarrow> 's \<Rightarrow>
    string \<times> redis_connector \<times> 's" where
  "checkOut exec key c s = (if \<not> isConnected c then ([], c, s)
     else (case exec (getdel_cmd key) s of
          (None, s1) \<Rightarrow> ([], mark_err c, s1)
        | (Some reply, s1) \<Rightarrow> (if reply \<noteq> NilReply then reply_str reply else [], c, s1)))"

text \<open>\<open>peek\<close> reads \<open>reply->type\<close> without looking at \<open>context->err\<close> first.\<close>

definition peek :: "'s redis_exec \<Rightarrow> string \<Rightarrow> redis_connector \<Rightarrow> 's \<Rightarrow>
    redis_fault + string \<times> redis_connector \<times> 's" where
  "peek exec key c s = (if \<not> isConnected c then Inr ([], c, s)
     else (case exec (get_cmd key) s of
          (None, s1) \<Rightarrow> Inl NullReply
        | (Some reply, s1) \<Rightarrow> Inr (if reply \<noteq> NilReply then reply_str reply else [], c, s1)))"

section \<open>Keys\<close>

lemma minus_split_first:
  "x \<notin> set us \<Longrightarrow> x \<notin> set us' \<Longrightarrow> us @ x # vs = us' @ x # vs' \<longleftrightarrow> us = us' \<and> vs = vs'"
  by (auto simp: append_eq_append_conv2 append_eq_Cons_conv Cons_eq_append_conv)

lemma minus_split_last:
  assumes "x \<notin> set vs" "x \<notin> set vs'"
  shows "us @ x # vs = us' @ x # vs' \<longleftrightarrow> us = us' \<and> vs = vs'"
proof -
  have "us @ x # vs = us' @ x # vs' \<longleftrightarrow> rev vs @ x # rev us = rev vs' @ x # rev us'"
    by (metis append.assoc append_Cons append_Nil rev.simps(2) rev_append rev_is_rev_conv)
  also have "\<dots> \<longleftrightarrow> us = us' \<and> vs = vs'"
    using assms by (subst minus_split_first) auto
  finally show ?thesis .
qed

lemma to_string_split_minus:
  "to_string i @ CHR ''-'' # vs = to_string j @ CHR ''-'' # vs' \<longleftrightarrow> i = j \<and> vs = vs'"
proof -
  have ne: "nat_digits n @ CHR ''-'' # ws \<noteq> CHR ''-'' # ws'" for n ws ws'
    by (metis append_is_Nil_conv hd_append2 hd_in_set list.sel(1) minus_notin_nat_digits nat_digits_nonempty)
  show ?thesis
    using ne ne [symmetric] by (auto simp: to_string_def minus_split_first)
qed

lemma minus_notin_to_string_nonneg: "0 \<le> i \<Longrightarrow> CHR ''-'' \<notin> set (to_string i)"
  by (simp add: to_string_def)

lemma payload_id_inj:
  assumes "0 \<le> sint n" "0 \<le> sint n'"
  shows "payload_id t c n = payload_id t' c' n' \<longleftrightarrow> t = t' \<and> c = c' \<and> n = n'"
proof -
  have "payload_id t c n = payload_id t' c' n' \<longleftrightarrow> t = t' \<and>
      c @ CHR ''-'' # to_string (sint n) = c' @ CHR ''-'' # to_string (sint n')"
    using to_string_split_minus [of "sint t" _ "sint t'"]
    by (auto simp: payload_id_def intro: signed_word_eqI)
  also have "\<dots> \<longleftrightarrow> t = t' \<and> c = c' \<and> n = n'"
    using assms by (auto simp: minus_split_last minus_notin_to_string_nonneg intro: signed_word_eqI)
  finally show ?thesis .
qed

text \<open>The counter runs modulo \<open>2 ^ 20\<close>.\<close>

lemma and_mask20: "(w::i32) AND 0xFFFFF = take_bit 20 w"
proof -
  have "(mask 20 :: i32) = 0xFFFFF" by (simp add: mask_eq_exp_minus_1)
  then show ?thesis by (metis take_bit_eq_mask)
qed

lemma plctr_generate: "plctr (snd (generatePayloadId now c)) = take_bit 20 (plctr c + 1)"
  by (simp add: generatePayloadId_def Let_def and_mask20)

lemma rc_client_generate [simp]: "rc_client (snd (generatePayloadId now c)) = rc_client c"
  by (simp add: generatePayloadId_def Let_def)

lemma context_generate [simp]: "rctx (snd (generatePayloadId now c)) = rctx c"
  by (simp add: generatePayloadId_def Let_def)

lemma key_generate: "fst (generatePayloadId now c) =
    payload_id (word_of_int now) (rc_client c) (plctr (snd (generatePayloadId now c)))"
  by (simp add: generatePayloadId_def Let_def)

fun generate_keys :: "int list \<Rightarrow> redis_connector \<Rightarrow> string list" where
  "generate_keys [] c = []"
| "generate_keys (t # ts) c = (let (k, c1) = generatePayloadId t c in k # generate_keys ts c1)"

lemma take_bit20_add: "take_bit 20 (take_bit 20 a + b) = take_bit 20 (a + b :: i32)"
  by transfer (simp add: take_bit_eq_mod mod_simps mod_mod_cancel)

lemma nth_generate_keys:
  "i < length ts \<Longrightarrow> generate_keys ts c ! i =
     payload_id (word_of_int (ts ! i)) (rc_client c) (take_bit 20 (plctr c + of_nat (Suc i)))"
proof (induction ts arbitrary: c i)
  case Nil
  then show ?case by simp
next
  case (Cons t ts)
  obtain k c1 where g: "generatePayloadId t c = (k, c1)" by fastforce
  have c1: "plctr c1 = take_bit 20 (plctr c + 1)" "rc_client c1 = rc_client c"
    using plctr_generate [of t c] rc_client_generate [of t c] g by simp_all
  show ?case
  proof (cases i)
    case 0
    with g key_generate [of t c] c1 show ?thesis by simp
  next
    case (Suc j)
    with Cons.prems Cons.IH [of j c1] g c1
    have "generate_keys (t # ts) c ! i = payload_id (word_of_int (ts ! j)) (rc_client c)
        (take_bit 20 (take_bit 20 (plctr c + 1) + of_nat (Suc j)))" by simp
    moreover have "plctr c + 1 + of_nat (Suc j) = plctr c + of_nat (Suc i)"
      using Suc by (simp add: ac_simps)
    ultimately show ?thesis using Suc by (simp only: take_bit20_add nth_Cons_Suc)
  qed
qed

lemma length_generate_keys [simp]: "length (generate_keys ts c) = length ts"
  by (induction ts arbitrary: c) (auto split: prod.splits)

lemma sint_take_bit20: "sint (take_bit 20 (w::i32)) = uint (take_bit 20 w)"
proof -
  have "uint (take_bit 20 w) < 2 ^ 20"
    by (simp add: unsigned_take_bit_eq take_bit_int_less_exp [of 20, simplified])
  moreover have "0 \<le> uint (take_bit 20 w)" by simp
  ultimately show ?thesis
    unfolding sint_uint by (intro signed_take_bit_int_eq_self) (auto intro: order_trans [of _ 0])
qed

lemma sint_take_bit20_nonneg [simp]: "0 \<le> sint (take_bit 20 (w::i32))"
  by (simp add: sint_take_bit20)

lemma of_nat_counter_inj:
  assumes "take_bit 20 (p + of_nat i :: i32) = take_bit 20 (p + of_nat j)" "i < 2 ^ 20" "j < 2 ^ 20"
  shows "i = j"
proof -
  have mods: "(uint p + int n) mod 2 ^ 20 = uint (take_bit 20 (p + of_nat n :: i32))" for n
  proof -
    have "uint (take_bit 20 (p + of_nat n :: i32)) = take_bit 20 (take_bit 32 (uint p + int n))"
      unfolding unsigned_take_bit_eq uint_word_ariths(1) unsigned_of_nat
      by (simp add: take_bit_eq_mod zmod_int mod_simps)
    then show ?thesis by (simp add: take_bit_eq_mod mod_mod_cancel)
  qed
  have "(uint p + int i) mod 2 ^ 20 = (uint p + int j) mod 2 ^ 20"
    unfolding mods assms(1) ..
  then have "(uint p + int i - uint p) mod 2 ^ 20 = (uint p + int j - uint p) mod 2 ^ 20"
    by (rule mod_diff_cong) simp
  with assms(2,3) show ?thesis by simp
qed

section \<open>What Redis documents\<close>

text \<open>\<open>view s\<close> is the key space: SET binds the key, GETDEL returns the value and unbinds it, GET
  returns it.\<close>

definition redis_laws :: "'s redis_exec \<Rightarrow> ('s \<Rightarrow> string \<Rightarrow> string option) \<Rightarrow> bool" where
  "redis_laws exec view \<longleftrightarrow> (\<forall>s k v.
     (\<exists>s'. exec [''SET'', k, v] s = (Some (StatusReply ''OK''), s') \<and> view s' = (view s)(k \<mapsto> v)) \<and>
     (\<exists>s'. exec [''GETDEL'', k] s = (Some (case view s k of None \<Rightarrow> NilReply | Some x \<Rightarrow> StrReply x), s')
        \<and> view s' = (view s)(k := None)) \<and>
     (\<exists>s'. exec [''GET'', k] s = (Some (case view s k of None \<Rightarrow> NilReply | Some x \<Rightarrow> StrReply x), s')
        \<and> view s' = view s))"

lemma redis_lawsE:
  assumes "redis_laws exec view"
  obtains (set) s' where "exec [''SET'', k, v] s = (Some (StatusReply ''OK''), s')" "view s' = (view s)(k \<mapsto> v)"
  using assms unfolding redis_laws_def by blast

lemma redis_getdel:
  assumes "redis_laws exec view"
  obtains s' where "exec [''GETDEL'', k] s = (Some (case view s k of None \<Rightarrow> NilReply | Some x \<Rightarrow> StrReply x), s')"
    "view s' = (view s)(k := None)"
  using assms unfolding redis_laws_def by blast

lemma redis_get:
  assumes "redis_laws exec view"
  obtains s' where "exec [''GET'', k] s = (Some (case view s k of None \<Rightarrow> NilReply | Some x \<Rightarrow> StrReply x), s')"
    "view s' = view s"
  using assms unfolding redis_laws_def by blast

text \<open>A concrete server for the witnesses.\<close>

definition map_server :: "(string \<Rightarrow> string option) redis_exec" where
  "map_server argv s = (case argv of
     [c, k, v] \<Rightarrow> (Some (StatusReply ''OK''), s(k \<mapsto> v))
   | [c, k] \<Rightarrow> (Some (case s k of None \<Rightarrow> NilReply | Some x \<Rightarrow> StrReply x),
               if c = ''GETDEL'' then s(k := None) else s)
   | _ \<Rightarrow> (Some (ErrorReply ''ERR''), s))"

lemma map_server_laws [simp]: "redis_laws map_server (\<lambda>s. s)"
  by (simp add: redis_laws_def map_server_def)

text \<open>The three operations of a connected connector on a lawful server; keys and values reach the
  server cut at their first NUL.\<close>

lemma store_lawful:
  assumes "redis_laws exec view" "isConnected c"
  obtains c1 s1 where
    "store exec now v c s = (fst (generatePayloadId now c), c1, s1)" "isConnected c1"
    "c1 = snd (generatePayloadId now c)"
    "view s1 = (view s)(c_str (fst (generatePayloadId now c)) \<mapsto> c_str v)"
proof -
  let ?k = "fst (generatePayloadId now c)"
  from assms(1) obtain s1 where "exec (set_cmd ?k v) s = (Some (StatusReply ''OK''), s1)"
    "view s1 = (view s)(c_str ?k \<mapsto> c_str v)"
    unfolding set_cmd_def by (rule redis_lawsE)
  with assms(2) show ?thesis
    by (intro that [of "snd (generatePayloadId now c)" s1])
      (auto simp: store_def isConnected_def split: prod.split)
qed

lemma checkOut_lawful:
  assumes "redis_laws exec view" "isConnected c"
  obtains s1 where "checkOut exec key c s = (case view s (c_str key) of None \<Rightarrow> [] | Some x \<Rightarrow> x, c, s1)"
    "view s1 = (view s)(c_str key := None)"
proof -
  obtain s1 where "exec (getdel_cmd key) s =
      (Some (case view s (c_str key) of None \<Rightarrow> NilReply | Some x \<Rightarrow> StrReply x), s1)"
    "view s1 = (view s)(c_str key := None)"
    using redis_getdel [OF assms(1)] unfolding getdel_cmd_def by blast
  with assms(2) show ?thesis
    by (intro that [of s1]) (auto simp: checkOut_def split: option.split)
qed

lemma peek_lawful:
  assumes "redis_laws exec view" "isConnected c"
  obtains s1 where "peek exec key c s = Inr (case view s (c_str key) of None \<Rightarrow> [] | Some x \<Rightarrow> x, c, s1)"
    "view s1 = view s"
proof -
  obtain s1 where "exec (get_cmd key) s =
      (Some (case view s (c_str key) of None \<Rightarrow> NilReply | Some x \<Rightarrow> StrReply x), s1)"
    "view s1 = view s"
    using redis_get [OF assms(1)] unfolding get_cmd_def by blast
  with assms(2) show ?thesis
    by (intro that [of s1]) (auto simp: peek_def split: option.split)
qed

section \<open>Properties\<close>

text \<open>In any sequence of at most 2^20 calls of \<open>generatePayloadId\<close> the keys are pairwise
  distinct, whatever the clock says at each call (it may stand still or run backwards).\<close>

theorem generated_keys_distinct:
  "length ts \<le> 2 ^ 20 \<Longrightarrow> distinct (generate_keys ts c)"
  unfolding distinct_conv_nth
  by (auto simp: nth_generate_keys payload_id_inj add.assoc [symmetric] dest!: of_nat_counter_inj)

theorem generated_keys_distinct_witness:
  "distinct (generate_keys [7, 7, 7]
     \<lparr>rc_client = ''a'', plctr = 0xFFFFE, rc_address = [], rc_port = 0, rctx = Some False\<rparr>)"
  by (rule generated_keys_distinct) simp

text \<open>Keys of two clients with different identifiers never collide, whatever their clocks
  and counters: the key determines the identifier, even where identifiers contain
  dashes and digits.\<close>

theorem generated_keys_disjoint:
  "rc_client c \<noteq> rc_client c' \<Longrightarrow> set (generate_keys ts c) \<inter> set (generate_keys ts' c') = {}"
  by (auto simp: set_conv_nth nth_generate_keys payload_id_inj)

theorem generated_keys_disjoint_witness:
  "set (generate_keys [5] \<lparr>rc_client = ''a-1'', plctr = 0, rc_address = [], rc_port = 0, rctx = Some False\<rparr>)
     \<inter> set (generate_keys [5] \<lparr>rc_client = ''a'', plctr = 0, rc_address = [], rc_port = 0, rctx = Some False\<rparr>) = {}"
  by (rule generated_keys_disjoint) simp

text \<open>Through a connected connector and a server that behaves as documented, a stored payload
  comes back from \<open>peek\<close> and from \<open>checkOut\<close> by the key that \<open>store\<close> returned, cut at its
  first NUL byte (\<open>c_str\<close>); \<open>checkOut\<close> removes it, so that a second one yields nothing.  A payload without a NUL
  byte hence comes back as it was.\<close>

theorem store_peek_checkOut:
  assumes "redis_laws exec view" "isConnected c" "store exec now v c s = (key, c1, s1)"
  shows "\<exists>s2 s3 s4. peek exec key c1 s1 = Inr (c_str v, c1, s2) \<and>
     checkOut exec key c1 s2 = (c_str v, c1, s3) \<and> checkOut exec key c1 s3 = ([], c1, s4)"
proof -
  from assms have c1: "isConnected c1" and v1: "view s1 (c_str key) = Some (c_str v)"
    by (auto elim!: store_lawful [of exec view c now v s])
  obtain s2 where p: "peek exec key c1 s1 = Inr (c_str v, c1, s2)" "view s2 = view s1"
    using peek_lawful [OF assms(1) c1, of key s1] v1 by auto
  obtain s3 where q: "checkOut exec key c1 s2 = (c_str v, c1, s3)" "view s3 (c_str key) = None"
    using checkOut_lawful [OF assms(1) c1, of key s2] v1 p(2) by (metis fun_upd_same option.simps(5))
  obtain s4 where "checkOut exec key c1 s3 = ([], c1, s4)"
    using checkOut_lawful [OF assms(1) c1, of key s3] q(2) by (metis option.simps(4))
  with p q show ?thesis by blast
qed

definition wit_redis :: redis_connector where
  "wit_redis = \<lparr>rc_client = ''app1'', plctr = 0, rc_address = ''127.0.0.1'', rc_port = 6379, rctx = Some False\<rparr>"

theorem store_peek_checkOut_witness:
  "\<exists>key c1 s1 s2. store map_server 100 [CHR ''h'', CHR ''i'', CHR 0x00, CHR ''x''] wit_redis Map.empty = (key, c1, s1) \<and>
     peek map_server key c1 s1 = Inr (''hi'', c1, s2)"
proof -
  obtain key c1 s1 where st: "store map_server 100 [CHR ''h'', CHR ''i'', CHR 0x00, CHR ''x''] wit_redis Map.empty = (key, c1, s1)"
    by (metis prod_cases3)
  have "isConnected wit_redis" by (simp add: isConnected_def wit_redis_def)
  from store_peek_checkOut [OF map_server_laws this st] st show ?thesis
    by (auto simp: c_str_def)
qed

text \<open>\<open>store\<close> never looks at the kind of the server's reply: when Redis refuses the SET
  (read-only replica, out of memory, wrong credentials), it still returns a fresh key as if the
  payload were stored, and \<open>checkOut\<close> of any key hands the text of an error reply to the
  application as a payload.\<close>

theorem redis_errors_taken_for_data:
  assumes "isConnected c"
    and "exec (set_cmd (fst (generatePayloadId now c)) v) s = (Some (ErrorReply e), s1)"
    and "exec (getdel_cmd key) s1 = (Some (ErrorReply e'), s2)"
  shows "store exec now v c s = (fst (generatePayloadId now c), snd (generatePayloadId now c), s1) \<and>
    checkOut exec key c s1 = (e', c, s2)"
  using assms by (auto simp: store_def checkOut_def split: prod.split)

definition readonly_server :: "unit redis_exec" where
  "readonly_server argv s = (Some (ErrorReply ''READONLY''), s)"

theorem redis_errors_taken_for_data_witness:
  "store readonly_server 1 ''hi'' wit_redis () = (''1-app1-1'', wit_redis\<lparr>plctr := 1\<rparr>, ()) \<and>
   checkOut readonly_server ''1-app1-1'' wit_redis () = (''READONLY'', wit_redis, ())"
proof -
  have c: "isConnected wit_redis" by (simp add: isConnected_def wit_redis_def)
  have g: "generatePayloadId 1 wit_redis = (''1-app1-1'', wit_redis\<lparr>plctr := 1\<rparr>)"
    by (simp add: generatePayloadId_def payload_id_def wit_redis_def Let_def to_string_def
        nat_digits.simps digit_char_def)
  show ?thesis
    using redis_errors_taken_for_data [OF c, of readonly_server 1 "''hi''" "()" "''READONLY''" "()"
        "''1-app1-1''" "''READONLY''" "()"] g
    by (simp add: readonly_server_def)
qed

end
