(* ===== verification/NSB_Client.thy ===== *)
theory NSB_Client
  imports NSB_Socket NSB_Redis
begin

text \<open>
  The client library (\<open>cpp/include/nsb_client.h\<close>, \<open>cpp/src/nsb_client.cc\<close>): \<open>NSBClient\<close>
  (initialize, ping, exit) and its two derived classes \<open>NSBAppClient\<close> (send, receive) and
  \<open>NSBSimClient\<close> (fetch, post).  An operation takes the client and the world it acts on and
  returns the new client, its result and the new world; \<open>Inl\<close> says why it yields no value.
\<close>

section \<open>The client and its world\<close>

record client =
  clientId :: string
  originIndicator :: "originator option"
  c_cfg :: cfg
  db :: "redis_connector option"

text \<open>What a client uses from outside: Protobuf, its communication interface, the local address of
  a channel (\<open>None\<close> when \<open>getsockname\<close> fails or the family is not \<open>AF_INET\<close>), hiredis and the
  Redis server, the clock, and the memory in which \<open>Config(nsbm)\<close> builds its object.\<close>

record ('b, 'w) client_env =
  pb :: "'b io_env"
  comm :: "('b, 'w) comms"
  sockname :: "channel \<Rightarrow> (string \<times> i32) option"
  redisConnect :: "string \<Rightarrow> i32 \<Rightarrow> bool option"
  redisCommand :: "'w redis_exec"
  clock :: "'w \<Rightarrow> int"
  indeterminate :: cfg

definition DAEMON_RESPONSE_TIMEOUT :: i32 where "DAEMON_RESPONSE_TIMEOUT = 30"

text \<open>\<open>SerializeAsString\<close>, which returns the empty string when it fails.\<close>

definition SerializeAsString :: "'b io_env \<Rightarrow> nsbm \<Rightarrow> 'b list" where
  "SerializeAsString e m = (case serialize e m of None \<Rightarrow> [] | Some bs \<Rightarrow> bs)"

lemma SerializeAsString_parse:
  "transmits env m \<Longrightarrow> parse env (SerializeAsString env m) = Some m"
  by (auto simp: SerializeAsString_def elim!: transmitsE)

text \<open>\<open>NSBClient::NSBClient\<close>, and the two constructors up to the call of \<open>initialize\<close>.\<close>

definition new_client :: "string \<Rightarrow> client" where
  "new_client ident = \<lparr>clientId = ident, originIndicator = None, c_cfg = default_cfg, db = None\<rparr>"

definition new_app_client :: "string \<Rightarrow> client" where
  "new_app_client ident = (new_client ident)\<lparr>originIndicator := Some APP_CLIENT\<rparr>"

definition new_sim_client :: "string \<Rightarrow> client" where
  "new_sim_client ident = (new_client ident)\<lparr>originIndicator := Some SIM_CLIENT\<rparr>"

text \<open>The destructors: \<open>~NSBClient\<close> closes the interface, which is then destroyed as a member and closes
  itself.\<close>

definition destroy_interface :: "(channel, fd) std_map \<Rightarrow> io_stop + sys_call list" where
  "destroy_interface cs = closeConnection cs"

definition destroy_client :: "(channel, fd) std_map \<Rightarrow> io_stop + sys_call list" where
  "destroy_client cs = bind_res (closeConnection cs) (\<lambda>calls.
     bind_res (destroy_interface cs) (\<lambda>again. Inr (calls @ again)))"

definition msgGetPayloadObj :: "client \<Rightarrow> nsbm \<Rightarrow> string" where
  "msgGetPayloadObj c m = (if USE_DB (c_cfg c) then msg_key m else payload m)"

text \<open>\<open>msgSetPayloadObj\<close> takes its message by value: the caller's message, the result here, is
  what it was.\<close>

definition msgSetPayloadObj :: "client \<Rightarrow> string \<Rightarrow> nsbm \<Rightarrow> nsbm" where
  "msgSetPayloadObj c obj m =
     (let local_copy = (if USE_DB (c_cfg c) then set_msg_key obj m else set_payload obj m) in m)"

section \<open>Messages\<close>

text \<open>Every request starts with the three manifest setters.\<close>

definition request :: "operation \<Rightarrow> originator \<Rightarrow> op_code \<Rightarrow> nsbm" where
  "request opn og code = head_of opn og code empty_nsbm"

text \<open>\<open>getSetChannelAddrPort\<close>; its result is not looked at.\<close>

definition set_port :: "channel \<Rightarrow> i32 \<Rightarrow> intro_details \<Rightarrow> intro_details" where
  "set_port ch p i = (case ch of CTRL \<Rightarrow> i\<lparr>ch_CTRL := p\<rparr> | SEND_CH \<Rightarrow> i\<lparr>ch_SEND := p\<rparr> | RECV_CH \<Rightarrow> i\<lparr>ch_RECV := p\<rparr>)"

definition getSetChannelAddrPort :: "(channel \<Rightarrow> (string \<times> i32) option) \<Rightarrow> channel \<Rightarrow> bool \<Rightarrow> nsbm \<Rightarrow> nsbm" where
  "getSetChannelAddrPort names ch setAddress m = (case names ch of None \<Rightarrow> m
     | Some (addr, port) \<Rightarrow> set_intro (\<lambda>i. if setAddress then (set_port ch port i)\<lparr>address := addr\<rparr> else set_port ch port i) m)"

definition init_request :: "(channel \<Rightarrow> (string \<times> i32) option) \<Rightarrow> string \<Rightarrow> originator \<Rightarrow> nsbm" where
  "init_request names ident og =
     getSetChannelAddrPort names RECV_CH False
       (getSetChannelAddrPort names SEND_CH False
         (getSetChannelAddrPort names CTRL True
           (set_intro (\<lambda>i. i\<lparr>client_identifier := ident\<rparr>) (request INIT og SUCCESS))))"

text \<open>A payload message (SEND or POST) with its payload or its key.\<close>

definition data_message :: "operation \<Rightarrow> originator \<Rightarrow> string \<Rightarrow> string \<Rightarrow> string \<Rightarrow> (nsbm \<Rightarrow> nsbm) \<Rightarrow> nsbm" where
  "data_message opn og src dest pl put =
     put (set_metadata (\<lambda>h. h\<lparr>src_id := src, dest_id := dest, payload_size := int_of_size pl\<rparr>)
       (request opn og MESSAGE))"

section \<open>initialize, ping, exit\<close>

text \<open>\<open>initialize\<close> after a response with a configuration: the connector's constructor moves the
  address out of \<open>cfg\<close> (the standard library leaves it empty).\<close>

definition setup_db :: "(string \<Rightarrow> i32 \<Rightarrow> bool option) \<Rightarrow> client \<Rightarrow> io_stop + client" where
  "setup_db rconn c = (if \<not> USE_DB (c_cfg c) then Inr c
     else case new_redis (rconn (DB_ADDRESS (c_cfg c)) (DB_PORT (c_cfg c))) (clientId c)
                 (DB_ADDRESS (c_cfg c)) (DB_PORT (c_cfg c)) of
         Inl _ \<Rightarrow> Inl NullPointer
       | Inr (conn, _) \<Rightarrow>
           (if isConnected conn
            then Inr (c\<lparr>db := Some conn, c_cfg := (c_cfg c)\<lparr>DB_ADDRESS := []\<rparr>\<rparr>)
            else Inl ProcessExit))"

definition handle_init_response :: "('b, 'w) client_env \<Rightarrow> 'b list \<Rightarrow> client \<Rightarrow> io_stop + client" where
  "handle_init_response env response c =
     (if response = [] then Inr c
      else case parse (pb env) response of None \<Rightarrow> Inr c
       | Some m \<Rightarrow>
          (if man_op (manifest m) = INIT
           then (if man_code (manifest m) \<noteq> SUCCESS then Inl ProcessExit
                 else if has_config m
                 then setup_db (redisConnect env) (c\<lparr>c_cfg := cfg_of_msg (indeterminate env) m\<rparr>)
                 else Inr c)
           else Inr c))"

definition initialize :: "('b, 'w) client_env \<Rightarrow> client \<Rightarrow> 'w \<Rightarrow> io_stop + client \<times> 'w" where
  "initialize env c w = (case originIndicator c of None \<Rightarrow> Inr (c, w)
     | Some og \<Rightarrow>
        bind_res (sendMessage (comm env) CTRL (SerializeAsString (pb env) (init_request (sockname env) (clientId c) og)) w)
         (\<lambda>(_, w1). bind_res (receiveMessage (comm env) CTRL (Some DAEMON_RESPONSE_TIMEOUT) w1)
         (\<lambda>(response, w2). bind_res (handle_init_response env response c) (\<lambda>c'. Inr (c', w2)))))"

definition ping_ok :: "nsbm option \<Rightarrow> bool" where
  "ping_ok r = (case r of None \<Rightarrow> False
     | Some m \<Rightarrow> man_op (manifest m) = PING \<and> man_code (manifest m) = SUCCESS)"

definition ping :: "('b, 'w) client_env \<Rightarrow> client \<Rightarrow> 'w \<Rightarrow> io_stop + bool \<times> 'w" where
  "ping env c w = (case originIndicator c of None \<Rightarrow> Inr (False, w)
     | Some og \<Rightarrow>
        bind_res (sendMessage (comm env) CTRL (SerializeAsString (pb env) (request PING og SUCCESS)) w)
         (\<lambda>(_, w1). bind_res (receiveMessage (comm env) CTRL (Some DAEMON_RESPONSE_TIMEOUT) w1)
         (\<lambda>(response, w2). Inr (if response = [] then False else ping_ok (parse (pb env) response), w2))))"

text \<open>\<open>exit\<close> dereferences the origin indicator without a test.\<close>

definition exit_daemon :: "('b, 'w) client_env \<Rightarrow> client \<Rightarrow> 'w \<Rightarrow> io_stop + 'w" where
  "exit_daemon env c w = (case originIndicator c of None \<Rightarrow> Inl NullPointer
     | Some og \<Rightarrow> bind_res (sendMessage (comm env) CTRL (SerializeAsString (pb env) (request EXIT og SUCCESS)) w)
         (\<lambda>(_, w1). Inr w1))"

section \<open>Sending\<close>

text \<open>What \<open>send\<close> and \<open>post\<close> share after the metadata: store the payload or put it into the
  message.  The result is the body setter, the key and the new state.\<close>

definition store_payload :: "('b, 'w) client_env \<Rightarrow> string \<Rightarrow> client \<Rightarrow> 'w \<Rightarrow>
    io_stop + (nsbm \<Rightarrow> nsbm) \<times> string \<times> client \<times> 'w" where
  "store_payload env pl c w = (if USE_DB (c_cfg c)
     then (case db c of None \<Rightarrow> Inl NullPointer
        | Some conn \<Rightarrow> (case store (redisCommand env) (clock env w) pl conn w of
             (key, conn', w1) \<Rightarrow> Inr (set_msg_key key, key, c\<lparr>db := Some conn'\<rparr>, w1)))
     else Inr (set_payload pl, [], c, w))"

definition app_send :: "('b, 'w) client_env \<Rightarrow> string \<Rightarrow> string \<Rightarrow> client \<Rightarrow> 'w \<Rightarrow>
    io_stop + string \<times> client \<times> 'w" where
  "app_send env destId pl c w = (case originIndicator c of None \<Rightarrow> Inl NullPointer
     | Some og \<Rightarrow> bind_res (store_payload env pl c w)
        (\<lambda>(put, key, c1, w1).
          bind_res (sendMessage (comm env) SEND_CH
              (SerializeAsString (pb env) (data_message SEND og (clientId c) destId pl put)) w1)
           (\<lambda>(_, w2). Inr (key, c1, w2))))"

definition sim_post :: "('b, 'w) client_env \<Rightarrow> string \<Rightarrow> string \<Rightarrow> string \<Rightarrow> client \<Rightarrow> 'w \<Rightarrow>
    io_stop + string \<times> client \<times> 'w" where
  "sim_post env srcId destId pl c w = (case originIndicator c of None \<Rightarrow> Inl NullPointer
     | Some og \<Rightarrow> bind_res (store_payload env pl c w)
        (\<lambda>(put, key, c1, w1).
          bind_res (sendMessage (comm env) SEND_CH
              (SerializeAsString (pb env) (data_message POST og srcId destId pl put)) w1)
           (\<lambda>(_, w2). Inr (key, c1, w2))))"

section \<open>Receiving\<close>

text \<open>What \<open>receive\<close> and \<open>fetch\<close> do with the response: \<open>opn\<close> is RECEIVE or FETCH.\<close>

definition unpack_entry :: "('b, 'w) client_env \<Rightarrow> nsbm \<Rightarrow> client \<Rightarrow> 'w \<Rightarrow> io_stop + message_entry \<times> client \<times> 'w" where
  "unpack_entry env m c w =
     (let entry = (\<lambda>pl. mk_entry (src_id (metadata m)) (dest_id (metadata m)) pl (payload_size (metadata m))) in
      if USE_DB (c_cfg c)
      then (case db c of None \<Rightarrow> Inl NullPointer
         | Some conn \<Rightarrow> (case checkOut (redisCommand env) (msg_key m) conn w of
              (pl, conn', w1) \<Rightarrow> Inr (entry pl, c\<lparr>db := Some conn'\<rparr>, w1)))
      else Inr (entry (payload m), c, w))"

definition handle_response :: "('b, 'w) client_env \<Rightarrow> operation \<Rightarrow> 'b list \<Rightarrow> client \<Rightarrow> 'w \<Rightarrow>
    io_stop + message_entry \<times> client \<times> 'w" where
  "handle_response env opn response c w =
     (if response = [] then Inr (empty_entry, c, w)
      else case parse (pb env) response of None \<Rightarrow> Inr (empty_entry, c, w)
       | Some m \<Rightarrow>
          (if man_op (manifest m) \<noteq> opn \<and> man_op (manifest m) \<noteq> FORWARD then Inr (empty_entry, c, w)
           else if man_code (manifest m) = MESSAGE then unpack_entry env m c w
           else Inr (empty_entry, c, w)))"

definition receive_request :: "client \<Rightarrow> originator \<Rightarrow> string option \<Rightarrow> nsbm" where
  "receive_request c og destId = set_metadata (\<lambda>h. h\<lparr>dest_id := (case destId of None \<Rightarrow> clientId c | Some i \<Rightarrow> i)\<rparr>)
     (request RECEIVE og SUCCESS)"

definition fetch_request :: "client \<Rightarrow> originator \<Rightarrow> string option \<Rightarrow> nsbm" where
  "fetch_request c og srcId = set_metadata (\<lambda>h. case SIMULATOR_MODE (c_cfg c) of
       SYSTEM_WIDE \<Rightarrow> (case srcId of None \<Rightarrow> h | Some i \<Rightarrow> h\<lparr>src_id := i\<rparr>)
     | PER_NODE \<Rightarrow> h\<lparr>src_id := clientId c\<rparr>
     | OtherSimulatorMode _ \<Rightarrow> h) (request FETCH og SUCCESS)"

text \<open>The common shape of the two: in PULL mode a request on the RECV channel, then the wait.\<close>

definition pull_or_wait :: "('b, 'w) client_env \<Rightarrow> operation \<Rightarrow> (originator \<Rightarrow> nsbm) \<Rightarrow> i32 \<Rightarrow> client \<Rightarrow> 'w \<Rightarrow>
    io_stop + message_entry \<times> client \<times> 'w" where
  "pull_or_wait env opn req timeout c w =
     bind_res (if SYSTEM_MODE (c_cfg c) = PULL
         then (case originIndicator c of None \<Rightarrow> Inl NullPointer
            | Some og \<Rightarrow> bind_res (sendMessage (comm env) RECV_CH (SerializeAsString (pb env) (req og)) w)
                (\<lambda>(_, w1). Inr w1))
         else Inr w)
       (\<lambda>w1. bind_res (receiveMessage (comm env) RECV_CH (Some timeout) w1)
         (\<lambda>(response, w2). handle_response env opn response c w2))"

definition app_receive :: "('b, 'w) client_env \<Rightarrow> string option \<Rightarrow> i32 \<Rightarrow> client \<Rightarrow> 'w \<Rightarrow>
    io_stop + message_entry \<times> client \<times> 'w" where
  "app_receive env destId timeout c = pull_or_wait env RECEIVE (\<lambda>og. receive_request c og destId) timeout c"

definition sim_fetch :: "('b, 'w) client_env \<Rightarrow> string option \<Rightarrow> i32 \<Rightarrow> client \<Rightarrow> 'w \<Rightarrow>
    io_stop + message_entry \<times> client \<times> 'w" where
  "sim_fetch env srcId timeout c = pull_or_wait env FETCH (\<lambda>og. fetch_request c og srcId) timeout c"

text \<open>The overloads without an identifier: in PUSH mode they poll, with time-out 0.\<close>

definition by_mode :: "client \<Rightarrow> i32 \<Rightarrow> (i32 \<Rightarrow> 'w \<Rightarrow> io_stop + message_entry \<times> client \<times> 'w) \<Rightarrow> 'w \<Rightarrow>
    io_stop + message_entry \<times> client \<times> 'w" where
  "by_mode c timeout f w = (case SYSTEM_MODE (c_cfg c) of
     PULL \<Rightarrow> f timeout w | PUSH \<Rightarrow> f 0 w | OtherSystemMode _ \<Rightarrow> Inr (empty_entry, c, w))"

definition app_receive_any :: "('b, 'w) client_env \<Rightarrow> i32 \<Rightarrow> client \<Rightarrow> 'w \<Rightarrow>
    io_stop + message_entry \<times> client \<times> 'w" where
  "app_receive_any env timeout c w = by_mode c timeout (\<lambda>t. app_receive env None t c) w"

definition sim_fetch_any :: "('b, 'w) client_env \<Rightarrow> i32 \<Rightarrow> client \<Rightarrow> 'w \<Rightarrow>
    io_stop + message_entry \<times> client \<times> 'w" where
  "sim_fetch_any env timeout c w = by_mode c timeout (\<lambda>t. sim_fetch env None t c) w"

section \<open>Destruction\<close>

text \<open>Every client closes its three descriptors twice: its destructor closes the connection, and the destructor
  of the interface closes the same descriptors again, which by then the kernel may have given to another
  connection of the process.\<close>

theorem client_destructor_closes_twice:
  assumes "new_socket_interface fcntl_ok tps ts as = Inr cs"
  shows "\<exists>calls. closeConnection cs = Inr calls \<and> destroy_client cs = Inr (calls @ calls) \<and>
     (\<forall>ch. \<exists>f. map_find cs ch = Some f \<and> Close f \<in> set calls)"
proof -
  have c: "\<forall>ch. \<exists>f. map_find cs ch = Some f \<and> Connected f \<in> set as"
    "closeConnection cs = Inr (concat (map (\<lambda>ch. [Shutdown (the (map_find cs ch)), Close (the (map_find cs ch))]) Channels))"
    using new_socket_interface_connected [OF assms] by blast+
  have "Close f \<in> set (concat (map (\<lambda>ch. [Shutdown (the (map_find cs ch)), Close (the (map_find cs ch))]) Channels))"
    if "map_find cs ch = Some f" for ch f
    using that Channels_all [of ch] by force
  with c show ?thesis by (fastforce simp: destroy_client_def destroy_interface_def)
qed

theorem client_destructor_closes_twice_witness:
  "\<exists>cs. new_socket_interface (\<lambda>_. True) 1 [0, 1, 1, 2, 3, 3, 4, 4] [Refused 9, Connected 3, Connected 4, Connected 5] = Inr cs \<and>
     destroy_client cs = Inr ([Shutdown 3, Close 3, Shutdown 4, Close 4, Shutdown 5, Close 5] @
       [Shutdown 3, Close 3, Shutdown 4, Close 4, Shutdown 5, Close 5])"
proof -
  let ?cs = "[(CTRL, 3), (SEND_CH, 4), (RECV_CH, 5)]"
  have n: "new_socket_interface (\<lambda>_. True) 1 [0, 1, 1, 2, 3, 3, 4, 4] [Refused 9, Connected 3, Connected 4, Connected 5] = Inr ?cs"
    by (simp add: new_socket_interface_def connectToServer_def Channels_def SERVER_CONNECTION_TIMEOUT_def
        less_channel_def map_find_def)
  from client_destructor_closes_twice [OF n] n show ?thesis by (simp add: closeConnection_def Channels_def map_find_def)
qed

end
