(* ===== verification/NSB_Delivery.thy ===== *)
theory NSB_Delivery
  imports NSB_Server NSB_Client
begin

text \<open>
  What the running daemon guarantees about the messages of its clients in PULL mode: they reach
  their consumers in order, exactly once, on the descriptor that asked; the two ways in which the
  daemon can fault; and two ways in which a message can still vanish, blank payloads and messages read together.
\<close>

section \<open>Witness material\<close>

text \<open>Two SENDs of \<open>a\<close>, one of \<open>c\<close>, three FETCHes; the messages are built by the client's code.\<close>

definition wit_send :: "string \<Rightarrow> string \<Rightarrow> string \<Rightarrow> nsbm" where
  "wit_send src dest pl = data_message SEND APP_CLIENT src dest pl (set_payload pl)"

definition wit_post :: "string \<Rightarrow> string \<Rightarrow> string \<Rightarrow> nsbm" where
  "wit_post src dest pl = data_message POST SIM_CLIENT src dest pl (set_payload pl)"

definition wit_fetch :: "string option \<Rightarrow> nsbm" where
  "wit_fetch k = fetch_request (new_sim_client ''sim'') SIM_CLIENT k"

definition wit_receive :: "string option \<Rightarrow> nsbm" where
  "wit_receive k = receive_request (new_app_client ''b'') APP_CLIENT k"

definition wit_daemon :: daemon where
  "wit_daemon = \<lparr>d_cfg = default_cfg, running = False, server_port = 65432, sim_client_lookup = [],
     app_client_lookup = [], fd_lookup = [], tx_buffer = [], rx_buffer = []\<rparr>"

lemmas msg_defs = wit_send_def wit_post_def wit_fetch_def wit_receive_def data_message_def request_def
  fetch_request_def receive_request_def new_sim_client_def new_app_client_def new_client_def
  default_cfg_def

definition one_read :: "fd \<Rightarrow> nsbm \<Rightarrow> nsbm server_event" where
  "one_read f m = Activity (\<lambda>g. if g = f then Some [[m]] else None) None"

definition wit_events :: "nsbm list \<Rightarrow> nsbm server_event list" where
  "wit_events ms = Activity (\<lambda>_. None) (Some (NewChannel 5 ''127.0.0.1'' 40001)) # map (one_read 5) ms"

lemmas wit_run = start_def Let_def new_server_def serve.simps wit_events_def one_read_def serve_activity_def
  serve_read_def read_all_def accept_channel_def fd_set_ok_def wit_daemon_def handle_message_def
  dispatch_def handle_send_def handle_fetch_def handle_post_def handle_receive_def no_sends_def
  take_keyed_def push_back_def entry_or_blank_def send_serialized_def

lemmas wit_eval = entries_simps entry_of_msg_def msg_get_payload_obj_def is_op_def keyed_request_def

section \<open>Delivery\<close>

text \<open>From the sources to the simulator (PULL mode): over every schedule of connections, reads,
  disconnections and errors that the server goes through, if each FETCH names a source, then for
  every source \<open>k\<close> the entries held at the start followed by those sent by \<open>k\<close>, in the order in
  which the daemon handled them, are exactly the entries that FETCH responses carried, in
  that order, followed by those still held: nothing of a source is lost, doubled, reordered or
  altered.\<close>

theorem tx_delivery_per_source:
  assumes "codec env" "SYSTEM_MODE (d_cfg d) = PULL"
    "start env (Listening sfd) evs d = Inr (b, s)"
    "\<forall>e\<in>set (tx_buffer d @ sent_entries d (arrived env (sv_handled s))). deliverable env d e"
    "\<forall>m\<in>set (arrived env (sv_handled s)). keyed_request FETCH src_id m"
  shows "filter (\<lambda>e. source e = k) (tx_buffer d @ sent_entries d (arrived env (sv_handled s)))
       = filter (\<lambda>e. source e = k) (reply_entries FETCH d (arrived env (sv_sent s)) @ tx_buffer (sv_daemon s))"
  using tx.start_conserves [OF assms(1,2) _ assms(3), of "\<lambda>e. source e = k"] assms(4,5)
  by (fastforce simp: pushed_tx intro: covers_tx)

theorem tx_delivery_per_source_witness:
  "\<exists>b s. start fragment_env (Listening 4) (wit_events [wit_send ''a'' ''b'' ''one'', wit_send ''c'' ''b'' ''two'',
       wit_send ''a'' ''b'' ''three'', wit_fetch (Some ''c''), wit_fetch (Some ''a'')]) wit_daemon = Inr (b, s) \<and>
     filter (\<lambda>e. source e = ''a'') (sent_entries wit_daemon (arrived fragment_env (sv_handled s)))
     = filter (\<lambda>e. source e = ''a'') (reply_entries FETCH wit_daemon (arrived fragment_env (sv_sent s)) @ tx_buffer (sv_daemon s))"
proof -
  let ?r = "start fragment_env (Listening 4) (wit_events [wit_send ''a'' ''b'' ''one'', wit_send ''c'' ''b'' ''two'',
       wit_send ''a'' ''b'' ''three'', wit_fetch (Some ''c''), wit_fetch (Some ''a'')]) wit_daemon"
  have "case ?r of Inl _ \<Rightarrow> False | Inr (b, s) \<Rightarrow>
      (\<forall>e\<in>set (tx_buffer wit_daemon @ sent_entries wit_daemon (arrived fragment_env (sv_handled s))). deliverable fragment_env wit_daemon e) \<and>
      (\<forall>m\<in>set (arrived fragment_env (sv_handled s)). keyed_request FETCH src_id m)"
    by (simp add: wit_run msg_defs nsb_simps wit_eval)
  then obtain b s where r: "?r = Inr (b, s)" and
    h: "\<forall>e\<in>set (tx_buffer wit_daemon @ sent_entries wit_daemon (arrived fragment_env (sv_handled s))). deliverable fragment_env wit_daemon e"
      "\<forall>m\<in>set (arrived fragment_env (sv_handled s)). keyed_request FETCH src_id m"
    by (auto split: sum.splits prod.splits)
  have "SYSTEM_MODE (d_cfg wit_daemon) = PULL" "tx_buffer wit_daemon = []"
    by (simp_all add: wit_daemon_def default_cfg_def)
  with tx_delivery_per_source [OF codec_fragment_env _ r h, of "''a''"] r show ?thesis by auto
qed

text \<open>From the simulator to the destinations (PULL mode): the same for POST and RECEIVE, per
  destination.  Only POSTs with code MESSAGE store anything.\<close>

theorem rx_delivery_per_destination:
  assumes "codec env" "SYSTEM_MODE (d_cfg d) = PULL"
    "start env (Listening sfd) evs d = Inr (b, s)"
    "\<forall>e\<in>set (rx_buffer d @ posted_entries d (arrived env (sv_handled s))). deliverable env d e"
    "\<forall>m\<in>set (arrived env (sv_handled s)). keyed_request RECEIVE dest_id m"
  shows "filter (\<lambda>e. destination e = k) (rx_buffer d @ posted_entries d (arrived env (sv_handled s)))
       = filter (\<lambda>e. destination e = k) (reply_entries RECEIVE d (arrived env (sv_sent s)) @ rx_buffer (sv_daemon s))"
  using rx.start_conserves [OF assms(1,2) _ assms(3), of "\<lambda>e. destination e = k"] assms(4,5)
  by (fastforce simp: pushed_rx intro: covers_rx)

theorem rx_delivery_per_destination_witness:
  "\<exists>b s. start fragment_env (Listening 4) (wit_events [wit_post ''a'' ''b'' ''one'', wit_post ''c'' ''b'' ''two'',
       wit_receive (Some ''d''), wit_receive None]) wit_daemon = Inr (b, s) \<and>
     filter (\<lambda>e. destination e = ''b'') (posted_entries wit_daemon (arrived fragment_env (sv_handled s)))
     = filter (\<lambda>e. destination e = ''b'') (reply_entries RECEIVE wit_daemon (arrived fragment_env (sv_sent s)) @ rx_buffer (sv_daemon s))"
proof -
  let ?r = "start fragment_env (Listening 4) (wit_events [wit_post ''a'' ''b'' ''one'', wit_post ''c'' ''b'' ''two'',
       wit_receive (Some ''d''), wit_receive None]) wit_daemon"
  have "case ?r of Inl _ \<Rightarrow> False | Inr (b, s) \<Rightarrow>
      (\<forall>e\<in>set (rx_buffer wit_daemon @ posted_entries wit_daemon (arrived fragment_env (sv_handled s))). deliverable fragment_env wit_daemon e) \<and>
      (\<forall>m\<in>set (arrived fragment_env (sv_handled s)). keyed_request RECEIVE dest_id m)"
    by (simp add: wit_run msg_defs nsb_simps wit_eval)
  then obtain b s where r: "?r = Inr (b, s)" and
    h: "\<forall>e\<in>set (rx_buffer wit_daemon @ posted_entries wit_daemon (arrived fragment_env (sv_handled s))). deliverable fragment_env wit_daemon e"
      "\<forall>m\<in>set (arrived fragment_env (sv_handled s)). keyed_request RECEIVE dest_id m"
    by (auto split: sum.splits prod.splits)
  have "SYSTEM_MODE (d_cfg wit_daemon) = PULL" "rx_buffer wit_daemon = []"
    by (simp_all add: wit_daemon_def default_cfg_def)
  with rx_delivery_per_destination [OF codec_fragment_env _ r h, of "''b''"] r show ?thesis by auto
qed

text \<open>A system-wide simulator that fetches without naming a source, as \<open>NSBSimClient::fetch\<close>
  does by default, gets the messages of all clients in the order in which the daemon handled
  them, and every one of them once.\<close>

theorem tx_delivery_unkeyed_fifo:
  assumes "codec env" "SYSTEM_MODE (d_cfg d) = PULL"
    "start env (Listening sfd) evs d = Inr (b, s)"
    "\<forall>e\<in>set (tx_buffer d @ sent_entries d (arrived env (sv_handled s))). deliverable env d e"
    "\<forall>m\<in>set (arrived env (sv_handled s)). is_op FETCH m \<longrightarrow> src_id (metadata m) = []"
  shows "tx_buffer d @ sent_entries d (arrived env (sv_handled s))
       = reply_entries FETCH d (arrived env (sv_sent s)) @ tx_buffer (sv_daemon s)"
  using tx.start_conserves [OF assms(1,2) _ assms(3), of "\<lambda>_. True"] assms(4,5)
  by (fastforce simp: pushed_tx tx_ops_def is_op_def covers_take_ops_any split: operation.splits)

theorem tx_delivery_unkeyed_fifo_witness:
  "\<exists>b s. start fragment_env (Listening 4) (wit_events [wit_send ''a'' ''b'' ''one'', wit_send ''c'' ''b'' ''two'',
       wit_fetch None, wit_send ''a'' ''b'' ''three'', wit_fetch None]) wit_daemon = Inr (b, s) \<and>
     sent_entries wit_daemon (arrived fragment_env (sv_handled s))
     = reply_entries FETCH wit_daemon (arrived fragment_env (sv_sent s)) @ tx_buffer (sv_daemon s)"
proof -
  let ?r = "start fragment_env (Listening 4) (wit_events [wit_send ''a'' ''b'' ''one'', wit_send ''c'' ''b'' ''two'',
       wit_fetch None, wit_send ''a'' ''b'' ''three'', wit_fetch None]) wit_daemon"
  have "case ?r of Inl _ \<Rightarrow> False | Inr (b, s) \<Rightarrow>
      (\<forall>e\<in>set (tx_buffer wit_daemon @ sent_entries wit_daemon (arrived fragment_env (sv_handled s))). deliverable fragment_env wit_daemon e) \<and>
      (\<forall>m\<in>set (arrived fragment_env (sv_handled s)). is_op FETCH m \<longrightarrow> src_id (metadata m) = [])"
    by (simp add: wit_run msg_defs nsb_simps wit_eval)
  then obtain b s where r: "?r = Inr (b, s)" and
    h: "\<forall>e\<in>set (tx_buffer wit_daemon @ sent_entries wit_daemon (arrived fragment_env (sv_handled s))). deliverable fragment_env wit_daemon e"
      "\<forall>m\<in>set (arrived fragment_env (sv_handled s)). is_op FETCH m \<longrightarrow> src_id (metadata m) = []"
    by (auto split: sum.splits prod.splits)
  have "SYSTEM_MODE (d_cfg wit_daemon) = PULL" "tx_buffer wit_daemon = []"
    by (simp_all add: wit_daemon_def default_cfg_def)
  with tx_delivery_unkeyed_fifo [OF codec_fragment_env _ r h] r show ?thesis by auto
qed

section \<open>Responses and totality\<close>

lemma handle_message_pull:
  assumes "SYSTEM_MODE (d_cfg d) = PULL"
  shows "\<exists>d' s. handle_message env f bs d = Inr (d', s) \<and> length s \<le> 1 \<and> (\<forall>(g, x)\<in>set s. g = f)"
proof (cases "parse env bs")
  case None
  then show ?thesis by (simp add: handle_message_def)
next
  case (Some m)
  obtain d' out req where "dispatch env m d = Inr (d', out, req, [])"
    using dispatch_pull_ok [OF assms] by blast
  with Some show ?thesis
    by (auto simp: handle_message_def send_serialized_def split: option.split)
qed

text \<open>Descriptors that fit an \<open>fd_set\<close>.\<close>

definition event_fds_ok :: "'b server_event \<Rightarrow> bool" where
  "event_fds_ok ev \<longleftrightarrow> (case ev of Activity rd (Some (NewChannel f _ _)) \<Rightarrow> fd_set_ok f | _ \<Rightarrow> True)"

text \<open>The two ways in which the daemon can end in PULL mode: it goes on with the iterator that a disconnection has
  invalidated, or it answers a client that is gone.\<close>

definition pull_fault :: "'b io_env \<Rightarrow> daemon_fault \<Rightarrow> bool" where
  "pull_fault env e \<longleftrightarrow> (e = ErasedIterator \<and> \<not> erase_resumes env) \<or> (e = BrokenPipe \<and> \<not> peers_read env)"

lemma serve_read_pull:
  assumes "SYSTEM_MODE (d_cfg (sv_daemon s)) = PULL"
  shows "case serve_read env f msg s of Inl e \<Rightarrow> pull_fault env e | Inr s' \<Rightarrow> SYSTEM_MODE (d_cfg (sv_daemon s')) = PULL"
proof -
  obtain d' out where h: "handle_message env f msg (sv_daemon s) = Inr (d', out)"
    using handle_message_pull [OF assms] by blast
  show ?thesis
    using h handle_message_frame [OF h] assms pipes_read by (auto simp: serve_read_def pull_fault_def)
qed

lemma serve_fds_pull:
  "SYSTEM_MODE (d_cfg (sv_daemon s)) = PULL \<Longrightarrow> (case serve_fds env rd fs s of Inl e \<Rightarrow> pull_fault env e
     | Inr (keep, s') \<Rightarrow> set keep \<subseteq> set fs \<and> SYSTEM_MODE (d_cfg (sv_daemon s')) = PULL)"
proof (induction fs arbitrary: s)
  case (Cons f fs)
  note IH = Cons.IH and pull = Cons.prems
  show ?case
  proof (cases "rd f")
    case None
    with IH [OF pull] show ?thesis by (auto simp: bind_res_def split: sum.splits)
  next
    case (Some chunks)
    show ?thesis
    proof (cases "read_all chunks = []")
      case True
      with Some IH [of "s\<lparr>sv_closed := sv_closed s @ [f]\<rparr>"] pull show ?thesis
        by (auto simp: pull_fault_def split: sum.splits)
    next
      case False
      show ?thesis
      proof (cases "serve_read env f (read_all chunks) s")
        case (Inl e)
        with serve_read_pull [OF pull, of env f "read_all chunks"] Some False show ?thesis by simp
      next
        case (Inr s1)
        with serve_read_pull [OF pull, of env f "read_all chunks"] IH [of s1] Some False show ?thesis
          by (auto simp: bind_res_def split: sum.splits)
      qed
    qed
  qed
qed simp

lemma serve_running:
  assumes "running (sv_daemon s)" "\<forall>f\<in>set (sfd # channel_fds s). fd_set_ok f"
  shows "serve env sfd [] s = Inr (False, s)"
    "serve env sfd (SelectFails excused # evs) s = (if excused then serve env sfd evs s else Inr (True, shut_server sfd s))"
    "serve env sfd (Idle # evs) s = serve env sfd evs s"
    "serve env sfd (Activity rd acc # evs) s = bind_res (serve_activity env rd acc s) (\<lambda>s'. serve env sfd evs s')"
  using assms by (subst serve.simps; simp)+

lemma serve_stopped:
  assumes "serve env sfd evs s = Inl e" "\<forall>f\<in>set (sfd # channel_fds s). fd_set_ok f"
  shows "running (sv_daemon s)" "evs \<noteq> []"
  using assms by (subst (asm) serve.simps; auto split: if_splits)+

text \<open>A round in PULL mode.\<close>

lemma serve_activity_pull:
  assumes "SYSTEM_MODE (d_cfg (sv_daemon s)) = PULL" "\<forall>f\<in>set (channel_fds s). fd_set_ok f"
    "event_fds_ok (Activity rd acc :: 'b server_event)"
  shows "case serve_activity env rd acc s of Inl e \<Rightarrow> pull_fault env e
    | Inr s' \<Rightarrow> SYSTEM_MODE (d_cfg (sv_daemon s')) = PULL \<and> (\<forall>f\<in>set (channel_fds s'). fd_set_ok f)"
  using serve_fds_pull [OF assms(1), of env "channel_fds s" rd] assms(2,3)
  by (auto simp: serve_activity_def bind_res_def accept_channel_def event_fds_ok_def
      split: sum.splits option.splits accept_result.splits)

lemma serve_pull_faults:
  fixes evs :: "'b server_event list"
  assumes "fd_set_ok sfd"
  shows "SYSTEM_MODE (d_cfg (sv_daemon s)) = PULL \<Longrightarrow> \<forall>ev\<in>set evs. event_fds_ok ev \<Longrightarrow>
     \<forall>f\<in>set (channel_fds s). fd_set_ok f \<Longrightarrow> serve env sfd evs s = Inl e \<Longrightarrow> pull_fault env e"
proof (induction evs arbitrary: s)
  case Nil
  with serve_stopped(2) [of env sfd "[]" s e] assms show ?case by simp
next
  case (Cons ev evs)
  have fds: "\<forall>f\<in>set (sfd # channel_fds s). fd_set_ok f" using assms Cons.prems(3) by simp
  note run = serve_stopped(1) [OF Cons.prems(4) fds]
  have evs: "\<forall>ev\<in>set evs. event_fds_ok ev" "event_fds_ok ev" using Cons.prems(2) by simp_all
  note out = Cons.prems(4)
  show ?case
  proof (cases ev)
    case (Activity rd acc)
    note a = serve_activity_pull [OF Cons.prems(1,3) evs(2) [unfolded Activity], of env]
    have u: "bind_res (serve_activity env rd acc s) (\<lambda>s'. serve env sfd evs s') = Inl e"
      using out unfolding Activity serve_running(4) [OF run fds] .
    show ?thesis
    proof (cases "serve_activity env rd acc s")
      case (Inl e')
      with a u show ?thesis by simp
    next
      case (Inr s1)
      with a u Cons.IH [of s1] evs(1) show ?thesis by simp
    qed
  next
    case (SelectFails excused)
    with out Cons.IH [OF Cons.prems(1) evs(1) Cons.prems(3)] show ?thesis
      by (simp add: serve_running(2) [OF run fds] split: if_splits)
  next
    case Idle
    with out Cons.IH [OF Cons.prems(1) evs(1) Cons.prems(3)] show ?thesis
      by (simp add: serve_running(3) [OF run fds])
  qed
qed

text \<open>With descriptors that fit an \<open>fd_set\<close>, no schedule of events and no bytes, well-formed or not, make the daemon fault in any
  other way than those of \<open>pull_fault\<close>: an iterator used after \<open>erase\<close>, an answer to a client that has closed.\<close>

theorem pull_daemon_faults:
  assumes "SYSTEM_MODE (d_cfg d) = PULL" "fd_set_ok sfd" "\<forall>ev\<in>set evs. event_fds_ok ev"
    and "start env (Listening sfd) evs d = Inl e"
  shows "pull_fault env e"
  using serve_pull_faults [OF assms(2), of "new_server (d\<lparr>running := True\<rparr>)" evs env e] assms(1,3,4)
  by (auto simp: start_def Let_def new_server_def split: if_splits)

text \<open>Both do end it: a disconnection where \<open>erase\<close> leaves no usable iterator, a FETCH whose client has closed.\<close>

theorem pull_daemon_faults_witness:
  "start (fragment_env\<lparr>erase_resumes := False\<rparr>) (Listening 4)
     (wit_events [] @ [Activity (\<lambda>f. Some []) None]) wit_daemon = Inl ErasedIterator \<and>
   start (fragment_env\<lparr>peer_reads := \<lambda>n f. n = 0\<rparr>) (Listening 4)
     (wit_events [wit_fetch None, wit_fetch None]) wit_daemon = Inl BrokenPipe \<and>
   pull_fault (fragment_env\<lparr>erase_resumes := False\<rparr>) ErasedIterator"
proof -
  have a: "start (fragment_env\<lparr>erase_resumes := False\<rparr>) (Listening 4)
     (wit_events [] @ [Activity (\<lambda>f. Some []) None]) wit_daemon = Inl ErasedIterator"
    by (simp add: wit_run)
  have "pull_fault (fragment_env\<lparr>erase_resumes := False\<rparr>) ErasedIterator"
    by (rule pull_daemon_faults [OF _ _ _ a])
      (simp_all add: wit_daemon_def default_cfg_def fd_set_ok_def wit_events_def event_fds_ok_def)
  moreover have "start (fragment_env\<lparr>peer_reads := \<lambda>n f. n = 0\<rparr>) (Listening 4)
     (wit_events [wit_fetch None, wit_fetch None]) wit_daemon = Inl BrokenPipe"
    by (simp add: wit_run msg_defs nsb_simps)
  ultimately show ?thesis using a by blast
qed

lemma start_pull_total:
  assumes "SYSTEM_MODE (d_cfg d) = PULL" "fd_set_ok sfd" "\<forall>ev\<in>set evs. event_fds_ok ev"
    and "peers_read env" "erase_resumes env"
  shows "\<exists>b s. start env (Listening sfd) evs d = Inr (b, s)"
proof (cases "start env (Listening sfd) evs d")
  case (Inl e)
  have "pull_fault env e"
    using serve_pull_faults [OF assms(2), of "new_server (d\<lparr>running := True\<rparr>)" evs env e] assms(1,3) Inl
    by (auto simp: start_def Let_def new_server_def split: if_splits)
  with assms(4,5) show ?thesis by (simp add: pull_fault_def)
qed auto

lemma start_wit_events: "\<exists>b s. start fragment_env (Listening 4) (wit_events ms) wit_daemon = Inr (b, s)"
  by (rule start_pull_total)
    (auto simp: wit_daemon_def default_cfg_def fd_set_ok_def wit_events_def one_read_def event_fds_ok_def)

text \<open>In PULL mode the daemon sends at most one response to a message, and only on the
  descriptor the message came from.\<close>

theorem pull_response_addressing:
  assumes "SYSTEM_MODE (d_cfg d) = PULL" "handle_message env f bs d = Inr (d', out)"
  shows "length out \<le> 1 \<and> (\<forall>(g, x)\<in>set out. g = f)"
  using handle_message_pull [OF assms(1), of env f bs] assms(2) by auto

theorem pull_response_addressing_witness:
  "\<exists>d' x. handle_message fragment_env 7 [wit_fetch None] wit_daemon = Inr (d', [(7, x)])"
proof -
  obtain d' out where h: "handle_message fragment_env 7 [wit_fetch None] wit_daemon = Inr (d', out)"
    and ne: "out \<noteq> []"
    by (simp add: wit_run msg_defs nsb_simps)
  have "SYSTEM_MODE (d_cfg wit_daemon) = PULL" by (simp add: wit_daemon_def default_cfg_def)
  from pull_response_addressing [OF this h] ne h show ?thesis by (cases out) auto
qed

section \<open>How a message can vanish\<close>

text \<open>An entry with a blank source, destination or payload object is taken out of the buffer by
  the FETCH that finds it and answered with NO_MESSAGE: the consumer is told that there is nothing, and the
  entry is gone.  (An application that sends an empty payload, or whose \<open>store\<close> failed and
  returned an empty key, loses the message this way.)\<close>

theorem blank_entry_swallowed:
  assumes "has_metadata m" "src_id (metadata m) \<noteq> []" "tx_buffer d = us @ e # vs"
    "source e = src_id (metadata m)" "\<forall>u\<in>set us. source u \<noteq> src_id (metadata m)" "\<not> entry_exists e"
  shows "handle_fetch m out d = (d\<lparr>tx_buffer := us @ vs\<rparr>, head_of FETCH DAEMON NO_MESSAGE out, True)"
  using assms find_erase_split [of "\<lambda>x. source x = src_id (metadata m)" e us vs]
  by (simp add: handle_fetch_def take_keyed_def entry_reply_def entry_or_blank_def)

theorem blank_entry_swallowed_witness:
  "handle_fetch (wit_fetch (Some ''a'')) response_template
      (wit_daemon\<lparr>tx_buffer := [mk_entry ''a'' ''b'' [] 0, mk_entry ''a'' ''b'' ''x'' 1]\<rparr>)
   = (wit_daemon\<lparr>tx_buffer := [mk_entry ''a'' ''b'' ''x'' 1]\<rparr>, head_of FETCH DAEMON NO_MESSAGE response_template, True)"
  by (subst blank_entry_swallowed [where us = "[]" and e = "mk_entry ''a'' ''b'' [] 0"
        and vs = "[mk_entry ''a'' ''b'' ''x'' 1]"])
    (simp_all add: msg_defs nsb_simps)

lemma data_message_fields [nsb_simps]:
  "manifest (data_message opn og src dest pl (set_payload p)) = \<lparr>man_op = opn, man_og = og, man_code = MESSAGE\<rparr>"
  "metadata (data_message opn og src dest pl (set_payload p)) =
     \<lparr>src_id = src, dest_id = dest, payload_size = int_of_size pl\<rparr>"
  "payload (data_message opn og src dest pl (set_payload p)) = p"
  "has_manifest (data_message opn og src dest pl (set_payload p))"
  "has_metadata (data_message opn og src dest pl (set_payload p))"
  by (simp_all add: data_message_def request_def head_of_def set_manifest_def set_metadata_def
      set_payload_def manifest_def metadata_def payload_def has_manifest_def has_metadata_def
      empty_nsbm_def empty_manifest_def empty_metadata_def)

lemma int_of_size_nonzero: "pl \<noteq> [] \<Longrightarrow> length pl \<le> int_max \<Longrightarrow> int_of_size pl \<noteq> 0"
  using sint_int_of_size_small [of pl] by auto

lemma merge_data_messages:
  assumes "src \<noteq> []" "dest2 \<noteq> []" "pl2 \<noteq> []" "length pl2 \<le> int_max"
  shows "merge_from (data_message SEND APP_CLIENT src dest1 pl1 (set_payload pl1))
      (data_message SEND APP_CLIENT src dest2 pl2 (set_payload pl2))
    = data_message SEND APP_CLIENT src dest2 pl2 (set_payload pl2)"
  using assms int_of_size_nonzero [OF assms(3,4)]
  by (simp add: data_message_def request_def head_of_def set_manifest_def set_metadata_def
      set_payload_def merge_from_def merge_manifest_def merge_metadata_def pick_def manifest_def
      metadata_def empty_nsbm_def empty_manifest_def empty_metadata_def)

lemma handle_send_message:
  assumes "parse env bs = Some m" "is_op SEND m" "SYSTEM_MODE (d_cfg d) = PULL"
  shows "handle_message env f bs d = Inr (d\<lparr>tx_buffer := tx_buffer d @ [entry_of_msg d m]\<rparr>, [])"
  using assms by (simp add: handle_message_def dispatch_def is_op_def handle_send_def push_back_def)

text \<open>C39: The daemon takes everything one pass of \<open>recv\<close> finds for one message.  When an application sends twice and
  both encodings are there at the same read (Protobuf documents that a concatenation of two
  encodings parses to their merge), only the second is stored: the first is gone
  without a trace, although each of them handled on its own would have been stored.\<close>

theorem coalesced_sends_lose_the_first:
  fixes src dest1 dest2 pl1 pl2 :: string
  defines "m1 \<equiv> data_message SEND APP_CLIENT src dest1 pl1 (set_payload pl1)"
    and "m2 \<equiv> data_message SEND APP_CLIENT src dest2 pl2 (set_payload pl2)"
  assumes "transmits env m1" "transmits env m2" "SYSTEM_MODE (d_cfg d) = PULL" "\<not> USE_DB (d_cfg d)"
    and "src \<noteq> []" "dest2 \<noteq> []" "pl2 \<noteq> []" "length pl2 \<le> int_max"
    and "serialize env m1 = Some b1" "serialize env m2 = Some b2"
    and "parse env (b1 @ b2) = Some (merge_from m1 m2)"
  shows "run_messages env [(f, b1), (f, b2)] d = Inr (d\<lparr>tx_buffer := tx_buffer d @
            [mk_entry src dest1 pl1 (int_of_size pl1), mk_entry src dest2 pl2 (int_of_size pl2)]\<rparr>, [])
     \<and> run_messages env [(f, read_all [b1, b2])] d = Inr (d\<lparr>tx_buffer := tx_buffer d @
            [mk_entry src dest2 pl2 (int_of_size pl2)]\<rparr>, [])"
proof -
  have p: "parse env b1 = Some m1" "parse env b2 = Some m2" "b1 \<noteq> []" "b2 \<noteq> []"
    using assms(1-4,11,12) by (auto elim!: transmitsE)
  have p12: "parse env (b1 @ b2) = Some m2"
    using merge_data_messages [of src dest2 pl2 dest1 pl1] assms by simp
  have e: "entry_of_msg d' m1 = mk_entry src dest1 pl1 (int_of_size pl1)"
    "entry_of_msg d' m2 = mk_entry src dest2 pl2 (int_of_size pl2)" "is_op SEND m1" "is_op SEND m2"
    if "\<not> USE_DB (d_cfg d')" for d'
    using that by (simp_all add: m1_def m2_def entry_of_msg_def msg_get_payload_obj_def is_op_def nsb_simps)
  show ?thesis
    using p p12 e e [of "d\<lparr>tx_buffer := x\<rparr>" for x] assms(5,6)
    by (simp add: read_all_def handle_send_message)
qed

theorem coalesced_sends_lose_the_first_witness:
  "run_messages fragment_env [(5, [wit_send ''a'' ''b'' ''one'', wit_send ''a'' ''b'' ''two''])] wit_daemon
   = Inr (wit_daemon\<lparr>tx_buffer := [mk_entry ''a'' ''b'' ''two'' (int_of_size ''two'')]\<rparr>, [])"
  using coalesced_sends_lose_the_first [of fragment_env "''a''" "''b''" "''one''" "''b''" "''two''" wit_daemon
      "[wit_send ''a'' ''b'' ''one'']" "[wit_send ''a'' ''b'' ''two'']" 5]
  by (simp add: wit_daemon_def default_cfg_def wit_send_def read_all_def)

end
