(* ===== verification/NSB_Registry.thy ===== *)
theory NSB_Registry
  imports NSB_Delivery
begin

text \<open>
  The daemon's registries and what PUSH mode does with them: which invariants the registries
  keep while the server runs, which simulator a system-wide daemon registers, what a repeated registration or a
  reconnection leaves behind, where SEND and POST are forwarded to, and exactly when forwarding faults.  And what
  a daemon in PULL mode reads of a schedule until it stops.
\<close>

section \<open>Invariants of the running daemon\<close>

text \<open>An interface for invariants of the daemon: kept by every message, by a new descriptor entry and by
  the running flag, hence by the server.\<close>

locale daemon_invariant =
  fixes env :: "'b io_env"
    and P :: "daemon \<Rightarrow> bool"
  assumes dispatch_inv: "P d \<Longrightarrow> dispatch env m d = Inr (d', out, req, s) \<Longrightarrow> P d'"
    and accept_inv: "P d \<Longrightarrow> P (d\<lparr>fd_lookup := map_emplace k f (fd_lookup d)\<rparr>)"
    and running_inv: "P d \<Longrightarrow> P (d\<lparr>running := r\<rparr>)"
begin

lemma message_inv: "P d \<Longrightarrow> handle_message env f bs d = Inr (d', s) \<Longrightarrow> P d'"
  by (auto simp: handle_message_def split: option.splits sum.splits prod.splits dest: dispatch_inv)

end

sublocale daemon_invariant \<subseteq> lifted: server_invariant env "\<lambda>s. P (sv_daemon s)"
  by unfold_locales (auto elim!: serve_readE dest: message_inv simp: accept_inv)

context daemon_invariant
begin

lemma start_inv: "P d \<Longrightarrow> start env su evs d = Inr (b, s) \<Longrightarrow> P (sv_daemon s)"
  by (rule lifted.start_keeps [of d]) (simp_all add: new_server_def running_inv)

end

definition registries_ok :: "daemon \<Rightarrow> bool" where
  "registries_ok d \<longleftrightarrow> map_ok (sim_client_lookup d) \<and> map_ok (app_client_lookup d) \<and> map_ok (fd_lookup d) \<and>
     (SIMULATOR_MODE (d_cfg d) = SYSTEM_WIDE \<longrightarrow>
        sim_client_lookup d = [] \<or> (\<exists>cd. sim_client_lookup d = [(''simulator'', cd)]))"

lemma dispatch_registries:
  assumes "dispatch env m d = Inr (d', out, req, s)" "man_op (manifest m) \<noteq> INIT"
  shows "sim_client_lookup d' = sim_client_lookup d \<and> app_client_lookup d' = app_client_lookup d"
  using assms
  by (auto simp: dispatch_def Let_def no_sends_def handle_ping_def handle_fetch_def handle_receive_def
      sel_stop split: operation.splits prod.splits dest: handle_send_frame handle_post_frame)

lemma handle_init_registries:
  assumes "handle_init m out d = (d', out', req)" "registries_ok d"
  shows "registries_ok d'"
  using assms
  by (auto simp: handle_init_def Let_def registries_ok_def map_ok_emplace
      split: if_splits originator.splits simulator_mode.splits)

interpretation registries: daemon_invariant env registries_ok for env
proof
  show "registries_ok d'" if "registries_ok d" "dispatch env m d = Inr (d', out, req, s)" for d m d' out req s
  proof (cases "man_op (manifest m) = INIT")
    case True
    with that show ?thesis
      by (auto simp: dispatch_def no_sends_def split: prod.splits dest: handle_init_registries)
  next
    case False
    from dispatch_registries [OF that(2) False] dispatch_frame [OF that(2)] that(1)
    show ?thesis by (simp add: registries_ok_def)
  qed
qed (auto simp: registries_ok_def map_ok_emplace)

definition wit_init :: "originator \<Rightarrow> string \<Rightarrow> i32 \<Rightarrow> nsbm" where
  "wit_init og ident p = init_request (\<lambda>ch. Some (''127.0.0.1'', case ch of CTRL \<Rightarrow> p | SEND_CH \<Rightarrow> p + 1 | RECV_CH \<Rightarrow> p + 2)) ident og"

lemma wit_init_fields [nsb_simps]:
  "manifest (wit_init og ident p) = \<lparr>man_op = INIT, man_og = og, man_code = SUCCESS\<rparr>"
  "intro (wit_init og ident p) = \<lparr>client_identifier = ident, address = ''127.0.0.1'', ch_CTRL = p,
     ch_SEND = p + 1, ch_RECV = p + 2\<rparr>"
  "has_intro (wit_init og ident p)"
  by (simp_all add: wit_init_def init_request_def getSetChannelAddrPort_def set_port_def request_def
      nsb_simps head_of_def empty_manifest_def empty_intro_def)

section \<open>Registration\<close>

text \<open>Registering an application's identifier again (a client that was restarted) is answered
  with SUCCESS, but \<open>emplace\<close> keeps the first registration: the registry still holds
  the descriptors of the old connection.\<close>

theorem reinit_keeps_first_registration:
  assumes "map_ok (app_client_lookup d)" "has_intro m" "man_og (manifest m) = APP_CLIENT"
    and "map_find (app_client_lookup d) (client_identifier (intro m)) = Some cd"
  shows "\<exists>d' reply. handle_init m out d = (d', reply, True) \<and> man_code (manifest reply) = SUCCESS \<and>
     map_find (app_client_lookup d') (client_identifier (intro m)) = Some cd"
  using assms by (simp add: handle_init_def Let_def nsb_simps std_map.emplace_keeps)

definition wit_registered :: daemon where
  "wit_registered = (let (d, _, _) = handle_init (wit_init APP_CLIENT ''b'' 40000) response_template
     (wit_daemon\<lparr>fd_lookup := [(''127.0.0.1:40002'', 7)]\<rparr>) in d)"

theorem reinit_keeps_first_registration_witness:
  "\<exists>d' reply cd. handle_init (wit_init APP_CLIENT ''b'' 50000) response_template wit_registered = (d', reply, True) \<and>
     man_code (manifest reply) = SUCCESS \<and> map_find (app_client_lookup d') ''b'' = Some cd \<and> ch_RECV_port cd = 40002"
proof -
  have ok: "map_ok (app_client_lookup wit_registered)"
    and "\<exists>cd. map_find (app_client_lookup wit_registered) ''b'' = Some cd \<and> ch_RECV_port cd = 40002"
    by (simp_all add: wit_registered_def handle_init_def nsb_simps wit_daemon_def
        map_find_def client_details_of_def Let_def)
  then obtain cd where cd: "map_find (app_client_lookup wit_registered) ''b'' = Some cd" "ch_RECV_port cd = 40002"
    by blast
  from reinit_keeps_first_registration [of wit_registered "wit_init APP_CLIENT ''b'' 50000" cd response_template]
    ok cd show ?thesis by (auto simp: nsb_simps)
qed

text \<open>Entries of the descriptor table are never removed.  When a client disconnects and a new
  connection comes from the same address and port, the table still maps it to the closed
  descriptor, and a client that registers over the new connection gets that one.\<close>

theorem reconnect_finds_closed_descriptor:
  assumes "registries_ok (sv_daemon s)"
    "map_find (fd_lookup (sv_daemon s)) (addr_key (address (intro m)) (ch_RECV (intro m))) = Some f"
  shows "ch_RECV_fd (client_details_of m (fd_lookup (sv_daemon (accept_channel
           (Some (NewChannel f' (address (intro m)) (ch_RECV (intro m)))) s)))) = f"
  using assms
  by (simp add: accept_channel_def client_details_of_def Let_def fd_or_minus1_def registries_ok_def
      std_map.emplace_keeps)

theorem reconnect_finds_closed_descriptor_witness:
  "ch_RECV_fd (client_details_of (wit_init APP_CLIENT ''b'' 40000) (fd_lookup (sv_daemon (accept_channel
     (Some (NewChannel 9 ''127.0.0.1'' 40002))
     (new_server (wit_daemon\<lparr>fd_lookup := [(addr_key ''127.0.0.1'' 40002, 7)]\<rparr>) :: nsbm server))))) = 7"
  using reconnect_finds_closed_descriptor [of "new_server (wit_daemon\<lparr>fd_lookup := [(addr_key ''127.0.0.1'' 40002, 7)]\<rparr>) :: nsbm server"
      "wit_init APP_CLIENT ''b'' 40000" 7 9]
  by (simp add: nsb_simps new_server_def wit_daemon_def registries_ok_def map_ok_def map_find_def)

section \<open>PUSH mode\<close>

text \<open>The client that a SEND or POST is forwarded to.\<close>

definition push_target :: "daemon \<Rightarrow> nsbm \<Rightarrow> client_details option" where
  "push_target d m = (case man_op (manifest m) of
     SEND \<Rightarrow> (case SIMULATOR_MODE (d_cfg d) of
         SYSTEM_WIDE \<Rightarrow> map_option snd (map_begin (sim_client_lookup d))
       | PER_NODE \<Rightarrow> map_find (sim_client_lookup d) (src_id (metadata m))
       | _ \<Rightarrow> None)
   | POST \<Rightarrow> map_find (app_client_lookup d) (dest_id (metadata m))
   | _ \<Rightarrow> None)"

lemma forward_copy_eq: "forward_copy m = set_manifest (\<lambda>h. h\<lparr>man_op := FORWARD\<rparr>) m"
  by (simp add: forward_copy_def)

lemma forward_to_ok:
  assumes "fd_set_ok f" "writable env f" "transmits env m"
  obtains bs where "forward_to env f m = Inr [(f, bs)]" "parse env bs = Some m" "bs \<noteq> []"
  using assms by (auto simp: forward_to_def send_serialized_def elim!: transmitsE)

lemma push_message:
  assumes "transmits env (forward_copy m)" "parse env bs = Some m" "SYSTEM_MODE (d_cfg d) = PUSH" "push_target d m = Some cd"
    and "fd_set_ok (ch_RECV_fd cd)" "writable env (ch_RECV_fd cd)"
  obtains fwd where "handle_message env f bs d = Inr (d, [(ch_RECV_fd cd, fwd)])" "parse env fwd = Some (forward_copy m)"
    "fwd \<noteq> []"
proof -
  obtain fwd where f: "forward_to env (ch_RECV_fd cd) (forward_copy m) = Inr [(ch_RECV_fd cd, fwd)]"
    "parse env fwd = Some (forward_copy m)" "fwd \<noteq> []"
    using forward_to_ok [OF assms(5,6,1)] by blast
  have ne: "ch_RECV_fd cd \<noteq> -1" using assms(5) by (auto simp: fd_set_ok_def)
  have "dispatch env m d = Inr (d, forward_copy m, False, [(ch_RECV_fd cd, fwd)])"
    using assms(3,4) f ne
    by (auto simp: push_target_def dispatch_def handle_send_def handle_post_def Let_def
        split: operation.splits simulator_mode.splits option.splits)
  with assms(2) f(2,3) show ?thesis by (intro that [of fwd]) (simp_all add: handle_message_def)
qed

text \<open>C20: In PUSH mode a SEND goes to the simulator (the system-wide one, or the one registered
  for the source) and a POST to the application registered under the destination: one message, on the RECV
  descriptor of that client, that arrives as the original with its operation set to FORWARD;
  the sender gets no response and the daemon's state does not change.\<close>

theorem push_forwards:
  assumes "transmits env (forward_copy m)" "parse env bs = Some m" "SYSTEM_MODE (d_cfg d) = PUSH" "push_target d m = Some cd"
    and "fd_set_ok (ch_RECV_fd cd)" "writable env (ch_RECV_fd cd)"
  shows "\<exists>fwd. handle_message env f bs d = Inr (d, [(ch_RECV_fd cd, fwd)]) \<and>
     parse env fwd = Some (set_manifest (\<lambda>h. h\<lparr>man_op := FORWARD\<rparr>) m)"
  using push_message [OF assms, of f] unfolding forward_copy_eq by blast

theorem push_forwards_witness:
  "\<exists>fwd. handle_message fragment_env 6 [wit_post ''a'' ''b'' ''hi'']
      (wit_registered\<lparr>d_cfg := default_cfg\<lparr>SYSTEM_MODE := PUSH\<rparr>\<rparr>)
    = Inr (wit_registered\<lparr>d_cfg := default_cfg\<lparr>SYSTEM_MODE := PUSH\<rparr>\<rparr>, [(7, fwd)])"
proof -
  let ?d = "wit_registered\<lparr>d_cfg := default_cfg\<lparr>SYSTEM_MODE := PUSH\<rparr>\<rparr>"
  have k: "addr_key ''127.0.0.1'' 40002 = ''127.0.0.1:40002''"
    by (simp add: addr_key_def to_string_def nat_digits.simps digit_char_def)
  have "\<exists>cd. push_target ?d (wit_post ''a'' ''b'' ''hi'') = Some cd \<and> ch_RECV_fd cd = 7"
    by (simp add: push_target_def wit_post_def nsb_simps wit_registered_def handle_init_def wit_daemon_def
        map_find_def client_details_of_def Let_def fd_or_minus1_def k)
  then obtain cd where cd: "push_target ?d (wit_post ''a'' ''b'' ''hi'') = Some cd" "ch_RECV_fd cd = 7" by blast
  from push_forwards [OF fragment_env_transmits _ _ cd(1), of "[wit_post ''a'' ''b'' ''hi'']" 6] cd(2) show ?thesis
    by (auto simp: fd_set_ok_def)
qed

text \<open>Exactly when handling a SEND in PUSH mode faults: with a system-wide simulator that has
  not registered (\<open>begin()->second\<close> of an empty map), with a per-node simulator and an
  unregistered source (\<open>at()\<close> throws), or when the simulator's RECV descriptor is not one that
  \<open>FD_SET\<close> takes, as the -1 of a client whose address was not in the descriptor table; and it does not return when
  \<open>select\<close>, which has no time-out, waits for ever for the simulator to take more.\<close>

theorem push_send_faults:
  assumes "SYSTEM_MODE (d_cfg d) = PUSH" "is_op SEND m" "parse env bs = Some m"
  shows "handle_message env f bs d = Inl e \<longleftrightarrow>
     (SIMULATOR_MODE (d_cfg d) = SYSTEM_WIDE \<and> sim_client_lookup d = [] \<and> e = DerefEnd) \<or>
     (SIMULATOR_MODE (d_cfg d) = PER_NODE \<and> push_target d m = None \<and> e = MapAtMissing) \<or>
     (\<exists>cd. push_target d m = Some cd \<and> \<not> fd_set_ok (ch_RECV_fd cd) \<and> e = BadFdSet) \<or>
     (\<exists>cd. push_target d m = Some cd \<and> fd_set_ok (ch_RECV_fd cd) \<and> \<not> writable env (ch_RECV_fd cd) \<and>
        \<not> select_fails env (ch_RECV_fd cd) \<and> e = SelectHangs)"
  using assms
  by (auto simp: handle_message_def dispatch_def is_op_def handle_send_def Let_def push_target_def
      forward_to_def split: simulator_mode.splits option.splits)

theorem push_send_faults_witness:
  "handle_message fragment_env 5 [wit_send ''a'' ''b'' ''x''] (wit_daemon\<lparr>d_cfg := default_cfg\<lparr>SYSTEM_MODE := PUSH\<rparr>\<rparr>)
    = Inl DerefEnd"
  by (subst push_send_faults [where m = "wit_send ''a'' ''b'' ''x''"])
    (simp_all add: wit_daemon_def default_cfg_def is_op_def wit_send_def nsb_simps)

section \<open>Life cycle\<close>

lemma running_init: "handle_init m out d = (d', out', req) \<Longrightarrow> running d' = running d"
  by (auto dest: handle_init_frame)

text \<open>Only an EXIT message ends the server: no other message, and no bytes that fail to parse,
  change the running flag, and EXIT always clears it.\<close>

theorem only_exit_stops:
  assumes "handle_message env f bs d = Inr (d', s)"
  shows "is_running d' = (is_running d \<and> \<not> (\<exists>m. parse env bs = Some m \<and> is_op EXIT m))"
proof (cases "parse env bs")
  case None
  with assms show ?thesis by (simp add: handle_message_def)
next
  case (Some m)
  with assms obtain out req s' where "dispatch env m d = Inr (d', out, req, s')"
    by (auto simp: handle_message_def split: sum.splits prod.splits)
  with Some show ?thesis
    by (auto simp: dispatch_def Let_def no_sends_def handle_ping_def handle_fetch_def handle_receive_def
        is_op_def is_running_def sel_stop split: operation.splits prod.splits
        dest: running_init handle_send_frame handle_post_frame)
qed

theorem only_exit_stops_witness:
  "\<exists>d' s. handle_message fragment_env 5 [request EXIT APP_CLIENT SUCCESS] (wit_daemon\<lparr>running := True\<rparr>) = Inr (d', s)
     \<and> \<not> is_running d'"
proof -
  obtain d' s where h: "handle_message fragment_env 5 [request EXIT APP_CLIENT SUCCESS] (wit_daemon\<lparr>running := True\<rparr>) = Inr (d', s)"
    by (simp add: handle_message_def dispatch_def request_def nsb_simps)
  from only_exit_stops [OF h] h show ?thesis by (auto simp: is_op_def request_def nsb_simps)
qed

text \<open>What a schedule of events brings, told without the daemon: the reads of a round over the open descriptors; a descriptor
  stays open until a read finds its connection closed; an accepted one is open from then on; the schedule ends with the
  round of an EXIT, or with an error of \<open>select\<close>.\<close>

definition round_reads :: "(fd \<Rightarrow> 'b list list option) \<Rightarrow> fd list \<Rightarrow> (fd \<times> 'b list) list" where
  "round_reads rd fs = List.map_filter (\<lambda>f. case rd f of None \<Rightarrow> None
     | Some chunks \<Rightarrow> if read_all chunks = [] then None else Some (f, read_all chunks)) fs"

definition stays_open :: "(fd \<Rightarrow> 'b list list option) \<Rightarrow> fd \<Rightarrow> bool" where
  "stays_open rd f \<longleftrightarrow> (case rd f of None \<Rightarrow> True | Some chunks \<Rightarrow> read_all chunks \<noteq> [])"

definition brings_exit :: "'b io_env \<Rightarrow> (fd \<times> 'b list) list \<Rightarrow> bool" where
  "brings_exit env r \<longleftrightarrow> (\<exists>(f, bs)\<in>set r. case parse env bs of None \<Rightarrow> False | Some m \<Rightarrow> is_op EXIT m)"

definition accepted_fds :: "accept_result option \<Rightarrow> fd list" where
  "accepted_fds acc = (case acc of Some (NewChannel f _ _) \<Rightarrow> [f] | _ \<Rightarrow> [])"

fun schedule_reads :: "'b io_env \<Rightarrow> fd list \<Rightarrow> 'b server_event list \<Rightarrow> bool \<times> (fd \<times> 'b list) list" where
  "schedule_reads env fs [] = (False, [])"
| "schedule_reads env fs (SelectFails excused # evs) = (if excused then schedule_reads env fs evs else (True, []))"
| "schedule_reads env fs (Idle # evs) = schedule_reads env fs evs"
| "schedule_reads env fs (Activity rd acc # evs) = (if brings_exit env (round_reads rd fs) then (True, round_reads rd fs)
     else let (ended, rs) = schedule_reads env (filter (stays_open rd) fs @ accepted_fds acc) evs
          in (ended, round_reads rd fs @ rs))"

lemma brings_exit_Cons:
  "brings_exit env ((f, bs) # r) \<longleftrightarrow> (\<exists>m. parse env bs = Some m \<and> is_op EXIT m) \<or> brings_exit env r"
  "\<not> brings_exit env []"
  by (auto simp: brings_exit_def split: option.splits)

lemma round_reads_simps:
  "round_reads rd [] = []"
  "rd f = None \<Longrightarrow> round_reads rd (f # fs) = round_reads rd fs"
  "rd f = Some chunks \<Longrightarrow> read_all chunks = [] \<Longrightarrow> round_reads rd (f # fs) = round_reads rd fs"
  "rd f = Some chunks \<Longrightarrow> read_all chunks \<noteq> [] \<Longrightarrow> round_reads rd (f # fs) = (f, read_all chunks) # round_reads rd fs"
  by (simp_all add: round_reads_def List.map_filter_def)

text \<open>A state from which the daemon does not fault, and what a read makes of it.\<close>

definition pull_serving :: "'b server \<Rightarrow> bool" where
  "pull_serving s \<longleftrightarrow> SYSTEM_MODE (d_cfg (sv_daemon s)) = PULL \<and> (\<forall>f\<in>set (channel_fds s). fd_set_ok f)"

lemma serve_read_serves:
  assumes "pull_serving s" "peers_read env"
  obtains s' where "serve_read env f bs s = Inr s'" "pull_serving s'" "channel_fds s' = channel_fds s"
    "sv_handled s' = sv_handled s @ [(f, bs)]"
    "running (sv_daemon s') = (running (sv_daemon s) \<and> \<not> brings_exit env [(f, bs)])"
proof -
  have pull: "SYSTEM_MODE (d_cfg (sv_daemon s)) = PULL" using assms(1) by (simp add: pull_serving_def)
  obtain d' out where h: "handle_message env f bs (sv_daemon s) = Inr (d', out)"
    using handle_message_pull [OF pull] by blast
  from only_exit_stops [OF h] handle_message_frame [OF h] assms h show ?thesis
    by (intro that [of "s\<lparr>sv_daemon := d', sv_handled := sv_handled s @ [(f, bs)], sv_sent := sv_sent s @ out\<rparr>"])
      (auto simp: serve_read_def pipes_read pull_serving_def brings_exit_Cons is_running_def)
qed

lemma serve_fds_serves:
  assumes "peers_read env" "erase_resumes env"
  shows "pull_serving s \<Longrightarrow> \<exists>s'. serve_fds env rd fs s = Inr (filter (stays_open rd) fs, s') \<and> pull_serving s' \<and>
     channel_fds s' = channel_fds s \<and> sv_handled s' = sv_handled s @ round_reads rd fs \<and>
     running (sv_daemon s') = (running (sv_daemon s) \<and> \<not> brings_exit env (round_reads rd fs))"
proof (induction fs arbitrary: s)
  case Nil
  then show ?case by (simp add: round_reads_simps brings_exit_Cons)
next
  case (Cons f fs)
  show ?case
  proof (cases "rd f")
    case None
    with Cons.IH [OF Cons.prems] show ?thesis by (auto simp: round_reads_simps stays_open_def)
  next
    case (Some chunks)
    show ?thesis
    proof (cases "read_all chunks = []")
      case True
      have "pull_serving (s\<lparr>sv_closed := sv_closed s @ [f]\<rparr>)" using Cons.prems by (simp add: pull_serving_def)
      from Cons.IH [OF this] Some True assms(2) show ?thesis
        by (auto simp: round_reads_simps stays_open_def)
    next
      case False
      obtain s1 where s1: "serve_read env f (read_all chunks) s = Inr s1" "pull_serving s1"
        "channel_fds s1 = channel_fds s" "sv_handled s1 = sv_handled s @ [(f, read_all chunks)]"
        "running (sv_daemon s1) = (running (sv_daemon s) \<and> \<not> brings_exit env [(f, read_all chunks)])"
        using serve_read_serves [OF Cons.prems assms(1)] by blast
      from Cons.IH [OF s1(2)] Some False s1 show ?thesis
        by (auto simp: round_reads_simps stays_open_def brings_exit_Cons)
    qed
  qed
qed

lemma serve_activity_serves:
  assumes "peers_read env" "erase_resumes env" "pull_serving s" "event_fds_ok (Activity rd acc :: 'b server_event)"
  obtains s' where "serve_activity env rd acc s = Inr s'" "pull_serving s'"
    "channel_fds s' = filter (stays_open rd) (channel_fds s) @ accepted_fds acc"
    "sv_handled s' = sv_handled s @ round_reads rd (channel_fds s)"
    "running (sv_daemon s') = (running (sv_daemon s) \<and> \<not> brings_exit env (round_reads rd (channel_fds s)))"
proof -
  let ?fs = "filter (stays_open rd) (channel_fds s)"
  obtain s1 where s1: "serve_fds env rd (channel_fds s) s = Inr (?fs, s1)" "pull_serving s1"
    "sv_handled s1 = sv_handled s @ round_reads rd (channel_fds s)"
    "running (sv_daemon s1) = (running (sv_daemon s) \<and> \<not> brings_exit env (round_reads rd (channel_fds s)))"
    using serve_fds_serves [OF assms(1-3)] by blast
  show ?thesis
    by (rule that [of "accept_channel acc (s1\<lparr>channel_fds := ?fs\<rparr>)"])
      (use s1 assms(3,4) in \<open>auto simp: serve_activity_def accept_channel_def accepted_fds_def pull_serving_def
        event_fds_ok_def split: option.splits accept_result.splits\<close>)
qed

lemma serve_serves:
  fixes evs :: "'b server_event list"
  assumes "peers_read env" "erase_resumes env" "fd_set_ok sfd"
  shows "pull_serving s \<Longrightarrow> running (sv_daemon s) \<Longrightarrow> \<forall>ev\<in>set evs. event_fds_ok ev \<Longrightarrow>
     \<exists>b s'. serve env sfd evs s = Inr (b, s') \<and> b = fst (schedule_reads env (channel_fds s) evs) \<and>
       sv_handled s' = sv_handled s @ snd (schedule_reads env (channel_fds s) evs)"
proof (induction evs arbitrary: s)
  case Nil
  with assms(3) show ?case by (auto simp: serve_running pull_serving_def)
next
  case (Cons ev evs)
  have fds: "\<forall>f\<in>set (sfd # channel_fds s). fd_set_ok f" using assms(3) Cons.prems(1) by (simp add: pull_serving_def)
  note run = serve_running [OF Cons.prems(2) fds]
  have evs: "\<forall>ev\<in>set evs. event_fds_ok ev" "event_fds_ok ev" using Cons.prems(3) by simp_all
  show ?case
  proof (cases ev)
    case (Activity rd acc)
    obtain s1 where s1: "serve_activity env rd acc s = Inr s1" "pull_serving s1"
      "channel_fds s1 = filter (stays_open rd) (channel_fds s) @ accepted_fds acc"
      "sv_handled s1 = sv_handled s @ round_reads rd (channel_fds s)"
      "running (sv_daemon s1) = (running (sv_daemon s) \<and> \<not> brings_exit env (round_reads rd (channel_fds s)))"
      using serve_activity_serves [OF assms(1,2) Cons.prems(1), of rd acc] evs(2) unfolding Activity by blast
    show ?thesis
    proof (cases "brings_exit env (round_reads rd (channel_fds s))")
      case True
      have "serve env sfd evs s1 = Inr (True, shut_server sfd s1)"
        using s1(5) True by (subst serve.simps) simp
      with s1 True Activity show ?thesis by (auto simp: run shut_server_def)
    next
      case False
      with Cons.IH [OF s1(2) _ evs(1)] s1 Cons.prems(2) Activity show ?thesis
        by (auto simp: run split: prod.splits)
    qed
  next
    case (SelectFails excused)
    with Cons.IH [OF Cons.prems(1,2) evs(1)] show ?thesis by (auto simp: run shut_server_def)
  next
    case Idle
    with Cons.IH [OF Cons.prems(1,2) evs(1)] show ?thesis by (simp add: run)
  qed
qed

lemma start_serves:
  assumes "peers_read env" "erase_resumes env"
    and "SYSTEM_MODE (d_cfg d) = PULL" "\<not> running d" "fd_set_ok sfd" "\<forall>ev\<in>set evs. event_fds_ok ev"
  shows "\<exists>s. start env (Listening sfd) evs d = Inr (fst (schedule_reads env [] evs), s) \<and> sv_handled s = snd (schedule_reads env [] evs)"
proof -
  have "pull_serving (new_server (d\<lparr>running := True\<rparr>))" "running (sv_daemon (new_server (d\<lparr>running := True\<rparr>)))"
    using assms(3) by (simp_all add: pull_serving_def new_server_def)
  from serve_serves [OF assms(1,2,5) this assms(6)] assms(4) show ?thesis
    by (auto simp: start_def Let_def new_server_def)
qed

lemmas wit_schedule_reads = wit_events_def one_read_def accepted_fds_def round_reads_simps round_reads_def List.map_filter_def
  stays_open_def brings_exit_def read_all_def is_op_def

text \<open>C16: In PULL mode, as long as \<open>erase\<close> leaves a usable iterator and no client closes a connection on which an answer
  is due, with descriptors that fit an \<open>fd_set\<close>: whatever the clients send, well-formed or not, and in whatever schedule
  the kernel reports it, the daemon handles every read of every open connection, in order, once and until an EXIT
  (or an error of \<open>select\<close>), and stops exactly then.  What happens otherwise is \<open>pull_daemon_faults\<close>.\<close>

theorem pull_daemon_serves:
  assumes "peers_read env" "erase_resumes env"
    and "SYSTEM_MODE (d_cfg d) = PULL" "\<not> running d" "fd_set_ok sfd" "\<forall>ev\<in>set evs. event_fds_ok ev"
  shows "\<exists>s. start env (Listening sfd) evs d = Inr (fst (schedule_reads env [] evs), s) \<and> sv_handled s = snd (schedule_reads env [] evs)"
  using assms by (rule start_serves)

theorem pull_daemon_serves_witness:
  "\<exists>s. start fragment_env (Listening 4) (wit_events [wit_send ''a'' ''b'' ''x'', empty_nsbm, request EXIT APP_CLIENT SUCCESS,
       wit_fetch None]) wit_daemon = Inr (True, s) \<and>
     sv_handled s = [(5, [wit_send ''a'' ''b'' ''x'']), (5, [empty_nsbm]), (5, [request EXIT APP_CLIENT SUCCESS])]"
proof -
  let ?evs = "wit_events [wit_send ''a'' ''b'' ''x'', empty_nsbm, request EXIT APP_CLIENT SUCCESS, wit_fetch None]"
  have a: "schedule_reads fragment_env [] ?evs = (True, [(5, [wit_send ''a'' ''b'' ''x'']), (5, [empty_nsbm]),
      (5, [request EXIT APP_CLIENT SUCCESS])])"
    by (simp add: wit_schedule_reads wit_send_def request_def empty_manifest_def nsb_simps)
  have "\<exists>s. start fragment_env (Listening 4) ?evs wit_daemon = Inr (fst (schedule_reads fragment_env [] ?evs), s) \<and>
      sv_handled s = snd (schedule_reads fragment_env [] ?evs)"
    by (rule pull_daemon_serves)
      (simp_all add: wit_daemon_def default_cfg_def fd_set_ok_def wit_events_def one_read_def event_fds_ok_def)
  then show ?thesis unfolding a by simp
qed

section \<open>The simulator of a system-wide daemon\<close>

text \<open>The request of a simulator to be registered.\<close>

definition sim_init :: "nsbm \<Rightarrow> bool" where
  "sim_init m \<longleftrightarrow> is_op INIT m \<and> has_intro m \<and> man_og (manifest m) = SIM_CLIENT"

text \<open>Whom a system-wide daemon has registered, by the messages it has handled: nobody, or the first simulator that asked,
  with the descriptors that its address had then.\<close>

definition first_registered :: "'b io_env \<Rightarrow> 'b server \<Rightarrow> bool" where
  "first_registered env s \<longleftrightarrow> SIMULATOR_MODE (d_cfg (sv_daemon s)) = SYSTEM_WIDE \<and>
     (case filter sim_init (arrived env (sv_handled s)) of
        [] \<Rightarrow> sim_client_lookup (sv_daemon s) = []
      | m # _ \<Rightarrow> \<exists>fds. sim_client_lookup (sv_daemon s) = [(''simulator'', client_details_of m fds)])"

lemma dispatch_first:
  assumes "dispatch env m d = Inr (d', out, req, s)" "SIMULATOR_MODE (d_cfg d) = SYSTEM_WIDE"
  shows "sim_client_lookup d' = (if sim_init m \<and> sim_client_lookup d = []
     then [(''simulator'', client_details_of m (fd_lookup d))] else sim_client_lookup d)"
proof (cases "man_op (manifest m) = INIT")
  case True
  with assms show ?thesis
    by (auto simp: dispatch_def no_sends_def handle_init_def Let_def sim_init_def is_op_def map_size_def
        map_emplace.simps split: prod.splits if_splits originator.splits)
next
  case False
  with dispatch_registries [OF assms(1)] show ?thesis by (simp add: sim_init_def is_op_def)
qed

lemma first_registered_read:
  assumes "first_registered env s" "serve_read env f bs s = Inr s'"
  shows "first_registered env s'"
proof -
  obtain d out where h: "handle_message env f bs (sv_daemon s) = Inr (d, out)"
    and s': "s' = s\<lparr>sv_daemon := d, sv_handled := sv_handled s @ [(f, bs)], sv_sent := sv_sent s @ out\<rparr>"
    using assms(2) by (rule serve_readE)
  have cfg: "d_cfg d = d_cfg (sv_daemon s)" using handle_message_frame [OF h] by simp
  show ?thesis
  proof (cases "parse env bs")
    case None
    with h assms(1) s' show ?thesis by (auto simp: first_registered_def handle_message_def split: list.splits)
  next
    case (Some m)
    with h obtain o' req s1 where "dispatch env m (sv_daemon s) = Inr (d, o', req, s1)"
      by (auto simp: handle_message_def split: sum.splits prod.splits)
    from dispatch_first [OF this] assms(1) s' Some cfg show ?thesis
      by (auto simp: first_registered_def split: list.splits)
  qed
qed

interpretation first: server_invariant env "first_registered env" for env
proof
  show "first_registered env s'" if "first_registered env s" "serve_read env f msg s = Inr s'" for s f msg s'
    using first_registered_read [OF that] .
qed (auto simp: first_registered_def split: list.splits)

lemma first_registered_start:
  assumes "SIMULATOR_MODE (d_cfg d) = SYSTEM_WIDE" "sim_client_lookup d = []" "start env su evs d = Inr (b, s)"
  shows "first_registered env s"
  by (rule first.start_keeps [OF _ _ assms(3)]) (use assms(1,2) in \<open>simp_all add: first_registered_def new_server_def\<close>)

lemma sim_init_answer:
  assumes "SIMULATOR_MODE (d_cfg d) = SYSTEM_WIDE" "parse env bs = Some m" "sim_init m"
    "transmits env (init_reply d True response_template)" "transmits env (init_reply d False response_template)"
  shows "\<exists>d' reply. handle_message env f bs d = Inr (d', [(f, reply)]) \<and>
     parse env reply = Some (init_reply d (sim_client_lookup d = []) response_template) \<and>
     d' = (if sim_client_lookup d = [] then d\<lparr>sim_client_lookup := [(''simulator'', client_details_of m (fd_lookup d))]\<rparr> else d)"
  using assms
  by (auto simp: handle_message_def dispatch_def no_sends_def handle_init_def Let_def sim_init_def is_op_def map_size_def
      map_emplace.simps init_reply_def send_serialized_def elim!: transmitsE)

text \<open>C17: In SYSTEM_WIDE mode, whatever a server that started without a simulator has been through: its three tables are
  well-formed \<open>std::map\<close>s, the simulator registered is the first one that asked to be, under the key \<open>simulator\<close>, and
  when the next one asks it is registered and told SUCCESS if there has been none; otherwise it is told FAILURE
  and nothing changes.\<close>

theorem server_registries:
  assumes "registries_ok d" "SIMULATOR_MODE (d_cfg d) = SYSTEM_WIDE" "sim_client_lookup d = []"
    and "start env su evs d = Inr (b, s)" "parse env bs = Some m" "sim_init m"
    and "transmits env (init_reply (sv_daemon s) True response_template)"
      "transmits env (init_reply (sv_daemon s) False response_template)"
  shows "registries_ok (sv_daemon s) \<and> (\<exists>d' reply r. handle_message env f bs (sv_daemon s) = Inr (d', [(f, reply)]) \<and>
     parse env reply = Some r \<and> is_op INIT r \<and>
     (case filter sim_init (arrived env (sv_handled s)) of
        [] \<Rightarrow> man_code (manifest r) = SUCCESS \<and> sim_client_lookup (sv_daemon s) = [] \<and>
          d' = (sv_daemon s)\<lparr>sim_client_lookup := [(''simulator'', client_details_of m (fd_lookup (sv_daemon s)))]\<rparr>
      | m1 # _ \<Rightarrow> man_code (manifest r) = FAILURE \<and> d' = sv_daemon s \<and>
          (\<exists>fds. sim_client_lookup (sv_daemon s) = [(''simulator'', client_details_of m1 fds)])))"
proof -
  have f: "first_registered env s" by (rule first_registered_start [OF assms(2-4)])
  then have "SIMULATOR_MODE (d_cfg (sv_daemon s)) = SYSTEM_WIDE" by (simp add: first_registered_def)
  from sim_init_answer [OF this assms(5-8), of f] f registries.start_inv [OF assms(1,4)] show ?thesis
    by (auto simp: first_registered_def init_reply_def Let_def is_op_def nsb_simps split: list.splits)
qed

text \<open>Two simulators ask, then a third.\<close>

theorem server_registries_witness:
  "\<exists>b s d' reply r. start fragment_env (Listening 4) (wit_events [wit_init SIM_CLIENT ''s1'' 40000, wit_init SIM_CLIENT ''s2'' 40010]) wit_daemon = Inr (b, s) \<and>
     registries_ok (sv_daemon s) \<and>
     handle_message fragment_env 7 [wit_init SIM_CLIENT ''s3'' 40020] (sv_daemon s) = Inr (d', [(7, reply)]) \<and>
     parse fragment_env reply = Some r \<and> man_code (manifest r) = FAILURE \<and>
     (\<exists>cd. sim_client_lookup (sv_daemon s) = [(''simulator'', cd)] \<and> cd_identifier cd = ''s1'')"
proof -
  let ?evs = "wit_events [wit_init SIM_CLIENT ''s1'' 40000, wit_init SIM_CLIENT ''s2'' 40010]"
  have r: "registries_ok wit_daemon" "SIMULATOR_MODE (d_cfg wit_daemon) = SYSTEM_WIDE" "sim_client_lookup wit_daemon = []"
    by (simp_all add: registries_ok_def wit_daemon_def default_cfg_def)
  have "schedule_reads fragment_env [] ?evs = (False, [(5, [wit_init SIM_CLIENT ''s1'' 40000]), (5, [wit_init SIM_CLIENT ''s2'' 40010])])"
    by (simp add: wit_schedule_reads nsb_simps)
  with start_serves [of fragment_env wit_daemon 4 ?evs]
  have "\<exists>s. start fragment_env (Listening 4) ?evs wit_daemon = Inr (False, s) \<and>
      sv_handled s = [(5, [wit_init SIM_CLIENT ''s1'' 40000]), (5, [wit_init SIM_CLIENT ''s2'' 40010])]"
    by (simp add: wit_daemon_def default_cfg_def fd_set_ok_def wit_events_def one_read_def event_fds_ok_def)
  then obtain s where st: "start fragment_env (Listening 4) ?evs wit_daemon = Inr (False, s)"
    and h: "sv_handled s = [(5, [wit_init SIM_CLIENT ''s1'' 40000]), (5, [wit_init SIM_CLIENT ''s2'' 40010])]" by blast
  have i: "sim_init (wit_init SIM_CLIENT ident p)" for ident p by (simp add: sim_init_def is_op_def nsb_simps)
  have p: "parse fragment_env [wit_init SIM_CLIENT ''s3'' 40020] = Some (wit_init SIM_CLIENT ''s3'' 40020)" by simp
  have a: "filter sim_init (arrived fragment_env (sv_handled s)) = [wit_init SIM_CLIENT ''s1'' 40000, wit_init SIM_CLIENT ''s2'' 40010]"
    using h i by simp
  have c: "cd_identifier (client_details_of (wit_init SIM_CLIENT ''s1'' 40000) fds) = ''s1''" for fds
    by (simp add: client_details_of_def Let_def nsb_simps)
  show ?thesis
    using server_registries [OF r st p i, of 7] st c unfolding a by (auto simp del: fragment_env_sel(1))
qed

section \<open>A failed set-up\<close>

text \<open>When the server socket cannot be set up, \<open>start\<close> returns with the running flag still set:
  \<open>is_running()\<close> then claims a server that does not exist, and every later \<open>start\<close> returns at
  once without trying again.\<close>

theorem failed_setup_leaves_running:
  assumes "\<not> running d" "\<forall>f. su \<noteq> Listening f"
  shows "\<exists>s. start env su evs d = Inr (True, s) \<and> is_running (sv_daemon s) \<and> sv_handled s = [] \<and>
     start env su' evs' (sv_daemon s) = Inr (True, new_server (sv_daemon s))"
  using assms by (cases su) (auto simp: start_def Let_def new_server_def is_running_def)

theorem failed_setup_leaves_running_witness:
  "\<exists>s. start fragment_env (SetupFails 3) [] wit_daemon = Inr (True, s) \<and> is_running (sv_daemon s) \<and>
     sv_handled s = [] \<and> start fragment_env (Listening 3) (wit_events [wit_fetch None]) (sv_daemon s) = Inr (True, new_server (sv_daemon s))"
  by (rule failed_setup_leaves_running) (simp_all add: wit_daemon_def)

end
