(* ===== verification/NSB_Network.thy ===== *)
theory NSB_Network
  imports NSB_Registry
begin

text \<open>
  Clients and daemon as concurrent processes.  A step relation interleaves clients that write
  messages to their connections with a daemon that accepts connections and reads; between them
  is a stream per descriptor.  A read takes some number of the messages that wait on a descriptor
  (TCP does not keep their boundaries); the relation is indexed by the numbers it may take, so
  that executions in which every read takes one message, and those in which reads coalesce, are
  instances of one relation.
\<close>

section \<open>The step relation\<close>

text \<open>\<open>nt_flight\<close> are the messages written on a descriptor and not yet read, \<open>nt_log\<close> all those ever
  written on it, in order.\<close>

record 'b net =
  nt_server :: "'b server"
  nt_flight :: "fd \<Rightarrow> nsbm list"
  nt_log :: "fd \<Rightarrow> nsbm list"

definition net_start :: "daemon \<Rightarrow> 'b net" where
  "net_start d = \<lparr>nt_server = new_server d, nt_flight = (\<lambda>_. []), nt_log = (\<lambda>_. [])\<rparr>"

inductive net_step :: "'b io_env \<Rightarrow> nat set \<Rightarrow> 'b net \<Rightarrow> 'b net \<Rightarrow> bool" for env K where
  Accept: "net_step env K n (n\<lparr>nt_server := accept_channel (Some (NewChannel f ip port)) (nt_server n)\<rparr>)"
| Write: "transmits env m \<Longrightarrow> net_step env K n
     (n\<lparr>nt_flight := (nt_flight n)(f := nt_flight n f @ [m]), nt_log := (nt_log n)(f := nt_log n f @ [m])\<rparr>)"
| Read: "nt_flight n f = ms @ rest \<Longrightarrow> length ms \<in> K \<Longrightarrow> ms \<noteq> [] \<Longrightarrow>
     serve_read env f (concat (map (SerializeAsString env) ms)) (nt_server n) = Inr s \<Longrightarrow>
     net_step env K n (n\<lparr>nt_server := s, nt_flight := (nt_flight n)(f := rest)\<rparr>)"

inductive_cases net_stepE: "net_step env K n n'"

definition net_reach :: "'b io_env \<Rightarrow> nat set \<Rightarrow> daemon \<Rightarrow> 'b net \<Rightarrow> bool" where
  "net_reach env K d n \<longleftrightarrow> (net_step env K)\<^sup>*\<^sup>* (net_start d) n"

lemma net_reach_induct [consumes 1, case_names start step]:
  assumes "net_reach env K d n" "P (net_start d)"
    and "\<And>n n'. net_reach env K d n \<Longrightarrow> P n \<Longrightarrow> net_step env K n n' \<Longrightarrow> P n'"
  shows "P n"
  using assms(1) unfolding net_reach_def
proof (induction rule: rtranclp_induct)
  case base
  show ?case by (rule assms(2))
next
  case (step y z)
  then show ?case using assms(3) by (simp add: net_reach_def)
qed

section \<open>Invariants\<close>

text \<open>Every invariant of the server or the daemon in the sense of \<open>NSB_Server\<close> and \<open>NSB_Registry\<close> holds throughout.\<close>

context server_invariant
begin

lemma net_keeps: "net_reach env K d n \<Longrightarrow> P (new_server d) \<Longrightarrow> P (nt_server n)"
proof (induction rule: net_reach_induct)
  case start
  then show ?case by (simp add: net_start_def)
next
  case (step n n')
  from step.hyps(2) step.IH [OF step.prems] show ?case
    by (cases rule: net_step.cases) (auto intro: accept_keeps read_keeps)
qed

end

context daemon_invariant
begin

lemma net_inv: "net_reach env K d n \<Longrightarrow> P d \<Longrightarrow> P (sv_daemon (nt_server n))"
  using lifted.net_keeps [of K d n] by (simp add: new_server_def)

end

lemma handle_message_cfg: "handle_message env f bs d = Inr (d', s) \<Longrightarrow> d_cfg d' = d_cfg d"
  using handle_message_frame by blast

lemma net_cfg: "net_reach env K d n \<Longrightarrow> d_cfg (sv_daemon (nt_server n)) = d_cfg d"
proof (induction rule: net_reach_induct)
  case start
  then show ?case by (simp add: net_start_def new_server_def)
next
  case (step n n')
  from step.hyps(2) step.IH show ?case
    by (cases rule: net_step.cases) (auto simp: accept_channel_def elim!: serve_readE dest: handle_message_cfg)
qed

text \<open>The buffers follow the messages handled.\<close>

context mailbox
begin

lemma net_follows:
  assumes "codec env" "SYSTEM_MODE (d_cfg d) = PULL" "net_reach env K d n"
  shows "follows env buf ops opn d (nt_server n)"
  by (rule server_invariant.net_keeps [OF follows_invariant [OF assms(1,2)] assms(3)])
    (simp add: new_server_def follows_def queue_ops_def reply_entries_def)

end

text \<open>With one message per read, what a descriptor carried has been handled or is in flight.\<close>

definition handled_on :: "'b io_env \<Rightarrow> fd \<Rightarrow> 'b server \<Rightarrow> nsbm list" where
  "handled_on env f s = arrived env (filter (\<lambda>p. fst p = f) (sv_handled s))"

lemma handled_on_read:
  "serve_read env g bs s = Inr s' \<Longrightarrow>
     handled_on env f s' = handled_on env f s @ (if f = g then case parse env bs of None \<Rightarrow> [] | Some m \<Rightarrow> [m] else [])"
  by (auto elim!: serve_readE simp: handled_on_def split: option.split)

lemma net_log:
  "net_reach env {1} d n \<Longrightarrow> (\<forall>f. \<forall>m\<in>set (nt_flight n f). transmits env m) \<and>
     (\<forall>f. nt_log n f = handled_on env f (nt_server n) @ nt_flight n f)"
proof (induction rule: net_reach_induct)
  case start
  then show ?case by (simp add: net_start_def new_server_def handled_on_def)
next
  case (step n n')
  from step.hyps(2) show ?case
  proof (cases rule: net_step.cases)
    case (Accept f ip port)
    with step.IH show ?thesis by (simp add: accept_channel_def handled_on_def)
  next
    case (Write m f)
    with step.IH show ?thesis by auto
  next
    case (Read f ms rest s)
    then obtain m where m: "ms = [m]" by (auto simp: length_Suc_conv)
    have "\<forall>x\<in>set (nt_flight n f). transmits env x" using step.IH by blast
    with Read(2) m have t: "transmits env m" "\<forall>x\<in>set rest. transmits env x" by simp_all
    from SerializeAsString_parse [OF t(1)] t(2) step.IH Read m show ?thesis by (auto simp: handled_on_read)
  qed
qed

lemma arrived_filter_on:
  "\<forall>(g, bs)\<in>set hs. g \<noteq> f \<longrightarrow> (\<forall>m. parse env bs = Some m \<longrightarrow> \<not> q m) \<Longrightarrow>
     filter q (arrived env hs) = filter q (arrived env (filter (\<lambda>p. fst p = f) hs))"
  by (induction hs) (auto split: option.split)

text \<open>What the daemon has handled of a source has been delivered or is held.\<close>

lemma pushed_queue_ops: "pushed (queue_ops ops d ms) = concat (map (\<lambda>m. pushed (ops d m)) ms)"
  by (induction ms) (simp_all add: queue_ops_def)

lemma net_arrived_logged:
  "net_reach env {1} d n \<Longrightarrow> (g, bs) \<in> set (sv_handled (nt_server n)) \<Longrightarrow> parse env bs = Some m \<Longrightarrow> m \<in> set (nt_log n g)"
  using net_log [of env d n] by (force simp: handled_on_def arrived_def)

lemma net_arrived: "net_reach env {1} d n \<Longrightarrow> m \<in> set (arrived env (sv_handled (nt_server n))) \<Longrightarrow> \<exists>f. m \<in> set (nt_log n f)"
  using net_arrived_logged [of env d n _ _ m] by (force simp: arrived_def split: option.splits)

context mailbox
begin

lemma net_conserves:
  assumes "codec env" "SYSTEM_MODE (d_cfg d) = PULL" "buf d = []" "net_reach env {1} d n"
    and "\<forall>f. \<forall>m\<in>set (nt_log n f). (\<forall>x\<in>set (ops d m). covers_class q x) \<and> (\<forall>e\<in>set (pushed (ops d m)). deliverable env d e)"
  shows "filter q (pushed (queue_ops ops d (arrived env (sv_handled (nt_server n))))) =
     filter q (reply_entries opn d (arrived env (sv_sent (nt_server n))) @ buf (sv_daemon (nt_server n)))"
proof -
  have "\<forall>m\<in>set (arrived env (sv_handled (nt_server n))). (\<forall>x\<in>set (ops d m). covers_class q x) \<and>
      (\<forall>e\<in>set (pushed (ops d m)). deliverable env d e)"
    using net_arrived [OF assms(4)] assms(5) by blast
  moreover from this have "\<forall>e\<in>set (pushed (queue_ops ops d (arrived env (sv_handled (nt_server n))))). deliverable env d e"
    by (simp add: pushed_queue_ops)
  ultimately show ?thesis
    using follows_conserves [OF net_follows [OF assms(1,2,4)], of q] assms(3) by simp
qed

end

lemma net_tx_conserves:
  assumes "codec env" "SYSTEM_MODE (d_cfg d) = PULL" "tx_buffer d = []" "net_reach env {1} d n"
    and "\<forall>f. \<forall>m\<in>set (nt_log n f). keyed_request FETCH src_id m \<and> (is_op SEND m \<longrightarrow> deliverable env d (entry_of_msg d m))"
  shows "filter (\<lambda>e. source e = k) (sent_entries d (arrived env (sv_handled (nt_server n)))) =
     filter (\<lambda>e. source e = k) (reply_entries FETCH d (arrived env (sv_sent (nt_server n))) @ tx_buffer (sv_daemon (nt_server n)))"
  using tx.net_conserves [OF assms(1-4), of "\<lambda>e. source e = k"] assms(5) by (force simp: pushed_tx pushed_tx_ops intro: covers_tx)

lemma net_rx_conserves:
  assumes "codec env" "SYSTEM_MODE (d_cfg d) = PULL" "rx_buffer d = []" "net_reach env {1} d n"
    and "\<forall>f. \<forall>m\<in>set (nt_log n f). keyed_request RECEIVE dest_id m \<and>
       (is_op POST m \<and> man_code (manifest m) = MESSAGE \<longrightarrow> deliverable env d (entry_of_msg d m))"
  shows "filter (\<lambda>e. destination e = k) (posted_entries d (arrived env (sv_handled (nt_server n)))) =
     filter (\<lambda>e. destination e = k) (reply_entries RECEIVE d (arrived env (sv_sent (nt_server n))) @ rx_buffer (sv_daemon (nt_server n)))"
  using rx.net_conserves [OF assms(1-4), of "\<lambda>e. destination e = k"] assms(5) by (force simp: pushed_rx pushed_rx_ops intro: covers_rx)

section \<open>Properties\<close>

text \<open>What the daemon has handled on the descriptor that a source writes to.\<close>

lemma net_tx_handled:
  assumes "codec env" "SYSTEM_MODE (d_cfg d) = PULL" "tx_buffer d = []" "net_reach env {1} d n"
    and "\<forall>f. \<forall>m\<in>set (nt_log n f). keyed_request FETCH src_id m \<and>
       (is_op SEND m \<longrightarrow> deliverable env d (entry_of_msg d m) \<and> (src_id (metadata m) = k \<longrightarrow> f = fk))"
  shows "filter (\<lambda>e. source e = k) (sent_entries d (handled_on env fk (nt_server n))) =
     filter (\<lambda>e. source e = k) (reply_entries FETCH d (arrived env (sv_sent (nt_server n))) @ tx_buffer (sv_daemon (nt_server n)))"
proof -
  let ?s = "nt_server n" and ?q = "\<lambda>e. source e = k"
  have "\<forall>f. \<forall>m\<in>set (nt_log n f). keyed_request FETCH src_id m \<and> (is_op SEND m \<longrightarrow> deliverable env d (entry_of_msg d m))"
    using assms(5) by blast
  note net_tx_conserves [OF assms(1-4) this, of k]
  moreover have "\<forall>(g, bs)\<in>set (sv_handled ?s). g \<noteq> fk \<longrightarrow> (\<forall>m. parse env bs = Some m \<longrightarrow> \<not> (is_op SEND m \<and> ?q (entry_of_msg d m)))"
    using assms(5) by (fastforce simp: entry_of_msg_def dest: net_arrived_logged [OF assms(4)])
  from arrived_filter_on [OF this]
  have "filter ?q (sent_entries d (arrived env (sv_handled ?s))) = filter ?q (sent_entries d (handled_on env fk ?s))"
    by (simp add: handled_on_def sent_entries_def filter_map comp_def conj_commute)
  ultimately show ?thesis by simp
qed

text \<open>C7: Any number of clients that stay connected and the daemon in PULL mode, in any interleaving in which every read
  takes exactly one message (what reads that take more do is \<open>coalesced_sends_lose_the_first\<close>); every FETCH names a
  source, and all SENDs of the source \<open>k\<close> are written on one descriptor and can be answered.  At every moment the messages
  of \<open>k\<close> that have been written are, in order, those that FETCH responses carried, those the daemon holds and those in flight:
  nothing is lost, doubled, reordered or altered on the way to the simulator, whatever the other clients do.\<close>

theorem network_delivery:
  assumes "codec env" "SYSTEM_MODE (d_cfg d) = PULL" "tx_buffer d = []" "net_reach env {1} d n"
    and "\<forall>f. \<forall>m\<in>set (nt_log n f). keyed_request FETCH src_id m \<and>
       (is_op SEND m \<longrightarrow> deliverable env d (entry_of_msg d m) \<and> (src_id (metadata m) = k \<longrightarrow> f = fk))"
  shows "filter (\<lambda>e. source e = k) (sent_entries d (nt_log n fk)) =
     filter (\<lambda>e. source e = k) (reply_entries FETCH d (arrived env (sv_sent (nt_server n)))
       @ tx_buffer (sv_daemon (nt_server n)) @ sent_entries d (nt_flight n fk))"
  using net_tx_handled [OF assms] net_log [OF assms(4)] by (simp add: sent_entries_def)

lemma net_reach_start: "net_reach env K d (net_start d)"
  by (simp add: net_reach_def)

lemma net_reach_step: "net_reach env K d n \<Longrightarrow> net_step env K n n' \<Longrightarrow> net_reach env K d n'"
  unfolding net_reach_def by (rule rtranclp.rtrancl_into_rtrancl)

text \<open>Two applications write, and the daemon reads the second one's message.\<close>

definition wit_net :: "nsbm server \<Rightarrow> nsbm net" where
  "wit_net s = \<lparr>nt_server = s, nt_flight = (\<lambda>_. [])(5 := [wit_send ''a'' ''b'' ''one'']),
     nt_log = (\<lambda>_. [])(5 := [wit_send ''a'' ''b'' ''one''], 8 := [wit_send ''c'' ''b'' ''two''])\<rparr>"

definition wit_net_server :: "nsbm server" where
  "wit_net_server = (new_server wit_daemon)\<lparr>sv_daemon := wit_daemon\<lparr>tx_buffer := [mk_entry ''c'' ''b'' ''two'' 3]\<rparr>,
     sv_handled := [(8, [wit_send ''c'' ''b'' ''two''])]\<rparr>"

definition net_write :: "fd \<Rightarrow> nsbm \<Rightarrow> 'b net \<Rightarrow> 'b net" where
  "net_write f m n = n\<lparr>nt_flight := (nt_flight n)(f := nt_flight n f @ [m]), nt_log := (nt_log n)(f := nt_log n f @ [m])\<rparr>"

lemma net_reach_write: "net_reach env K d n \<Longrightarrow> transmits env m \<Longrightarrow> net_reach env K d (net_write f m n)"
  unfolding net_write_def by (blast intro: net_reach_step net_step.Write)

lemma net_reach_read:
  assumes "net_reach env K d n" "nt_flight n f = m # rest" "1 \<in> K"
    "serve_read env f (SerializeAsString env m) (nt_server n) = Inr s"
  shows "net_reach env K d (n\<lparr>nt_server := s, nt_flight := (nt_flight n)(f := rest)\<rparr>)"
  using net_reach_step [OF assms(1) net_step.Read [where ms = "[m]" and rest = rest and f = f]] assms(2-) by simp

lemma wit_net_reach: "net_reach fragment_env {1} wit_daemon (wit_net wit_net_server)"
proof -
  define n where "n = net_write 8 (wit_send ''c'' ''b'' ''two'') (net_write 5 (wit_send ''a'' ''b'' ''one'') (net_start wit_daemon :: nsbm net))"
  have 1: "net_reach fragment_env {1} wit_daemon n"
    unfolding n_def by (intro net_reach_write net_reach_start) simp_all
  have 2: "nt_flight n 8 = [wit_send ''c'' ''b'' ''two'']" by (simp add: n_def net_write_def net_start_def)
  have "serve_read fragment_env 8 (SerializeAsString fragment_env (wit_send ''c'' ''b'' ''two'')) (nt_server n) = Inr wit_net_server"
    by (simp add: n_def net_write_def net_start_def wit_net_server_def wit_run msg_defs nsb_simps wit_eval SerializeAsString_def int_of_size_def)
  from net_reach_read [OF 1 2 _ this] show ?thesis
    by (simp add: n_def net_write_def net_start_def wit_net_def fun_upd_twist fun_upd_idem)
qed

theorem network_delivery_witness:
  "filter (\<lambda>e. source e = ''c'') (sent_entries wit_daemon (nt_log (wit_net wit_net_server) 8)) =
     filter (\<lambda>e. source e = ''c'') (reply_entries FETCH wit_daemon (arrived fragment_env (sv_sent (nt_server (wit_net wit_net_server))))
       @ tx_buffer (sv_daemon (nt_server (wit_net wit_net_server))) @ sent_entries wit_daemon (nt_flight (wit_net wit_net_server) 8))"
proof (rule network_delivery [OF codec_fragment_env _ _ wit_net_reach])
  show "\<forall>f. \<forall>m\<in>set (nt_log (wit_net wit_net_server) f). keyed_request FETCH src_id m \<and>
      (is_op SEND m \<longrightarrow> deliverable fragment_env wit_daemon (entry_of_msg wit_daemon m) \<and>
         (src_id (metadata m) = ''c'' \<longrightarrow> f = 8))"
    by (simp add: wit_net_def wit_eval msg_defs nsb_simps wit_daemon_def)
qed (simp_all add: wit_daemon_def default_cfg_def)

text \<open>However the reads cut the streams (any number of messages at once) and whatever is written: the
  daemon's configuration never changes, its tables stay well-formed, and in PULL mode it can take
  any further bytes on any descriptor as long as its clients do not close before they are answered.\<close>

theorem network_safe:
  assumes "net_reach env K d n" "registries_ok d"
  shows "d_cfg (sv_daemon (nt_server n)) = d_cfg d \<and> registries_ok (sv_daemon (nt_server n)) \<and>
     (SYSTEM_MODE (d_cfg d) = PULL \<longrightarrow> peers_read env \<longrightarrow> (\<forall>f bs. \<exists>s. serve_read env f bs (nt_server n) = Inr s))"
proof (intro conjI impI allI)
  show cfg: "d_cfg (sv_daemon (nt_server n)) = d_cfg d" by (rule net_cfg [OF assms(1)])
  show "registries_ok (sv_daemon (nt_server n))" by (rule registries.net_inv [OF assms])
  fix f bs
  assume "SYSTEM_MODE (d_cfg d) = PULL" "peers_read env"
  with cfg handle_message_pull [of "sv_daemon (nt_server n)" env f bs]
  show "\<exists>s. serve_read env f bs (nt_server n) = Inr s" by (auto simp: serve_read_def pipes_read)
qed

theorem network_safe_witness:
  "registries_ok (sv_daemon (nt_server (wit_net wit_net_server))) \<and>
     (\<exists>s. serve_read fragment_env 5 [wit_fetch None, empty_nsbm] (nt_server (wit_net wit_net_server)) = Inr s)"
  using network_safe [OF wit_net_reach] by (simp add: registries_ok_def wit_daemon_def map_ok_def default_cfg_def)

text \<open>C8: The same from a simulator to a destination \<open>k\<close> (POST and RECEIVE), under the same conditions: clients that stay
  connected, PULL mode, every read takes exactly one message, every RECEIVE names a destination, and all POSTs for \<open>k\<close>
  are written on one descriptor.  In any such interleaving what has been posted for \<open>k\<close> is, in order, what
  RECEIVE responses carried, what the daemon holds and what is in flight.\<close>

theorem network_delivery_downlink:
  assumes "codec env" "SYSTEM_MODE (d_cfg d) = PULL" "rx_buffer d = []" "net_reach env {1} d n"
    and "\<forall>f. \<forall>m\<in>set (nt_log n f). keyed_request RECEIVE dest_id m \<and>
       (is_op POST m \<and> man_code (manifest m) = MESSAGE \<longrightarrow>
          deliverable env d (entry_of_msg d m) \<and> (dest_id (metadata m) = k \<longrightarrow> f = fk))"
  shows "filter (\<lambda>e. destination e = k) (posted_entries d (nt_log n fk)) =
     filter (\<lambda>e. destination e = k) (reply_entries RECEIVE d (arrived env (sv_sent (nt_server n)))
       @ rx_buffer (sv_daemon (nt_server n)) @ posted_entries d (nt_flight n fk))"
proof -
  let ?s = "nt_server n" and ?q = "\<lambda>e. destination e = k"
  have log: "nt_log n f = handled_on env f ?s @ nt_flight n f" for f using net_log [OF assms(4)] by blast
  have "\<forall>f. \<forall>m\<in>set (nt_log n f). keyed_request RECEIVE dest_id m \<and>
      (is_op POST m \<and> man_code (manifest m) = MESSAGE \<longrightarrow> deliverable env d (entry_of_msg d m))"
    using assms(5) by blast
  note net_rx_conserves [OF assms(1-4) this, of k]
  moreover have "\<forall>(g, bs)\<in>set (sv_handled ?s). g \<noteq> fk \<longrightarrow> (\<forall>m. parse env bs = Some m \<longrightarrow>
      \<not> ((is_op POST m \<and> man_code (manifest m) = MESSAGE) \<and> ?q (entry_of_msg d m)))"
    using assms(5) by (fastforce simp: entry_of_msg_def dest: net_arrived_logged [OF assms(4)])
  from arrived_filter_on [OF this]
  have "filter ?q (posted_entries d (arrived env (sv_handled ?s))) = filter ?q (posted_entries d (handled_on env fk ?s))"
    by (simp add: handled_on_def posted_entries_def filter_map comp_def conj_commute)
  ultimately show ?thesis unfolding log by (simp add: posted_entries_def)
qed

definition wit_down_server :: "nsbm server" where
  "wit_down_server = (new_server wit_daemon)\<lparr>sv_daemon := wit_daemon\<lparr>rx_buffer := [mk_entry ''a'' ''b'' ''one'' 3]\<rparr>,
     sv_handled := [(8, [wit_post ''a'' ''b'' ''one''])]\<rparr>"

definition wit_down_net :: "nsbm net" where
  "wit_down_net = (net_write 8 (wit_post ''a'' ''b'' ''two'') (net_write 8 (wit_post ''a'' ''b'' ''one'') (net_start wit_daemon)))
     \<lparr>nt_server := wit_down_server, nt_flight := (\<lambda>_. [])(8 := [wit_post ''a'' ''b'' ''two''])\<rparr>"

lemma wit_down_reach: "net_reach fragment_env {1} wit_daemon wit_down_net"
proof -
  define n where "n = net_write 8 (wit_post ''a'' ''b'' ''two'') (net_write 8 (wit_post ''a'' ''b'' ''one'') (net_start wit_daemon :: nsbm net))"
  have 1: "net_reach fragment_env {1} wit_daemon n"
    unfolding n_def by (intro net_reach_write net_reach_start) simp_all
  have 2: "nt_flight n 8 = wit_post ''a'' ''b'' ''one'' # [wit_post ''a'' ''b'' ''two'']" by (simp add: n_def net_write_def net_start_def)
  have "serve_read fragment_env 8 (SerializeAsString fragment_env (wit_post ''a'' ''b'' ''one'')) (nt_server n) = Inr wit_down_server"
    by (simp add: n_def net_write_def net_start_def wit_down_server_def wit_run msg_defs nsb_simps wit_eval SerializeAsString_def int_of_size_def)
  from net_reach_read [OF 1 2 _ this] show ?thesis
    by (simp add: n_def net_write_def net_start_def wit_down_net_def)
qed

theorem network_delivery_downlink_witness:
  "filter (\<lambda>e. destination e = ''b'') (posted_entries wit_daemon (nt_log wit_down_net 8)) =
     filter (\<lambda>e. destination e = ''b'') (reply_entries RECEIVE wit_daemon (arrived fragment_env (sv_sent (nt_server wit_down_net)))
       @ rx_buffer (sv_daemon (nt_server wit_down_net)) @ posted_entries wit_daemon (nt_flight wit_down_net 8))"
proof (rule network_delivery_downlink [OF codec_fragment_env _ _ wit_down_reach])
  show "\<forall>f. \<forall>m\<in>set (nt_log wit_down_net f). keyed_request RECEIVE dest_id m \<and>
      (is_op POST m \<and> man_code (manifest m) = MESSAGE \<longrightarrow>
         deliverable fragment_env wit_daemon (entry_of_msg wit_daemon m) \<and> (dest_id (metadata m) = ''b'' \<longrightarrow> f = 8))"
    by (simp add: wit_down_net_def net_write_def net_start_def wit_eval msg_defs nsb_simps wit_daemon_def)
qed (simp_all add: wit_daemon_def default_cfg_def)

section \<open>Liveness\<close>

text \<open>An execution is an infinite sequence of states, each a step from the one before or equal to
  it.  It is fair when a descriptor on which something waits is eventually read, as \<open>select\<close>
  reports it and the loop over the descriptors serves all that are reported.\<close>

definition net_run :: "'b io_env \<Rightarrow> daemon \<Rightarrow> (nat \<Rightarrow> 'b net) \<Rightarrow> bool" where
  "net_run env d e \<longleftrightarrow> e 0 = net_start d \<and> (\<forall>i. e (Suc i) = e i \<or> net_step env {1} (e i) (e (Suc i)))"

definition fair_reads :: "(nat \<Rightarrow> 'b net) \<Rightarrow> bool" where
  "fair_reads e \<longleftrightarrow> (\<forall>i f. nt_flight (e i) f \<noteq> [] \<longrightarrow>
     (\<exists>j\<ge>i. length (nt_flight (e (Suc j)) f) < length (nt_flight (e j) f)))"

lemma net_run_reach: "net_run env d e \<Longrightarrow> net_reach env {1} d (e i)"
proof (induction i)
  case 0
  then show ?case by (simp add: net_run_def net_reach_start)
next
  case (Suc i)
  then show ?case unfolding net_run_def by (metis net_reach_step)
qed

lemma net_step_handled:
  assumes "net_step env {1} n n'" "\<forall>f. \<forall>m\<in>set (nt_flight n f). transmits env m"
  shows "\<exists>ms. handled_on env f (nt_server n') = handled_on env f (nt_server n) @ ms \<and>
     (\<exists>l. nt_log n' f = nt_log n f @ l) \<and>
     (length (nt_flight n' f) < length (nt_flight n f) \<longrightarrow> ms \<noteq> [])"
  using assms(1)
proof (cases rule: net_step.cases)
  case (Accept g ip port)
  then show ?thesis by (simp add: accept_channel_def handled_on_def)
next
  case (Write m g)
  then show ?thesis by simp
next
  case (Read g ms rest s)
  then obtain m where m: "ms = [m]" by (auto simp: length_Suc_conv)
  with Read(2) assms(2) have "transmits env m" by (metis append_Cons list.set_intros(1))
  from SerializeAsString_parse [OF this] Read m show ?thesis by (simp add: handled_on_read)
qed

lemma net_run_step:
  assumes "net_run env d e"
  shows "\<exists>ms. handled_on env f (nt_server (e (Suc i))) = handled_on env f (nt_server (e i)) @ ms \<and>
     (\<exists>l. nt_log (e (Suc i)) f = nt_log (e i) f @ l) \<and>
     (length (nt_flight (e (Suc i)) f) < length (nt_flight (e i) f) \<longrightarrow> ms \<noteq> [])"
proof (cases "e (Suc i) = e i")
  case False
  then have "net_step env {1} (e i) (e (Suc i))" using assms by (auto simp: net_run_def)
  from net_step_handled [OF this] net_log [OF net_run_reach [OF assms]] show ?thesis by blast
qed simp

lemma net_run_mono:
  assumes "net_run env d e"
  shows "(\<exists>ms. handled_on env f (nt_server (e (i + k))) = handled_on env f (nt_server (e i)) @ ms) \<and>
     (\<exists>l. nt_log (e (i + k)) f = nt_log (e i) f @ l)"
proof (induction k)
  case (Suc k)
  with net_run_step [OF assms, of f "i + k"] show ?case by fastforce
qed simp

text \<open>The \<open>p\<close>-th message of a descriptor is handled eventually: each read brings its turn nearer.\<close>

lemma net_run_handles:
  assumes run: "net_run env d e" and fair: "fair_reads e"
  shows "p < length (nt_log (e i) f) \<Longrightarrow>
     \<exists>j\<ge>i. p < length (handled_on env f (nt_server (e j)))"
proof (induction "p + 1 - length (handled_on env f (nt_server (e i)))" arbitrary: i rule: less_induct)
  case less
  show ?case
  proof (cases "p < length (handled_on env f (nt_server (e i)))")
    case False
    have "nt_log (e i) f = handled_on env f (nt_server (e i)) @ nt_flight (e i) f"
      using net_log [OF net_run_reach [OF run]] by blast
    with False less.prems have "nt_flight (e i) f \<noteq> []" by (metis append_Nil2)
    with fair obtain j where j: "j \<ge> i" "length (nt_flight (e (Suc j)) f) < length (nt_flight (e j) f)"
      unfolding fair_reads_def by blast
    obtain ms1 l1 where 1: "handled_on env f (nt_server (e j)) = handled_on env f (nt_server (e i)) @ ms1"
      "nt_log (e j) f = nt_log (e i) f @ l1"
      using net_run_mono [OF run, of f i "j - i"] j(1) by auto
    obtain ms2 l2 where 2: "handled_on env f (nt_server (e (Suc j))) = handled_on env f (nt_server (e j)) @ ms2"
      "nt_log (e (Suc j)) f = nt_log (e j) f @ l2" "ms2 \<noteq> []"
      using net_run_step [OF run, of f j] j(2) by blast
    have len: "length (handled_on env f (nt_server (e (Suc j)))) > length (handled_on env f (nt_server (e i)))"
      using 1 2 by (cases ms2) simp_all
    have log: "p < length (nt_log (e (Suc j)) f)" using 1(2) 2(2) less.prems by simp
    have dec: "p + 1 - length (handled_on env f (nt_server (e (Suc j)))) < p + 1 - length (handled_on env f (nt_server (e i)))"
      using len False by linarith
    obtain k where "k \<ge> Suc j" "p < length (handled_on env f (nt_server (e k)))"
      using less.hyps [OF dec log] by blast
    with j(1) show ?thesis by (intro exI [of _ k]) simp
  qed blast
qed

lemma longer_prefix: "h @ fl = l0 @ l \<Longrightarrow> length l0 \<le> length h \<Longrightarrow> \<exists>later. h = l0 @ later"
  by (auto simp: append_eq_append_conv2)

text \<open>C9: In a fair execution in which every read takes exactly one message (PULL mode, every FETCH names a source, all
  SENDs of the source \<open>k\<close> on one descriptor), everything that \<open>k\<close> has written at any moment reaches the daemon: there is a
  later moment from which on, for ever, those messages are, in order and once each, the first of what FETCH responses have carried
  of \<open>k\<close> and the daemon holds.\<close>

theorem network_liveness:
  assumes "codec env" "SYSTEM_MODE (d_cfg d) = PULL" "tx_buffer d = []" "net_run env d e" "fair_reads e"
    and "\<forall>i f. \<forall>m\<in>set (nt_log (e i) f). keyed_request FETCH src_id m \<and>
       (is_op SEND m \<longrightarrow> deliverable env d (entry_of_msg d m) \<and> (src_id (metadata m) = k \<longrightarrow> f = fk))"
  shows "\<exists>j\<ge>i. \<forall>j'\<ge>j. \<exists>later.
     filter (\<lambda>x. source x = k) (reply_entries FETCH d (arrived env (sv_sent (nt_server (e j')))) @ tx_buffer (sv_daemon (nt_server (e j')))) =
     filter (\<lambda>x. source x = k) (sent_entries d (nt_log (e i) fk)) @ later"
proof -
  obtain j where j: "j \<ge> i" "length (nt_log (e i) fk) \<le> length (handled_on env fk (nt_server (e j)))"
    using net_run_handles [OF assms(4,5), of "length (nt_log (e i) fk) - 1" i fk]
    by (cases "nt_log (e i) fk = []") (auto simp: Suc_le_eq)
  have "\<exists>later. handled_on env fk (nt_server (e j')) = nt_log (e i) fk @ later" if "j' \<ge> j" for j'
  proof -
    have at: "j + (j' - j) = j'" "i + (j' - i) = j'" using j(1) that by simp_all
    obtain ms where "handled_on env fk (nt_server (e j')) = handled_on env fk (nt_server (e j)) @ ms"
      using net_run_mono [OF assms(4), of fk j "j' - j"] unfolding at by blast
    moreover obtain l where "nt_log (e j') fk = nt_log (e i) fk @ l"
      using net_run_mono [OF assms(4), of fk i "j' - i"] unfolding at by blast
    moreover have "nt_log (e j') fk = handled_on env fk (nt_server (e j')) @ nt_flight (e j') fk"
      using net_log [OF net_run_reach [OF assms(4)]] by blast
    ultimately show ?thesis
      using j(2) longer_prefix [of "handled_on env fk (nt_server (e j'))" "nt_flight (e j') fk" "nt_log (e i) fk" l] by simp
  qed
  then have "\<exists>later. filter (\<lambda>x. source x = k) (sent_entries d (handled_on env fk (nt_server (e j')))) =
      filter (\<lambda>x. source x = k) (sent_entries d (nt_log (e i) fk)) @ later" if "j' \<ge> j" for j'
    using that by (fastforce simp: sent_entries_def)
  then show ?thesis
    using j(1) unfolding net_tx_handled [OF assms(1-3) net_run_reach [OF assms(4)] spec [OF assms(6)]] by blast
qed

text \<open>An execution that writes one message, reads it and then stays as it is.\<close>

definition wit_live_server :: "nsbm server" where
  "wit_live_server = (new_server wit_daemon)\<lparr>sv_daemon := wit_daemon\<lparr>tx_buffer := [mk_entry ''a'' ''b'' ''one'' 3]\<rparr>,
     sv_handled := [(5, [wit_send ''a'' ''b'' ''one''])]\<rparr>"

definition wit_run_of :: "nat \<Rightarrow> nsbm net" where
  "wit_run_of i = (let n1 = net_write 5 (wit_send ''a'' ''b'' ''one'') (net_start wit_daemon) in
     if i = 0 then net_start wit_daemon else if i = 1 then n1
     else n1\<lparr>nt_server := wit_live_server, nt_flight := (nt_flight n1)(5 := [])\<rparr>)"

lemma net_step_read1:
  assumes "nt_flight n f = m # rest" "1 \<in> K" "serve_read env f (SerializeAsString env m) (nt_server n) = Inr s"
    "n' = n\<lparr>nt_server := s, nt_flight := (nt_flight n)(f := rest)\<rparr>"
  shows "net_step env K n n'"
  unfolding assms(4) by (rule net_step.Read [where ms = "[m]"]) (use assms in simp_all)

lemma wit_run_of_run: "net_run fragment_env wit_daemon wit_run_of"
proof -
  have 1: "net_step fragment_env {1} (wit_run_of 0) (wit_run_of 1)"
    unfolding wit_run_of_def Let_def net_write_def by simp (rule net_step.Write, simp)
  have 2: "net_step fragment_env {1} (wit_run_of 1) (wit_run_of 2)"
  proof (rule net_step_read1 [where f = 5 and rest = "[]" and s = wit_live_server])
    show "nt_flight (wit_run_of 1) 5 = [wit_send ''a'' ''b'' ''one'']"
      by (simp add: wit_run_of_def net_write_def net_start_def)
    show "serve_read fragment_env 5 (SerializeAsString fragment_env (wit_send ''a'' ''b'' ''one'')) (nt_server (wit_run_of 1))
        = Inr wit_live_server"
      by (simp add: wit_run_of_def net_write_def net_start_def wit_live_server_def wit_run msg_defs nsb_simps wit_eval
          SerializeAsString_def int_of_size_def)
  qed (simp_all add: wit_run_of_def Let_def)
  have "wit_run_of (Suc i) = wit_run_of i \<or> net_step fragment_env {1} (wit_run_of i) (wit_run_of (Suc i))" for i
  proof (cases "i < 2")
    case True
    then have "i = 0 \<or> i = 1" by auto
    with 1 2 show ?thesis by (auto simp: numeral_2_eq_2)
  qed (simp add: wit_run_of_def Let_def)
  then show ?thesis by (simp add: net_run_def) (simp add: wit_run_of_def)
qed

lemma wit_run_of_fair: "fair_reads wit_run_of"
proof -
  have "f = 5 \<and> i = 1" if "nt_flight (wit_run_of i) f \<noteq> []" for i f
    using that by (auto simp: wit_run_of_def Let_def net_write_def net_start_def split: if_splits)
  moreover have "length (nt_flight (wit_run_of (Suc 1)) 5) < length (nt_flight (wit_run_of 1) 5)"
    by (simp add: wit_run_of_def Let_def net_write_def net_start_def)
  ultimately show ?thesis unfolding fair_reads_def by blast
qed

theorem network_liveness_witness:
  "\<exists>j\<ge>1. \<forall>j'\<ge>j. \<exists>later. filter (\<lambda>x. source x = ''a'') (reply_entries FETCH wit_daemon (arrived fragment_env (sv_sent (nt_server (wit_run_of j')))))
     @ filter (\<lambda>x. source x = ''a'') (tx_buffer (sv_daemon (nt_server (wit_run_of j')))) = mk_entry ''a'' ''b'' ''one'' 3 # later"
proof -
  have d: "SYSTEM_MODE (d_cfg wit_daemon) = PULL" "tx_buffer wit_daemon = []"
    by (simp_all add: wit_daemon_def default_cfg_def)
  have l: "\<forall>i f. \<forall>m\<in>set (nt_log (wit_run_of i) f). keyed_request FETCH src_id m \<and>
      (is_op SEND m \<longrightarrow> deliverable fragment_env wit_daemon (entry_of_msg wit_daemon m) \<and> (src_id (metadata m) = ''a'' \<longrightarrow> f = 5))"
    by (simp add: wit_run_of_def Let_def net_write_def net_start_def wit_eval msg_defs nsb_simps wit_daemon_def)
  have "filter (\<lambda>x. source x = ''a'') (sent_entries wit_daemon (nt_log (wit_run_of 1) 5)) = [mk_entry ''a'' ''b'' ''one'' 3]"
    by (simp add: wit_run_of_def Let_def net_write_def net_start_def wit_eval msg_defs nsb_simps wit_daemon_def int_of_size_def)
  with network_liveness [OF codec_fragment_env d wit_run_of_run wit_run_of_fair l, of 1] show ?thesis by simp
qed

end
