(* ===== verification/NSB_Typing.thy ===== *)
theory NSB_Typing
  imports NSB_Network
begin

text \<open>
  The types of the protocol: which shapes the messages of the daemon have, which shape answers
  which request, and that the daemon only ever sends messages of these shapes (type soundness of
  the running system).  The clients' handling of responses is total on them.
\<close>

section \<open>Shapes\<close>

datatype msg_type = PingReply | InitReply bool | EntryReply operation | NoEntryReply operation | Forwarded

text \<open>The configuration that an INIT response carries; without the database the address, port and
  number are absent.\<close>

definition config_body :: "cfg \<Rightarrow> config_params" where
  "config_body c = \<lparr>sys_mode = SYSTEM_MODE c, sim_mode = SIMULATOR_MODE c, use_db = USE_DB c,
     db_address = (if USE_DB c then DB_ADDRESS c else []), db_port = (if USE_DB c then DB_PORT c else 0),
     db_num = (if USE_DB c then DB_NUM c else 0)\<rparr>"

definition object_body :: "cfg \<Rightarrow> string \<Rightarrow> body" where
  "object_body c p = (if USE_DB c then MsgKey p else Payload p)"

abbreviation plain_msg :: "operation \<Rightarrow> op_code \<Rightarrow> metadata_msg option \<Rightarrow> body option \<Rightarrow> nsbm" where
  "plain_msg opn code md b \<equiv> \<lparr>manifest_field = Some \<lparr>man_op = opn, man_og = DAEMON, man_code = code\<rparr>,
     metadata_field = md, body_field = b\<rparr>"

inductive reply_type :: "cfg \<Rightarrow> nsbm \<Rightarrow> msg_type \<Rightarrow> bool" for c where
  Ping: "reply_type c (plain_msg PING SUCCESS None None) PingReply"
| Init: "reply_type c (plain_msg INIT (if b then SUCCESS else FAILURE) None (Some (ConfigBody (config_body c)))) (InitReply b)"
| Entry: "entry_exists e \<Longrightarrow> reply_type c (plain_msg opn MESSAGE
     (Some \<lparr>src_id = source e, dest_id = destination e, payload_size = entry_size e\<rparr>)
     (Some (object_body c (payload_obj e)))) (EntryReply opn)"
| NoEntry: "reply_type c (plain_msg opn NO_MESSAGE None None) (NoEntryReply opn)"
| Forward: "man_op (manifest m) = FORWARD \<Longrightarrow> reply_type c m Forwarded"

inductive_cases reply_typeE: "reply_type c m t"
inductive_cases entry_replyE: "reply_type c m (EntryReply opn)"
inductive_cases no_entry_replyE: "reply_type c m (NoEntryReply opn)"

text \<open>The types of what the daemon may send on account of a request.\<close>

fun answers :: "operation \<Rightarrow> msg_type set" where
  "answers PING = {PingReply}"
| "answers INIT = {InitReply True, InitReply False}"
| "answers FETCH = {EntryReply FETCH, NoEntryReply FETCH}"
| "answers RECEIVE = {EntryReply RECEIVE, NoEntryReply RECEIVE}"
| "answers SEND = {Forwarded}"
| "answers POST = {Forwarded}"
| "answers _ = {}"

section \<open>The handlers\<close>

lemma head_of_template:
  "head_of opn DAEMON code response_template = plain_msg opn code None None"
  by (simp add: head_of_def response_template_def set_manifest_def manifest_def empty_nsbm_def empty_manifest_def)

lemma init_reply_type: "reply_type (d_cfg d) (init_reply d b response_template) (InitReply b)"
proof -
  have "init_reply d b response_template =
      plain_msg INIT (if b then SUCCESS else FAILURE) None (Some (ConfigBody (config_body (d_cfg d))))"
    by (simp add: init_reply_def Let_def head_of_template set_config_def config_def config_body_def empty_config_def)
  then show ?thesis by (metis Init)
qed

lemma entry_reply_type:
  "reply_type (d_cfg d) (entry_reply d opn e response_template)
     (if entry_exists e then EntryReply opn else NoEntryReply opn)"
proof (cases "entry_exists e")
  case True
  then have "entry_reply d opn e response_template = plain_msg opn MESSAGE
     (Some \<lparr>src_id = source e, dest_id = destination e, payload_size = entry_size e\<rparr>)
     (Some (object_body (d_cfg d) (payload_obj e)))"
    by (simp add: entry_reply_def head_of_template put_entry_def msg_set_payload_obj_def set_metadata_def
        metadata_def set_payload_def set_msg_key_def empty_metadata_def object_body_def)
  with True show ?thesis by (metis Entry)
qed (simp add: entry_reply_def head_of_template NoEntry)

lemma forward_copy_type: "reply_type c (forward_copy m) Forwarded"
  by (rule Forward) (simp add: forward_copy_def nsb_simps)

lemma handle_init_type:
  "handle_init m response_template d = (d', out, True) \<Longrightarrow> \<exists>b. reply_type (d_cfg d) out (InitReply b)"
proof -
  assume h: "handle_init m response_template d = (d', out, True)"
  have "\<exists>b. out = init_reply d' b response_template"
    using h by (auto simp: handle_init_def Let_def split: if_splits originator.splits simulator_mode.splits)
  with init_reply_type [of d'] handle_init_frame [OF h] show ?thesis by metis
qed

lemma handle_fetch_type:
  "handle_fetch m response_template d = (d', out, b) \<Longrightarrow> \<exists>t\<in>answers FETCH. reply_type (d_cfg d) out t"
  unfolding handle_fetch_def using entry_reply_type [of d FETCH] by (auto split: prod.splits if_splits) metis+

lemma handle_receive_type:
  "handle_receive m response_template d = (d', out, b) \<Longrightarrow> \<exists>t\<in>answers RECEIVE. reply_type (d_cfg d) out t"
  unfolding handle_receive_def using entry_reply_type [of d RECEIVE] by (auto split: prod.splits if_splits) metis+

lemma send_serialized_set:
  "(g, x) \<in> set (send_serialized env f m) \<Longrightarrow> g = f \<and> serialize env m = Some x"
  by (auto simp: send_serialized_def split: option.splits if_splits)

lemma forward_to_set: "forward_to env f m = Inr s \<Longrightarrow> (g, x) \<in> set s \<Longrightarrow> serialize env m = Some x"
  by (auto simp: forward_to_def split: if_splits dest: send_serialized_set)

lemma handle_send_sends:
  "handle_send env m out d = Inr (d', out', req, s) \<Longrightarrow> (g, x) \<in> set s \<Longrightarrow> serialize env (forward_copy m) = Some x"
  by (auto simp: handle_send_def Let_def split: system_mode.splits simulator_mode.splits option.splits sum.splits prod.splits
      dest: forward_to_set)

lemma handle_post_sends:
  "handle_post env m out d = Inr (d', out', req, s) \<Longrightarrow> (g, x) \<in> set s \<Longrightarrow> serialize env (forward_copy m) = Some x"
  by (auto simp: handle_post_def Let_def split: system_mode.splits if_splits option.splits sum.splits prod.splits
      dest: forward_to_set)

lemma dispatch_response_type:
  assumes "dispatch env m d = Inr (d', out, True, s)"
  shows "\<exists>t\<in>answers (man_op (manifest m)). reply_type (d_cfg d) out t"
proof (cases "man_op (manifest m)")
  case PING
  with assms Ping show ?thesis by (auto simp: dispatch_def no_sends_def handle_ping_def head_of_template)
next
  case INIT
  with assms obtain d1 where "handle_init m response_template d = (d1, out, True)"
    by (auto simp: dispatch_def no_sends_def split: prod.splits)
  from handle_init_type [OF this] INIT show ?thesis by (metis (full_types) answers.simps(2) insertCI)
next
  case FETCH
  with assms handle_fetch_type show ?thesis by (fastforce simp: dispatch_def no_sends_def split: prod.splits)
next
  case RECEIVE
  with assms handle_receive_type show ?thesis by (fastforce simp: dispatch_def no_sends_def split: prod.splits)
qed (use assms in \<open>auto simp: dispatch_def Let_def dest: handle_send_frame handle_post_frame\<close>)

lemma dispatch_forward_type:
  assumes "dispatch env m d = Inr (d', out, req, s)" "(g, x) \<in> set s"
  shows "Forwarded \<in> answers (man_op (manifest m)) \<and> serialize env (forward_copy m) = Some x"
  using assms
  by (cases "man_op (manifest m)")
    (auto simp: dispatch_def Let_def no_sends_def split: prod.splits dest: handle_send_sends handle_post_sends)

lemma handle_message_type:
  assumes "handle_message env f bs d = Inr (d', s)" "(g, x) \<in> set s"
  shows "\<exists>m out t. parse env bs = Some m \<and> serialize env out = Some x \<and> reply_type (d_cfg d) out t \<and>
     t \<in> answers (man_op (manifest m)) \<and> (t \<noteq> Forwarded \<longrightarrow> g = f)"
proof -
  obtain m out req fwd where m: "parse env bs = Some m" "dispatch env m d = Inr (d', out, req, fwd)"
    and s: "s = fwd @ (if req then send_serialized env f out else [])"
    using assms by (auto simp: handle_message_def split: option.splits sum.splits)
  show ?thesis
  proof (cases "(g, x) \<in> set fwd")
    case True
    with dispatch_forward_type [OF m(2)] forward_copy_type m(1) show ?thesis by blast
  next
    case False
    with assms(2) have "req" "(g, x) \<in> set (send_serialized env f out)" by (auto simp: s split: if_splits)
    moreover obtain t where "t \<in> answers (man_op (manifest m))" "reply_type (d_cfg d) out t"
      using dispatch_response_type [of env m d d' out fwd] m(2) \<open>req\<close> by auto
    ultimately show ?thesis using m(1) send_serialized_set by blast
  qed
qed

section \<open>Properties\<close>

definition typed_sends :: "'b io_env \<Rightarrow> cfg \<Rightarrow> 'b sends \<Rightarrow> bool" where
  "typed_sends env c s \<longleftrightarrow> (\<forall>(g, x)\<in>set s. \<exists>out t. serialize env out = Some x \<and> reply_type c out t)"

text \<open>C14: Type soundness: in every reachable state of clients and daemon, in either mode and whatever was
  written and however reads cut the streams, each message that the daemon has sent is a serialised message of
  one of the five shapes, with the daemon's own configuration in INIT responses and in the choice
  between payload and key.\<close>

theorem daemon_sends_typed:
  assumes "net_reach env K d n"
  shows "typed_sends env (d_cfg d) (sv_sent (nt_server n))"
  using assms
proof (induction rule: net_reach_induct)
  case start
  then show ?case by (simp add: typed_sends_def net_start_def new_server_def)
next
  case (step n n')
  from step.hyps(2) show ?case
  proof (cases rule: net_step.cases)
    case (Read f ms rest s)
    then obtain d' out where h: "handle_message env f (concat (map (SerializeAsString env) ms)) (sv_daemon (nt_server n)) = Inr (d', out)"
      and s: "sv_sent s = sv_sent (nt_server n) @ out" by (auto elim!: serve_readE)
    have "typed_sends env (d_cfg d) out"
      unfolding typed_sends_def using handle_message_type [OF h] net_cfg [OF step.hyps(1)] by (fastforce split: prod.splits)
    with step.IH Read s show ?thesis by (auto simp: typed_sends_def)
  qed (use step.IH in \<open>auto simp: accept_channel_def\<close>)
qed

text \<open>An application has sent, and a simulator has fetched.\<close>

definition wit_typed_reply :: nsbm where
  "wit_typed_reply = entry_reply wit_daemon FETCH (mk_entry ''a'' ''b'' ''one'' 3) response_template"

definition wit_typed_server :: "nsbm server" where
  "wit_typed_server = (new_server wit_daemon)\<lparr>sv_handled := [(5, [wit_send ''a'' ''b'' ''one'']), (5, [wit_fetch (Some ''a'')])],
     sv_sent := [(5, [wit_typed_reply])]\<rparr>"

lemma wit_typed_reach: "\<exists>n. net_reach fragment_env {1} wit_daemon n \<and> nt_server n = wit_typed_server"
proof -
  define n where "n = net_write 5 (wit_fetch (Some ''a'')) (net_write 5 (wit_send ''a'' ''b'' ''one'') (net_start wit_daemon :: nsbm net))"
  define n1 where "n1 = n\<lparr>nt_server := wit_live_server, nt_flight := (nt_flight n)(5 := [wit_fetch (Some ''a'')])\<rparr>"
  have 1: "net_reach fragment_env {1} wit_daemon n"
    unfolding n_def by (intro net_reach_write net_reach_start) simp_all
  have 2: "nt_flight n 5 = wit_send ''a'' ''b'' ''one'' # [wit_fetch (Some ''a'')]" by (simp add: n_def net_write_def net_start_def)
  have "serve_read fragment_env 5 (SerializeAsString fragment_env (wit_send ''a'' ''b'' ''one'')) (nt_server n) = Inr wit_live_server"
    by (simp add: n_def net_write_def net_start_def wit_live_server_def wit_run msg_defs nsb_simps wit_eval SerializeAsString_def int_of_size_def)
  from net_reach_read [OF 1 2 _ this] have 3: "net_reach fragment_env {1} wit_daemon n1" by (simp add: n1_def)
  have 4: "nt_flight n1 5 = wit_fetch (Some ''a'') # []" by (simp add: n1_def)
  have "serve_read fragment_env 5 (SerializeAsString fragment_env (wit_fetch (Some ''a''))) (nt_server n1) = Inr wit_typed_server"
    by (simp add: n1_def wit_live_server_def wit_typed_server_def wit_typed_reply_def wit_run msg_defs nsb_simps wit_eval
        SerializeAsString_def entry_reply_def put_entry_def msg_set_payload_obj_def)
  from net_reach_read [OF 3 4 _ this] show ?thesis by fastforce
qed

theorem daemon_sends_typed_witness:
  "sv_sent wit_typed_server = [(5, [wit_typed_reply])] \<and> man_code (manifest wit_typed_reply) = MESSAGE \<and>
     typed_sends fragment_env (d_cfg wit_daemon) (sv_sent wit_typed_server)"
proof -
  obtain n where "net_reach fragment_env {1} wit_daemon n" "nt_server n = wit_typed_server"
    using wit_typed_reach by blast
  with daemon_sends_typed [of fragment_env "{1}" wit_daemon n] show ?thesis
    by (simp add: wit_typed_server_def wit_typed_reply_def entry_reply_def nsb_simps)
qed

text \<open>C15: The client's side of the types: on a response of a type that answers its FETCH or RECEIVE, a client
  with the daemon's setting of the database (connected, if it is on) always gets a value: the
  entry with its source, destination and size, or the empty entry.\<close>

theorem typed_reply_handled:
  assumes "reply_type c m t" "t \<in> answers opn" "opn = FETCH \<or> opn = RECEIVE" "parse (pb ce) bs = Some m" "bs \<noteq> []"
    and "USE_DB (c_cfg cl) = USE_DB c" "USE_DB c \<longrightarrow> db cl \<noteq> None"
  shows "\<exists>e cl' w'. handle_response ce opn bs cl w = Inr (e, cl', w') \<and>
     (case t of EntryReply _ \<Rightarrow> source e = src_id (metadata m) \<and> source e \<noteq> [] \<and>
          destination e = dest_id (metadata m) \<and> destination e \<noteq> [] \<and> entry_size e = payload_size (metadata m) \<and>
          (\<not> USE_DB c \<longrightarrow> entry_exists e \<and> cl' = cl \<and> w' = w)
        | _ \<Rightarrow> e = empty_entry \<and> cl' = cl \<and> w' = w)"
proof -
  consider (entry) "t = EntryReply opn" | (none) "t = NoEntryReply opn" using assms(2,3) by auto
  then show ?thesis
  proof cases
    case entry
    obtain conn where conn: "USE_DB c \<Longrightarrow> db cl = Some conn" using assms(7) by blast
    obtain pl conn' w1 where "checkOut (redisCommand ce) (msg_key m) conn w = (pl, conn', w1)"
      by (cases "checkOut (redisCommand ce) (msg_key m) conn w") auto
    with assms(1) entry show ?thesis
      using assms(3-6) conn
      by (auto elim!: entry_replyE simp: handle_response_def unpack_entry_def manifest_def metadata_def
          payload_def object_body_def entry_exists_def Let_def)
  next
    case none
    with assms show ?thesis
      by (auto elim!: no_entry_replyE simp: handle_response_def manifest_def)
  qed
qed

definition wit_typed_env :: "(nsbm, nat) client_env" where
  "wit_typed_env = \<lparr>pb = fragment_env, comm = \<lparr>sendMessage = (\<lambda>_ _ w. Inr (0, w)), receiveMessage = (\<lambda>_ _ w. Inr ([], w))\<rparr>,
     sockname = (\<lambda>_. None), redisConnect = (\<lambda>_ _. None), redisCommand = (\<lambda>_ w. (None, w)), clock = (\<lambda>_. 0),
     indeterminate = default_cfg\<rparr>"

theorem typed_reply_handled_witness:
  "\<exists>e cl' w'. handle_response wit_typed_env FETCH [entry_reply wit_daemon FETCH (mk_entry ''a'' ''b'' ''one'' 3) response_template]
     (new_sim_client ''sim'') 0 = Inr (e, cl', w') \<and> source e = ''a'' \<and> entry_exists e"
proof -
  let ?m = "entry_reply wit_daemon FETCH (mk_entry ''a'' ''b'' ''one'' 3) response_template"
  have t: "reply_type (d_cfg wit_daemon) ?m (EntryReply FETCH)"
    using entry_reply_type [of wit_daemon FETCH "mk_entry ''a'' ''b'' ''one'' 3"] by simp
  have u: "USE_DB (c_cfg (new_sim_client ''sim'')) = USE_DB (d_cfg wit_daemon)"
    "USE_DB (d_cfg wit_daemon) \<longrightarrow> db (new_sim_client ''sim'') \<noteq> None"
    by (simp_all add: new_sim_client_def new_client_def wit_daemon_def default_cfg_def)
  have m: "src_id (metadata ?m) = ''a''"
    by (simp add: entry_reply_def put_entry_def msg_set_payload_obj_def nsb_simps)
  have p: "parse (pb wit_typed_env) [?m] = Some ?m" by (simp add: wit_typed_env_def)
  have c: "\<not> USE_DB (d_cfg wit_daemon)" by (simp add: wit_daemon_def default_cfg_def)
  from typed_reply_handled [OF t _ _ p _ u, where w = 0 and opn = FETCH] m c show ?thesis by auto
qed

end
