(* ===== verification/NSB_System.thy ===== *)
theory NSB_System
  imports NSB_Registry
begin

text \<open>
  Client library and daemon together.  The network between them is the communication
  interface \<open>loop_comms\<close>: what a client sends on a channel is one read of the daemon on the
  descriptor of that channel, and what the daemon sends on a descriptor is one message for
  the client that holds it.  (What happens when reads do not follow messages is the subject
  of \<open>NSB_Delivery\<close> and \<open>NSB_Socket\<close>.)  The world also holds the state of the Redis server.
\<close>

section \<open>The connected system\<close>

record ('b, 's) loop_world =
  lw_daemon :: daemon
  lw_inbox :: "fd \<Rightarrow> 'b list list"
  lw_redis :: 's

definition deliver :: "'b sends \<Rightarrow> (fd \<Rightarrow> 'b list list) \<Rightarrow> fd \<Rightarrow> 'b list list" where
  "deliver out box = fold (\<lambda>(g, x) bx. bx(g := bx g @ [x])) out box"

definition loop_send :: "'b io_env \<Rightarrow> (channel \<Rightarrow> fd) \<Rightarrow> channel \<Rightarrow> 'b list \<Rightarrow> ('b, 's) loop_world \<Rightarrow>
    io_stop + i32 \<times> ('b, 's) loop_world" where
  "loop_send env fds ch bs w = (case handle_message env (fds ch) bs (lw_daemon w) of
     Inl _ \<Rightarrow> Inl NoReturn
   | Inr (d, out) \<Rightarrow> Inr (0, w\<lparr>lw_daemon := d, lw_inbox := deliver out (lw_inbox w)\<rparr>))"

definition loop_receive :: "(channel \<Rightarrow> fd) \<Rightarrow> channel \<Rightarrow> i32 option \<Rightarrow> ('b, 's) loop_world \<Rightarrow>
    io_stop + 'b list \<times> ('b, 's) loop_world" where
  "loop_receive fds ch t w = (case lw_inbox w (fds ch) of
     [] \<Rightarrow> Inr ([], w)
   | x # xs \<Rightarrow> Inr (x, w\<lparr>lw_inbox := (lw_inbox w)(fds ch := xs)\<rparr>))"

definition loop_comms :: "'b io_env \<Rightarrow> (channel \<Rightarrow> fd) \<Rightarrow> ('b, ('b, 's) loop_world) comms" where
  "loop_comms env fds = \<lparr>sendMessage = loop_send env fds, receiveMessage = loop_receive fds\<rparr>"

definition loop_redis :: "'s redis_exec \<Rightarrow> ('b, 's) loop_world redis_exec" where
  "loop_redis exec argv w = (let (r, s) = exec argv (lw_redis w) in (r, w\<lparr>lw_redis := s\<rparr>))"

lemma loop_comms_sel [simp]:
  "sendMessage (loop_comms env fds) = loop_send env fds"
  "receiveMessage (loop_comms env fds) = loop_receive fds"
  by (simp_all add: loop_comms_def)

text \<open>A client environment on this network.\<close>

definition on_loop :: "'b io_env \<Rightarrow> (channel \<Rightarrow> fd) \<Rightarrow> 's redis_exec \<Rightarrow> ('b, ('b, 's) loop_world) client_env \<Rightarrow> bool" where
  "on_loop env fds exec ce \<longleftrightarrow> pb ce = env \<and> comm ce = loop_comms env fds \<and> redisCommand ce = loop_redis exec"

section \<open>One exchange\<close>

lemma serialize_transmits: "transmits env m \<Longrightarrow> parse env (SerializeAsString env m) = Some m \<and> SerializeAsString env m \<noteq> []"
  using SerializeAsString_parse [of env m] by (auto simp: SerializeAsString_def elim!: transmitsE)

text \<open>A message that is stored: no response.\<close>

lemma loop_store:
  assumes "transmits env m" "dispatch env m (lw_daemon w) = Inr (d, out, False, [])"
  shows "loop_send env fds ch (SerializeAsString env m) w = Inr (0, w\<lparr>lw_daemon := d\<rparr>)"
  using assms serialize_transmits [OF assms(1)]
  by (simp add: loop_send_def handle_message_def deliver_def)

text \<open>A request and its response.\<close>

lemma loop_request:
  assumes "transmits env m" "dispatch env m (lw_daemon w) = Inr (d, out, True, [])" "transmits env out"
    and "lw_inbox w (fds ch) = []"
  shows "\<exists>w1 bs. loop_send env fds ch (SerializeAsString env m) w = Inr (0, w1) \<and>
     loop_receive fds ch t w1 = Inr (bs, w\<lparr>lw_daemon := d\<rparr>) \<and> bs \<noteq> [] \<and> parse env bs = Some out"
proof -
  obtain bs where bs: "serialize env out = Some bs" "bs \<noteq> []" "alloc_ok env (length bs)" "parse env bs = Some out"
    using assms(3) by (rule transmitsE)
  let ?w1 = "w\<lparr>lw_daemon := d, lw_inbox := (lw_inbox w)(fds ch := [bs])\<rparr>"
  have "loop_send env fds ch (SerializeAsString env m) w = Inr (0, ?w1)"
    using assms(2,4) serialize_transmits [OF assms(1)] bs
    by (simp add: loop_send_def handle_message_def deliver_def send_serialized_def)
  moreover have "(lw_inbox w)(fds ch := []) = lw_inbox w" using assms(4) by (metis fun_upd_triv)
  ultimately show ?thesis using bs by (intro exI [of _ ?w1] exI [of _ bs]) (simp add: loop_receive_def)
qed

section \<open>The four client operations\<close>

lemma dispatch_send_pull:
  "SYSTEM_MODE (d_cfg d) = PULL \<Longrightarrow> is_op SEND m \<Longrightarrow>
     dispatch env m d = Inr (d\<lparr>tx_buffer := tx_buffer d @ [entry_of_msg d m]\<rparr>, response_template, False, [])"
  by (simp add: dispatch_def is_op_def handle_send_def push_back_def)

lemma dispatch_post_pull:
  "SYSTEM_MODE (d_cfg d) = PULL \<Longrightarrow> is_op POST m \<Longrightarrow> man_code (manifest m) = MESSAGE \<Longrightarrow>
     dispatch env m d = Inr (d\<lparr>rx_buffer := rx_buffer d @ [entry_of_msg d m]\<rparr>, response_template, False, [])"
  by (simp add: dispatch_def is_op_def handle_post_def push_back_def)

lemma request_fields [nsb_simps]:
  "manifest (request opn og code) = \<lparr>man_op = opn, man_og = og, man_code = code\<rparr>"
  "metadata (request opn og code) = empty_metadata" "has_manifest (request opn og code)"
  by (simp_all add: request_def nsb_simps head_of_def empty_manifest_def)

lemma fetch_request_fields [nsb_simps]:
  "manifest (fetch_request c og k) = \<lparr>man_op = FETCH, man_og = og, man_code = SUCCESS\<rparr>"
  "has_metadata (fetch_request c og k)" "has_manifest (fetch_request c og k)"
  "src_id (metadata (fetch_request c og k)) = (case SIMULATOR_MODE (c_cfg c) of
       SYSTEM_WIDE \<Rightarrow> (case k of None \<Rightarrow> [] | Some i \<Rightarrow> i) | PER_NODE \<Rightarrow> clientId c | _ \<Rightarrow> [])"
  by (simp_all add: fetch_request_def nsb_simps split: simulator_mode.split option.split)

lemma receive_request_fields [nsb_simps]:
  "manifest (receive_request c og k) = \<lparr>man_op = RECEIVE, man_og = og, man_code = SUCCESS\<rparr>"
  "has_metadata (receive_request c og k)" "has_manifest (receive_request c og k)"
  "dest_id (metadata (receive_request c og k)) = (case k of None \<Rightarrow> clientId c | Some i \<Rightarrow> i)"
  by (simp_all add: receive_request_def nsb_simps split: option.split)

text \<open>A request that takes what \<open>r\<close> is out of the buffer is answered with it.\<close>

lemma entry_or_blank_simps [simp]: "entry_or_blank (Some e) = e" "entry_or_blank None = empty_entry"
  by (simp_all add: entry_or_blank_def)

lemma dispatch_fetch:
  assumes "take_keyed source True (src_id (metadata m)) (tx_buffer d) = (r, tx)"
    and "man_op (manifest m) = FETCH" "has_metadata m"
  shows "dispatch env m d = Inr (d\<lparr>tx_buffer := tx\<rparr>, entry_reply d FETCH (entry_or_blank r) response_template, True, [])"
  using assms by (simp add: dispatch_def no_sends_def handle_fetch_def)

lemma dispatch_receive:
  assumes "take_keyed destination True (dest_id (metadata m)) (rx_buffer d) = (r, rx)"
    and "man_op (manifest m) = RECEIVE" "has_metadata m"
  shows "dispatch env m d = Inr (d\<lparr>rx_buffer := rx\<rparr>, entry_reply d RECEIVE (entry_or_blank r) response_template, True, [])"
  using assms by (simp add: dispatch_def no_sends_def handle_receive_def)

text \<open>The message that a client's \<open>send\<close> or \<open>post\<close> puts on the wire without a database.\<close>

lemma app_send_loop:
  assumes "on_loop env fds exec ce" "originIndicator c = Some og" "\<not> USE_DB (c_cfg c)"
    and "transmits env m" "m = data_message SEND og (clientId c) dest pl (set_payload pl)"
    and "SYSTEM_MODE (d_cfg (lw_daemon w)) = PULL"
  shows "app_send ce dest pl c w = Inr ([], c, w\<lparr>lw_daemon := (lw_daemon w)\<lparr>tx_buffer :=
      tx_buffer (lw_daemon w) @ [entry_of_msg (lw_daemon w) m]\<rparr>\<rparr>)"
proof -
  have "is_op SEND m" by (simp add: assms(5) is_op_def nsb_simps)
  from loop_store [OF assms(4) dispatch_send_pull [OF assms(6) this]] assms show ?thesis
    by (simp add: app_send_def store_payload_def on_loop_def)
qed

lemma sim_post_loop:
  assumes "on_loop env fds exec ce" "originIndicator c = Some og" "\<not> USE_DB (c_cfg c)"
    and "transmits env m" "m = data_message POST og src dest pl (set_payload pl)"
    and "SYSTEM_MODE (d_cfg (lw_daemon w)) = PULL"
  shows "sim_post ce src dest pl c w = Inr ([], c, w\<lparr>lw_daemon := (lw_daemon w)\<lparr>rx_buffer :=
      rx_buffer (lw_daemon w) @ [entry_of_msg (lw_daemon w) m]\<rparr>\<rparr>)"
proof -
  have "is_op POST m" "man_code (manifest m) = MESSAGE" by (simp_all add: assms(5) is_op_def nsb_simps)
  from loop_store [OF assms(4) dispatch_post_pull [OF assms(6) this]] assms show ?thesis
    by (simp add: sim_post_def store_payload_def on_loop_def)
qed

text \<open>What the client makes of a response: the entry, or the empty one for NO_MESSAGE.\<close>

definition entry_taken :: "message_entry \<Rightarrow> message_entry" where
  "entry_taken e = (if entry_exists e then e else empty_entry)"

lemma entry_taken_simps [simp]: "entry_exists e \<Longrightarrow> entry_taken e = e" "entry_taken empty_entry = empty_entry"
  by (simp_all add: entry_taken_def)

lemma handle_response_entry:
  assumes "bs \<noteq> []" "parse (pb ce) bs = Some (entry_reply d opn e out)" "\<not> USE_DB (c_cfg c)" "\<not> USE_DB (d_cfg d)"
  shows "handle_response ce opn bs c w = Inr (entry_taken e, c, w)"
proof (cases "entry_exists e")
  case True
  then have "src_id (metadata (entry_reply d opn e out)) = source e" "dest_id (metadata (entry_reply d opn e out)) = destination e"
    "payload (entry_reply d opn e out) = payload_obj e" "payload_size (metadata (entry_reply d opn e out)) = entry_size e"
    using assms(4) by (simp_all add: entry_reply_def put_entry_def msg_set_payload_obj_def nsb_simps)
  with assms True show ?thesis by (simp add: handle_response_def unpack_entry_def nsb_simps)
next
  case False
  with assms show ?thesis by (simp add: handle_response_def entry_taken_def nsb_simps)
qed

lemma sim_fetch_reply:
  assumes "on_loop env fds exec ce" "originIndicator c = Some og" "\<not> USE_DB (c_cfg c)"
    "SYSTEM_MODE (c_cfg c) = PULL" "\<not> USE_DB (d_cfg (lw_daemon w))"
    and "take_keyed source True (src_id (metadata (fetch_request c og k))) (tx_buffer (lw_daemon w)) = (r, tx)"
    and "transmits env (fetch_request c og k)"
    and "transmits env (entry_reply (lw_daemon w) FETCH (entry_or_blank r) response_template)" "lw_inbox w (fds RECV_CH) = []"
  shows "sim_fetch ce k t c w = Inr (entry_taken (entry_or_blank r), c, w\<lparr>lw_daemon := (lw_daemon w)\<lparr>tx_buffer := tx\<rparr>\<rparr>)"
proof -
  have "dispatch env (fetch_request c og k) (lw_daemon w) =
      Inr ((lw_daemon w)\<lparr>tx_buffer := tx\<rparr>, entry_reply (lw_daemon w) FETCH (entry_or_blank r) response_template, True, [])"
    using dispatch_fetch [OF assms(6)] by (simp add: nsb_simps)
  from loop_request [OF assms(7) this assms(8), of fds RECV_CH "Some t"] assms
  show ?thesis
    using handle_response_entry [of _ ce "lw_daemon w" FETCH "entry_or_blank r" response_template c]
    by (auto simp: sim_fetch_def pull_or_wait_def on_loop_def)
qed

lemma app_receive_reply:
  assumes "on_loop env fds exec ce" "originIndicator c = Some og" "\<not> USE_DB (c_cfg c)"
    "SYSTEM_MODE (c_cfg c) = PULL" "\<not> USE_DB (d_cfg (lw_daemon w))"
    and "take_keyed destination True (dest_id (metadata (receive_request c og k))) (rx_buffer (lw_daemon w)) = (r, rx)"
    and "transmits env (receive_request c og k)"
    and "transmits env (entry_reply (lw_daemon w) RECEIVE (entry_or_blank r) response_template)" "lw_inbox w (fds RECV_CH) = []"
  shows "app_receive ce k t c w = Inr (entry_taken (entry_or_blank r), c, w\<lparr>lw_daemon := (lw_daemon w)\<lparr>rx_buffer := rx\<rparr>\<rparr>)"
proof -
  have "dispatch env (receive_request c og k) (lw_daemon w) =
      Inr ((lw_daemon w)\<lparr>rx_buffer := rx\<rparr>, entry_reply (lw_daemon w) RECEIVE (entry_or_blank r) response_template, True, [])"
    using dispatch_receive [OF assms(6)] by (simp add: nsb_simps)
  from loop_request [OF assms(7) this assms(8), of fds RECV_CH "Some t"] assms
  show ?thesis
    using handle_response_entry [of _ ce "lw_daemon w" RECEIVE "entry_or_blank r" response_template c]
    by (auto simp: app_receive_def pull_or_wait_def on_loop_def)
qed

lemma sim_fetch_loop:
  assumes "on_loop env fds exec ce" "originIndicator c = Some og" "\<not> USE_DB (c_cfg c)"
    "SYSTEM_MODE (c_cfg c) = PULL" "SYSTEM_MODE (d_cfg (lw_daemon w)) = PULL" "\<not> USE_DB (d_cfg (lw_daemon w))"
    and "take_keyed source True (src_id (metadata (fetch_request c og k))) (tx_buffer (lw_daemon w)) = (Some e, tx)"
    and "entry_exists e" "transmits env (fetch_request c og k)"
    and "transmits env (entry_reply (lw_daemon w) FETCH e response_template)" "lw_inbox w (fds RECV_CH) = []"
  shows "sim_fetch ce k t c w = Inr (e, c, w\<lparr>lw_daemon := (lw_daemon w)\<lparr>tx_buffer := tx\<rparr>\<rparr>)"
  using sim_fetch_reply [OF assms(1-4,6,7,9) _ assms(11)] assms(8,10) by simp

lemma app_receive_loop:
  assumes "on_loop env fds exec ce" "originIndicator c = Some og" "\<not> USE_DB (c_cfg c)"
    "SYSTEM_MODE (c_cfg c) = PULL" "SYSTEM_MODE (d_cfg (lw_daemon w)) = PULL" "\<not> USE_DB (d_cfg (lw_daemon w))"
    and "take_keyed destination True (dest_id (metadata (receive_request c og k))) (rx_buffer (lw_daemon w)) = (Some e, rx)"
    and "entry_exists e" "transmits env (receive_request c og k)"
    and "transmits env (entry_reply (lw_daemon w) RECEIVE e response_template)" "lw_inbox w (fds RECV_CH) = []"
  shows "app_receive ce k t c w = Inr (e, c, w\<lparr>lw_daemon := (lw_daemon w)\<lparr>rx_buffer := rx\<rparr>\<rparr>)"
  using app_receive_reply [OF assms(1-4,6,7,9) _ assms(11)] assms(8,10) by simp

section \<open>A message through the system\<close>

text \<open>What the four parties do for one message: the application sends, the simulator fetches by
  source and posts what it got, the destination receives.\<close>

definition relay :: "('b, 'w) client_env \<Rightarrow> ('b, 'w) client_env \<Rightarrow> ('b, 'w) client_env \<Rightarrow>
    client \<Rightarrow> client \<Rightarrow> client \<Rightarrow> string \<Rightarrow> string \<Rightarrow> i32 \<Rightarrow> 'w \<Rightarrow>
    io_stop + message_entry \<times> (client \<times> client \<times> client) \<times> 'w" where
  "relay ea es eb ca cs cb dest pl t w =
     bind_res (app_send ea dest pl ca w) (\<lambda>(_, ca1, w1).
     bind_res (sim_fetch es (Some (clientId ca)) t cs w1) (\<lambda>(e, cs1, w2).
     bind_res (sim_post es (source e) (destination e) (payload_obj e) cs1 w2) (\<lambda>(_, cs2, w3).
     bind_res (app_receive eb None t cb w3) (\<lambda>(e', cb1, w4). Inr (e', (ca1, cs2, cb1), w4)))))"

text \<open>A client ready to work: it has its origin and the daemon's modes.\<close>

definition ready :: "originator \<Rightarrow> daemon \<Rightarrow> client \<Rightarrow> bool" where
  "ready og d c \<longleftrightarrow> originIndicator c = Some og \<and> SYSTEM_MODE (c_cfg c) = SYSTEM_MODE (d_cfg d) \<and>
     SIMULATOR_MODE (c_cfg c) = SIMULATOR_MODE (d_cfg d) \<and> USE_DB (c_cfg c) = USE_DB (d_cfg d)"

lemma take_keyed_appended:
  "k \<noteq> [] \<Longrightarrow> \<forall>e\<in>set l. key e \<noteq> k \<Longrightarrow> key e = k \<Longrightarrow> take_keyed key True k (l @ [e]) = (Some e, l)"
  using find_erase_split [of "\<lambda>x. key x = k" e l "[]"] by (simp add: take_keyed_def)

text \<open>End to end, without a database: what the application sends is what the destination
  receives, with source, destination, payload and size unchanged, and afterwards daemon,
  network and clients are as before, whatever other messages the daemon holds.\<close>

theorem relay_delivers:
  fixes ca cb :: client and dest pl :: string and w :: "('b, 's) loop_world"
  defines "e \<equiv> mk_entry (clientId ca) dest pl (int_of_size pl)"
  assumes "on_loop env fa exec ea" "on_loop env fs exec es" "on_loop env fb exec eb"
    and "ready APP_CLIENT (lw_daemon w) ca" "ready SIM_CLIENT (lw_daemon w) cs" "ready APP_CLIENT (lw_daemon w) cb"
    and "SYSTEM_MODE (d_cfg (lw_daemon w)) = PULL" "SIMULATOR_MODE (d_cfg (lw_daemon w)) = SYSTEM_WIDE"
    and "\<not> USE_DB (d_cfg (lw_daemon w))" "clientId cb = dest"
    and "deliverable env (lw_daemon w) e"
    and "\<forall>x\<in>set (tx_buffer (lw_daemon w)). source x \<noteq> clientId ca"
    and "\<forall>x\<in>set (rx_buffer (lw_daemon w)). destination x \<noteq> dest"
    and "lw_inbox w (fs RECV_CH) = []" "lw_inbox w (fb RECV_CH) = []"
    and "transmits env (data_message SEND APP_CLIENT (clientId ca) dest pl (set_payload pl))"
      "transmits env (data_message POST SIM_CLIENT (clientId ca) dest pl (set_payload pl))"
      "transmits env (fetch_request cs SIM_CLIENT (Some (clientId ca)))"
      "transmits env (receive_request cb APP_CLIENT None)"
  shows "relay ea es eb ca cs cb dest pl t w = Inr (e, (ca, cs, cb), w)"
proof -
  let ?d = "lw_daemon w"
  let ?w1 = "w\<lparr>lw_daemon := ?d\<lparr>tx_buffer := tx_buffer ?d @ [e]\<rparr>\<rparr>"
  let ?w3 = "w\<lparr>lw_daemon := ?d\<lparr>rx_buffer := rx_buffer ?d @ [e]\<rparr>\<rparr>"
  have ex: "entry_exists e" "clientId ca \<noteq> []" "dest \<noteq> []"
    using assms(12) by (auto simp: deliverable_def e_def)
  note dl = deliverable_transmits [OF assms(12)]
  have ent: "entry_of_msg ?d (data_message opn og (clientId ca) dest pl (set_payload pl)) = e" for opn og
    using assms(10) by (simp add: entry_of_msg_def e_def msg_get_payload_obj_def nsb_simps)
  have 1: "app_send ea dest pl ca w = Inr ([], ca, ?w1)"
    using app_send_loop [OF assms(2) _ _ assms(17) refl, where w = w] assms(5,8,10) ent by (simp add: ready_def)
  have 2: "sim_fetch es (Some (clientId ca)) t cs ?w1 = Inr (e, cs, w)"
  proof -
    have "take_keyed source True (src_id (metadata (fetch_request cs SIM_CLIENT (Some (clientId ca)))))
        (tx_buffer (lw_daemon ?w1)) = (Some e, tx_buffer ?d)"
      using take_keyed_appended [of "clientId ca" "tx_buffer ?d" source e] ex assms(6,9,13)
      by (simp add: nsb_simps ready_def e_def)
    from sim_fetch_loop [OF assms(3) _ _ _ _ _ this ex(1) assms(19), of t]
    show ?thesis using assms(6,8,10,15) dl [of "lw_daemon ?w1" FETCH] by (simp add: ready_def)
  qed
  have 3: "sim_post es (source e) (destination e) (payload_obj e) cs w = Inr ([], cs, ?w3)"
    using sim_post_loop [OF assms(3) _ _ assms(18) refl, where w = w and c = cs] assms(6,8,10) ent by (simp add: ready_def e_def)
  have 4: "app_receive eb None t cb ?w3 = Inr (e, cb, w)"
  proof -
    have "take_keyed destination True (dest_id (metadata (receive_request cb APP_CLIENT None)))
        (rx_buffer (lw_daemon ?w3)) = (Some e, rx_buffer ?d)"
      using take_keyed_appended [of dest "rx_buffer ?d" destination e] ex assms(11,14)
      by (simp add: nsb_simps e_def)
    from app_receive_loop [OF assms(4) _ _ _ _ _ this ex(1) assms(20), of t]
    show ?thesis using assms(7,8,10,16) dl [of "lw_daemon ?w3" RECEIVE] by (simp add: ready_def)
  qed
  show ?thesis unfolding relay_def using 1 2 3 4 by simp
qed

definition wit_fds :: "fd \<Rightarrow> channel \<Rightarrow> fd" where
  "wit_fds base ch = base + int (channel_code ch)"

definition wit_env :: "fd \<Rightarrow> (nsbm, (nsbm, string \<Rightarrow> string option) loop_world) client_env" where
  "wit_env base = \<lparr>pb = fragment_env, comm = loop_comms fragment_env (wit_fds base),
     sockname = (\<lambda>ch. Some (''127.0.0.1'', word_of_int (40000 + base + int (channel_code ch)))),
     redisConnect = (\<lambda>_ _. Some False), redisCommand = loop_redis map_server, clock = (\<lambda>_. 7),
     indeterminate = default_cfg\<rparr>"

definition wit_world :: "(nsbm, string \<Rightarrow> string option) loop_world" where
  "wit_world = \<lparr>lw_daemon = wit_daemon, lw_inbox = (\<lambda>_. []), lw_redis = Map.empty\<rparr>"

lemma wit_env_on_loop [simp]: "on_loop fragment_env (wit_fds base) map_server (wit_env base)"
  by (simp add: on_loop_def wit_env_def)

theorem relay_delivers_witness:
  "relay (wit_env 5) (wit_env 8) (wit_env 11) (new_app_client ''a'') (new_sim_client ''sim'') (new_app_client ''b'')
     ''b'' ''hello'' 30 wit_world
   = Inr (mk_entry ''a'' ''b'' ''hello'' 5, (new_app_client ''a'', new_sim_client ''sim'', new_app_client ''b''), wit_world)"
  using relay_delivers [OF wit_env_on_loop wit_env_on_loop wit_env_on_loop, of wit_world "new_app_client ''a''"
      "new_sim_client ''sim''" "new_app_client ''b''" "''b''" "''hello''" 8 11 5 30]
  by (simp add: wit_world_def wit_daemon_def ready_def msg_defs int_of_size_def)

section \<open>Registration and ping\<close>

text \<open>The descriptor table knows the addresses that the client's sockets have.\<close>

definition addresses_known :: "daemon \<Rightarrow> (channel \<Rightarrow> fd) \<Rightarrow> (channel \<Rightarrow> (string \<times> i32) option) \<Rightarrow> bool" where
  "addresses_known d fds names \<longleftrightarrow> (\<exists>a. \<forall>ch. \<exists>p. names ch = Some (a, p) \<and> map_find (fd_lookup d) (addr_key a p) = Some (fds ch))"

lemma init_request_fields:
  assumes "\<And>ch. names ch = Some (a, p ch)"
  shows "manifest (init_request names ident og) = \<lparr>man_op = INIT, man_og = og, man_code = SUCCESS\<rparr>"
    "has_intro (init_request names ident og)"
    "intro (init_request names ident og) = \<lparr>client_identifier = ident, address = a, ch_CTRL = p CTRL,
       ch_SEND = p SEND_CH, ch_RECV = p RECV_CH\<rparr>"
  using assms
  by (simp_all add: init_request_def getSetChannelAddrPort_def set_port_def nsb_simps request_def
      head_of_def empty_manifest_def empty_intro_def)

lemma init_reply_config:
  "has_config (init_reply d b response_template)"
  "sys_mode (config (init_reply d b response_template)) = SYSTEM_MODE (d_cfg d)"
  "sim_mode (config (init_reply d b response_template)) = SIMULATOR_MODE (d_cfg d)"
  "use_db (config (init_reply d b response_template)) = USE_DB (d_cfg d)"
  "USE_DB (d_cfg d) \<Longrightarrow> db_address (config (init_reply d b response_template)) = DB_ADDRESS (d_cfg d)"
  "USE_DB (d_cfg d) \<Longrightarrow> db_port (config (init_reply d b response_template)) = DB_PORT (d_cfg d)"
  by (simp_all add: init_reply_def Let_def nsb_simps)

text \<open>The client's side of a successful INIT.\<close>

lemma handle_init_reply:
  assumes "bs \<noteq> []" "parse (pb ce) bs = Some (init_reply d True response_template)"
    "USE_DB (d_cfg d) \<longrightarrow> (\<forall>a p. redisConnect ce a p = Some False)" "originIndicator c = Some og"
  shows "\<exists>c'. handle_init_response ce bs c = Inr c' \<and> ready og d c' \<and> clientId c' = clientId c \<and>
    (USE_DB (d_cfg d) \<longrightarrow> (\<exists>conn. db c' = Some conn \<and> isConnected conn \<and>
        rc_address conn = DB_ADDRESS (d_cfg d) \<and> rc_port conn = DB_PORT (d_cfg d) \<and> rc_client conn = clientId c \<and> plctr conn = 0))"
proof -
  let ?c1 = "c\<lparr>c_cfg := cfg_of_msg (indeterminate ce) (init_reply d True response_template)\<rparr>"
  have r: "handle_init_response ce bs c = setup_db (redisConnect ce) ?c1"
    using assms(1,2) by (simp add: handle_init_response_def nsb_simps init_reply_config)
  show ?thesis
  proof (cases "USE_DB (d_cfg d)")
    case False
    then show ?thesis unfolding r using assms(4)
      by (simp add: setup_db_def cfg_of_msg_def Let_def init_reply_config ready_def)
  next
    case True
    have f: "USE_DB (c_cfg ?c1)" "DB_ADDRESS (c_cfg ?c1) = DB_ADDRESS (d_cfg d)" "DB_PORT (c_cfg ?c1) = DB_PORT (d_cfg d)"
      "SYSTEM_MODE (c_cfg ?c1) = SYSTEM_MODE (d_cfg d)" "SIMULATOR_MODE (c_cfg ?c1) = SIMULATOR_MODE (d_cfg d)"
      using True by (simp_all add: cfg_of_msg_def Let_def init_reply_config)
    let ?conn = "\<lparr>rc_client = clientId c, plctr = 0, rc_address = DB_ADDRESS (d_cfg d),
        rc_port = DB_PORT (d_cfg d), rctx = Some False\<rparr>"
    have "setup_db (redisConnect ce) ?c1 =
        Inr (?c1\<lparr>db := Some ?conn, c_cfg := (c_cfg ?c1)\<lparr>DB_ADDRESS := []\<rparr>\<rparr>)"
      unfolding setup_db_def f new_redis_def connect_def using assms(3) True f(1) by (simp add: isConnected_def)
    then show ?thesis unfolding r using f True assms(4) by (simp add: ready_def isConnected_def)
  qed
qed

lemma init_reply_cfg: "d_cfg d = d_cfg d' \<Longrightarrow> init_reply d = init_reply d'"
  by (simp add: fun_eq_iff init_reply_def)

text \<open>\<open>initialize\<close> when the daemon accepts the request.\<close>

lemma initialize_loop:
  assumes "on_loop env fds exec ce" "originIndicator c = Some og" "lw_inbox w (fds CTRL) = []"
    and "dispatch env (init_request (sockname ce) (clientId c) og) (lw_daemon w) = Inr (d, init_reply d True response_template, True, [])"
    and "USE_DB (d_cfg d) \<longrightarrow> (\<forall>a p. redisConnect ce a p = Some False)"
    and "transmits env (init_request (sockname ce) (clientId c) og)" "transmits env (init_reply d True response_template)"
  shows "\<exists>c'. initialize ce c w = Inr (c', w\<lparr>lw_daemon := d\<rparr>) \<and> ready og d c' \<and> clientId c' = clientId c \<and>
     (USE_DB (d_cfg d) \<longrightarrow> (\<exists>conn. db c' = Some conn \<and> isConnected conn \<and>
        rc_address conn = DB_ADDRESS (d_cfg d) \<and> rc_port conn = DB_PORT (d_cfg d) \<and> rc_client conn = clientId c \<and> plctr conn = 0))"
proof -
  let ?m = "init_request (sockname ce) (clientId c) og"
  obtain w1 bs where ex: "loop_send env fds CTRL (SerializeAsString env ?m) w = Inr (0, w1)"
    "loop_receive fds CTRL (Some DAEMON_RESPONSE_TIMEOUT) w1 = Inr (bs, w\<lparr>lw_daemon := d\<rparr>)"
    "bs \<noteq> []" "parse env bs = Some (init_reply d True response_template)"
    using loop_request [where t = "Some DAEMON_RESPONSE_TIMEOUT" and fds = fds and ch = CTRL and w = w, OF assms(6,4,7,3)] by blast
  obtain c' where "handle_init_response ce bs c = Inr c'" "ready og d c'" "clientId c' = clientId c"
    "USE_DB (d_cfg d) \<longrightarrow> (\<exists>conn. db c' = Some conn \<and> isConnected conn \<and>
        rc_address conn = DB_ADDRESS (d_cfg d) \<and> rc_port conn = DB_PORT (d_cfg d) \<and> rc_client conn = clientId c \<and> plctr conn = 0)"
    using handle_init_reply [of bs ce d c og] ex(3,4) assms(1,2,5) by (auto simp: on_loop_def)
  with ex assms(1,2) show ?thesis by (auto simp: initialize_def on_loop_def)
qed

text \<open>C18: A new application that calls \<open>initialize\<close> comes back ready: it has the daemon's system
  mode, simulator mode and database flag, and, with a database, a connector to the daemon's
  database address and port; and the daemon has registered it under its identifier with the
  descriptors of its own three channels.\<close>

theorem initialize_registers_and_configures:
  assumes "on_loop env fds exec ce" "originIndicator c = Some APP_CLIENT"
    and "registries_ok (lw_daemon w)" "addresses_known (lw_daemon w) fds (sockname ce)"
    and "map_find (app_client_lookup (lw_daemon w)) (clientId c) = None"
    and "lw_inbox w (fds CTRL) = []" "\<forall>a p. redisConnect ce a p = Some False"
    and "transmits env (init_request (sockname ce) (clientId c) APP_CLIENT)"
    and "transmits env (init_reply (lw_daemon w) True response_template)"
  shows "\<exists>c' w'. initialize ce c w = Inr (c', w') \<and> ready APP_CLIENT (lw_daemon w') c' \<and> clientId c' = clientId c \<and>
     (USE_DB (d_cfg (lw_daemon w)) \<longrightarrow> (\<exists>conn. db c' = Some conn \<and> isConnected conn \<and>
        rc_address conn = DB_ADDRESS (d_cfg (lw_daemon w)) \<and> rc_port conn = DB_PORT (d_cfg (lw_daemon w)))) \<and>
     (\<exists>cd. map_find (app_client_lookup (lw_daemon w')) (clientId c) = Some cd \<and>
        ch_CTRL_fd cd = fds CTRL \<and> ch_SEND_fd cd = fds SEND_CH \<and> ch_RECV_fd cd = fds RECV_CH)"
proof -
  let ?d = "lw_daemon w"
  let ?m = "init_request (sockname ce) (clientId c) APP_CLIENT"
  obtain a p where ap: "\<And>ch. sockname ce ch = Some (a, p ch)" "\<And>ch. map_find (fd_lookup ?d) (addr_key a (p ch)) = Some (fds ch)"
    using assms(4) unfolding addresses_known_def by metis
  note f = init_request_fields [of "sockname ce" a p, OF ap(1)]
  let ?cd = "client_details_of ?m (fd_lookup ?d)"
  let ?d1 = "?d\<lparr>app_client_lookup := map_emplace (clientId c) ?cd (app_client_lookup ?d)\<rparr>"
  have rep: "init_reply ?d1 = init_reply ?d" by (rule init_reply_cfg) simp
  have "dispatch env ?m ?d = Inr (?d1, init_reply ?d1 True response_template, True, [])"
    using f by (simp add: dispatch_def no_sends_def handle_init_def Let_def)
  from initialize_loop [OF assms(1,2,6) this _ assms(8)] rep assms(7,9)
  obtain c' where c': "initialize ce c w = Inr (c', w\<lparr>lw_daemon := ?d1\<rparr>)" "ready APP_CLIENT ?d1 c'" "clientId c' = clientId c"
    "USE_DB (d_cfg ?d) \<longrightarrow> (\<exists>conn. db c' = Some conn \<and> isConnected conn \<and>
        rc_address conn = DB_ADDRESS (d_cfg ?d) \<and> rc_port conn = DB_PORT (d_cfg ?d))" by auto
  have "map_find (app_client_lookup ?d1) (clientId c) = Some ?cd"
    using assms(3,5) by (simp add: registries_ok_def std_map.emplace_new)
  moreover have "ch_CTRL_fd ?cd = fds CTRL" "ch_SEND_fd ?cd = fds SEND_CH" "ch_RECV_fd ?cd = fds RECV_CH"
    using f(3) ap(2) by (simp_all add: client_details_of_def Let_def fd_or_minus1_def)
  ultimately show ?thesis using c' by auto
qed

theorem initialize_registers_and_configures_witness:
  "\<exists>c' w'. initialize (wit_env 5) (new_app_client ''b'') (wit_world\<lparr>lw_daemon := wit_daemon\<lparr>fd_lookup :=
       [(addr_key ''127.0.0.1'' 40005, 5), (addr_key ''127.0.0.1'' 40006, 6), (addr_key ''127.0.0.1'' 40007, 7)]\<rparr>\<rparr>) = Inr (c', w')
     \<and> (\<exists>cd. map_find (app_client_lookup (lw_daemon w')) ''b'' = Some cd \<and> ch_RECV_fd cd = 7)"
proof -
  let ?w = "wit_world\<lparr>lw_daemon := wit_daemon\<lparr>fd_lookup :=
       [(addr_key ''127.0.0.1'' 40005, 5), (addr_key ''127.0.0.1'' 40006, 6), (addr_key ''127.0.0.1'' 40007, 7)]\<rparr>\<rparr>"
  have k: "addr_key ''127.0.0.1'' 40005 = ''127.0.0.1:40005''" "addr_key ''127.0.0.1'' 40006 = ''127.0.0.1:40006''"
    "addr_key ''127.0.0.1'' 40007 = ''127.0.0.1:40007''"
    by (simp_all add: addr_key_def to_string_def nat_digits.simps digit_char_def)
  have "registries_ok (lw_daemon ?w)"
    unfolding k by (simp add: registries_ok_def wit_world_def wit_daemon_def map_ok_def)
  moreover have "addresses_known (lw_daemon ?w) (wit_fds 5) (sockname (wit_env 5))"
    unfolding addresses_known_def
  proof (intro exI allI)
    fix ch
    show "sockname (wit_env 5) ch = Some (''127.0.0.1'', word_of_int (40005 + int (channel_code ch))) \<and>
        map_find (fd_lookup (lw_daemon ?w)) (addr_key ''127.0.0.1'' (word_of_int (40005 + int (channel_code ch)))) = Some (wit_fds 5 ch)"
      by (cases ch) (simp_all add: wit_env_def wit_world_def wit_daemon_def map_find_def wit_fds_def k)
  qed
  ultimately show ?thesis
    using initialize_registers_and_configures [OF wit_env_on_loop, of "new_app_client ''b''" ?w 5]
    by (force simp: new_app_client_def new_client_def wit_world_def wit_daemon_def map_find_def wit_env_def wit_fds_def)
qed

text \<open>\<open>ping\<close> tells a working daemon: it returns true exactly because the daemon answers a PING
  with SUCCESS, and neither the daemon's state nor the network is left changed.\<close>

theorem ping_answered:
  assumes "on_loop env fds exec ce" "originIndicator c = Some og" "lw_inbox w (fds CTRL) = []"
    and "transmits env (request PING og SUCCESS)" "transmits env (head_of PING DAEMON SUCCESS response_template)"
  shows "ping ce c w = Inr (True, w)"
proof -
  have "dispatch env (request PING og SUCCESS) (lw_daemon w) =
      Inr (lw_daemon w, head_of PING DAEMON SUCCESS response_template, True, [])"
    by (simp add: dispatch_def nsb_simps no_sends_def handle_ping_def)
  from loop_request [OF assms(4) this assms(5), of fds CTRL "Some DAEMON_RESPONSE_TIMEOUT"] assms(1-3)
  show ?thesis by (auto simp: ping_def on_loop_def ping_ok_def nsb_simps)
qed

theorem ping_answered_witness: "ping (wit_env 5) (new_app_client ''a'') wit_world = Inr (True, wit_world)"
  by (rule ping_answered [OF wit_env_on_loop])
    (simp_all add: new_app_client_def new_client_def wit_world_def)

section \<open>With the database\<close>

lemma store_loop: "store (loop_redis exec) now v conn w =
    (let (k, c, s) = store exec now v conn (lw_redis w) in (k, c, w\<lparr>lw_redis := s\<rparr>))"
  by (auto simp: store_def loop_redis_def Let_def split: prod.split option.split)

lemma checkOut_loop: "checkOut (loop_redis exec) key conn w =
    (let (v, c, s) = checkOut exec key conn (lw_redis w) in (v, c, w\<lparr>lw_redis := s\<rparr>))"
  by (auto simp: checkOut_def loop_redis_def Let_def split: prod.split option.split)

lemma data_message_key_fields [nsb_simps]:
  "manifest (data_message opn og src dest pl (set_msg_key k)) = \<lparr>man_op = opn, man_og = og, man_code = MESSAGE\<rparr>"
  "metadata (data_message opn og src dest pl (set_msg_key k)) =
     \<lparr>src_id = src, dest_id = dest, payload_size = int_of_size pl\<rparr>"
  "msg_key (data_message opn og src dest pl (set_msg_key k)) = k"
  by (simp_all add: data_message_def request_def head_of_def set_manifest_def set_metadata_def
      set_msg_key_def manifest_def metadata_def msg_key_def empty_nsbm_def empty_manifest_def empty_metadata_def)

text \<open>The key that a client's next \<open>store\<close> will use.\<close>

definition next_key :: "int \<Rightarrow> client \<Rightarrow> string" where
  "next_key now c = (case db c of None \<Rightarrow> [] | Some conn \<Rightarrow> fst (generatePayloadId now conn))"

definition db_online :: "client \<Rightarrow> bool" where
  "db_online c \<longleftrightarrow> (case db c of None \<Rightarrow> False | Some conn \<Rightarrow> isConnected conn)"

lemma store_payload_loop:
  assumes "redis_laws exec view" "on_loop env fds exec ce" "USE_DB (c_cfg c)" "db_online c"
  shows "\<exists>conn s. store_payload ce pl c w =
      Inr (set_msg_key (next_key (clock ce w) c), next_key (clock ce w) c, c\<lparr>db := Some conn\<rparr>, w\<lparr>lw_redis := s\<rparr>)
    \<and> isConnected conn \<and> view s = (view (lw_redis w))(c_str (next_key (clock ce w) c) \<mapsto> c_str pl)
    \<and> conn = snd (generatePayloadId (clock ce w) (the (db c)))"
proof -
  obtain conn where c: "db c = Some conn" "isConnected conn"
    using assms(4) by (auto simp: db_online_def split: option.splits)
  obtain c1 s1 where "store exec (clock ce w) pl conn (lw_redis w) = (fst (generatePayloadId (clock ce w) conn), c1, s1)"
    "isConnected c1" "view s1 = (view (lw_redis w))(c_str (fst (generatePayloadId (clock ce w) conn)) \<mapsto> c_str pl)"
    "c1 = snd (generatePayloadId (clock ce w) conn)"
    using store_lawful [OF assms(1) c(2)] by metis
  with c assms(2,3) show ?thesis
    by (auto simp: store_payload_def on_loop_def store_loop next_key_def)
qed

lemma app_send_loop_db:
  assumes "redis_laws exec view" "on_loop env fds exec ce" "ready og (lw_daemon w) c" "db_online c"
    and "USE_DB (d_cfg (lw_daemon w))" "SYSTEM_MODE (d_cfg (lw_daemon w)) = PULL"
    and "transmits env (data_message SEND og (clientId c) dest pl (set_msg_key (next_key (clock ce w) c)))"
  shows "\<exists>conn s. app_send ce dest pl c w = Inr (next_key (clock ce w) c, c\<lparr>db := Some conn\<rparr>,
       w\<lparr>lw_redis := s, lw_daemon := (lw_daemon w)\<lparr>tx_buffer := tx_buffer (lw_daemon w) @
         [mk_entry (clientId c) dest (next_key (clock ce w) c) (int_of_size pl)]\<rparr>\<rparr>)
    \<and> isConnected conn \<and> view s = (view (lw_redis w))(c_str (next_key (clock ce w) c) \<mapsto> c_str pl)
    \<and> conn = snd (generatePayloadId (clock ce w) (the (db c)))"
proof -
  let ?k = "next_key (clock ce w) c"
  let ?m = "data_message SEND og (clientId c) dest pl (set_msg_key ?k)"
  obtain conn s where st: "store_payload ce pl c w = Inr (set_msg_key ?k, ?k, c\<lparr>db := Some conn\<rparr>, w\<lparr>lw_redis := s\<rparr>)"
    "isConnected conn" "view s = (view (lw_redis w))(c_str ?k \<mapsto> c_str pl)" "conn = snd (generatePayloadId (clock ce w) (the (db c)))"
    using store_payload_loop [OF assms(1,2) _ assms(4), of pl w] assms(3,5) by (auto simp: ready_def)
  have "is_op SEND ?m" by (simp add: is_op_def nsb_simps)
  from loop_store [OF assms(7) dispatch_send_pull [OF _ this], of "w\<lparr>lw_redis := s\<rparr>"] assms(2,3,5,6) st show ?thesis
    by (intro exI [of _ conn] exI [of _ s])
      (simp add: app_send_def on_loop_def ready_def entry_of_msg_def msg_get_payload_obj_def nsb_simps)
qed

lemma sim_post_loop_db:
  assumes "redis_laws exec view" "on_loop env fds exec ce" "ready og (lw_daemon w) c" "db_online c"
    and "USE_DB (d_cfg (lw_daemon w))" "SYSTEM_MODE (d_cfg (lw_daemon w)) = PULL"
    and "transmits env (data_message POST og src dest pl (set_msg_key (next_key (clock ce w) c)))"
  shows "\<exists>conn s. sim_post ce src dest pl c w = Inr (next_key (clock ce w) c, c\<lparr>db := Some conn\<rparr>,
       w\<lparr>lw_redis := s, lw_daemon := (lw_daemon w)\<lparr>rx_buffer := rx_buffer (lw_daemon w) @
         [mk_entry src dest (next_key (clock ce w) c) (int_of_size pl)]\<rparr>\<rparr>)
    \<and> isConnected conn \<and> view s = (view (lw_redis w))(c_str (next_key (clock ce w) c) \<mapsto> c_str pl)
    \<and> conn = snd (generatePayloadId (clock ce w) (the (db c)))"
proof -
  let ?k = "next_key (clock ce w) c"
  let ?m = "data_message POST og src dest pl (set_msg_key ?k)"
  obtain conn s where st: "store_payload ce pl c w = Inr (set_msg_key ?k, ?k, c\<lparr>db := Some conn\<rparr>, w\<lparr>lw_redis := s\<rparr>)"
    "isConnected conn" "view s = (view (lw_redis w))(c_str ?k \<mapsto> c_str pl)" "conn = snd (generatePayloadId (clock ce w) (the (db c)))"
    using store_payload_loop [OF assms(1,2) _ assms(4), of pl w] assms(3,5) by (auto simp: ready_def)
  have "is_op POST ?m" "man_code (manifest ?m) = MESSAGE" by (simp_all add: is_op_def nsb_simps)
  from loop_store [OF assms(7) dispatch_post_pull [OF _ this], of "w\<lparr>lw_redis := s\<rparr>"] assms(2,3,5,6) st show ?thesis
    by (intro exI [of _ conn] exI [of _ s])
      (simp add: sim_post_def on_loop_def ready_def entry_of_msg_def msg_get_payload_obj_def nsb_simps)
qed

text \<open>The client's side of a response, with the database: the payload is checked out.\<close>

lemma handle_response_db:
  assumes "redis_laws exec view" "on_loop env fds exec ce" "bs \<noteq> []" "parse env bs = Some (entry_reply d opn e out)"
    and "entry_exists e" "USE_DB (c_cfg c)" "USE_DB (d_cfg d)" "db_online c"
    and "view (lw_redis w) (c_str (payload_obj e)) = Some v"
  shows "\<exists>s. handle_response ce opn bs c w = Inr (mk_entry (source e) (destination e) v (entry_size e), c, w\<lparr>lw_redis := s\<rparr>)
     \<and> view s = (view (lw_redis w))(c_str (payload_obj e) := None)"
proof -
  have f: "src_id (metadata (entry_reply d opn e out)) = source e" "dest_id (metadata (entry_reply d opn e out)) = destination e"
    "msg_key (entry_reply d opn e out) = payload_obj e" "payload_size (metadata (entry_reply d opn e out)) = entry_size e"
    using assms(5,7) by (simp_all add: entry_reply_def put_entry_def msg_set_payload_obj_def nsb_simps)
  obtain conn where conn: "db c = Some conn" "isConnected conn"
    using assms(8) by (auto simp: db_online_def split: option.splits)
  obtain s where s: "checkOut exec (payload_obj e) conn (lw_redis w) = (v, conn, s)"
    "view s = (view (lw_redis w))(c_str (payload_obj e) := None)"
    using checkOut_lawful [OF assms(1) conn(2), of "payload_obj e" "lw_redis w"] assms(9) by auto
  have "c\<lparr>db := Some conn\<rparr> = c" using conn(1) by (cases c) simp
  with assms f conn s show ?thesis
    by (intro exI [of _ s])
      (simp add: handle_response_def unpack_entry_def on_loop_def nsb_simps checkOut_loop Let_def)
qed

lemma sim_fetch_loop_db:
  assumes "redis_laws exec view" "on_loop env fds exec ce" "ready og (lw_daemon w) c" "db_online c"
    and "USE_DB (d_cfg (lw_daemon w))" "SYSTEM_MODE (d_cfg (lw_daemon w)) = PULL"
    and "take_keyed source True (src_id (metadata (fetch_request c og k))) (tx_buffer (lw_daemon w)) = (Some e, tx)"
    and "entry_exists e" "transmits env (fetch_request c og k)"
    and "transmits env (entry_reply (lw_daemon w) FETCH e response_template)" "lw_inbox w (fds RECV_CH) = []"
    and "view (lw_redis w) (c_str (payload_obj e)) = Some v"
  shows "\<exists>s. sim_fetch ce k t c w = Inr (mk_entry (source e) (destination e) v (entry_size e), c,
       w\<lparr>lw_redis := s, lw_daemon := (lw_daemon w)\<lparr>tx_buffer := tx\<rparr>\<rparr>)
     \<and> view s = (view (lw_redis w))(c_str (payload_obj e) := None)"
proof -
  let ?w = "w\<lparr>lw_daemon := (lw_daemon w)\<lparr>tx_buffer := tx\<rparr>\<rparr>"
  have "dispatch env (fetch_request c og k) (lw_daemon w) =
      Inr ((lw_daemon w)\<lparr>tx_buffer := tx\<rparr>, entry_reply (lw_daemon w) FETCH e response_template, True, [])"
    using dispatch_fetch [OF assms(7)] by (simp add: nsb_simps)
  from loop_request [OF assms(9) this assms(10), of fds RECV_CH "Some t"] assms(11)
  obtain w1 bs where ex: "loop_send env fds RECV_CH (SerializeAsString env (fetch_request c og k)) w = Inr (0, w1)"
    "loop_receive fds RECV_CH (Some t) w1 = Inr (bs, ?w)" "bs \<noteq> []"
    "parse env bs = Some (entry_reply (lw_daemon w) FETCH e response_template)" by blast
  obtain s where s: "handle_response ce FETCH bs c ?w =
      Inr (mk_entry (source e) (destination e) v (entry_size e), c, ?w\<lparr>lw_redis := s\<rparr>)"
    "view s = (view (lw_redis w))(c_str (payload_obj e) := None)"
    using handle_response_db [OF assms(1,2) ex(3,4) assms(8) _ assms(5,4), of ?w v] assms(3,5,12)
    by (auto simp: ready_def)
  with ex assms(2,3,6) show ?thesis
    by (intro exI [of _ s]) (simp add: sim_fetch_def pull_or_wait_def on_loop_def ready_def)
qed

lemma app_receive_loop_db:
  assumes "redis_laws exec view" "on_loop env fds exec ce" "ready og (lw_daemon w) c" "db_online c"
    and "USE_DB (d_cfg (lw_daemon w))" "SYSTEM_MODE (d_cfg (lw_daemon w)) = PULL"
    and "take_keyed destination True (dest_id (metadata (receive_request c og k))) (rx_buffer (lw_daemon w)) = (Some e, rx)"
    and "entry_exists e" "transmits env (receive_request c og k)"
    and "transmits env (entry_reply (lw_daemon w) RECEIVE e response_template)" "lw_inbox w (fds RECV_CH) = []"
    and "view (lw_redis w) (c_str (payload_obj e)) = Some v"
  shows "\<exists>s. app_receive ce k t c w = Inr (mk_entry (source e) (destination e) v (entry_size e), c,
       w\<lparr>lw_redis := s, lw_daemon := (lw_daemon w)\<lparr>rx_buffer := rx\<rparr>\<rparr>)
     \<and> view s = (view (lw_redis w))(c_str (payload_obj e) := None)"
proof -
  let ?w = "w\<lparr>lw_daemon := (lw_daemon w)\<lparr>rx_buffer := rx\<rparr>\<rparr>"
  have "dispatch env (receive_request c og k) (lw_daemon w) =
      Inr ((lw_daemon w)\<lparr>rx_buffer := rx\<rparr>, entry_reply (lw_daemon w) RECEIVE e response_template, True, [])"
    using dispatch_receive [OF assms(7)] by (simp add: nsb_simps)
  from loop_request [OF assms(9) this assms(10), of fds RECV_CH "Some t"] assms(11)
  obtain w1 bs where ex: "loop_send env fds RECV_CH (SerializeAsString env (receive_request c og k)) w = Inr (0, w1)"
    "loop_receive fds RECV_CH (Some t) w1 = Inr (bs, ?w)" "bs \<noteq> []"
    "parse env bs = Some (entry_reply (lw_daemon w) RECEIVE e response_template)" by blast
  obtain s where s: "handle_response ce RECEIVE bs c ?w =
      Inr (mk_entry (source e) (destination e) v (entry_size e), c, ?w\<lparr>lw_redis := s\<rparr>)"
    "view s = (view (lw_redis w))(c_str (payload_obj e) := None)"
    using handle_response_db [OF assms(1,2) ex(3,4) assms(8) _ assms(5,4), of ?w v] assms(3,5,12)
    by (auto simp: ready_def)
  with ex assms(2,3,6) show ?thesis
    by (intro exI [of _ s]) (simp add: app_receive_def pull_or_wait_def on_loop_def ready_def)
qed

text \<open>What the Redis-backed relay needs of the wire.\<close>

definition relay_sendable :: "'b io_env \<Rightarrow> daemon \<Rightarrow> client \<Rightarrow> client \<Rightarrow> string \<Rightarrow> string \<Rightarrow> string \<Rightarrow> string \<Rightarrow> string \<Rightarrow> bool" where
  "relay_sendable env d cs cb src dest k1 k2 pl \<longleftrightarrow>
     deliverable env d (mk_entry src dest k1 (int_of_size pl)) \<and>
     deliverable env d (mk_entry src dest k2 (int_of_size (c_str pl))) \<and>
     transmits env (data_message SEND APP_CLIENT src dest pl (set_msg_key k1)) \<and>
     transmits env (data_message POST SIM_CLIENT src dest (c_str pl) (set_msg_key k2)) \<and>
     transmits env (fetch_request cs SIM_CLIENT (Some src)) \<and> transmits env (receive_request cb APP_CLIENT None)"

text \<open>The two halves of the way: from the application through Redis to the simulator, and from there to
  the destination.\<close>

lemma uplink_db:
  fixes ca cs :: client and dest pl :: string and w :: "('b, 's) loop_world" and ea :: "('b, ('b, 's) loop_world) client_env"
  defines "k \<equiv> next_key (clock ea w) ca"
  defines "e \<equiv> mk_entry (clientId ca) dest k (int_of_size pl)"
  assumes "redis_laws exec view" "on_loop env fa exec ea" "on_loop env fs exec es" "ready APP_CLIENT (lw_daemon w) ca"
    "ready SIM_CLIENT (lw_daemon w) cs" "db_online ca" "db_online cs"
    and md: "SYSTEM_MODE (d_cfg (lw_daemon w)) = PULL" "SIMULATOR_MODE (d_cfg (lw_daemon w)) = SYSTEM_WIDE" "USE_DB (d_cfg (lw_daemon w))"
    and dl: "deliverable env (lw_daemon w) e" "transmits env (data_message SEND APP_CLIENT (clientId ca) dest pl (set_msg_key k))"
      "transmits env (fetch_request cs SIM_CLIENT (Some (clientId ca)))"
    and fresh: "\<forall>x\<in>set (tx_buffer (lw_daemon w)). source x \<noteq> clientId ca" and box: "lw_inbox w (fs RECV_CH) = []"
  shows "\<exists>ca' w1 s. app_send ea dest pl ca w = Inr (k, ca', w1) \<and> sim_fetch es (Some (clientId ca)) t cs w1 =
       Inr (mk_entry (clientId ca) dest (c_str pl) (int_of_size pl), cs, w\<lparr>lw_redis := s\<rparr>) \<and>
     view s = (view (lw_redis w))(c_str k := None)"
proof -
  let ?d = "lw_daemon w"
  have ex: "entry_exists e" "clientId ca \<noteq> []" using dl(1) by (auto simp: deliverable_def e_def)
  obtain conn s1 where 1: "app_send ea dest pl ca w = Inr (k, ca\<lparr>db := Some conn\<rparr>,
      w\<lparr>lw_redis := s1, lw_daemon := ?d\<lparr>tx_buffer := tx_buffer ?d @ [e]\<rparr>\<rparr>)"
    "view s1 = (view (lw_redis w))(c_str k \<mapsto> c_str pl)"
    using app_send_loop_db [OF assms(3,4,6,8) md(3,1), of dest pl] dl(2) by (auto simp: k_def e_def)
  let ?w1 = "w\<lparr>lw_redis := s1, lw_daemon := ?d\<lparr>tx_buffer := tx_buffer ?d @ [e]\<rparr>\<rparr>"
  have tk: "take_keyed source True (src_id (metadata (fetch_request cs SIM_CLIENT (Some (clientId ca)))))
      (tx_buffer (lw_daemon ?w1)) = (Some e, tx_buffer ?d)"
    using take_keyed_appended [of "clientId ca" "tx_buffer ?d" source e] ex assms(7) md(2) fresh
    by (simp add: nsb_simps ready_def e_def)
  obtain s2 where "sim_fetch es (Some (clientId ca)) t cs ?w1 =
      Inr (mk_entry (clientId ca) dest (c_str pl) (int_of_size pl), cs, w\<lparr>lw_redis := s2\<rparr>)"
    "view s2 = (view (lw_redis w))(c_str k := None)"
    using sim_fetch_loop_db [OF assms(3,5) _ assms(9) _ _ tk ex(1) dl(3), of "c_str pl" t] assms(7) md 1(2) box
      deliverable_transmits [OF dl(1), of "lw_daemon ?w1" FETCH]
    by (auto simp: ready_def e_def)
  with 1(1) show ?thesis by blast
qed

lemma downlink_db:
  fixes cs cb :: client and src dest pl :: string and w :: "('b, 's) loop_world" and es :: "('b, ('b, 's) loop_world) client_env"
  defines "k \<equiv> next_key (clock es w) cs"
  defines "e \<equiv> mk_entry src dest k (int_of_size pl)"
  assumes "redis_laws exec view" "on_loop env fs exec es" "on_loop env fb exec eb" "ready SIM_CLIENT (lw_daemon w) cs"
    "ready APP_CLIENT (lw_daemon w) cb" "db_online cs" "db_online cb"
    and md: "SYSTEM_MODE (d_cfg (lw_daemon w)) = PULL" "USE_DB (d_cfg (lw_daemon w))" "clientId cb = dest"
    and dl: "deliverable env (lw_daemon w) e" "transmits env (data_message POST SIM_CLIENT src dest pl (set_msg_key k))"
      "transmits env (receive_request cb APP_CLIENT None)"
    and fresh: "\<forall>x\<in>set (rx_buffer (lw_daemon w)). destination x \<noteq> dest" and box: "lw_inbox w (fb RECV_CH) = []"
  shows "\<exists>cs' w1 s. sim_post es src dest pl cs w = Inr (k, cs', w1) \<and>
       app_receive eb None t cb w1 = Inr (mk_entry src dest (c_str pl) (int_of_size pl), cb, w\<lparr>lw_redis := s\<rparr>) \<and>
     view s = (view (lw_redis w))(c_str k := None)"
proof -
  let ?d = "lw_daemon w"
  have ex: "entry_exists e" "dest \<noteq> []" using dl(1) by (auto simp: deliverable_def e_def)
  obtain conn s1 where 1: "sim_post es src dest pl cs w = Inr (k, cs\<lparr>db := Some conn\<rparr>,
      w\<lparr>lw_redis := s1, lw_daemon := ?d\<lparr>rx_buffer := rx_buffer ?d @ [e]\<rparr>\<rparr>)"
    "view s1 = (view (lw_redis w))(c_str k \<mapsto> c_str pl)"
    using sim_post_loop_db [OF assms(3,4,6,8) md(2,1), of src dest pl] dl(2) by (auto simp: k_def e_def)
  let ?w1 = "w\<lparr>lw_redis := s1, lw_daemon := ?d\<lparr>rx_buffer := rx_buffer ?d @ [e]\<rparr>\<rparr>"
  have tk: "take_keyed destination True (dest_id (metadata (receive_request cb APP_CLIENT None)))
      (rx_buffer (lw_daemon ?w1)) = (Some e, rx_buffer ?d)"
    using take_keyed_appended [of dest "rx_buffer ?d" destination e] ex md(3) fresh by (simp add: nsb_simps e_def)
  obtain s2 where "app_receive eb None t cb ?w1 =
      Inr (mk_entry src dest (c_str pl) (int_of_size pl), cb, w\<lparr>lw_redis := s2\<rparr>)"
    "view s2 = (view (lw_redis w))(c_str k := None)"
    using app_receive_loop_db [OF assms(3,5) _ assms(9) _ _ tk ex(1) dl(3), of "c_str pl" t] assms(7) md 1(2) box
      deliverable_transmits [OF dl(1), of "lw_daemon ?w1" RECEIVE]
    by (auto simp: ready_def e_def)
  with 1(1) show ?thesis by blast
qed

text \<open>C12: End to end with the database: the payload travels through Redis under two keys, arrives cut at its
  first NUL byte with its size recomputed from what is left, and both keys are gone from the
  database when it has arrived; the daemon is as before.\<close>

theorem relay_through_redis:
  fixes ca cs cb :: client and dest pl :: string and na ns :: int and w :: "('b, 's) loop_world"
  defines "k1 \<equiv> next_key na ca" and "k2 \<equiv> next_key ns cs"
  assumes redis: "redis_laws exec view"
    and net: "on_loop env fa exec ea" "on_loop env fs exec es" "on_loop env fb exec eb"
    and rdy: "ready APP_CLIENT (lw_daemon w) ca" "ready SIM_CLIENT (lw_daemon w) cs" "ready APP_CLIENT (lw_daemon w) cb"
    and onl: "db_online ca" "db_online cs" "db_online cb" and now: "\<forall>w. clock ea w = na" "\<forall>w. clock es w = ns"
    and md: "SYSTEM_MODE (d_cfg (lw_daemon w)) = PULL" "SIMULATOR_MODE (d_cfg (lw_daemon w)) = SYSTEM_WIDE"
      "USE_DB (d_cfg (lw_daemon w))" "clientId cb = dest"
    and dl: "relay_sendable env (lw_daemon w) cs cb (clientId ca) dest k1 k2 pl"
    and fresh: "\<forall>x\<in>set (tx_buffer (lw_daemon w)). source x \<noteq> clientId ca"
      "\<forall>x\<in>set (rx_buffer (lw_daemon w)). destination x \<noteq> dest"
    and box: "lw_inbox w (fs RECV_CH) = []" "lw_inbox w (fb RECV_CH) = []"
  shows "\<exists>cs3 s. relay ea es eb ca cs cb dest pl t w =
       Inr (mk_entry (clientId ca) dest (c_str pl) (int_of_size (c_str pl)), cs3, w\<lparr>lw_redis := s\<rparr>)
     \<and> view s = (view (lw_redis w))(c_str k1 := None, c_str k2 := None)"
proof -
  note s = dl [unfolded relay_sendable_def]
  obtain ca' w1 s1 where 1: "app_send ea dest pl ca w = Inr (k1, ca', w1)" "sim_fetch es (Some (clientId ca)) t cs w1 =
      Inr (mk_entry (clientId ca) dest (c_str pl) (int_of_size pl), cs, w\<lparr>lw_redis := s1\<rparr>)"
    "view s1 = (view (lw_redis w))(c_str k1 := None)"
    using uplink_db [OF redis net(1,2) rdy(1,2) onl(1,2) md(1,2,3), of dest pl t] s now fresh(1) box(1)
    unfolding k1_def by auto
  let ?w2 = "w\<lparr>lw_redis := s1\<rparr>"
  obtain cs' w3 s2 where 2: "sim_post es (clientId ca) dest (c_str pl) cs ?w2 = Inr (k2, cs', w3)"
    "app_receive eb None t cb w3 = Inr (mk_entry (clientId ca) dest (c_str pl) (int_of_size (c_str pl)), cb, w\<lparr>lw_redis := s2\<rparr>)"
    "view s2 = (view s1)(c_str k2 := None)"
    using downlink_db [OF redis net(2,3), of ?w2 cs cb dest "clientId ca" "c_str pl" t] rdy(2,3) onl(2,3) md s now fresh(2) box(2)
    unfolding k2_def by (auto simp: c_str_def takeWhile_idem)
  from 1 2 show ?thesis unfolding relay_def by auto
qed

definition wit_db :: "client \<Rightarrow> client" where
  "wit_db c = c\<lparr>c_cfg := default_cfg\<lparr>USE_DB := True\<rparr>, db := Some \<lparr>rc_client = clientId c, plctr = 0,
     rc_address = ''127.0.0.1'', rc_port = 6379, rctx = Some False\<rparr>\<rparr>"

theorem relay_through_redis_witness:
  "\<exists>cs3 s. relay (wit_env 5) (wit_env 8) (wit_env 11) (wit_db (new_app_client ''a'')) (wit_db (new_sim_client ''sim''))
       (wit_db (new_app_client ''b'')) ''b'' [CHR ''h'', CHR ''i'', CHR 0x00, CHR ''x''] 30
       (wit_world\<lparr>lw_daemon := wit_daemon\<lparr>d_cfg := default_cfg\<lparr>USE_DB := True\<rparr>\<rparr>\<rparr>)
     = Inr (mk_entry ''a'' ''b'' ''hi'' 2, cs3, wit_world\<lparr>lw_daemon := wit_daemon\<lparr>d_cfg := default_cfg\<lparr>USE_DB := True\<rparr>\<rparr>, lw_redis := s\<rparr>)"
proof -
  let ?w = "wit_world\<lparr>lw_daemon := wit_daemon\<lparr>d_cfg := default_cfg\<lparr>USE_DB := True\<rparr>\<rparr>\<rparr>"
  let ?pl = "[CHR ''h'', CHR ''i'', CHR 0x00, CHR ''x'']"
  have cl: "ready APP_CLIENT (lw_daemon ?w) (wit_db (new_app_client i))" "db_online (wit_db (new_app_client i))"
    "ready SIM_CLIENT (lw_daemon ?w) (wit_db (new_sim_client i))" "db_online (wit_db (new_sim_client i))"
    "clientId (wit_db (new_app_client i)) = i" for i
    by (simp_all add: ready_def wit_db_def new_app_client_def new_sim_client_def new_client_def db_online_def
        isConnected_def)
  have k: "next_key 7 (wit_db c) \<noteq> []" for c
    by (simp add: next_key_def wit_db_def generatePayloadId_def Let_def payload_id_def)
  have w: "tx_buffer (lw_daemon ?w) = []" "rx_buffer (lw_daemon ?w) = []" "lw_inbox ?w = (\<lambda>_. [])"
    "SYSTEM_MODE (d_cfg (lw_daemon ?w)) = PULL" "SIMULATOR_MODE (d_cfg (lw_daemon ?w)) = SYSTEM_WIDE" "USE_DB (d_cfg (lw_daemon ?w))"
    by (simp_all add: wit_world_def wit_daemon_def default_cfg_def)
  have clk: "\<forall>w. clock (wit_env f) w = 7" for f by (simp add: wit_env_def)
  have s: "relay_sendable fragment_env (lw_daemon ?w) (wit_db (new_sim_client ''sim'')) (wit_db (new_app_client ''b''))
      (clientId (wit_db (new_app_client ''a''))) ''b'' (next_key 7 (wit_db (new_app_client ''a'')))
      (next_key 7 (wit_db (new_sim_client ''sim''))) ?pl"
    using k by (simp add: relay_sendable_def cl)
  have c: "c_str ?pl = ''hi''" by (simp add: c_str_def)
  from relay_through_redis [OF map_server_laws wit_env_on_loop wit_env_on_loop wit_env_on_loop cl(1,3,1,2,4,2) clk clk
      w(4-6) cl(5) s, of 8] w(1-3) c show ?thesis
    by (simp add: cl int_of_size_def) blast
qed

end
