(* ===== verification/NSB_Push.thy ===== *)
theory NSB_Push
  imports NSB_System NSB_Network
begin

text \<open>
  PUSH mode through the whole system: the daemon keeps nothing and hands every SEND on to the simulator and
  every POST to its destination; the clients wait for what comes, without a request.  First one
  message all the way, then any number of clients and the daemon in any interleaving.
\<close>

section \<open>One message through the system\<close>

text \<open>What a client sends is at once in the inbox of the client it is meant for.\<close>

lemma loop_push:
  assumes "transmits env m" "transmits env (forward_copy m)" "SYSTEM_MODE (d_cfg (lw_daemon w)) = PUSH"
    "push_target (lw_daemon w) m = Some cd" "ch_RECV_fd cd = g" "fd_set_ok g" "writable env g" "lw_inbox w g = []"
  obtains fwd where "loop_send env fds ch (SerializeAsString env m) w = Inr (0, w\<lparr>lw_inbox := (lw_inbox w)(g := [fwd])\<rparr>)"
    "parse env fwd = Some (forward_copy m)" "fwd \<noteq> []"
proof -
  have p: "parse env (SerializeAsString env m) = Some m" using serialize_transmits [OF assms(1)] by blast
  obtain fwd where "handle_message env (fds ch) (SerializeAsString env m) (lw_daemon w) = Inr (lw_daemon w, [(g, fwd)])"
    "parse env fwd = Some (forward_copy m)" "fwd \<noteq> []"
    using push_message [OF assms(2) p assms(3,4), of "fds ch"] assms(5-7) by metis
  with assms(8) show ?thesis by (intro that [of fwd]) (simp_all add: loop_send_def deliver_def)
qed

text \<open>What a client makes of a forwarded data message.\<close>

lemma handle_response_forward:
  assumes "bs \<noteq> []" "parse (pb ce) bs = Some (forward_copy (data_message opn og src dest pl (set_payload pl)))"
    "\<not> USE_DB (c_cfg c)"
  shows "handle_response ce opn' bs c w = Inr (mk_entry src dest pl (int_of_size pl), c, w)"
  using assms by (simp add: handle_response_def unpack_entry_def forward_copy_eq nsb_simps)

lemma by_mode_push:
  assumes "SYSTEM_MODE (c_cfg c) = PUSH" "comm ce = loop_comms env fds" "lw_inbox w (fds RECV_CH) = bs # rest"
  shows "app_receive_any ce t c w = handle_response ce RECEIVE bs c (w\<lparr>lw_inbox := (lw_inbox w)(fds RECV_CH := rest)\<rparr>)"
    "sim_fetch_any ce t c w = handle_response ce FETCH bs c (w\<lparr>lw_inbox := (lw_inbox w)(fds RECV_CH := rest)\<rparr>)"
  using assms
  by (simp_all add: app_receive_any_def sim_fetch_any_def by_mode_def app_receive_def sim_fetch_def pull_or_wait_def loop_receive_def)

text \<open>The four parties in PUSH mode: the simulator and the destination poll.\<close>

definition relay_push :: "('b, 'w) client_env \<Rightarrow> ('b, 'w) client_env \<Rightarrow> ('b, 'w) client_env \<Rightarrow>
    client \<Rightarrow> client \<Rightarrow> client \<Rightarrow> string \<Rightarrow> string \<Rightarrow> i32 \<Rightarrow> 'w \<Rightarrow>
    io_stop + message_entry \<times> (client \<times> client \<times> client) \<times> 'w" where
  "relay_push ea es eb ca cs cb dest pl t w =
     bind_res (app_send ea dest pl ca w) (\<lambda>(_, ca1, w1).
     bind_res (sim_fetch_any es t cs w1) (\<lambda>(e, cs1, w2).
     bind_res (sim_post es (source e) (destination e) (payload_obj e) cs1 w2) (\<lambda>(_, cs2, w3).
     bind_res (app_receive_any eb t cb w3) (\<lambda>(e', cb1, w4). Inr (e', (ca1, cs2, cb1), w4)))))"

text \<open>Both copies of the message fit Protobuf and the memory.\<close>

definition pushable :: "'b io_env \<Rightarrow> nsbm \<Rightarrow> bool" where
  "pushable env m \<longleftrightarrow> transmits env m \<and> transmits env (forward_copy m)"

text \<open>The client that \<open>push_target\<close> finds listens on \<open>g\<close>, an empty connection that takes a message.\<close>

definition pushes_to :: "'b io_env \<Rightarrow> ('b, 's) loop_world \<Rightarrow> nsbm \<Rightarrow> fd \<Rightarrow> bool" where
  "pushes_to env w m g \<longleftrightarrow> map_option ch_RECV_fd (push_target (lw_daemon w) m) = Some g \<and> fd_set_ok g \<and>
     writable env g \<and> lw_inbox w g = []"

lemma push_step:
  assumes "SYSTEM_MODE (d_cfg (lw_daemon w)) = PUSH" "pushable env m" "pushes_to env w m g"
  obtains fwd where "loop_send env fds ch (SerializeAsString env m) w = Inr (0, w\<lparr>lw_inbox := (lw_inbox w)(g := [fwd])\<rparr>)"
    "parse env fwd = Some (forward_copy m)" "fwd \<noteq> []" "w\<lparr>lw_inbox := (lw_inbox w)(g := [])\<rparr> = w"
proof -
  obtain cd where "push_target (lw_daemon w) m = Some cd" "ch_RECV_fd cd = g"
    using assms(3) by (auto simp: pushes_to_def)
  moreover have "(lw_inbox w)(g := []) = lw_inbox w" using assms(3) by (metis fun_upd_triv pushes_to_def)
  ultimately show ?thesis
    using loop_push [of env m w cd g fds ch] assms that by (auto simp: pushable_def pushes_to_def)
qed

text \<open>C10: End to end in PUSH mode, without a database and with a system-wide or a per-node simulator: what the
  application sends is pushed to the simulator that stands for it, what that posts is pushed to
  the destination, and each finds it at its next poll: nothing is altered, no request is made, no response
  comes, and the system is afterwards as before.\<close>

theorem push_relay_delivers:
  fixes ca cs cb :: client and dest pl :: string and w :: "('b, 's) loop_world"
  defines "m1 \<equiv> data_message SEND APP_CLIENT (clientId ca) dest pl (set_payload pl)"
    and "m2 \<equiv> data_message POST SIM_CLIENT (clientId ca) dest pl (set_payload pl)"
  assumes net: "on_loop env fa exec ea" "on_loop env fs exec es" "on_loop env fb exec eb"
    and rdy: "ready APP_CLIENT (lw_daemon w) ca" "ready SIM_CLIENT (lw_daemon w) cs" "ready APP_CLIENT (lw_daemon w) cb"
    and md: "SYSTEM_MODE (d_cfg (lw_daemon w)) = PUSH" "\<not> USE_DB (d_cfg (lw_daemon w))"
    and ok: "pushable env m1" "pushable env m2" "pushes_to env w m1 (fs RECV_CH)" "pushes_to env w m2 (fb RECV_CH)"
  shows "relay_push ea es eb ca cs cb dest pl t w =
     Inr (mk_entry (clientId ca) dest pl (int_of_size pl), (ca, cs, cb), w)"
proof -
  note env = net [unfolded on_loop_def] and r = rdy [unfolded ready_def]
  obtain f1 where 1: "loop_send env fa SEND_CH (SerializeAsString env m1) w = Inr (0, w\<lparr>lw_inbox := (lw_inbox w)(fs RECV_CH := [f1])\<rparr>)"
    "parse env f1 = Some (forward_copy m1)" "f1 \<noteq> []" "w\<lparr>lw_inbox := (lw_inbox w)(fs RECV_CH := [])\<rparr> = w"
    using push_step [OF md(1) ok(1,3)] by metis
  obtain f2 where 2: "loop_send env fs SEND_CH (SerializeAsString env m2) w = Inr (0, w\<lparr>lw_inbox := (lw_inbox w)(fb RECV_CH := [f2])\<rparr>)"
    "parse env f2 = Some (forward_copy m2)" "f2 \<noteq> []" "w\<lparr>lw_inbox := (lw_inbox w)(fb RECV_CH := [])\<rparr> = w"
    using push_step [OF md(1) ok(2,4)] by metis
  have "app_send ea dest pl ca w = Inr ([], ca, w\<lparr>lw_inbox := (lw_inbox w)(fs RECV_CH := [f1])\<rparr>)"
    using 1(1) env r md by (simp add: app_send_def store_payload_def m1_def)
  moreover have "sim_fetch_any es t cs (w\<lparr>lw_inbox := (lw_inbox w)(fs RECV_CH := [f1])\<rparr>) =
      Inr (mk_entry (clientId ca) dest pl (int_of_size pl), cs, w)"
    using by_mode_push(2) [of cs es env fs "w\<lparr>lw_inbox := (lw_inbox w)(fs RECV_CH := [f1])\<rparr>" f1 "[]" t] 1 env r md
      handle_response_forward [of f1 es SEND APP_CLIENT "clientId ca" dest pl cs] by (simp add: m1_def)
  moreover have "sim_post es (clientId ca) dest pl cs w = Inr ([], cs, w\<lparr>lw_inbox := (lw_inbox w)(fb RECV_CH := [f2])\<rparr>)"
    using 2(1) env r md by (simp add: sim_post_def store_payload_def m2_def)
  moreover have "app_receive_any eb t cb (w\<lparr>lw_inbox := (lw_inbox w)(fb RECV_CH := [f2])\<rparr>) =
      Inr (mk_entry (clientId ca) dest pl (int_of_size pl), cb, w)"
    using by_mode_push(1) [of cb eb env fb "w\<lparr>lw_inbox := (lw_inbox w)(fb RECV_CH := [f2])\<rparr>" f2 "[]" t] 2 env r md
      handle_response_forward [of f2 eb POST SIM_CLIENT "clientId ca" dest pl cb] by (simp add: m2_def)
  ultimately show ?thesis unfolding relay_push_def by simp
qed

text \<open>A daemon in PUSH mode at which the simulator and the application \<open>b\<close> have registered.\<close>

definition wit_details :: "string \<Rightarrow> fd \<Rightarrow> client_details" where
  "wit_details i f = \<lparr>cd_identifier = i, cd_address = ''127.0.0.1'', ch_CTRL_port = 40000, ch_CTRL_fd = f - 2,
     ch_SEND_port = 40001, ch_SEND_fd = f - 1, ch_RECV_port = 40002, ch_RECV_fd = f\<rparr>"

definition wit_push_daemon :: daemon where
  "wit_push_daemon = wit_daemon\<lparr>d_cfg := default_cfg\<lparr>SYSTEM_MODE := PUSH\<rparr>,
     sim_client_lookup := [(''simulator'', wit_details ''sim'' 10)], app_client_lookup := [(''b'', wit_details ''b'' 13)]\<rparr>"

definition wit_push :: "client \<Rightarrow> client" where
  "wit_push c = c\<lparr>c_cfg := default_cfg\<lparr>SYSTEM_MODE := PUSH\<rparr>\<rparr>"

theorem push_relay_delivers_witness:
  "relay_push (wit_env 5) (wit_env 8) (wit_env 11) (wit_push (new_app_client ''a'')) (wit_push (new_sim_client ''sim''))
     (wit_push (new_app_client ''b'')) ''b'' ''hello'' 30 (wit_world\<lparr>lw_daemon := wit_push_daemon\<rparr>)
   = Inr (mk_entry ''a'' ''b'' ''hello'' 5, (wit_push (new_app_client ''a''), wit_push (new_sim_client ''sim''),
       wit_push (new_app_client ''b'')), wit_world\<lparr>lw_daemon := wit_push_daemon\<rparr>)"
proof -
  let ?w = "wit_world\<lparr>lw_daemon := wit_push_daemon\<rparr>"
  have r: "ready APP_CLIENT (lw_daemon ?w) (wit_push (new_app_client i))" "ready SIM_CLIENT (lw_daemon ?w) (wit_push (new_sim_client i))"
    "clientId (wit_push (new_app_client i)) = i" for i
    by (simp_all add: wit_push_daemon_def ready_def wit_push_def msg_defs)
  have m: "SYSTEM_MODE (d_cfg (lw_daemon ?w)) = PUSH" "\<not> USE_DB (d_cfg (lw_daemon ?w))"
    by (simp_all add: wit_push_daemon_def default_cfg_def)
  have p: "pushes_to fragment_env ?w (data_message SEND APP_CLIENT ''a'' ''b'' ''hello'' (set_payload ''hello'')) (wit_fds 8 RECV_CH)"
    "pushes_to fragment_env ?w (data_message POST SIM_CLIENT ''a'' ''b'' ''hello'' (set_payload ''hello'')) (wit_fds 11 RECV_CH)"
    by (simp_all add: pushes_to_def push_target_def nsb_simps wit_push_daemon_def wit_world_def wit_daemon_def default_cfg_def
        map_begin_def map_find_def wit_details_def wit_fds_def fd_set_ok_def)
  show ?thesis
    using push_relay_delivers [OF wit_env_on_loop wit_env_on_loop wit_env_on_loop r(1,2,1) m, where pl = "''hello''" and dest = "''b''" and t = 30] p
    by (simp add: r(3) pushable_def int_of_size_def)
qed

section \<open>Any number of clients\<close>

text \<open>The registered simulator stays the one that SENDs are pushed to.\<close>

definition simulator_is :: "client_details \<Rightarrow> daemon \<Rightarrow> bool" where
  "simulator_is cd d \<longleftrightarrow> SYSTEM_MODE (d_cfg d) = PUSH \<and> SIMULATOR_MODE (d_cfg d) = SYSTEM_WIDE \<and>
     map_option snd (map_begin (sim_client_lookup d)) = Some cd"

lemma simulator_is_target: "simulator_is cd d \<Longrightarrow> is_op SEND m \<Longrightarrow> push_target d m = Some cd"
  by (simp add: simulator_is_def push_target_def is_op_def)

interpretation simulator: daemon_invariant env "simulator_is cd" for env cd
proof
  show "simulator_is cd d'" if "simulator_is cd d" "dispatch env m d = Inr (d', out, req, s)" for d m d' out req s
  proof (cases "man_op (manifest m) = INIT")
    case True
    moreover have "map_size (sim_client_lookup d) > 0"
      using that(1) by (cases "sim_client_lookup d") (auto simp: simulator_is_def map_begin_def map_size_def)
    ultimately show ?thesis
      using that by (auto simp: dispatch_def no_sends_def handle_init_def Let_def simulator_is_def
          split: if_splits originator.splits)
  next
    case False
    from dispatch_registries [OF that(2) False] dispatch_frame [OF that(2)] that(1)
    show ?thesis by (simp add: simulator_is_def)
  qed
qed (simp_all add: simulator_is_def)

text \<open>What the daemon forwards from applications on a descriptor.\<close>

definition forwards :: "'b io_env \<Rightarrow> fd \<Rightarrow> 'b sends \<Rightarrow> nsbm list" where
  "forwards env g ss = filter (\<lambda>m. is_op FORWARD m \<and> man_og (manifest m) = APP_CLIENT)
     (arrived env (filter (\<lambda>p. fst p = g) ss))"

lemma forwards_Nil [simp]: "forwards env g [] = []"
  by (simp add: forwards_def)

lemma forwards_append [simp]: "forwards env g (xs @ ys) = forwards env g xs @ forwards env g ys"
  by (simp add: forwards_def)

text \<open>A message as the client library writes it: SEND comes from an application, POST from a simulator.\<close>

definition from_library :: "'b io_env \<Rightarrow> nsbm \<Rightarrow> bool" where
  "from_library env m \<longleftrightarrow> pushable env m \<and> (is_op SEND m \<longrightarrow> man_og (manifest m) = APP_CLIENT) \<and>
     (is_op POST m \<longrightarrow> man_og (manifest m) = SIM_CLIENT)"

lemma metadata_forward_copy [simp]: "metadata (forward_copy m) = metadata m"
  by (simp add: forward_copy_eq nsb_simps)

lemma dispatch_other_response:
  assumes "dispatch env m d = Inr (d', out, req, s)" "man_op (manifest m) \<noteq> SEND" "man_op (manifest m) \<noteq> POST"
  shows "s = [] \<and> (req \<longrightarrow> \<not> is_op FORWARD out)"
  using assms
  by (auto simp: dispatch_def Let_def no_sends_def handle_ping_def handle_fetch_def handle_receive_def handle_init_def
      is_op_def nsb_simps split: operation.splits prod.splits if_splits originator.splits simulator_mode.splits)

lemma forwards_send_serialized:
  assumes "faithful env m" "\<not> (is_op FORWARD m \<and> man_og (manifest m) = APP_CLIENT)"
  shows "forwards env g (send_serialized env f m) = []"
  using assms by (auto simp: forwards_def send_serialized_def faithful_def split: option.splits)

lemma handle_post_forwards:
  assumes "handle_post env m out d = Inr (d', out', req, s)"
  shows "req = False \<and> (s = [] \<or> (\<exists>f. s = send_serialized env f (forward_copy m)))"
  using assms
  by (auto simp: handle_post_def Let_def forward_to_def split: system_mode.splits if_splits sum.splits)

lemma push_handled:
  assumes c: "codec env" and sim: "simulator_is cd d" "fd_set_ok (ch_RECV_fd cd)" "writable env (ch_RECV_fd cd)"
    and m: "parse env bs = Some m" "from_library env m" and h: "handle_message env f bs d = Inr (d', ss)"
  shows "forwards env (ch_RECV_fd cd) ss = map forward_copy (filter (is_op SEND) [m])"
proof (cases "man_op (manifest m) = SEND")
  case True
  then have "push_target d m = Some cd" using sim(1) by (simp add: simulator_is_target is_op_def)
  from push_message [OF _ m(1) _ this sim(2,3), of f] h m(2) sim(1)
  obtain fwd where "ss = [(ch_RECV_fd cd, fwd)]" "parse env fwd = Some (forward_copy m)"
    by (auto simp: from_library_def pushable_def simulator_is_def)
  then show ?thesis using True m(2) by (simp add: forwards_def is_op_def from_library_def forward_copy_eq nsb_simps)
next
  case False
  obtain out req s where d: "dispatch env m d = Inr (d', out, req, s)" "ss = s @ (if req then send_serialized env f out else [])"
    using h m(1) by (auto simp: handle_message_def split: sum.splits)
  show ?thesis
  proof (cases "man_op (manifest m) = POST")
    case True
    then have "handle_post env m response_template d = Inr (d', out, req, s)" using d(1) by (simp add: dispatch_def)
    from handle_post_forwards [OF this] d(2) obtain g where "ss = [] \<or> ss = send_serialized env g (forward_copy m)" by auto
    moreover have "\<not> (is_op FORWARD (forward_copy m) \<and> man_og (manifest (forward_copy m)) = APP_CLIENT)"
      using True m(2) by (simp add: from_library_def is_op_def forward_copy_eq nsb_simps)
    moreover have "faithful env (forward_copy m)" using c by (intro codecD) (simp_all add: forward_copy_eq nsb_simps)
    ultimately show ?thesis using True forwards_send_serialized [of env "forward_copy m"]
      by (auto simp: is_op_def)
  next
    case False
    with d \<open>man_op (manifest m) \<noteq> SEND\<close> dispatch_other_response [OF d(1)] forwards_send_serialized [of env out]
      codecD [OF c] dispatch_response_manifest [OF d(1)]
    show ?thesis by (auto simp: is_op_def)
  qed
qed

lemma push_follows:
  assumes c: "codec env" and sim: "simulator_is cd d" "fd_set_ok (ch_RECV_fd cd)" "writable env (ch_RECV_fd cd)"
  shows "net_reach env {1} d n \<Longrightarrow> \<forall>f. \<forall>m\<in>set (nt_log n f). from_library env m \<Longrightarrow>
     forwards env (ch_RECV_fd cd) (sv_sent (nt_server n)) =
       map forward_copy (filter (is_op SEND) (arrived env (sv_handled (nt_server n))))"
proof (induction rule: net_reach_induct)
  case start
  show ?case by (simp add: net_start_def new_server_def)
next
  case (step n n')
  from step.hyps(2) show ?case
  proof (cases rule: net_step.cases)
    case (Accept f ip port)
    with step.IH step.prems show ?thesis by (simp add: accept_channel_def)
  next
    case (Write m f)
    with step.prems have "\<forall>g. \<forall>x\<in>set (nt_log n g). from_library env x" by (auto split: if_splits)
    with step.IH Write show ?thesis by simp
  next
    case (Read f ms rest s)
    then obtain m where m: "ms = [m]" by (auto simp: length_Suc_conv)
    have log: "\<forall>x\<in>set (nt_flight n f). transmits env x" "nt_log n f = handled_on env f (nt_server n) @ nt_flight n f"
      using net_log [OF step.hyps(1)] by blast+
    have p: "parse env (SerializeAsString env m) = Some m" using SerializeAsString_parse [of env m] log(1) Read(2) m by simp
    have "m \<in> set (nt_log n' f)" using Read(1,2) m log(2) by simp
    with step.prems have l: "from_library env m" by blast
    obtain d' ss where h: "handle_message env f (SerializeAsString env m) (sv_daemon (nt_server n)) = Inr (d', ss)"
      "s = (nt_server n)\<lparr>sv_daemon := d', sv_handled := sv_handled (nt_server n) @ [(f, SerializeAsString env m)],
        sv_sent := sv_sent (nt_server n) @ ss\<rparr>"
      using Read(5) m by (auto elim!: serve_readE)
    from push_handled [OF c simulator.net_inv [OF step.hyps(1) sim(1)] sim(2,3) p l h(1)] step.IH step.prems Read(1) h(2) p
    show ?thesis by simp
  qed
qed

text \<open>C11: Any number of clients that stay connected (\<open>peers_read\<close>) and a daemon in PUSH mode in which a system-wide
  simulator is registered whose RECV descriptor fits an \<open>fd_set\<close> and can be written, in any interleaving in which every
  read takes exactly one message; all SENDs of the source \<open>k\<close> are written on one descriptor.  What has been written
  for \<open>k\<close> is, in order, what was forwarded on the simulator's RECV descriptor and what is still in flight, every message as
  it was but for the operation FORWARD; and a read of one SEND does not make the daemon fault, so what is in flight can
  always be read.\<close>

theorem push_network_delivery:
  assumes c: "codec env" and sim: "simulator_is cd d" "fd_set_ok (ch_RECV_fd cd)" "writable env (ch_RECV_fd cd)"
    and peers: "peers_read env" and reach: "net_reach env {1} d n"
    and logs: "\<forall>f. \<forall>m\<in>set (nt_log n f). from_library env m \<and> (is_op SEND m \<and> src_id (metadata m) = k \<longrightarrow> f = fk)"
  shows "map forward_copy (filter (\<lambda>m. is_op SEND m \<and> src_id (metadata m) = k) (nt_log n fk)) =
      filter (\<lambda>m. src_id (metadata m) = k) (forwards env (ch_RECV_fd cd) (sv_sent (nt_server n)))
      @ map forward_copy (filter (\<lambda>m. is_op SEND m \<and> src_id (metadata m) = k) (nt_flight n fk)) \<and>
    (\<forall>f m. is_op SEND m \<and> pushable env m \<longrightarrow> (\<exists>s. serve_read env f (SerializeAsString env m) (nt_server n) = Inr s))"
proof (intro conjI allI impI)
  let ?s = "nt_server n" and ?q = "\<lambda>m. is_op SEND m \<and> src_id (metadata m) = k"
  have log: "nt_log n f = handled_on env f ?s @ nt_flight n f" for f using net_log [OF reach] by blast
  have "\<forall>(g, bs)\<in>set (sv_handled ?s). g \<noteq> fk \<longrightarrow> (\<forall>m. parse env bs = Some m \<longrightarrow> \<not> ?q m)"
  proof (intro ballI, clarify)
    fix g bs m
    assume "(g, bs) \<in> set (sv_handled ?s)" "parse env bs = Some m"
    then have "m \<in> set (nt_log n g)" by (force simp: log handled_on_def arrived_def)
    moreover assume "is_op SEND m" "k = src_id (metadata m)" "g \<noteq> fk"
    ultimately show False using logs by blast
  qed
  note filter_on = arrived_filter_on [OF this]
  have "forwards env (ch_RECV_fd cd) (sv_sent ?s) = map forward_copy (filter (is_op SEND) (arrived env (sv_handled ?s)))"
    using push_follows [OF c sim reach] logs by blast
  then have "filter (\<lambda>m. src_id (metadata m) = k) (forwards env (ch_RECV_fd cd) (sv_sent ?s)) =
      map forward_copy (filter ?q (arrived env (sv_handled ?s)))"
    by (simp add: filter_map comp_def conj_commute)
  then show "map forward_copy (filter ?q (nt_log n fk)) = filter (\<lambda>m. src_id (metadata m) = k)
      (forwards env (ch_RECV_fd cd) (sv_sent ?s)) @ map forward_copy (filter ?q (nt_flight n fk))"
    unfolding log by (simp add: handled_on_def filter_on [symmetric])
next
  fix f m
  assume m: "is_op SEND m \<and> pushable env m"
  note inv = simulator.net_inv [OF reach sim(1)]
  have "parse env (SerializeAsString env m) = Some m"
    using SerializeAsString_parse [of env m] m by (simp add: pushable_def)
  moreover have "push_target (sv_daemon (nt_server n)) m = Some cd" using simulator_is_target [OF inv] m by blast
  moreover have "SYSTEM_MODE (d_cfg (sv_daemon (nt_server n))) = PUSH" using inv by (simp add: simulator_is_def)
  ultimately obtain fwd where "handle_message env f (SerializeAsString env m) (sv_daemon (nt_server n)) =
      Inr (sv_daemon (nt_server n), [(ch_RECV_fd cd, fwd)])"
    using push_message [of env m _ "sv_daemon (nt_server n)" cd f] m sim(2,3) unfolding pushable_def by metis
  then show "\<exists>s. serve_read env f (SerializeAsString env m) (nt_server n) = Inr s" by (simp add: serve_read_def pipes_read [OF peers])
qed

text \<open>Two applications write, and the daemon reads the second one's message.\<close>

definition wit_push_server :: "nsbm server" where
  "wit_push_server = (new_server wit_push_daemon)\<lparr>sv_handled := [(8, [wit_send ''c'' ''b'' ''two''])],
     sv_sent := [(10, [forward_copy (wit_send ''c'' ''b'' ''two'')])]\<rparr>"

lemma wit_push_reach: "net_reach fragment_env {1} wit_push_daemon (wit_net wit_push_server)"
proof -
  define n where "n = net_write 8 (wit_send ''c'' ''b'' ''two'') (net_write 5 (wit_send ''a'' ''b'' ''one'') (net_start wit_push_daemon :: nsbm net))"
  have 1: "net_reach fragment_env {1} wit_push_daemon n"
    unfolding n_def by (intro net_reach_write net_reach_start) simp_all
  have 2: "nt_flight n 8 = [wit_send ''c'' ''b'' ''two'']" by (simp add: n_def net_write_def net_start_def)
  have "serve_read fragment_env 8 (SerializeAsString fragment_env (wit_send ''c'' ''b'' ''two'')) (nt_server n) = Inr wit_push_server"
    by (simp add: n_def net_write_def net_start_def wit_push_server_def wit_push_daemon_def wit_run msg_defs nsb_simps wit_eval
        SerializeAsString_def map_begin_def wit_details_def forward_to_def)
  from net_reach_read [OF 1 2 _ this] show ?thesis
    by (simp add: n_def net_write_def net_start_def wit_net_def fun_upd_twist fun_upd_idem)
qed

theorem push_network_delivery_witness:
  "map forward_copy [wit_send ''c'' ''b'' ''two''] = filter (\<lambda>m. src_id (metadata m) = ''c'') (forwards fragment_env 10 (sv_sent wit_push_server))"
proof -
  have s: "simulator_is (wit_details ''sim'' 10) wit_push_daemon" "fd_set_ok (ch_RECV_fd (wit_details ''sim'' 10))"
    "writable fragment_env (ch_RECV_fd (wit_details ''sim'' 10))"
    by (simp_all add: simulator_is_def wit_push_daemon_def default_cfg_def map_begin_def wit_details_def fd_set_ok_def)
  have l: "\<forall>f. \<forall>m\<in>set (nt_log (wit_net wit_push_server) f). from_library fragment_env m \<and>
      (is_op SEND m \<and> src_id (metadata m) = ''c'' \<longrightarrow> f = 8)"
    by (simp add: wit_net_def from_library_def pushable_def is_op_def wit_send_def nsb_simps)
  show ?thesis
    using conjunct1 [OF push_network_delivery [OF codec_fragment_env s peers_read_fragment wit_push_reach l]]
    by (simp add: wit_net_def is_op_def wit_send_def wit_details_def nsb_simps)
qed

end
