(* ===== verification/NSB_Spec.thy ===== *)
theory NSB_Spec
  imports NSB_System NSB_Network
begin

text \<open>
  What the daemon promises in PULL mode, as an abstract specification: a post office with one queue per
  source on the way to the simulator and one per destination on the way back, each of which
  answers requests in the order of its deposits, whatever happens at the others.  The daemon keeps
  two lists and searches them; the theorem says that no schedule lets a client see the difference.
\<close>

section \<open>The post office\<close>

record post_office =
  uplink :: "string \<Rightarrow> message_entry list"
  downlink :: "string \<Rightarrow> message_entry list"

datatype po_event = Deposit message_entry | Collect string | Dispatch message_entry | Pickup string | NoMail

definition serve_queue :: "message_entry list \<Rightarrow> message_entry option list" where
  "serve_queue q = [case q of [] \<Rightarrow> None | e # _ \<Rightarrow> Some e]"

fun po_step :: "po_event \<Rightarrow> post_office \<Rightarrow> message_entry option list \<times> post_office" where
  "po_step (Deposit e) p = ([], p\<lparr>uplink := (uplink p)(source e := uplink p (source e) @ [e])\<rparr>)"
| "po_step (Collect k) p = (serve_queue (uplink p k), p\<lparr>uplink := (uplink p)(k := tl (uplink p k))\<rparr>)"
| "po_step (Dispatch e) p = ([], p\<lparr>downlink := (downlink p)(destination e := downlink p (destination e) @ [e])\<rparr>)"
| "po_step (Pickup k) p = (serve_queue (downlink p k), p\<lparr>downlink := (downlink p)(k := tl (downlink p k))\<rparr>)"
| "po_step NoMail p = ([], p)"

text \<open>A run answers each request on the descriptor it came from.\<close>

fun po_run :: "('f \<times> po_event) list \<Rightarrow> post_office \<Rightarrow> ('f \<times> message_entry option) list \<times> post_office" where
  "po_run [] p = ([], p)"
| "po_run ((f, ev) # evs) p = (let (r, p1) = po_step ev p; (rs, p2) = po_run evs p1 in (map (Pair f) r @ rs, p2))"

lemma po_run_append:
  "po_run (xs @ ys) p = (let (r1, p1) = po_run xs p; (r2, p2) = po_run ys p1 in (r1 @ r2, p2))"
  by (induction xs arbitrary: p) (auto split: prod.splits)

section \<open>The daemon as a post office\<close>

definition post_office_of :: "daemon \<Rightarrow> post_office" where
  "post_office_of d = \<lparr>uplink = (\<lambda>k. filter (\<lambda>e. source e = k) (tx_buffer d)),
     downlink = (\<lambda>k. filter (\<lambda>e. destination e = k) (rx_buffer d))\<rparr>"

definition event_of :: "daemon \<Rightarrow> nsbm \<Rightarrow> po_event" where
  "event_of d m = (case man_op (manifest m) of
     SEND \<Rightarrow> Deposit (entry_of_msg d m)
   | FETCH \<Rightarrow> Collect (src_id (metadata m))
   | POST \<Rightarrow> (if man_code (manifest m) = MESSAGE then Dispatch (entry_of_msg d m) else NoMail)
   | RECEIVE \<Rightarrow> Pickup (dest_id (metadata m))
   | _ \<Rightarrow> NoMail)"

text \<open>What the daemon was asked, and what a client can read from its FETCH and RECEIVE responses.\<close>

definition events :: "'b io_env \<Rightarrow> daemon \<Rightarrow> (fd \<times> 'b list) list \<Rightarrow> (fd \<times> po_event) list" where
  "events env d hs = concat (map (\<lambda>(f, bs). case parse env bs of None \<Rightarrow> [] | Some m \<Rightarrow> [(f, event_of d m)]) hs)"

definition answer_of :: "daemon \<Rightarrow> nsbm \<Rightarrow> message_entry option list" where
  "answer_of d m = (if is_op FETCH m \<or> is_op RECEIVE m
     then [if man_code (manifest m) = MESSAGE then Some (entry_of_msg d m) else None] else [])"

definition answers_in :: "'b io_env \<Rightarrow> daemon \<Rightarrow> 'b sends \<Rightarrow> (fd \<times> message_entry option) list" where
  "answers_in env d ss = concat (map (\<lambda>(f, bs). case parse env bs of None \<Rightarrow> []
     | Some m \<Rightarrow> map (Pair f) (answer_of d m)) ss)"

lemma events_append [simp]: "events env d (xs @ ys) = events env d xs @ events env d ys"
  by (simp add: events_def)

lemma answers_in_append [simp]: "answers_in env d (xs @ ys) = answers_in env d xs @ answers_in env d ys"
  by (simp add: answers_in_def)

lemma events_Nil [simp]: "events env d [] = []" "answers_in env d [] = []"
  by (simp_all add: events_def answers_in_def)

text \<open>The messages the specification speaks of: requests name a key, what is stored fits the wire.\<close>

definition mail_ok :: "'b io_env \<Rightarrow> daemon \<Rightarrow> nsbm \<Rightarrow> bool" where
  "mail_ok env d m \<longleftrightarrow> keyed_request FETCH src_id m \<and> keyed_request RECEIVE dest_id m \<and>
     (is_op SEND m \<longrightarrow> deliverable env d (entry_of_msg d m)) \<and>
     (is_op POST m \<and> man_code (manifest m) = MESSAGE \<longrightarrow> deliverable env d (entry_of_msg d m))"

definition buffers_ok :: "'b io_env \<Rightarrow> daemon \<Rightarrow> bool" where
  "buffers_ok env d \<longleftrightarrow> (\<forall>e\<in>set (tx_buffer d) \<union> set (rx_buffer d). deliverable env d e)"

definition can_decline :: "'b io_env \<Rightarrow> bool" where
  "can_decline env \<longleftrightarrow> (\<forall>opn. transmits env (head_of opn DAEMON NO_MESSAGE response_template))"

section \<open>One message\<close>

lemma find_erase_queues:
  "find_erase (\<lambda>e. key e = k) l = (r, l') \<Longrightarrow>
     r = (case filter (\<lambda>e. key e = k) l of [] \<Rightarrow> None | e # _ \<Rightarrow> Some e) \<and>
     filter (\<lambda>e. key e = j) l' = (if j = k then tl (filter (\<lambda>e. key e = k) l) else filter (\<lambda>e. key e = j) l)"
  by (induction l arbitrary: r l') (auto split: if_splits prod.splits)

lemma take_keyed_queues:
  assumes "take_keyed key True k l = (r, l')" "k \<noteq> []"
  shows "[r] = serve_queue (filter (\<lambda>e. key e = k) l)"
    "(\<lambda>j. filter (\<lambda>e. key e = j) l') = (\<lambda>j. filter (\<lambda>e. key e = j) l)(k := tl (filter (\<lambda>e. key e = k) l))"
  using assms find_erase_queues [of key k l r l']
  by (auto simp: take_keyed_def serve_queue_def fun_eq_iff)

lemma filter_queue_append:
  "(\<lambda>k. filter (\<lambda>e. key e = k) (l @ [x])) = (\<lambda>k. filter (\<lambda>e. key e = k) l)(key x := filter (\<lambda>e. key e = key x) l @ [x])"
  by (auto simp: fun_eq_iff)

lemma has_metadata_key: "src_id (metadata m) \<noteq> [] \<or> dest_id (metadata m) \<noteq> [] \<Longrightarrow> has_metadata m"
  by (auto simp: metadata_def has_metadata_def empty_metadata_def split: option.splits)

lemma answer_of_entry_reply:
  assumes "opn = FETCH \<or> opn = RECEIVE" "\<forall>e. r = Some e \<longrightarrow> entry_exists e"
  shows "answer_of d (entry_reply d opn (entry_or_blank r) out) = [r]"
  using assms by (cases r) (auto simp: answer_of_def is_op_def nsb_simps entry_or_blank_def)

lemma entry_reply_transmits:
  assumes "can_decline env" "\<forall>e. r = Some e \<longrightarrow> deliverable env d e"
  shows "transmits env (entry_reply d opn (entry_or_blank r) response_template)"
  using assms by (cases r) (auto simp: can_decline_def deliverable_def entry_reply_def entry_or_blank_def)

lemma answers_in_response:
  "transmits env m \<Longrightarrow> answers_in env d (send_serialized env f m) = map (Pair f) (answer_of d m)"
  by (auto simp: answers_in_def send_serialized_def elim!: transmitsE)

lemma answers_in_none:
  "faithful env m \<Longrightarrow> answer_of d m = [] \<Longrightarrow> answers_in env d (send_serialized env f m) = []"
  by (auto simp: answers_in_def send_serialized_def faithful_def split: option.splits)

text \<open>Messages that are not mail leave the buffers alone and get no answer that carries any.\<close>

lemma dispatch_no_mail:
  assumes "dispatch env m d = Inr (d', out, req, s)" "SYSTEM_MODE (d_cfg d) = PULL" "event_of d m = NoMail"
  shows "tx_buffer d' = tx_buffer d \<and> rx_buffer d' = rx_buffer d \<and> (req \<longrightarrow> answer_of d0 out = [])"
  using assms
  by (auto simp: dispatch_def Let_def no_sends_def handle_ping_def handle_post_def handle_init_def event_of_def
      answer_of_def is_op_def nsb_simps split: operation.splits prod.splits if_splits originator.splits simulator_mode.splits)

lemma post_office_queues:
  "uplink (post_office_of d) = (\<lambda>k. filter (\<lambda>e. source e = k) (tx_buffer d))"
  "downlink (post_office_of d) = (\<lambda>k. filter (\<lambda>e. destination e = k) (rx_buffer d))"
  by (simp_all add: post_office_of_def)

lemma post_office_of_upd:
  "(\<lambda>k. filter (\<lambda>e. source e = k) tx) = q \<Longrightarrow> post_office_of (d\<lparr>tx_buffer := tx\<rparr>) = (post_office_of d)\<lparr>uplink := q\<rparr>"
  "(\<lambda>k. filter (\<lambda>e. destination e = k) rx) = q \<Longrightarrow> post_office_of (d\<lparr>rx_buffer := rx\<rparr>) = (post_office_of d)\<lparr>downlink := q\<rparr>"
  by (auto simp: post_office_of_def)

text \<open>One message handled is one step of the post office, and its response is that step's answer.\<close>

definition refines_step :: "'b io_env \<Rightarrow> fd \<Rightarrow> nsbm \<Rightarrow> daemon \<Rightarrow> daemon \<Rightarrow> 'b sends \<Rightarrow> bool" where
  "refines_step env f m d d' ss \<longleftrightarrow> buffers_ok env d' \<and>
     po_run [(f, event_of d m)] (post_office_of d) = (answers_in env d ss, post_office_of d')"

lemma deposit_refines:
  assumes "SYSTEM_MODE (d_cfg d) = PULL" "is_op SEND m" "mail_ok env d m" "buffers_ok env d"
    "dispatch env m d = Inr (d', out, req, s)"
  shows "refines_step env f m d d' (s @ (if req then send_serialized env f out else []))"
proof -
  have d: "d' = d\<lparr>tx_buffer := tx_buffer d @ [entry_of_msg d m]\<rparr>" "s = []" "req = False"
    using dispatch_send_pull [OF assms(1,2), of env] assms(5) by simp_all
  have "deliverable env d' = deliverable env d" by (rule deliverable_cong) (simp add: d)
  with assms(2-4) d show ?thesis
    by (simp add: refines_step_def buffers_ok_def mail_ok_def event_of_def is_op_def post_office_queues
        post_office_of_upd(1) [OF filter_queue_append])
qed

lemma dispatch_refines:
  assumes "SYSTEM_MODE (d_cfg d) = PULL" "is_op POST m" "man_code (manifest m) = MESSAGE" "mail_ok env d m" "buffers_ok env d"
    "dispatch env m d = Inr (d', out, req, s)"
  shows "refines_step env f m d d' (s @ (if req then send_serialized env f out else []))"
proof -
  have d: "d' = d\<lparr>rx_buffer := rx_buffer d @ [entry_of_msg d m]\<rparr>" "s = []" "req = False"
    using dispatch_post_pull [OF assms(1-3), of env] assms(6) by simp_all
  have "deliverable env d' = deliverable env d" by (rule deliverable_cong) (simp add: d)
  with assms(2-5) d show ?thesis
    by (simp add: refines_step_def buffers_ok_def mail_ok_def event_of_def is_op_def post_office_queues
        post_office_of_upd(2) [OF filter_queue_append])
qed

text \<open>The two requests: what is taken is the head of the queue of its key.\<close>

lemma answers_in_entry_reply:
  assumes "can_decline env" "opn = FETCH \<or> opn = RECEIVE" "\<forall>e. r = Some e \<longrightarrow> deliverable env d e"
  shows "answers_in env d (send_serialized env f (entry_reply d opn (entry_or_blank r) response_template)) = [(f, r)]"
proof -
  have "\<forall>e. r = Some e \<longrightarrow> entry_exists e" using assms(3) by (simp add: deliverable_def)
  from answers_in_response [OF entry_reply_transmits [OF assms(1,3)]] answer_of_entry_reply [OF assms(2) this]
  show ?thesis by simp
qed

lemma collect_refines:
  assumes "can_decline env" "is_op FETCH m" "mail_ok env d m" "buffers_ok env d" "dispatch env m d = Inr (d', out, req, s)"
  shows "refines_step env f m d d' (s @ (if req then send_serialized env f out else []))"
proof -
  let ?k = "src_id (metadata m)"
  have k: "?k \<noteq> []" "has_metadata m" "man_op (manifest m) = FETCH"
    using assms(2,3) has_metadata_key [of m] by (auto simp: mail_ok_def keyed_request_def is_op_def)
  obtain r tx where t: "take_keyed source True ?k (tx_buffer d) = (r, tx)" by fastforce
  have d: "d' = d\<lparr>tx_buffer := tx\<rparr>" "s = []" "req = True" "out = entry_reply d FETCH (entry_or_blank r) response_template"
    using dispatch_fetch [OF t k(3,2), of env] assms(5) by simp_all
  have "deliverable env d' = deliverable env d" by (rule deliverable_cong) (simp add: d)
  with take_keyed_subset [OF t] assms(4) d have ok: "buffers_ok env d'" "\<forall>e. r = Some e \<longrightarrow> deliverable env d e"
    by (auto simp: buffers_ok_def)
  have "po_step (event_of d m) (post_office_of d) = ([r], post_office_of d')"
    using take_keyed_queues(1) [OF t k(1)] post_office_of_upd(1) [OF take_keyed_queues(2) [OF t k(1)], of d] k(3) d(1)
    by (simp add: event_of_def post_office_queues)
  with answers_in_entry_reply [OF assms(1) _ ok(2), of FETCH f] ok(1) d show ?thesis by (simp add: refines_step_def)
qed

lemma pickup_refines:
  assumes "can_decline env" "is_op RECEIVE m" "mail_ok env d m" "buffers_ok env d" "dispatch env m d = Inr (d', out, req, s)"
  shows "refines_step env f m d d' (s @ (if req then send_serialized env f out else []))"
proof -
  let ?k = "dest_id (metadata m)"
  have k: "?k \<noteq> []" "has_metadata m" "man_op (manifest m) = RECEIVE"
    using assms(2,3) has_metadata_key [of m] by (auto simp: mail_ok_def keyed_request_def is_op_def)
  obtain r rx where t: "take_keyed destination True ?k (rx_buffer d) = (r, rx)" by fastforce
  have d: "d' = d\<lparr>rx_buffer := rx\<rparr>" "s = []" "req = True" "out = entry_reply d RECEIVE (entry_or_blank r) response_template"
    using dispatch_receive [OF t k(3,2), of env] assms(5) by simp_all
  have "deliverable env d' = deliverable env d" by (rule deliverable_cong) (simp add: d)
  with take_keyed_subset [OF t] assms(4) d have ok: "buffers_ok env d'" "\<forall>e. r = Some e \<longrightarrow> deliverable env d e"
    by (auto simp: buffers_ok_def)
  have "po_step (event_of d m) (post_office_of d) = ([r], post_office_of d')"
    using take_keyed_queues(1) [OF t k(1)] post_office_of_upd(2) [OF take_keyed_queues(2) [OF t k(1)], of d] k(3) d(1)
    by (simp add: event_of_def post_office_queues)
  with answers_in_entry_reply [OF assms(1) _ ok(2), of RECEIVE f] ok(1) d show ?thesis by (simp add: refines_step_def)
qed

lemma no_mail_refines:
  assumes c: "codec env" and "SYSTEM_MODE (d_cfg d) = PULL" "event_of d m = NoMail" "buffers_ok env d"
    and d: "dispatch env m d = Inr (d', out, req, s)"
  shows "refines_step env f m d d' (s @ (if req then send_serialized env f out else []))"
proof -
  have s: "s = []" using dispatch_pull_ok [OF assms(2), of env m] d by auto
  note n = dispatch_no_mail [OF d assms(2,3)]
  have "deliverable env d' = deliverable env d" by (rule deliverable_cong) (rule dispatch_frame [OF d])
  with n assms(4) have ok: "buffers_ok env d'" by (simp add: buffers_ok_def)
  have "req \<Longrightarrow> answers_in env d (send_serialized env f out) = []"
    using codecD [OF c dispatch_response_manifest [OF d]] n by (blast intro: answers_in_none)
  with n ok s assms(3) show ?thesis by (simp add: refines_step_def post_office_of_def)
qed

lemma message_refines:
  assumes c: "codec env" "can_decline env" and pull: "SYSTEM_MODE (d_cfg d) = PULL" and buf: "buffers_ok env d"
    and m: "parse env bs = Some m" "mail_ok env d m" and h: "handle_message env f bs d = Inr (d', ss)"
  shows "refines_step env f m d d' ss"
proof -
  obtain out req s where d: "dispatch env m d = Inr (d', out, req, s)" "ss = s @ (if req then send_serialized env f out else [])"
    using h m(1) by (auto simp: handle_message_def split: sum.splits)
  consider "is_op SEND m" | "is_op FETCH m" | "is_op POST m" "man_code (manifest m) = MESSAGE" | "is_op RECEIVE m"
    | "event_of d m = NoMail"
    by (cases "man_op (manifest m)"; cases "man_code (manifest m) = MESSAGE") (simp_all add: event_of_def is_op_def)
  then show ?thesis
    unfolding d(2)
    using deposit_refines [OF pull _ m(2) buf d(1)] collect_refines [OF c(2) _ m(2) buf d(1)]
      dispatch_refines [OF pull _ _ m(2) buf d(1)] pickup_refines [OF c(2) _ m(2) buf d(1)]
      no_mail_refines [OF c(1) pull _ buf d(1)]
    by cases
qed

section \<open>Refinement\<close>

definition po_implements :: "'b io_env \<Rightarrow> daemon \<Rightarrow> 'b server \<Rightarrow> bool" where
  "po_implements env d0 s \<longleftrightarrow> d_cfg (sv_daemon s) = d_cfg d0 \<and>
     ((\<forall>m\<in>set (arrived env (sv_handled s)). mail_ok env d0 m) \<longrightarrow> buffers_ok env (sv_daemon s) \<and>
      po_run (events env d0 (sv_handled s)) (post_office_of d0) = (answers_in env d0 (sv_sent s), post_office_of (sv_daemon s)))"

lemma spec_cong:
  assumes "d_cfg d = d_cfg d'"
  shows "mail_ok env d = mail_ok env d'" "event_of d = event_of d'" "answers_in env d = answers_in env d'"
proof -
  note e = entry_of_msg_cong [OF assms]
  show "mail_ok env d = mail_ok env d'" using deliverable_cong [OF assms, of env] e by (simp add: mail_ok_def fun_eq_iff)
  show "event_of d = event_of d'" by (intro ext) (simp only: event_of_def e)
  have a: "answer_of d = answer_of d'" using e by (simp add: answer_of_def fun_eq_iff)
  show "answers_in env d = answers_in env d'" by (intro ext) (simp only: answers_in_def a)
qed

lemma po_implements_read:
  assumes c: "codec env" "can_decline env" and pull: "SYSTEM_MODE (d_cfg d0) = PULL"
    and i: "po_implements env d0 s" and r: "serve_read env f bs s = Inr s'"
  shows "po_implements env d0 s'"
proof -
  obtain d ss where h: "handle_message env f bs (sv_daemon s) = Inr (d, ss)"
    and s': "s' = s\<lparr>sv_daemon := d, sv_handled := sv_handled s @ [(f, bs)], sv_sent := sv_sent s @ ss\<rparr>"
    using r by (rule serve_readE)
  have cfg: "d_cfg (sv_daemon s) = d_cfg d0" "d_cfg d = d_cfg d0"
    using i handle_message_frame [OF h] by (simp_all add: po_implements_def)
  show ?thesis
  proof (cases "parse env bs")
    case None
    with i h show ?thesis by (simp add: po_implements_def s' handle_message_def events_def)
  next
    case (Some m)
    have "buffers_ok env d \<and> po_run (events env d0 (sv_handled s')) (post_office_of d0) = (answers_in env d0 (sv_sent s'), post_office_of d)"
      if ok: "\<forall>m\<in>set (arrived env (sv_handled s')). mail_ok env d0 m"
    proof -
      have 1: "buffers_ok env (sv_daemon s)" "po_run (events env d0 (sv_handled s)) (post_office_of d0) =
          (answers_in env d0 (sv_sent s), post_office_of (sv_daemon s))" "mail_ok env d0 m"
        using i ok Some by (simp_all add: po_implements_def s')
      have "refines_step env f m (sv_daemon s) d ss"
        using message_refines [OF c _ 1(1) Some _ h] pull 1(3) cfg spec_cong(1) [OF cfg(1), of env] by simp
      with 1 Some spec_cong(2) [OF cfg(1)] spec_cong(3) [OF cfg(1), of env] show ?thesis
        by (simp add: refines_step_def s' po_run_append events_def)
    qed
    with cfg show ?thesis by (simp add: po_implements_def s')
  qed
qed

lemma po_implements_invariant:
  assumes "codec env" "can_decline env" "SYSTEM_MODE (d_cfg d0) = PULL"
  shows "server_invariant env (po_implements env d0)"
proof
  show "po_implements env d0 s'" if "po_implements env d0 s" "serve_read env f bs s = Inr s'" for s f bs s'
    by (rule po_implements_read [OF assms that])
  have "buffers_ok env (d\<lparr>fd_lookup := fds\<rparr>) = buffers_ok env d" for d fds
    using deliverable_cong [of "d\<lparr>fd_lookup := fds\<rparr>" d env] by (simp add: buffers_ok_def)
  then show "po_implements env d0 (s\<lparr>sv_daemon := (sv_daemon s)\<lparr>fd_lookup := map_emplace k f (fd_lookup (sv_daemon s))\<rparr>\<rparr>)"
    if "po_implements env d0 s" for s k f
    using that by (simp add: po_implements_def post_office_of_def)
qed (simp_all add: po_implements_def)

lemma po_implements_new:
  assumes "buffers_ok env d" "d' = d \<or> d' = d\<lparr>running := r\<rparr>"
  shows "po_implements env d (new_server d')"
proof -
  have "buffers_ok env (d\<lparr>running := r\<rparr>) = buffers_ok env d"
    using deliverable_cong [of "d\<lparr>running := r\<rparr>" d env] by (simp add: buffers_ok_def)
  with assms show ?thesis by (auto simp: po_implements_def new_server_def post_office_of_def)
qed

text \<open>C4: The daemon in PULL mode implements the post office: over every schedule of connections, reads,
  disconnections and errors the server goes through, the answers its clients can read from its FETCH and RECEIVE responses, in
  their order and each on the descriptor that asked, are those of independent FIFO queues, one per source and one per
  destination, run on the events that the messages stand for; and the two lists it ends with are such queues.\<close>

theorem daemon_implements_post_office:
  assumes "codec env" "can_decline env" "SYSTEM_MODE (d_cfg d) = PULL" "buffers_ok env d"
    "start env su evs d = Inr (b, s)" "\<forall>m\<in>set (arrived env (sv_handled s)). mail_ok env d m"
  shows "po_run (events env d (sv_handled s)) (post_office_of d) = (answers_in env d (sv_sent s), post_office_of (sv_daemon s))"
  using server_invariant.start_keeps [OF po_implements_invariant [OF assms(1-3)] po_implements_new [OF assms(4)]
      po_implements_new [OF assms(4)] assms(5)] assms(6)
  by (auto simp: po_implements_def)

theorem daemon_implements_post_office_witness:
  "\<exists>b s. start fragment_env (Listening 4) (wit_events [wit_send ''a'' ''b'' ''one'', wit_send ''c'' ''b'' ''two'',
       wit_fetch (Some ''c''), wit_post ''a'' ''d'' ''three'', wit_receive None, wit_fetch (Some ''a'')]) wit_daemon = Inr (b, s) \<and>
     po_run (events fragment_env wit_daemon (sv_handled s)) (post_office_of wit_daemon) =
       (answers_in fragment_env wit_daemon (sv_sent s), post_office_of (sv_daemon s)) \<and>
     answers_in fragment_env wit_daemon (sv_sent s) =
       [(5, Some (mk_entry ''c'' ''b'' ''two'' 3)), (5, None), (5, Some (mk_entry ''a'' ''b'' ''one'' 3))]"
proof -
  let ?r = "start fragment_env (Listening 4) (wit_events [wit_send ''a'' ''b'' ''one'', wit_send ''c'' ''b'' ''two'',
       wit_fetch (Some ''c''), wit_post ''a'' ''d'' ''three'', wit_receive None, wit_fetch (Some ''a'')]) wit_daemon"
  have "case ?r of Inl _ \<Rightarrow> False | Inr (b, s) \<Rightarrow>
      (\<forall>m\<in>set (arrived fragment_env (sv_handled s)). mail_ok fragment_env wit_daemon m) \<and>
      answers_in fragment_env wit_daemon (sv_sent s) =
       [(5, Some (mk_entry ''c'' ''b'' ''two'' 3)), (5, None), (5, Some (mk_entry ''a'' ''b'' ''one'' 3))]"
    by (simp add: wit_run msg_defs nsb_simps wit_eval mail_ok_def answers_in_def answer_of_def int_of_size_def entry_reply_def
        put_entry_def msg_set_payload_obj_def)
  then obtain b s where r: "?r = Inr (b, s)" and
    h: "\<forall>m\<in>set (arrived fragment_env (sv_handled s)). mail_ok fragment_env wit_daemon m"
      "answers_in fragment_env wit_daemon (sv_sent s) =
       [(5, Some (mk_entry ''c'' ''b'' ''two'' 3)), (5, None), (5, Some (mk_entry ''a'' ''b'' ''one'' 3))]"
    by (auto split: sum.splits prod.splits)
  have "SYSTEM_MODE (d_cfg wit_daemon) = PULL" "buffers_ok fragment_env wit_daemon" "can_decline fragment_env"
    by (simp_all add: wit_daemon_def default_cfg_def buffers_ok_def can_decline_def)
  from daemon_implements_post_office [OF codec_fragment_env this(3,1,2) r h(1)] r h(2) show ?thesis by blast
qed

end
