(* ===== verification/NSB_Tests.thy ===== *)
theory NSB_Tests
  imports NSB_System
begin

text \<open>
  The test program \<open>cpp/nsb_test.cc\<close>: its three test functions and \<open>listenForMessage\<close>
  of \<open>cpp/src/nsb.cc\<close>, which one of them uses, over the connected system of \<open>NSB_System\<close>.  Every client
  has an environment of its own (its sockets); the daemon is any that the program may find.
\<close>

section \<open>Messages of plain text\<close>

text \<open>Protobuf carries every message that has a manifest, as all messages of the libraries and of the daemon have, and
  whose strings are short and ASCII.  (The message without any field is encoded as no bytes at all.)\<close>

definition plain_text :: "string \<Rightarrow> bool" where
  "plain_text s \<longleftrightarrow> length s \<le> 1000 \<and> (\<forall>c\<in>set s. of_char c < (128 :: nat))"

definition plain_message :: "nsbm \<Rightarrow> bool" where
  "plain_message m \<longleftrightarrow> has_manifest m \<and> (\<forall>s\<in>{src_id (metadata m), dest_id (metadata m), payload m, msg_key m,
     client_identifier (intro m), address (intro m), db_address (config m)}. plain_text s)"

definition carries_plain :: "'b io_env \<Rightarrow> bool" where
  "carries_plain env \<longleftrightarrow> (\<forall>m. plain_message m \<longrightarrow> transmits env m)"

lemma plain_nil [simp]: "plain_text []"
  by (simp add: plain_text_def)

lemma has_manifest_body [simp]: "has_manifest (m\<lparr>body_field := x\<rparr>) = has_manifest m"
  by (simp add: has_manifest_def)

lemma plain_request [simp]: "plain_message (request opn og code)"
  by (simp add: plain_message_def request_def nsb_simps empty_intro_def empty_config_def)

lemma plain_template: "plain_message (head_of opn og code response_template)"
  by (simp add: plain_message_def response_template_def nsb_simps empty_intro_def empty_config_def)

lemma request_bodies [nsb_simps]:
  "payload (request opn og code) = []" "msg_key (request opn og code) = []"
  "intro (request opn og code) = empty_intro" "config (request opn og code) = empty_config"
  by (simp_all add: request_def nsb_simps)

lemma plain_fetch [simp]: "plain_text (clientId c) \<Longrightarrow> plain_message (fetch_request c og None)"
  by (cases "SIMULATOR_MODE (c_cfg c)")
    (simp_all add: plain_message_def fetch_request_def nsb_simps empty_intro_def empty_config_def)

lemma plain_receive [simp]: "plain_text (clientId c) \<Longrightarrow> plain_message (receive_request c og None)"
  by (simp add: plain_message_def receive_request_def nsb_simps empty_intro_def empty_config_def)

lemma plain_data [simp]:
  "plain_text src \<Longrightarrow> plain_text dest \<Longrightarrow> plain_text pl \<Longrightarrow> plain_message (data_message opn og src dest pl (set_payload pl))"
  by (simp add: plain_message_def data_message_def nsb_simps)
    (simp add: set_payload_def intro_def config_def empty_intro_def empty_config_def nsb_simps)

lemma plain_reply:
  assumes "plain_text (source e)" "plain_text (destination e)" "plain_text (payload_obj e)"
  shows "plain_message (entry_reply d opn e response_template)"
  using assms plain_template [of opn DAEMON NO_MESSAGE]
  by (auto simp: entry_reply_def put_entry_def msg_set_payload_obj_def plain_message_def nsb_simps response_template_def)
    (simp_all add: set_payload_def set_msg_key_def intro_def config_def empty_intro_def empty_config_def nsb_simps)

definition plain_names :: "(channel \<Rightarrow> (string \<times> i32) option) \<Rightarrow> bool" where
  "plain_names names \<longleftrightarrow> (\<forall>ch a p. names ch = Some (a, p) \<longrightarrow> plain_text a)"

lemma init_request_always [nsb_simps]:
  "manifest (init_request names i og) = \<lparr>man_op = INIT, man_og = og, man_code = SUCCESS\<rparr>"
  "has_intro (init_request names i og)" "client_identifier (intro (init_request names i og)) = i"
  "metadata (init_request names i og) = empty_metadata" "payload (init_request names i og) = []"
  "msg_key (init_request names i og) = []" "config (init_request names i og) = empty_config"
  "has_manifest (init_request names i og)"
  by (simp_all add: init_request_def getSetChannelAddrPort_def set_port_def nsb_simps split: option.split)
    (simp_all add: set_intro_def config_def request_def nsb_simps)

lemma init_request_address:
  "address (intro (init_request names i og)) = (case names CTRL of None \<Rightarrow> [] | Some (a, p) \<Rightarrow> a)"
  by (simp add: init_request_def getSetChannelAddrPort_def set_port_def nsb_simps empty_intro_def split: option.split)

lemma plain_init [simp]: "plain_names names \<Longrightarrow> plain_text i \<Longrightarrow> plain_message (init_request names i og)"
  by (auto simp: plain_message_def nsb_simps init_request_address plain_names_def empty_config_def split: option.split)

lemma plain_init_reply [simp]: "\<not> USE_DB (d_cfg d) \<Longrightarrow> plain_message (init_reply d b response_template)"
  by (simp add: plain_message_def init_reply_def Let_def nsb_simps response_template_def)
    (simp add: head_of_def set_manifest_def set_config_def payload_def msg_key_def intro_def empty_intro_def empty_config_def empty_nsbm_def
      has_manifest_def)

section \<open>testLifecycle\<close>

text \<open>The constructor of a client, its sockets connected, is \<open>initialize\<close>.  Two of the four identifiers are the same
  string, and the second simulator is given the first one's.\<close>

definition lifecycle_clients :: "('b, 'w) client_env \<Rightarrow> ('b, 'w) client_env \<Rightarrow> ('b, 'w) client_env \<Rightarrow> ('b, 'w) client_env \<Rightarrow> 'w \<Rightarrow>
    io_stop + (client \<times> client \<times> client \<times> client) \<times> 'w" where
  "lifecycle_clients ea eb es1 es2 w =
     bind_res (initialize ea (new_app_client ''node1'') w) (\<lambda>(app1, w1).
     bind_res (initialize eb (new_app_client ''node2'') w1) (\<lambda>(app2, w2).
     bind_res (initialize es1 (new_sim_client ''node1'') w2) (\<lambda>(sim1, w3).
     bind_res (initialize es2 (new_sim_client ''node1'') w3) (\<lambda>(sim2, w4).
       Inr ((app1, app2, sim1, sim2), w4)))))"

definition lifecycle_pings :: "('b, 'w) client_env \<Rightarrow> ('b, 'w) client_env \<Rightarrow> ('b, 'w) client_env \<Rightarrow> ('b, 'w) client_env \<Rightarrow>
    client \<times> client \<times> client \<times> client \<Rightarrow> 'w \<Rightarrow> io_stop + 'w" where
  "lifecycle_pings ea eb es1 es2 cs w = (case cs of (app1, app2, sim1, sim2) \<Rightarrow>
     bind_res (ping ea app1 w) (\<lambda>(_, w1).
     bind_res (ping eb app2 w1) (\<lambda>(_, w2).
     bind_res (ping es1 sim1 w2) (\<lambda>(_, w3).
     bind_res (ping es2 sim2 w3) (\<lambda>(_, w4). Inr w4)))))"

text \<open>The three loops: the first fetches through one simulator and posts through the other.\<close>

primrec forward_rounds :: "nat \<Rightarrow> ('b, 'w) client_env \<Rightarrow> ('b, 'w) client_env \<Rightarrow> client \<Rightarrow> client \<Rightarrow> 'w \<Rightarrow>
    io_stop + (client \<times> client) \<times> 'w" where
  "forward_rounds 0 es1 es2 sim1 sim2 w = Inr ((sim1, sim2), w)"
| "forward_rounds (Suc n) es1 es2 sim1 sim2 w =
     bind_res (sim_fetch_any es1 DAEMON_RESPONSE_TIMEOUT sim1 w) (\<lambda>(e, sim1', w1).
       if entry_exists e
       then bind_res (sim_post es2 ''node1'' ''node2'' (payload_obj e) sim2 w1) (\<lambda>(_, sim2', w2).
              forward_rounds n es1 es2 sim1' sim2' w2)
       else forward_rounds n es1 es2 sim1' sim2 w1)"

text \<open>The result is what the loop logs: the entries that it received, empty ones included.\<close>

primrec receive_rounds :: "nat \<Rightarrow> ('b, 'w) client_env \<Rightarrow> client \<Rightarrow> 'w \<Rightarrow> io_stop + message_entry list \<times> client \<times> 'w" where
  "receive_rounds 0 ce c w = Inr ([], c, w)"
| "receive_rounds (Suc n) ce c w = bind_res (app_receive_any ce DAEMON_RESPONSE_TIMEOUT c w) (\<lambda>(e, c1, w1).
     bind_res (receive_rounds n ce c1 w1) (\<lambda>(es, c2, w2). Inr (e # es, c2, w2)))"

definition testLifecycle :: "('b, 'w) client_env \<Rightarrow> ('b, 'w) client_env \<Rightarrow> ('b, 'w) client_env \<Rightarrow> ('b, 'w) client_env \<Rightarrow> 'w \<Rightarrow>
    io_stop + (message_entry list \<times> message_entry list) \<times> 'w" where
  "testLifecycle ea eb es1 es2 w =
     bind_res (lifecycle_clients ea eb es1 es2 w) (\<lambda>((app1, app2, sim1, sim2), w1).
     bind_res (lifecycle_pings ea eb es1 es2 (app1, app2, sim1, sim2) w1) (\<lambda>w2.
     bind_res (app_send ea ''node2'' ''Hello from app1'' app1 w2) (\<lambda>(_, app1a, w3).
     bind_res (app_send ea ''node2'' ''Hola del app1'' app1a w3) (\<lambda>(_, app1b, w4).
     bind_res (forward_rounds 3 es1 es2 sim1 sim2 w4) (\<lambda>(_, w5).
     bind_res (receive_rounds 3 ea app1b w5) (\<lambda>(got1, app1c, w6).
     bind_res (receive_rounds 3 eb app2 w6) (\<lambda>(got2, _, w7).
     bind_res (exit_daemon ea app1c w7) (\<lambda>w8. Inr ((got1, got2), w8)))))))))"

section \<open>The steps of testLifecycle\<close>

text \<open>A client's environment on the network, whose messages of plain text arrive; and a world at rest.\<close>

definition test_env :: "'b io_env \<Rightarrow> (channel \<Rightarrow> fd) \<Rightarrow> 's redis_exec \<Rightarrow> ('b, ('b, 's) loop_world) client_env \<Rightarrow> bool" where
  "test_env env fds exec ce \<longleftrightarrow> on_loop env fds exec ce \<and> plain_names (sockname ce) \<and> carries_plain env"

definition test_world :: "simulator_mode \<Rightarrow> ('b, 's) loop_world \<Rightarrow> bool" where
  "test_world md w \<longleftrightarrow> SYSTEM_MODE (d_cfg (lw_daemon w)) = PULL \<and> SIMULATOR_MODE (d_cfg (lw_daemon w)) = md \<and>
     \<not> USE_DB (d_cfg (lw_daemon w)) \<and> lw_inbox w = (\<lambda>_. [])"

text \<open>What registrations leave alone.\<close>

definition same_mail :: "daemon \<Rightarrow> daemon \<Rightarrow> bool" where
  "same_mail d d' \<longleftrightarrow> d_cfg d' = d_cfg d \<and> running d' = running d \<and> tx_buffer d' = tx_buffer d \<and> rx_buffer d' = rx_buffer d"

lemma test_world_daemon: "test_world md w \<Longrightarrow> d_cfg d = d_cfg (lw_daemon w) \<Longrightarrow> test_world md (w\<lparr>lw_daemon := d\<rparr>)"
  by (simp add: test_world_def)

lemma ready_cong: "d_cfg d = d_cfg d' \<Longrightarrow> ready og d c = ready og d' c"
  by (simp add: ready_def)

lemma emplace_not_empty: "map_emplace k v m \<noteq> []"
  by (cases m rule: list.exhaust; cases "hd m") auto

lemma client_joins:
  assumes "test_env env fds exec ce" "test_world md w" "originIndicator c = Some og" "plain_text (clientId c)"
    and "og = APP_CLIENT \<or> og = SIM_CLIENT \<and> (md = PER_NODE \<or> md = SYSTEM_WIDE \<and> sim_client_lookup (lw_daemon w) = [])"
  obtains c' d where "initialize ce c w = Inr (c', w\<lparr>lw_daemon := d\<rparr>)" "ready og (lw_daemon w) c'" "clientId c' = clientId c"
    "same_mail (lw_daemon w) d" "og = APP_CLIENT \<Longrightarrow> sim_client_lookup d = sim_client_lookup (lw_daemon w)"
    "og = SIM_CLIENT \<Longrightarrow> sim_client_lookup d \<noteq> []"
proof -
  let ?m = "init_request (sockname ce) (clientId c) og"
  obtain d where d: "dispatch env ?m (lw_daemon w) = Inr (d, init_reply d True response_template, True, [])"
    "same_mail (lw_daemon w) d" "og = APP_CLIENT \<Longrightarrow> sim_client_lookup d = sim_client_lookup (lw_daemon w)"
    "og = SIM_CLIENT \<Longrightarrow> sim_client_lookup d \<noteq> []"
    using assms(2,5)
    by (auto simp: dispatch_def no_sends_def handle_init_def Let_def nsb_simps test_world_def same_mail_def emplace_not_empty map_size_def)
  have "\<not> USE_DB (d_cfg d)" using d(2) assms(2) by (simp add: same_mail_def test_world_def)
  with assms(1,4) have "transmits env ?m" "transmits env (init_reply d True response_template)"
    by (simp_all add: test_env_def carries_plain_def)
  then obtain c' where "initialize ce c w = Inr (c', w\<lparr>lw_daemon := d\<rparr>)" "ready og d c'" "clientId c' = clientId c"
    using initialize_loop [OF _ assms(3) _ d(1), of fds exec] assms(1,2) \<open>\<not> USE_DB (d_cfg d)\<close>
    by (auto simp: test_env_def test_world_def)
  moreover have "ready og (lw_daemon w) c' = ready og d c'" using d(2) by (intro ready_cong) (simp add: same_mail_def)
  ultimately show ?thesis using d that by blast
qed

lemma same_mail_world: "same_mail (lw_daemon w) d \<Longrightarrow> test_world md w \<Longrightarrow> test_world md (w\<lparr>lw_daemon := d\<rparr>)"
  by (simp add: test_world_def same_mail_def)

lemma same_mail_trans: "same_mail d d' \<Longrightarrow> same_mail d' d'' \<Longrightarrow> same_mail d d''"
  by (simp add: same_mail_def)

lemma same_mail_ready: "same_mail d d' \<Longrightarrow> ready og d' c = ready og d c"
  by (intro ready_cong) (simp add: same_mail_def)

lemma new_clients [simp]:
  "originIndicator (new_app_client i) = Some APP_CLIENT" "clientId (new_app_client i) = i"
  "originIndicator (new_sim_client i) = Some SIM_CLIENT" "clientId (new_sim_client i) = i"
  by (simp_all add: new_app_client_def new_sim_client_def new_client_def)

text \<open>In the default mode the second simulator is refused, and its constructor ends the process.\<close>

lemma second_simulator_refused:
  assumes "test_env env fds exec ce" "test_world SYSTEM_WIDE w" "originIndicator c = Some SIM_CLIENT" "plain_text (clientId c)"
    and "sim_client_lookup (lw_daemon w) \<noteq> []"
  shows "initialize ce c w = Inl ProcessExit"
proof -
  let ?m = "init_request (sockname ce) (clientId c) SIM_CLIENT" and ?d = "lw_daemon w"
  have d: "dispatch env ?m ?d = Inr (?d, init_reply ?d False response_template, True, [])"
    using assms(2,5) by (simp add: dispatch_def no_sends_def handle_init_def Let_def nsb_simps test_world_def map_size_def)
  have t: "transmits env ?m" "transmits env (init_reply ?d False response_template)" "lw_inbox w (fds CTRL) = []"
    using assms(1,2,4) by (simp_all add: test_env_def test_world_def carries_plain_def)
  obtain w1 bs where "loop_send env fds CTRL (SerializeAsString env ?m) w = Inr (0, w1)"
    "loop_receive fds CTRL (Some DAEMON_RESPONSE_TIMEOUT) w1 = Inr (bs, w)" "bs \<noteq> []"
    "parse env bs = Some (init_reply ?d False response_template)"
    using loop_request [where t = "Some DAEMON_RESPONSE_TIMEOUT" and w = w and fds = fds and ch = CTRL, OF t(1) d t(2,3)] by auto
  then show ?thesis using assms(1,3)
    by (simp add: initialize_def test_env_def on_loop_def handle_init_response_def nsb_simps init_reply_def Let_def)
qed

text \<open>The message that every round of the first loop moves.\<close>

definition letter :: "string \<Rightarrow> message_entry" where
  "letter pl = mk_entry ''node1'' ''node2'' pl (int_of_size pl)"

lemma letter_sel [simp]: "source (letter pl) = ''node1''" "destination (letter pl) = ''node2''" "payload_obj (letter pl) = pl"
  "entry_exists (letter pl) \<longleftrightarrow> pl \<noteq> []"
  by (simp_all add: letter_def)

lemma plain_node [simp]: "plain_text ''node1''" "plain_text ''node2''"
  by (simp_all add: plain_text_def)

lemma reply_transmits:
  assumes "carries_plain env" "e = empty_entry \<or> plain_text (source e) \<and> plain_text (destination e) \<and> plain_text (payload_obj e)"
  shows "transmits env (entry_reply d opn e response_template)"
  using assms plain_reply [of e d opn] by (auto simp: carries_plain_def empty_entry_def)

lemma send_letter:
  assumes "test_env env fds exec ce" "test_world md w" "ready APP_CLIENT (lw_daemon w) c" "clientId c = ''node1''" "plain_text pl"
  shows "app_send ce ''node2'' pl c w =
     Inr ([], c, w\<lparr>lw_daemon := (lw_daemon w)\<lparr>tx_buffer := tx_buffer (lw_daemon w) @ [letter pl]\<rparr>\<rparr>)"
proof -
  have "transmits env (data_message SEND APP_CLIENT (clientId c) ''node2'' pl (set_payload pl))"
    using assms(1,4,5) by (simp add: test_env_def carries_plain_def)
  from app_send_loop [OF _ _ _ this refl, of fds exec ce w] assms show ?thesis
    by (simp add: test_env_def test_world_def ready_def entry_of_msg_def msg_get_payload_obj_def nsb_simps letter_def)
qed

lemma post_letter:
  assumes "test_env env fds exec ce" "test_world md w" "ready SIM_CLIENT (lw_daemon w) c" "plain_text pl"
  shows "sim_post ce ''node1'' ''node2'' pl c w =
     Inr ([], c, w\<lparr>lw_daemon := (lw_daemon w)\<lparr>rx_buffer := rx_buffer (lw_daemon w) @ [letter pl]\<rparr>\<rparr>)"
proof -
  have "transmits env (data_message POST SIM_CLIENT ''node1'' ''node2'' pl (set_payload pl))"
    using assms(1,4) by (simp add: test_env_def carries_plain_def)
  from sim_post_loop [OF _ _ _ this refl, of fds exec ce c w] assms show ?thesis
    by (simp add: test_env_def test_world_def ready_def entry_of_msg_def msg_get_payload_obj_def nsb_simps letter_def)
qed

text \<open>A fetch of a per-node simulator takes the oldest message of its own node, a receive the oldest for the
  application.\<close>

lemma fetch_step:
  assumes "test_env env fds exec ce" "test_world PER_NODE w" "ready SIM_CLIENT (lw_daemon w) c"
    and "find_erase (\<lambda>e. source e = clientId c) (tx_buffer (lw_daemon w)) = (r, tx)" "clientId c \<noteq> []" "plain_text (clientId c)"
    and "\<And>e. r = Some e \<Longrightarrow> plain_text (source e) \<and> plain_text (destination e) \<and> plain_text (payload_obj e)"
  shows "sim_fetch_any ce t c w = Inr (entry_taken (entry_or_blank r), c, w\<lparr>lw_daemon := (lw_daemon w)\<lparr>tx_buffer := tx\<rparr>\<rparr>)"
proof -
  have md: "SIMULATOR_MODE (c_cfg c) = PER_NODE" using assms(2,3) unfolding ready_def test_world_def by metis
  have pull: "SYSTEM_MODE (c_cfg c) = PULL" using assms(2,3) unfolding ready_def test_world_def by metis
  have tk: "take_keyed source True (src_id (metadata (fetch_request c SIM_CLIENT None))) (tx_buffer (lw_daemon w)) = (r, tx)"
    using assms(4,5) by (simp add: fetch_request_fields md take_keyed_def)
  have t: "transmits env (fetch_request c SIM_CLIENT None)"
    "transmits env (entry_reply (lw_daemon w) FETCH (entry_or_blank r) response_template)"
    using assms(1,6,7) by (cases r; simp add: test_env_def carries_plain_def reply_transmits)+
  have "sim_fetch ce None t c w = Inr (entry_taken (entry_or_blank r), c, w\<lparr>lw_daemon := (lw_daemon w)\<lparr>tx_buffer := tx\<rparr>\<rparr>)"
    by (rule sim_fetch_reply [where fds = fds and exec = exec, OF _ _ _ _ _ tk t])
      (use assms(1-3) in \<open>simp_all add: test_env_def test_world_def ready_def\<close>)
  then show ?thesis using pull by (simp add: sim_fetch_any_def by_mode_def)
qed

lemma receive_step:
  assumes "test_env env fds exec ce" "test_world md w" "ready APP_CLIENT (lw_daemon w) c"
    and "find_erase (\<lambda>e. destination e = clientId c) (rx_buffer (lw_daemon w)) = (r, rx)" "clientId c \<noteq> []" "plain_text (clientId c)"
    and "\<And>e. r = Some e \<Longrightarrow> plain_text (source e) \<and> plain_text (destination e) \<and> plain_text (payload_obj e)"
  shows "app_receive_any ce t c w = Inr (entry_taken (entry_or_blank r), c, w\<lparr>lw_daemon := (lw_daemon w)\<lparr>rx_buffer := rx\<rparr>\<rparr>)"
proof -
  have pull: "SYSTEM_MODE (c_cfg c) = PULL" using assms(2,3) unfolding ready_def test_world_def by metis
  have tk: "take_keyed destination True (dest_id (metadata (receive_request c APP_CLIENT None))) (rx_buffer (lw_daemon w)) = (r, rx)"
    using assms(4,5) by (simp add: nsb_simps take_keyed_def)
  have t: "transmits env (receive_request c APP_CLIENT None)"
    "transmits env (entry_reply (lw_daemon w) RECEIVE (entry_or_blank r) response_template)"
    using assms(1,6,7) by (cases r; simp add: test_env_def carries_plain_def reply_transmits)+
  have "app_receive ce None t c w = Inr (entry_taken (entry_or_blank r), c, w\<lparr>lw_daemon := (lw_daemon w)\<lparr>rx_buffer := rx\<rparr>\<rparr>)"
    by (rule app_receive_reply [where fds = fds and exec = exec, OF _ _ _ _ _ tk t])
      (use assms(1-3) in \<open>simp_all add: test_env_def test_world_def ready_def\<close>)
  then show ?thesis using pull by (simp add: app_receive_any_def by_mode_def)
qed

section \<open>The loops\<close>

definition with_mail :: "message_entry list \<Rightarrow> message_entry list \<Rightarrow> ('b, 's) loop_world \<Rightarrow> ('b, 's) loop_world" where
  "with_mail tx rx w = w\<lparr>lw_daemon := (lw_daemon w)\<lparr>tx_buffer := tx, rx_buffer := rx\<rparr>\<rparr>"

lemma with_mail_simps [simp]:
  "test_world md (with_mail tx rx w) = test_world md w" "ready og (lw_daemon (with_mail tx rx w)) = ready og (lw_daemon w)"
  "tx_buffer (lw_daemon (with_mail tx rx w)) = tx" "rx_buffer (lw_daemon (with_mail tx rx w)) = rx"
  "with_mail tx rx (with_mail tx' rx' w) = with_mail tx rx w"
  "running (lw_daemon (with_mail tx rx w)) = running (lw_daemon w)"
  by (simp_all add: with_mail_def test_world_def ready_def fun_eq_iff)

lemma with_mail_updates:
  "with_mail tx rx w\<lparr>lw_daemon := (lw_daemon (with_mail tx rx w))\<lparr>tx_buffer := tx'\<rparr>\<rparr> = with_mail tx' rx w"
  "with_mail tx rx w\<lparr>lw_daemon := (lw_daemon (with_mail tx rx w))\<lparr>rx_buffer := rx'\<rparr>\<rparr> = with_mail tx rx' w"
  by (simp_all add: with_mail_def)

lemma with_mail_self: "with_mail (tx_buffer (lw_daemon w)) (rx_buffer (lw_daemon w)) w = w"
  by (simp add: with_mail_def)

text \<open>Enough rounds move every letter, in order; further rounds do nothing.\<close>

lemma forward_rounds_all:
  assumes env: "test_env env f1 exec es1" "test_env env f2 exec es2" and w: "test_world PER_NODE w"
    and s1: "ready SIM_CLIENT (lw_daemon w) sim1" "clientId sim1 = ''node1''" and s2: "ready SIM_CLIENT (lw_daemon w) sim2"
  shows "\<forall>pl\<in>set pls. plain_text pl \<and> pl \<noteq> [] \<Longrightarrow> length pls \<le> n \<Longrightarrow>
     forward_rounds n es1 es2 sim1 sim2 (with_mail (map letter pls) rx w) = Inr ((sim1, sim2), with_mail [] (rx @ map letter pls) w)"
proof (induction n arbitrary: pls rx)
  case (Suc n)
  show ?case
  proof (cases pls)
    case Nil
    have "sim_fetch_any es1 DAEMON_RESPONSE_TIMEOUT sim1 (with_mail [] rx w) = Inr (empty_entry, sim1, with_mail [] rx w)"
      using fetch_step [OF env(1), of "with_mail [] rx w" sim1 None "[]" DAEMON_RESPONSE_TIMEOUT] w s1
      by (simp add: with_mail_updates)
    with Suc.IH [of "[]" rx] Nil show ?thesis by simp
  next
    case (Cons pl ps)
    have p: "plain_text pl" "pl \<noteq> []" using Suc.prems(1) Cons by simp_all
    have "sim_fetch_any es1 DAEMON_RESPONSE_TIMEOUT sim1 (with_mail (map letter pls) rx w) =
        Inr (letter pl, sim1, with_mail (map letter ps) rx w)"
      using fetch_step [OF env(1), of "with_mail (map letter pls) rx w" sim1 "Some (letter pl)" "map letter ps" DAEMON_RESPONSE_TIMEOUT]
        w s1 p Cons by (simp add: with_mail_updates)
    moreover have "sim_post es2 ''node1'' ''node2'' pl sim2 (with_mail (map letter ps) rx w) =
        Inr ([], sim2, with_mail (map letter ps) (rx @ [letter pl]) w)"
      using post_letter [OF env(2), of PER_NODE "with_mail (map letter ps) rx w" sim2 pl] w s2 p by (simp add: with_mail_updates)
    ultimately show ?thesis using Suc.IH [of ps "rx @ [letter pl]"] Suc.prems Cons p by simp
  qed
qed simp

text \<open>The application of the letters receives them in order, then empty entries; the other one only these.\<close>

lemma receive_rounds_all:
  assumes env: "test_env env f exec ce" and w: "test_world md w" and c: "ready APP_CLIENT (lw_daemon w) c" "clientId c = ''node2''"
  shows "\<forall>pl\<in>set pls. plain_text pl \<and> pl \<noteq> [] \<Longrightarrow> length pls \<le> n \<Longrightarrow>
     receive_rounds n ce c (with_mail tx (map letter pls) w) =
       Inr (map letter pls @ replicate (n - length pls) empty_entry, c, with_mail tx [] w)"
proof (induction n arbitrary: pls)
  case (Suc n)
  show ?case
  proof (cases pls)
    case Nil
    have "app_receive_any ce DAEMON_RESPONSE_TIMEOUT c (with_mail tx [] w) = Inr (empty_entry, c, with_mail tx [] w)"
      using receive_step [OF env, of md "with_mail tx [] w" c None "[]" DAEMON_RESPONSE_TIMEOUT] w c by (simp add: with_mail_updates)
    with Suc.IH [of "[]"] Nil show ?thesis by simp
  next
    case (Cons pl ps)
    have p: "plain_text pl" "pl \<noteq> []" using Suc.prems(1) Cons by simp_all
    have "app_receive_any ce DAEMON_RESPONSE_TIMEOUT c (with_mail tx (map letter pls) w) =
        Inr (letter pl, c, with_mail tx (map letter ps) w)"
      using receive_step [OF env, of md "with_mail tx (map letter pls) w" c "Some (letter pl)" "map letter ps" DAEMON_RESPONSE_TIMEOUT]
        w c p Cons by (simp add: with_mail_updates)
    with Suc.IH [of ps] Suc.prems Cons show ?thesis by simp
  qed
qed simp

lemma find_erase_letters: "i \<noteq> ''node2'' \<Longrightarrow> find_erase (\<lambda>e. destination e = i) (map letter pls) = (None, map letter pls)"
  by (rule find_erase_none) auto

lemma receive_rounds_none:
  assumes env: "test_env env f exec ce" and w: "test_world md w" and c: "ready APP_CLIENT (lw_daemon w) c" "clientId c = ''node1''"
  shows "receive_rounds n ce c (with_mail tx (map letter pls) w) = Inr (replicate n empty_entry, c, with_mail tx (map letter pls) w)"
proof (induction n)
  case (Suc n)
  have "app_receive_any ce DAEMON_RESPONSE_TIMEOUT c (with_mail tx (map letter pls) w) =
      Inr (empty_entry, c, with_mail tx (map letter pls) w)"
    using receive_step [OF env, of md "with_mail tx (map letter pls) w" c None "map letter pls" DAEMON_RESPONSE_TIMEOUT] w c
    by (simp add: with_mail_updates find_erase_letters)
  with Suc.IH show ?case by simp
qed simp

section \<open>The whole test\<close>

lemma test_ping:
  assumes "test_env env fds exec ce" "test_world md w" "ready og d c"
  shows "ping ce c w = Inr (True, w)"
  by (rule ping_answered [where env = env and fds = fds and exec = exec and og = og])
    (use assms plain_template in \<open>simp_all add: test_env_def test_world_def ready_def carries_plain_def\<close>)

lemma lifecycle_clients_join:
  assumes "test_env env fa exec ea" "test_env env fb exec eb" "test_env env f1 exec es1" "test_env env f2 exec es2"
    and w: "test_world PER_NODE w"
  shows "\<exists>app1 app2 sim1 sim2 d. lifecycle_clients ea eb es1 es2 w = Inr ((app1, app2, sim1, sim2), w\<lparr>lw_daemon := d\<rparr>) \<and>
     ready APP_CLIENT d app1 \<and> ready APP_CLIENT d app2 \<and> ready SIM_CLIENT d sim1 \<and> ready SIM_CLIENT d sim2 \<and>
     clientId app1 = ''node1'' \<and> clientId app2 = ''node2'' \<and> clientId sim1 = ''node1'' \<and> same_mail (lw_daemon w) d"
proof -
  obtain app1 d1 where 1: "initialize ea (new_app_client ''node1'') w = Inr (app1, w\<lparr>lw_daemon := d1\<rparr>)"
    "ready APP_CLIENT (lw_daemon w) app1" "clientId app1 = ''node1''" "same_mail (lw_daemon w) d1"
    by (rule client_joins [OF assms(1) w, of "new_app_client ''node1''" APP_CLIENT]) simp_all
  have w1: "test_world PER_NODE (w\<lparr>lw_daemon := d1\<rparr>)" by (rule same_mail_world [OF 1(4) w])
  obtain app2 d2 where 2: "initialize eb (new_app_client ''node2'') (w\<lparr>lw_daemon := d1\<rparr>) = Inr (app2, w\<lparr>lw_daemon := d2\<rparr>)"
    "ready APP_CLIENT d1 app2" "clientId app2 = ''node2''" "same_mail d1 d2"
    by (rule client_joins [OF assms(2) w1, of "new_app_client ''node2''" APP_CLIENT]) simp_all
  have d2: "same_mail (lw_daemon w) d2" by (rule same_mail_trans [OF 1(4) 2(4)])
  have w2: "test_world PER_NODE (w\<lparr>lw_daemon := d2\<rparr>)" by (rule same_mail_world [OF d2 w])
  obtain sim1 d3 where 3: "initialize es1 (new_sim_client ''node1'') (w\<lparr>lw_daemon := d2\<rparr>) = Inr (sim1, w\<lparr>lw_daemon := d3\<rparr>)"
    "ready SIM_CLIENT d2 sim1" "clientId sim1 = ''node1''" "same_mail d2 d3"
    by (rule client_joins [OF assms(3) w2, of "new_sim_client ''node1''" SIM_CLIENT]) simp_all
  have d3: "same_mail (lw_daemon w) d3" by (rule same_mail_trans [OF d2 3(4)])
  have w3: "test_world PER_NODE (w\<lparr>lw_daemon := d3\<rparr>)" by (rule same_mail_world [OF d3 w])
  obtain sim2 d4 where 4: "initialize es2 (new_sim_client ''node1'') (w\<lparr>lw_daemon := d3\<rparr>) = Inr (sim2, w\<lparr>lw_daemon := d4\<rparr>)"
    "ready SIM_CLIENT d3 sim2" "same_mail d3 d4"
    by (rule client_joins [OF assms(4) w3, of "new_sim_client ''node1''" SIM_CLIENT]) simp_all
  have d4: "same_mail (lw_daemon w) d4" by (rule same_mail_trans [OF d3 4(3)])
  have "lifecycle_clients ea eb es1 es2 w = Inr ((app1, app2, sim1, sim2), w\<lparr>lw_daemon := d4\<rparr>)"
    by (simp add: lifecycle_clients_def 1(1) 2(1) 3(1) 4(1))
  moreover have "ready APP_CLIENT d4 app1" "ready APP_CLIENT d4 app2" "ready SIM_CLIENT d4 sim1" "ready SIM_CLIENT d4 sim2"
    using 1(2) 2(2) 3(2) 4(2) same_mail_ready [OF 1(4)] same_mail_ready [OF d2] same_mail_ready [OF d3] same_mail_ready [OF d4]
    by simp_all
  ultimately show ?thesis using 1(3) 2(3) 3(3) d4 by blast
qed

lemma test_exit:
  assumes "test_env env fds exec ce" "ready og d c"
  shows "exit_daemon ce c w = Inr (w\<lparr>lw_daemon := stop (lw_daemon w)\<rparr>)"
proof -
  have "dispatch env (request EXIT og SUCCESS) (lw_daemon w) = Inr (stop (lw_daemon w), response_template, False, [])"
    by (simp add: dispatch_def nsb_simps)
  from loop_store [OF _ this, of fds CTRL] assms show ?thesis
    by (simp add: exit_daemon_def test_env_def on_loop_def carries_plain_def ready_def)
qed

text \<open>C19: The test of the repository, against a daemon in PULL mode without a database, with one simulator per node, that holds no mail,
  over a network that hands each message over whole and with a Protobuf that carries messages of short ASCII texts: the two payloads reach
  the second application, in order and through the two simulators, the third round of each loop finds nothing, the
  first application gets nothing, the daemon's buffers are empty again and it is told to end.\<close>

theorem testLifecycle_delivers:
  assumes env: "test_env env fa exec ea" "test_env env fb exec eb" "test_env env f1 exec es1" "test_env env f2 exec es2"
    and w: "test_world PER_NODE w" and mail: "tx_buffer (lw_daemon w) = []" "rx_buffer (lw_daemon w) = []"
  shows "\<exists>w'. testLifecycle ea eb es1 es2 w = Inr (([empty_entry, empty_entry, empty_entry],
       [mk_entry ''node1'' ''node2'' ''Hello from app1'' 15, mk_entry ''node1'' ''node2'' ''Hola del app1'' 13, empty_entry]), w') \<and>
     \<not> running (lw_daemon w') \<and> tx_buffer (lw_daemon w') = [] \<and> rx_buffer (lw_daemon w') = []"
proof -
  let ?pls = "[''Hello from app1'', ''Hola del app1'']"
  obtain app1 app2 sim1 sim2 d where join: "lifecycle_clients ea eb es1 es2 w = Inr ((app1, app2, sim1, sim2), w\<lparr>lw_daemon := d\<rparr>)"
    and rdy: "ready APP_CLIENT d app1" "ready APP_CLIENT d app2" "ready SIM_CLIENT d sim1" "ready SIM_CLIENT d sim2"
    and ids: "clientId app1 = ''node1''" "clientId app2 = ''node2''" "clientId sim1 = ''node1''" and d: "same_mail (lw_daemon w) d"
    using lifecycle_clients_join [OF env w] by blast
  let ?w = "w\<lparr>lw_daemon := d\<rparr>"
  have w0: "test_world PER_NODE ?w" "with_mail [] [] ?w = ?w"
    using w d mail by (simp_all add: test_world_def same_mail_def with_mail_def)
  have pings: "lifecycle_pings ea eb es1 es2 (app1, app2, sim1, sim2) ?w = Inr ?w"
    using test_ping [OF env(1) w0(1) rdy(1)] test_ping [OF env(2) w0(1) rdy(2)] test_ping [OF env(3) w0(1) rdy(3)]
      test_ping [OF env(4) w0(1) rdy(4)] by (simp add: lifecycle_pings_def)
  have pl: "\<forall>pl\<in>set ?pls. plain_text pl \<and> pl \<noteq> []" by (simp add: plain_text_def)
  have send: "app_send ea ''node2'' pl app1 (with_mail tx [] ?w) = Inr ([], app1, with_mail (tx @ [letter pl]) [] ?w)"
    if "pl \<in> set ?pls" for pl tx
    using send_letter [OF env(1), of PER_NODE "with_mail tx [] ?w" app1 pl] w0(1) rdy(1) ids(1) pl that
    by (auto simp: with_mail_updates)
  have fwd: "forward_rounds 3 es1 es2 sim1 sim2 (with_mail (map letter ?pls) [] ?w) = Inr ((sim1, sim2), with_mail [] (map letter ?pls) ?w)"
    using forward_rounds_all [OF env(3,4) w0(1) _ ids(3), of sim2 ?pls 3 "[]"] rdy pl by simp
  have got1: "receive_rounds 3 ea app1 (with_mail [] (map letter ?pls) ?w) =
      Inr (replicate 3 empty_entry, app1, with_mail [] (map letter ?pls) ?w)"
    by (rule receive_rounds_none [OF env(1) w0(1) _ ids(1)]) (use rdy(1) in simp)
  have got2: "receive_rounds 3 eb app2 (with_mail [] (map letter ?pls) ?w) =
      Inr (map letter ?pls @ [empty_entry], app2, with_mail [] [] ?w)"
    using receive_rounds_all [OF env(2) w0(1) _ ids(2), of ?pls 3 "[]"] rdy(2) pl by simp
  have "testLifecycle ea eb es1 es2 w = Inr ((replicate 3 empty_entry, map letter ?pls @ [empty_entry]),
      with_mail [] [] ?w\<lparr>lw_daemon := stop (lw_daemon (with_mail [] [] ?w))\<rparr>)"
    using send [of "''Hello from app1''" "[]"] send [of "''Hola del app1''" "[letter ''Hello from app1'']"] fwd got1 got2
      test_exit [OF env(1) rdy(1), of "with_mail [] [] ?w"] pings join
    by (simp add: testLifecycle_def w0(2))
  then show ?thesis by (auto simp: letter_def int_of_size_def numeral_3_eq_3 stop_def with_mail_def)
qed

lemma wit_test_env: "test_env fragment_env (wit_fds f) map_server (wit_env f)"
  by (simp add: test_env_def carries_plain_def plain_names_def) (simp add: wit_env_def plain_text_def)

theorem testLifecycle_delivers_witness:
  "\<exists>w'. testLifecycle (wit_env 5) (wit_env 8) (wit_env 11) (wit_env 14) (wit_world\<lparr>lw_daemon := wit_daemon\<lparr>d_cfg := default_cfg\<lparr>SIMULATOR_MODE := PER_NODE\<rparr>, running := True\<rparr>\<rparr>)
     = Inr (([empty_entry, empty_entry, empty_entry], [mk_entry ''node1'' ''node2'' ''Hello from app1'' 15,
         mk_entry ''node1'' ''node2'' ''Hola del app1'' 13, empty_entry]), w') \<and> \<not> running (lw_daemon w')"
proof -
  let ?w = "wit_world\<lparr>lw_daemon := wit_daemon\<lparr>d_cfg := default_cfg\<lparr>SIMULATOR_MODE := PER_NODE\<rparr>, running := True\<rparr>\<rparr>"
  have "test_world PER_NODE ?w" "tx_buffer (lw_daemon ?w) = []" "rx_buffer (lw_daemon ?w) = []"
    by (simp_all add: test_world_def wit_world_def wit_daemon_def default_cfg_def)
  from testLifecycle_delivers [OF wit_test_env wit_test_env wit_test_env wit_test_env this, of 5 8 11 14] show ?thesis by blast
qed

text \<open>With the daemon's default mode, one simulator for the system, the test ends its process: the first simulator
  is accepted and the second is not.\<close>

lemma testLifecycle_default_mode:
  assumes env: "test_env env fa exec ea" "test_env env fb exec eb" "test_env env f1 exec es1" "test_env env f2 exec es2"
    and w: "test_world SYSTEM_WIDE w"
  shows "testLifecycle ea eb es1 es2 w = Inl ProcessExit"
proof -
  obtain app1 d1 where 1: "initialize ea (new_app_client ''node1'') w = Inr (app1, w\<lparr>lw_daemon := d1\<rparr>)" "same_mail (lw_daemon w) d1"
    by (rule client_joins [OF env(1) w, of "new_app_client ''node1''" APP_CLIENT]) simp_all
  have w1: "test_world SYSTEM_WIDE (w\<lparr>lw_daemon := d1\<rparr>)" by (rule same_mail_world [OF 1(2) w])
  obtain app2 d2 where 2: "initialize eb (new_app_client ''node2'') (w\<lparr>lw_daemon := d1\<rparr>) = Inr (app2, w\<lparr>lw_daemon := d2\<rparr>)" "same_mail d1 d2"
    by (rule client_joins [OF env(2) w1, of "new_app_client ''node2''" APP_CLIENT]) simp_all
  have d2: "same_mail (lw_daemon w) d2" by (rule same_mail_trans [OF 1(2) 2(2)])
  have w2: "test_world SYSTEM_WIDE (w\<lparr>lw_daemon := d2\<rparr>)" by (rule same_mail_world [OF d2 w])
  have "lifecycle_clients ea eb es1 es2 w = Inl ProcessExit"
  proof (cases "sim_client_lookup d2 = []")
    case True
    then obtain sim1 d3 where 3: "initialize es1 (new_sim_client ''node1'') (w\<lparr>lw_daemon := d2\<rparr>) = Inr (sim1, w\<lparr>lw_daemon := d3\<rparr>)"
      "same_mail d2 d3" "sim_client_lookup d3 \<noteq> []"
      by (auto intro: client_joins [OF env(3) w2, of "new_sim_client ''node1''" SIM_CLIENT])
    have w3: "test_world SYSTEM_WIDE (w\<lparr>lw_daemon := d3\<rparr>)" by (rule same_mail_world [OF same_mail_trans [OF d2 3(2)] w])
    from second_simulator_refused [OF env(4) w3, of "new_sim_client ''node1''"] 1(1) 2(1) 3(1,3)
    show ?thesis by (simp add: lifecycle_clients_def)
  next
    case False
    with second_simulator_refused [OF env(3) w2, of "new_sim_client ''node1''"] 1(1) 2(1)
    show ?thesis by (simp add: lifecycle_clients_def)
  qed
  then show ?thesis by (simp add: testLifecycle_def)
qed

section \<open>testRedisConnector\<close>

text \<open>Two connectors, on contexts \<open>c1\<close> and \<open>c2\<close> of hiredis; the result is what the test logs as received.\<close>

definition testRedisConnector :: "'s redis_exec \<Rightarrow> bool option \<Rightarrow> bool option \<Rightarrow> int \<Rightarrow> 's \<Rightarrow> redis_fault + string \<times> 's" where
  "testRedisConnector exec c1 c2 now s =
     bind_res (new_redis c1 ''app1'' ''127.0.0.1'' 5050) (\<lambda>(this, _).
     bind_res (new_redis c2 ''app2'' ''127.0.0.1'' 5050) (\<lambda>(that, _).
       (let (key, _, s1) = store exec now ''hola mundo'' this s;
            (received, _, s2) = checkOut exec key that s1
        in Inr (received, s2))))"

text \<open>What one connector stored the other takes out, and Redis is then as before (but for the key, should it have been in
  use).\<close>

lemma testRedisConnector_passes:
  assumes "redis_laws exec view"
  shows "\<exists>k s'. testRedisConnector exec (Some False) (Some False) now s = Inr (''hola mundo'', s') \<and> view s' = (view s)(k := None)"
proof -
  let ?c = "\<lambda>i. \<lparr>rc_client = i, plctr = 0, rc_address = ''127.0.0.1'', rc_port = 5050, rctx = Some False\<rparr>"
  let ?k = "fst (generatePayloadId now (?c ''app1''))"
  have new: "new_redis (Some False) i ''127.0.0.1'' 5050 = Inr (?c i, True)" for i
    by (simp add: new_redis_def connect_def)
  obtain c1 s1 where 1: "store exec now ''hola mundo'' (?c ''app1'') s = (?k, c1, s1)" "view s1 = (view s)(c_str ?k \<mapsto> ''hola mundo'')"
    by (rule store_lawful [OF assms, of "?c ''app1''" now "''hola mundo''" s]) (simp_all add: isConnected_def c_str_def)
  obtain s2 where "checkOut exec ?k (?c ''app2'') s1 = (''hola mundo'', ?c ''app2'', s2)" "view s2 = (view s1)(c_str ?k := None)"
    by (rule checkOut_lawful [OF assms, of "?c ''app2''" ?k s1]) (simp_all add: isConnected_def 1(2))
  with 1 new show ?thesis by (auto simp: testRedisConnector_def)
qed

section \<open>testSocketInterface\<close>

text \<open>\<open>listenForMessage\<close> runs \<open>receiveMessage\<close> on a thread of its own; the value here is that of the future's \<open>get\<close>
  when nothing else uses the interface meanwhile.\<close>

definition listenForMessage :: "('b, 'w) comms \<Rightarrow> channel \<Rightarrow> i32 option \<Rightarrow> 'w \<Rightarrow> io_stop + 'b list \<times> 'w" where
  "listenForMessage cm ch timeout w = receiveMessage cm ch timeout w"

text \<open>The test on a connected interface (\<open>cs\<close> its descriptors): the response and the calls that close it.\<close>

definition testSocketInterface :: "('b, 'w) comms \<Rightarrow> (channel, fd) std_map \<Rightarrow> 'b list \<Rightarrow> 'w \<Rightarrow>
    io_stop + ('b list \<times> sys_call list) \<times> 'w" where
  "testSocketInterface cm cs hello w =
     bind_res (sendMessage cm CTRL hello w) (\<lambda>(_, w1).
     bind_res (listenForMessage cm CTRL (Some 5) w1) (\<lambda>(response, w2).
     bind_res (closeConnection cs) (\<lambda>calls. Inr ((response, calls), w2))))"

text \<open>The daemon answers nothing to bytes that are no message.\<close>

lemma testSocketInterface_unanswered:
  assumes "parse env hello = None" "lw_inbox w (fds CTRL) = []" "closeConnection cs = Inr calls"
  shows "testSocketInterface (loop_comms env fds) cs hello w = Inr (([], calls), w)"
  using assms by (simp add: testSocketInterface_def listenForMessage_def loop_send_def handle_message_def loop_receive_def deliver_def)

end
