(* ===== verification/NSB_RMQ.thy ===== *)
theory NSB_RMQ
  imports NSB_Client NSB_Daemon
begin

text \<open>
  The RabbitMQ variant of the system (\<open>cpp/rabbit\<close>): \<open>RabbitMQInterface\<close>, the clients
  \<open>NSBClientRMQ\<close>, \<open>NSBAppClientRMQ\<close>, \<open>NSBSimClientRMQ\<close> and the daemon \<open>NSBDaemonRMQ\<close>.
  The broker and the SimpleAmqpClient library are parameters; what AMQP documents about a
  direct exchange whose queues are bound under their own names is \<open>amqp_laws\<close>.
\<close>

section \<open>The broker\<close>

text \<open>\<open>declare_q\<close> stands for \<open>DeclareQueue\<close> and \<open>BindQueue\<close> of a queue under its own name,
  \<open>publish\<close> for \<open>BasicPublish\<close> on the exchange \<open>nsb\<close>, \<open>subscribe\<close> and \<open>cancel\<close> for
  \<open>BasicConsume\<close> (without acknowledgements) and \<open>BasicCancel\<close>, and \<open>consume\<close> for one
  \<open>BasicConsumeMessage\<close> (\<open>None\<close> when its wait ended without a message).\<close>

record ('b, 'm) amqp =
  declare_q :: "string \<Rightarrow> 'm \<Rightarrow> 'm"
  publish :: "string \<Rightarrow> 'b list \<Rightarrow> 'm \<Rightarrow> 'm"
  subscribe :: "string \<Rightarrow> 'm \<Rightarrow> 'm"
  consume :: "string \<Rightarrow> 'm \<Rightarrow> 'b list option \<times> 'm"
  cancel :: "string \<Rightarrow> 'm \<Rightarrow> 'm"

datatype rt_error = Blocks | Throws string

text \<open>\<open>qs m q\<close> are the messages that wait for the consumer of \<open>q\<close>, in the broker or already pushed to
  the client.  The broker pushes to a consumer without acknowledgements as much as it likes (the
  prefetch count does not apply to it), and what was pushed but not taken is gone when the
  consumer is cancelled: some number of messages at the front.\<close>

definition amqp_laws :: "('b, 'm) amqp \<Rightarrow> ('m \<Rightarrow> string \<Rightarrow> 'b list list option) \<Rightarrow> bool" where
  "amqp_laws br qs \<longleftrightarrow> (\<forall>m q b.
     qs (declare_q br q m) = (qs m)(q := Some (case qs m q of None \<Rightarrow> [] | Some l \<Rightarrow> l)) \<and>
     qs (publish br q b m) = (case qs m q of None \<Rightarrow> qs m | Some l \<Rightarrow> (qs m)(q := Some (l @ [b]))) \<and>
     qs (subscribe br q m) = qs m \<and>
     (case consume br q m of
        (None, m1) \<Rightarrow> qs m1 = qs m
      | (Some x, m1) \<Rightarrow> \<exists>l. qs m q = Some (x # l) \<and> qs m1 = (qs m)(q := Some l)) \<and>
     (case qs m q of None \<Rightarrow> qs (cancel br q m) = qs m
      | Some l \<Rightarrow> \<exists>k. qs (cancel br q m) = (qs m)(q := Some (drop k l))))"

text \<open>A broker that is fast enough: a message that waits is delivered within the wait.\<close>

definition prompt :: "('b, 'm) amqp \<Rightarrow> ('m \<Rightarrow> string \<Rightarrow> 'b list list option) \<Rightarrow> bool" where
  "prompt br qs \<longleftrightarrow> (\<forall>m q x l. qs m q = Some (x # l) \<longrightarrow> fst (consume br q m) \<noteq> None)"

text \<open>A concrete broker for the witnesses, which pushes nothing ahead of time, and one that pushes
  everything.\<close>

definition map_broker :: "('b, string \<Rightarrow> 'b list list option) amqp" where
  "map_broker = \<lparr>declare_q = (\<lambda>q m. m(q := Some (case m q of None \<Rightarrow> [] | Some l \<Rightarrow> l))),
     publish = (\<lambda>q b m. case m q of None \<Rightarrow> m | Some l \<Rightarrow> m(q := Some (l @ [b]))),
     subscribe = (\<lambda>q m. m),
     consume = (\<lambda>q m. case m q of Some (x # l) \<Rightarrow> (Some x, m(q := Some l)) | _ \<Rightarrow> (None, m)),
     cancel = (\<lambda>q m. m)\<rparr>"

definition eager_broker :: "('b, string \<Rightarrow> 'b list list option) amqp" where
  "eager_broker = map_broker\<lparr>cancel := (\<lambda>q m. case m q of None \<Rightarrow> m | Some _ \<Rightarrow> m(q := Some []))\<rparr>"

lemma map_broker_laws [simp]: "amqp_laws map_broker (\<lambda>m. m)"
proof -
  have "\<exists>k. m = m(q \<mapsto> drop k l)" if "m q = Some l" for m :: "string \<Rightarrow> 'a list list option" and q l
    using that by (intro exI [of _ 0]) (simp add: fun_upd_idem)
  then show ?thesis
    by (auto simp: amqp_laws_def map_broker_def split: option.split list.split)
qed

lemma eager_broker_laws [simp]: "amqp_laws eager_broker (\<lambda>m. m)"
proof -
  have "\<exists>k. m(q \<mapsto> []) = m(q \<mapsto> drop k l)" for m :: "string \<Rightarrow> 'a list list option" and q l
    by (intro exI [of _ "length l"]) simp
  then show ?thesis
    by (auto simp: amqp_laws_def eager_broker_def map_broker_def split: option.split list.split)
qed

lemma map_broker_prompt [simp]: "prompt map_broker (\<lambda>m. m)"
  by (simp add: prompt_def map_broker_def)

lemma eager_broker_prompt [simp]: "prompt eager_broker (\<lambda>m. m)"
  by (simp add: prompt_def eager_broker_def map_broker_def)

section \<open>RabbitMQInterface\<close>

text \<open>The names of the queues, which are also their routing keys.\<close>

definition request_queue :: string where "request_queue = ''nsb.config.request''"
definition ctrl_queue :: "string \<Rightarrow> string" where "ctrl_queue i = ''nsb.config.response.'' @ i"
definition send_queue :: "string \<Rightarrow> string" where "send_queue i = ''nsb.send.'' @ i"
definition recv_queue :: "string \<Rightarrow> string" where "recv_queue i = ''nsb.recv.'' @ i"

lemma queue_names_distinct [simp]:
  "ctrl_queue i \<noteq> request_queue" "request_queue \<noteq> ctrl_queue i"
  "send_queue i \<noteq> request_queue" "request_queue \<noteq> send_queue i"
  "recv_queue i \<noteq> request_queue" "request_queue \<noteq> recv_queue i"
  "ctrl_queue i \<noteq> send_queue j" "send_queue j \<noteq> ctrl_queue i"
  "ctrl_queue i \<noteq> recv_queue j" "recv_queue j \<noteq> ctrl_queue i"
  "send_queue i \<noteq> recv_queue j" "recv_queue j \<noteq> send_queue i"
  by (simp_all add: request_queue_def ctrl_queue_def send_queue_def recv_queue_def)

lemma queue_names_inj [simp]:
  "ctrl_queue i = ctrl_queue j \<longleftrightarrow> i = j" "send_queue i = send_queue j \<longleftrightarrow> i = j" "recv_queue i = recv_queue j \<longleftrightarrow> i = j"
  by (simp_all add: ctrl_queue_def send_queue_def recv_queue_def)

record rmq =
  rq_id :: string
  rq_open :: bool
  q_ctrl :: string
  q_send :: string
  q_recv :: string

definition new_rmq :: "string \<Rightarrow> rmq" where
  "new_rmq ident = \<lparr>rq_id = ident, rq_open = False, q_ctrl = [], q_send = [], q_recv = []\<rparr>"

definition declare_exchange_and_queues :: "('b, 'm) amqp \<Rightarrow> rmq \<Rightarrow> 'm \<Rightarrow> rmq \<times> 'm" where
  "declare_exchange_and_queues br r m =
     (let r' = r\<lparr>q_ctrl := ctrl_queue (rq_id r), q_send := send_queue (rq_id r),
                 q_recv := recv_queue (rq_id r)\<rparr>
      in (r', declare_q br request_queue (declare_q br (q_recv r')
                (declare_q br (q_send r') (declare_q br (q_ctrl r') m)))))"

text \<open>\<open>connect\<close>: every attempt succeeds or throws; after a failure the elapsed time is compared with
  the timeout (never when that is negative).\<close>

datatype connect_attempt = ConnectOk | ConnectThrows bool

fun rmq_connect :: "('b, 'm) amqp \<Rightarrow> int \<Rightarrow> connect_attempt list \<Rightarrow> rmq \<Rightarrow> 'm \<Rightarrow> rt_error + rmq \<times> 'm" where
  "rmq_connect br timeout [] r m = Inl Blocks"
| "rmq_connect br timeout (ConnectOk # as) r m = Inr (declare_exchange_and_queues br (r\<lparr>rq_open := True\<rparr>) m)"
| "rmq_connect br timeout (ConnectThrows elapsed # as) r m =
     (if timeout \<ge> 0 \<and> elapsed then Inl (Throws ''RabbitMQ connect timeout'')
      else rmq_connect br timeout as r m)"

definition rmq_close :: "rmq \<Rightarrow> rmq" where
  "rmq_close r = r\<lparr>rq_open := False\<rparr>"

fun queue_name :: "channel \<Rightarrow> rmq \<Rightarrow> string" where
  "queue_name CTRL r = q_ctrl r"
| "queue_name SEND_CH r = q_send r"
| "queue_name RECV_CH r = q_recv r"

definition routing_key :: "channel \<Rightarrow> string \<Rightarrow> rmq \<Rightarrow> string" where
  "routing_key ch dest r = (if ch = CTRL then request_queue
     else if ch = SEND_CH \<and> dest \<noteq> [] then recv_queue dest
     else queue_name ch r)"

definition rmq_send :: "('b, 'm) amqp \<Rightarrow> channel \<Rightarrow> 'b list \<Rightarrow> string \<Rightarrow> rmq \<Rightarrow> 'm \<Rightarrow> rt_error + 'm" where
  "rmq_send br ch bytes dest r m = (if \<not> rq_open r then Inl (Throws ''RabbitMQ not connected'')
     else Inr (publish br (routing_key ch dest r) bytes m))"

text \<open>The loop of \<open>recv\<close>; every reading says whether the deadline has passed.  A negative timeout
  waits for ever, 0 polls once.  The consumer is cancelled on every way out.\<close>

fun rmq_recv_loop :: "('b, 'm) amqp \<Rightarrow> string \<Rightarrow> int \<Rightarrow> bool list \<Rightarrow> 'm \<Rightarrow> rt_error + 'b list option \<times> 'm" where
  "rmq_recv_loop br q timeout readings m =
     (if timeout = 0 then (case consume br q m of (b, m1) \<Rightarrow> Inr (b, cancel br q m1))
      else case readings of [] \<Rightarrow> Inl Blocks
        | late # rs \<Rightarrow>
            (if timeout > 0 \<and> late then Inr (None, cancel br q m)
             else case consume br q m of
                 (Some b, m1) \<Rightarrow> Inr (Some b, cancel br q m1)
               | (None, m1) \<Rightarrow> rmq_recv_loop br q timeout rs m1))"

declare rmq_recv_loop.simps [simp del]

definition rmq_recv :: "('b, 'm) amqp \<Rightarrow> channel \<Rightarrow> int \<Rightarrow> bool list \<Rightarrow> rmq \<Rightarrow> 'm \<Rightarrow> rt_error + 'b list option \<times> 'm" where
  "rmq_recv br ch timeout readings r m = (if \<not> rq_open r then Inl (Throws ''RabbitMQ not connected'')
     else rmq_recv_loop br (queue_name ch r) timeout readings (subscribe br (queue_name ch r) m))"

text \<open>\<open>listen_loop\<close>: one consumer; while the flag is read as set, a poll and the callback.  The
  callback acts on the broker and on a state of its own.\<close>

fun listen_polls :: "('b, 'm) amqp \<Rightarrow> string \<Rightarrow> ('b list \<Rightarrow> 'm \<times> 'u \<Rightarrow> 'm \<times> 'u) \<Rightarrow> bool list \<Rightarrow> 'm \<times> 'u \<Rightarrow> 'm \<times> 'u" where
  "listen_polls br q cb [] mu = mu"
| "listen_polls br q cb (False # fs) mu = mu"
| "listen_polls br q cb (True # fs) (m, u) = (case consume br q m of
       (None, m1) \<Rightarrow> listen_polls br q cb fs (m1, u)
     | (Some bs, m1) \<Rightarrow> listen_polls br q cb fs (cb bs (m1, u)))"

definition listen_loop :: "('b, 'm) amqp \<Rightarrow> string \<Rightarrow> ('b list \<Rightarrow> 'm \<times> 'u \<Rightarrow> 'm \<times> 'u) \<Rightarrow> bool list \<Rightarrow> 'm \<times> 'u \<Rightarrow> 'm \<times> 'u" where
  "listen_loop br q cb fs mu = (case mu of (m, u) \<Rightarrow>
     case listen_polls br q cb fs (subscribe br q m, u) of (m1, u1) \<Rightarrow> (cancel br q m1, u1))"

section \<open>NSBDaemonRMQ\<close>

definition rmq_default_config :: config_params where
  "rmq_default_config = empty_config\<lparr>sys_mode := PULL, sim_mode := SYSTEM_WIDE, use_db := False\<rparr>"

definition rmq_set_config :: "i32 \<Rightarrow> i32 \<Rightarrow> bool \<Rightarrow> string \<Rightarrow> i32 \<Rightarrow> i32 \<Rightarrow> config_params" where
  "rmq_set_config sysm simm udb addr port num =
     \<lparr>sys_mode = system_mode_of_int sysm, sim_mode = simulator_mode_of_int simm, use_db = udb, db_address = addr, db_port = port, db_num = num\<rparr>"

definition reply_init :: "config_params \<Rightarrow> nsbm \<Rightarrow> (string \<times> nsbm) list" where
  "reply_init c req = (let resp = set_config (\<lambda>_. c) (head_of INIT DAEMON DAEMON_RESPONSE empty_nsbm);
       client_id = (if has_intro req then client_identifier (intro req) else [])
     in if client_id = [] then [] else [(ctrl_queue client_id, resp)])"

definition reply_ping :: "nsbm \<Rightarrow> (string \<times> nsbm) list" where
  "reply_ping req = (let resp = head_of PING DAEMON DAEMON_RESPONSE empty_nsbm;
       id1 = (if has_intro req then client_identifier (intro req) else []);
       client_id = (if id1 = [] \<and> has_metadata req then src_id (metadata req) else id1)
     in if client_id = [] then [] else [(ctrl_queue client_id, resp)])"

definition daemon_replies :: "config_params \<Rightarrow> nsbm \<Rightarrow> (string \<times> nsbm) list" where
  "daemon_replies c req = (if \<not> has_manifest req then []
     else case man_op (manifest req) of INIT \<Rightarrow> reply_init c req | PING \<Rightarrow> reply_ping req | _ \<Rightarrow> [])"

definition rmq_handle_message :: "'b io_env \<Rightarrow> ('b, 'm) amqp \<Rightarrow> config_params \<Rightarrow> 'b list \<Rightarrow> 'm \<Rightarrow> 'm" where
  "rmq_handle_message env br c bs m = (case parse env bs of None \<Rightarrow> m
     | Some req \<Rightarrow> fold (\<lambda>(q, resp). publish br q (SerializeAsString env resp)) (daemon_replies c req) m)"

text \<open>One pass of \<open>run_loop\<close>, and the loop while the flag is read as set.\<close>

definition rmq_daemon_step :: "'b io_env \<Rightarrow> ('b, 'm) amqp \<Rightarrow> config_params \<Rightarrow> 'm \<Rightarrow> 'm" where
  "rmq_daemon_step env br c m = (case consume br request_queue m of
     (None, m1) \<Rightarrow> m1 | (Some bs, m1) \<Rightarrow> rmq_handle_message env br c bs m1)"

fun rmq_daemon_passes :: "'b io_env \<Rightarrow> ('b, 'm) amqp \<Rightarrow> config_params \<Rightarrow> bool list \<Rightarrow> 'm \<Rightarrow> 'm" where
  "rmq_daemon_passes env br c [] m = m"
| "rmq_daemon_passes env br c (False # fs) m = m"
| "rmq_daemon_passes env br c (True # fs) m = rmq_daemon_passes env br c fs (rmq_daemon_step env br c m)"

definition rmq_run_loop :: "'b io_env \<Rightarrow> ('b, 'm) amqp \<Rightarrow> config_params \<Rightarrow> bool list \<Rightarrow> 'm \<Rightarrow> 'm" where
  "rmq_run_loop env br c fs m =
     cancel br request_queue (rmq_daemon_passes env br c fs (subscribe br request_queue m))"

section \<open>NSBClientRMQ\<close>

record rmq_client =
  kc_id :: string
  kc_host :: string
  kc_og :: originator
  kc_cfg :: cfg
  kc_if :: "rmq option"

definition buildBaseMsg :: "operation \<Rightarrow> originator \<Rightarrow> nsbm" where
  "buildBaseMsg opn og = set_manifest (\<lambda>h. h\<lparr>man_op := opn, man_og := og\<rparr>) empty_nsbm"

definition with_code :: "op_code \<Rightarrow> nsbm \<Rightarrow> nsbm" where
  "with_code c m = set_manifest (\<lambda>h. h\<lparr>man_code := c\<rparr>) m"

definition rmq_init_request :: "rmq_client \<Rightarrow> nsbm" where
  "rmq_init_request c = set_intro (\<lambda>i. i\<lparr>client_identifier := kc_id c, address := kc_host c,
       ch_CTRL := 0, ch_SEND := 1, ch_RECV := 2\<rparr>)
     (with_code CLIENT_REQUEST (buildBaseMsg INIT (kc_og c)))"

definition rmq_config :: "nsbm \<Rightarrow> cfg" where
  "rmq_config m = (let p = config m in
     \<lparr>SYSTEM_MODE = (if sys_mode p = PULL then PULL else PUSH),
      SIMULATOR_MODE = (if sim_mode p = SYSTEM_WIDE then SYSTEM_WIDE else PER_NODE),
      USE_DB = use_db p, DB_ADDRESS = db_address p, DB_PORT = db_port p, DB_NUM = db_num p\<rparr>)"

definition with_comms :: "rmq_client \<Rightarrow> (rmq \<Rightarrow> rt_error + 'a) \<Rightarrow> rt_error + 'a" where
  "with_comms c f = (case kc_if c of None \<Rightarrow> Inl (Throws ''null'') | Some r \<Rightarrow> f r)"

text \<open>\<open>initialize\<close>; \<open>meanwhile\<close> is what the other processes do to the broker before the response
  is waited for.\<close>

definition rmq_initialize :: "'b io_env \<Rightarrow> ('b, 'm) amqp \<Rightarrow> int \<Rightarrow> bool list \<Rightarrow> ('m \<Rightarrow> 'm) \<Rightarrow>
    rmq_client \<Rightarrow> 'm \<Rightarrow> rt_error + rmq_client \<times> 'm" where
  "rmq_initialize env br timeout readings meanwhile c m = with_comms c (\<lambda>r.
     bind_res (rmq_send br CTRL (SerializeAsString env (rmq_init_request c)) [] r m) (\<lambda>m1.
     bind_res (rmq_recv br CTRL timeout readings r (meanwhile m1)) (\<lambda>(resp, m2).
       case resp of None \<Rightarrow> Inl (Throws ''NSB INIT timeout'')
       | Some bs \<Rightarrow> (case parse env bs of None \<Rightarrow> Inl (Throws ''NSB INIT parse error'')
          | Some x \<Rightarrow> (if man_op (manifest x) \<noteq> INIT \<or> man_code (manifest x) \<noteq> DAEMON_RESPONSE
               then Inl (Throws ''NSB INIT invalid response'')
               else Inr (c\<lparr>kc_cfg := rmq_config x\<rparr>, m2))))))"

definition rmq_ping :: "'b io_env \<Rightarrow> ('b, 'm) amqp \<Rightarrow> rmq_client \<Rightarrow> 'm \<Rightarrow> rt_error + 'm" where
  "rmq_ping env br c m = with_comms c
     (\<lambda>r. rmq_send br CTRL (SerializeAsString env (with_code CLIENT_REQUEST (buildBaseMsg PING (kc_og c)))) [] r m)"

definition rmq_exit :: "'b io_env \<Rightarrow> ('b, 'm) amqp \<Rightarrow> rmq_client \<Rightarrow> 'm \<Rightarrow> rt_error + rmq_client \<times> 'm" where
  "rmq_exit env br c m = (case kc_if c of None \<Rightarrow> Inr (c, m)
     | Some r \<Rightarrow> bind_res (rmq_send br CTRL (SerializeAsString env (with_code CLIENT_REQUEST (buildBaseMsg EXIT (kc_og c)))) [] r m)
         (\<lambda>m1. Inr (c\<lparr>kc_if := Some (rmq_close r)\<rparr>, m1)))"

section \<open>Application and simulator\<close>

text \<open>\<open>NSBAppClientRMQ::send\<close> and \<open>NSBSimClientRMQ::post\<close> build the same message up to operation,
  origin and source.\<close>

definition rmq_app_send :: "'b io_env \<Rightarrow> ('b, 'm) amqp \<Rightarrow> string \<Rightarrow> string \<Rightarrow> rmq_client \<Rightarrow> 'm \<Rightarrow> rt_error + 'm" where
  "rmq_app_send env br dest pl c m = with_comms c (\<lambda>r. rmq_send br SEND_CH
     (SerializeAsString env (data_message SEND APP_CLIENT (kc_id c) dest pl (set_payload pl))) dest r m)"

definition rmq_sim_post :: "'b io_env \<Rightarrow> ('b, 'm) amqp \<Rightarrow> string \<Rightarrow> string \<Rightarrow> string \<Rightarrow> rmq_client \<Rightarrow> 'm \<Rightarrow> rt_error + 'm" where
  "rmq_sim_post env br src dest pl c m = with_comms c (\<lambda>r. rmq_send br SEND_CH
     (SerializeAsString env (data_message POST SIM_CLIENT src dest pl (set_payload pl))) dest r m)"

text \<open>The entry that a received body is unpacked to, shared by \<open>receive\<close>, \<open>fetch\<close> and the two
  listeners.  A message without a payload leaves the caller's payload as it was.\<close>

record rmq_entry =
  re_src :: string
  re_dest :: string
  re_payload :: string

definition unpack_body :: "'b io_env \<Rightarrow> 'b list \<Rightarrow> rmq_entry \<Rightarrow> bool \<times> rmq_entry" where
  "unpack_body env bs out = (case parse env bs of None \<Rightarrow> (False, out)
     | Some x \<Rightarrow> if man_code (manifest x) \<noteq> MESSAGE then (False, out)
         else (True, \<lparr>re_src = src_id (metadata x), re_dest = dest_id (metadata x),
                re_payload = (if has_payload x then payload x else re_payload out)\<rparr>))"

definition rmq_take :: "'b io_env \<Rightarrow> ('b, 'm) amqp \<Rightarrow> int \<Rightarrow> bool list \<Rightarrow> rmq_entry \<Rightarrow> rmq_client \<Rightarrow> 'm \<Rightarrow>
    rt_error + (bool \<times> rmq_entry) \<times> 'm" where
  "rmq_take env br timeout readings out c m = with_comms c (\<lambda>r.
     bind_res (rmq_recv br RECV_CH timeout readings r m)
       (\<lambda>(b, m1). Inr (case b of None \<Rightarrow> (False, out) | Some bs \<Rightarrow> unpack_body env bs out, m1)))"

definition rmq_receive :: "'b io_env \<Rightarrow> ('b, 'm) amqp \<Rightarrow> int \<Rightarrow> bool list \<Rightarrow> rmq_entry \<Rightarrow> rmq_client \<Rightarrow> 'm \<Rightarrow>
    rt_error + (bool \<times> rmq_entry) \<times> 'm" where
  "rmq_receive = rmq_take"

definition rmq_fetch :: "'b io_env \<Rightarrow> ('b, 'm) amqp \<Rightarrow> int \<Rightarrow> bool list \<Rightarrow> rmq_entry \<Rightarrow> rmq_client \<Rightarrow> 'm \<Rightarrow>
    rt_error + (bool \<times> rmq_entry) \<times> 'm" where
  "rmq_fetch = rmq_take"

text \<open>The callback wrapper of \<open>listen\<close>: a fresh entry, handed on when the body unpacks; and the
  listener that \<open>async_listen\<close> starts on the RECV queue (both client kinds have the same).\<close>

definition listen_callback :: "'b io_env \<Rightarrow> (rmq_entry \<Rightarrow> 'm \<times> 'u \<Rightarrow> 'm \<times> 'u) \<Rightarrow> 'b list \<Rightarrow> 'm \<times> 'u \<Rightarrow> 'm \<times> 'u" where
  "listen_callback env cb bs mu = (case unpack_body env bs \<lparr>re_src = [], re_dest = [], re_payload = []\<rparr> of
     (True, e) \<Rightarrow> cb e mu | (False, _) \<Rightarrow> mu)"

definition rmq_listen :: "'b io_env \<Rightarrow> ('b, 'm) amqp \<Rightarrow> (rmq_entry \<Rightarrow> 'm \<times> 'u \<Rightarrow> 'm \<times> 'u) \<Rightarrow> bool list \<Rightarrow> rmq_client \<Rightarrow>
    'm \<times> 'u \<Rightarrow> rt_error + 'm \<times> 'u" where
  "rmq_listen env br cb fs c mu = with_comms c (\<lambda>r. if \<not> rq_open r then Inl (Throws ''RabbitMQ not connected'')
     else Inr (listen_loop br (queue_name RECV_CH r) (listen_callback env cb) fs mu))"

definition rmq_sim_listen :: "'b io_env \<Rightarrow> ('b, 'm) amqp \<Rightarrow> (rmq_entry \<Rightarrow> 'm \<times> 'u \<Rightarrow> 'm \<times> 'u) \<Rightarrow> bool list \<Rightarrow> rmq_client \<Rightarrow>
    'm \<times> 'u \<Rightarrow> rt_error + 'm \<times> 'u" where
  "rmq_sim_listen = rmq_listen"

section \<open>Laws of the broker\<close>

lemma amqp_publish: "amqp_laws br qs \<Longrightarrow> qs (publish br q b m) =
    (case qs m q of None \<Rightarrow> qs m | Some l \<Rightarrow> (qs m)(q := Some (l @ [b])))"
  by (simp add: amqp_laws_def)

lemma amqp_declare: "amqp_laws br qs \<Longrightarrow> qs (declare_q br q m) =
    (qs m)(q := Some (case qs m q of None \<Rightarrow> [] | Some l \<Rightarrow> l))"
  by (simp add: amqp_laws_def)

lemma amqp_subscribe: "amqp_laws br qs \<Longrightarrow> qs (subscribe br q m) = qs m"
  by (simp add: amqp_laws_def)

lemma amqp_consume:
  assumes "amqp_laws br qs" "consume br q m = (b, m1)"
  shows "case b of None \<Rightarrow> qs m1 = qs m | Some x \<Rightarrow> \<exists>l. qs m q = Some (x # l) \<and> qs m1 = (qs m)(q := Some l)"
proof -
  note law = assms(1) [unfolded amqp_laws_def, THEN spec [of _ m], THEN spec [of _ q], THEN spec, THEN conjunct2,
      THEN conjunct2, THEN conjunct2, THEN conjunct1]
  from law assms(2) show ?thesis by (simp split: option.splits)
qed

lemma amqp_consume_Some:
  assumes "amqp_laws br qs" "prompt br qs" "qs m q = Some (x # l)"
  obtains m1 where "consume br q m = (Some x, m1)" "qs m1 = (qs m)(q := Some l)"
proof -
  obtain b m1 where c: "consume br q m = (b, m1)" by fastforce
  with assms(2,3) obtain y where "b = Some y" by (fastforce simp: prompt_def)
  with amqp_consume [OF assms(1) c] assms(3) c that show ?thesis by auto
qed

lemma amqp_consume_empty:
  assumes "amqp_laws br qs" "qs m q = Some []"
  obtains m1 where "consume br q m = (None, m1)" "qs m1 = qs m"
proof -
  obtain b m1 where c: "consume br q m = (b, m1)" by fastforce
  from amqp_consume [OF assms(1) c] assms(2) c that show ?thesis by (cases b) auto
qed

lemma amqp_cancel_Some:
  assumes "amqp_laws br qs" "qs m q = Some l"
  shows "\<exists>k. qs (cancel br q m) = (qs m)(q := Some (drop k l))"
proof -
  have "case qs m q of None \<Rightarrow> qs (cancel br q m) = qs m
      | Some l \<Rightarrow> \<exists>k. qs (cancel br q m) = (qs m)(q := Some (drop k l))"
    using assms(1) unfolding amqp_laws_def by blast
  with assms(2) show ?thesis by simp
qed

lemma amqp_cancel_empty: "amqp_laws br qs \<Longrightarrow> qs m q = Some [] \<Longrightarrow> qs (cancel br q m) = qs m"
  using amqp_cancel_Some [of br qs m q "[]"] by (auto simp: fun_upd_idem)

text \<open>A client whose interface has declared its queues.\<close>

definition rmq_ready :: "rmq_client \<Rightarrow> rmq \<Rightarrow> bool" where
  "rmq_ready c r \<longleftrightarrow> kc_if c = Some r \<and> rq_open r \<and> kc_id c \<noteq> [] \<and> q_ctrl r = ctrl_queue (kc_id c) \<and>
     q_send r = send_queue (kc_id c) \<and> q_recv r = recv_queue (kc_id c)"

lemma rmq_recv_single:
  assumes "amqp_laws br qs" "prompt br qs" "qs m (queue_name ch r) = Some [b]" "rq_open r"
    "timeout = 0 \<or> (\<exists>rs. readings = False # rs)"
  shows "\<exists>m1. rmq_recv br ch timeout readings r m = Inr (Some b, m1) \<and> qs m1 = (qs m)(queue_name ch r := Some [])"
proof -
  let ?q = "queue_name ch r"
  have s: "qs (subscribe br ?q m) = qs m" by (rule amqp_subscribe [OF assms(1)])
  obtain m1 where c: "consume br ?q (subscribe br ?q m) = (Some b, m1)" "qs m1 = (qs m)(?q := Some [])"
    using amqp_consume_Some [where m = "subscribe br ?q m" and q = ?q and x = b and l = "[]", OF assms(1,2)] s assms(3) by metis
  have "rmq_recv_loop br ?q timeout readings (subscribe br ?q m) = Inr (Some b, cancel br ?q m1)"
    using assms(5) c(1) by (subst rmq_recv_loop.simps) (elim disjE exE; simp)
  moreover have "qs (cancel br ?q m1) = qs m1" using c(2) by (intro amqp_cancel_empty [OF assms(1)]) simp
  ultimately show ?thesis using assms(4) c(2) by (simp add: rmq_recv_def)
qed

section \<open>Properties\<close>

lemma rmq_connect_result:
  "rmq_connect br timeout as r m = Inr x \<Longrightarrow> x = declare_exchange_and_queues br (r\<lparr>rq_open := True\<rparr>) m"
  by (induction br timeout as r m rule: rmq_connect.induct) (simp_all split: if_splits)

text \<open>\<open>connect\<close> declares the client's own three queues and the daemon's request queue, keeps
  what is already in them, and leaves every other queue alone; afterwards each channel of the client has its
  queue, named after its identifier.\<close>

theorem rmq_connect_declares:
  assumes "amqp_laws br qs" "rmq_connect br timeout as (new_rmq i) m = Inr (r, m')"
  shows "rq_open r \<and> queue_name CTRL r = ctrl_queue i \<and> queue_name SEND_CH r = send_queue i \<and>
     queue_name RECV_CH r = recv_queue i \<and>
     (\<forall>q. qs m' q = (if q \<in> {request_queue, queue_name CTRL r, queue_name SEND_CH r, queue_name RECV_CH r}
        then Some (case qs m q of None \<Rightarrow> [] | Some l \<Rightarrow> l) else qs m q))"
proof -
  have "(r, m') = declare_exchange_and_queues br (new_rmq i\<lparr>rq_open := True\<rparr>) m"
    by (rule rmq_connect_result [OF assms(2)])
  then show ?thesis
    using amqp_declare [OF assms(1)]
    by (auto simp: declare_exchange_and_queues_def Let_def new_rmq_def split: option.split)
qed

theorem rmq_connect_declares_witness:
  "\<exists>r m'. rmq_connect map_broker 10 [ConnectThrows False, ConnectOk] (new_rmq ''a'') [recv_queue ''a'' \<mapsto> [[1::nat]]] = Inr (r, m')
     \<and> m' (recv_queue ''a'') = Some [[1]] \<and> m' request_queue = Some []"
proof -
  obtain r m' where c: "rmq_connect map_broker 10 [ConnectThrows False, ConnectOk] (new_rmq ''a'') [recv_queue ''a'' \<mapsto> [[1::nat]]] = Inr (r, m')"
    by (cases "declare_exchange_and_queues map_broker (new_rmq ''a''\<lparr>rq_open := True\<rparr>) [recv_queue ''a'' \<mapsto> [[1::nat]]]") simp
  from rmq_connect_declares [OF map_broker_laws c] c show ?thesis by auto
qed

lemma rmq_init_request_fields [nsb_simps]:
  "has_manifest (rmq_init_request c)" "man_op (manifest (rmq_init_request c)) = INIT" "has_intro (rmq_init_request c)"
  "client_identifier (intro (rmq_init_request c)) = kc_id c"
  by (simp_all add: rmq_init_request_def with_code_def buildBaseMsg_def nsb_simps)
    (simp_all add: has_manifest_def set_intro_def set_manifest_def)

text \<open>The answer of the daemon to a client's INIT.\<close>

definition init_answer :: "config_params \<Rightarrow> nsbm" where
  "init_answer cf = set_config (\<lambda>_. cf) (head_of INIT DAEMON DAEMON_RESPONSE empty_nsbm)"

lemma init_answer_fields [nsb_simps]:
  "man_op (manifest (init_answer cf)) = INIT" "man_code (manifest (init_answer cf)) = DAEMON_RESPONSE"
  "config (init_answer cf) = cf"
  by (simp_all add: init_answer_def nsb_simps)

lemma rmq_daemon_answers:
  assumes "amqp_laws br qs" "prompt br qs" "qs m request_queue = Some (SerializeAsString env req # l)"
    and "transmits env req" "daemon_replies cf req = [(q, resp)]" "qs m q = Some k" "q \<noteq> request_queue"
  shows "qs (rmq_daemon_step env br cf m) =
     (qs m)(request_queue := Some l, q := Some (k @ [SerializeAsString env resp]))"
proof -
  obtain m1 where c: "consume br request_queue m = (Some (SerializeAsString env req), m1)"
    "qs m1 = (qs m)(request_queue := Some l)"
    by (rule amqp_consume_Some [where qs = qs and m = m and q = "request_queue"
        and x = "SerializeAsString env req" and l = l, OF assms(1-3)])
  then show ?thesis
    using assms amqp_publish [OF assms(1)]
    by (auto simp: rmq_daemon_step_def rmq_handle_message_def SerializeAsString_parse)
qed

text \<open>The INIT exchange over RabbitMQ: a client that asks while the daemon serves its request
  queue gets the daemon's configuration on its own control queue, and afterwards every queue
  of the broker is as it was.\<close>

theorem rmq_initialize_configures:
  assumes "amqp_laws br qs" "rmq_ready c r" "qs m request_queue = Some []" "qs m (q_ctrl r) = Some []"
    and "transmits env (rmq_init_request c)" "transmits env (init_answer cf)" and prompt: "prompt br qs"
    and "timeout = 0 \<or> (\<exists>rs. readings = False # rs)"
  shows "\<exists>m'. rmq_initialize env br timeout readings (rmq_daemon_step env br cf) c m =
       Inr (c\<lparr>kc_cfg := rmq_config (init_answer cf)\<rparr>, m') \<and> qs m' = qs m"
proof -
  let ?req = "SerializeAsString env (rmq_init_request c)"
  let ?ans = "SerializeAsString env (init_answer cf)"
  have r: "kc_if c = Some r" "rq_open r" "kc_id c \<noteq> []" "q_ctrl r = ctrl_queue (kc_id c)"
    using assms(2) by (simp_all add: rmq_ready_def)
  have ne: "q_ctrl r \<noteq> request_queue" unfolding r(4) by simp
  let ?m1 = "publish br request_queue ?req m"
  have s: "rmq_send br CTRL ?req [] r m = Inr ?m1" using r by (simp add: rmq_send_def routing_key_def)
  have q1: "qs ?m1 = (qs m)(request_queue := Some [?req])"
    using amqp_publish [OF assms(1)] assms(3) by simp
  have rep: "daemon_replies cf (rmq_init_request c) = [(q_ctrl r, init_answer cf)]"
    using r by (simp add: daemon_replies_def nsb_simps reply_init_def Let_def init_answer_def)
  let ?m2 = "rmq_daemon_step env br cf ?m1"
  have q2: "qs ?m2 = (qs m)(q_ctrl r := Some [?ans])"
    using rmq_daemon_answers [OF assms(1) prompt _ assms(5) rep _ ne, of ?m1 "[]" "[]"] q1 assms(3,4) ne
    by (auto simp: fun_eq_iff)
  obtain m3 where m3: "rmq_recv br CTRL timeout readings r ?m2 = Inr (Some ?ans, m3)"
    "qs m3 = (qs ?m2)(q_ctrl r := Some [])"
    using rmq_recv_single [OF assms(1) prompt _ r(2) assms(8), of ?m2 CTRL ?ans] q2 by auto
  have "qs m3 = qs m" using m3(2) q2 assms(4) by (auto simp: fun_eq_iff)
  with s m3(1) r(1) SerializeAsString_parse [OF assms(6)] show ?thesis
    by (simp add: rmq_initialize_def with_comms_def nsb_simps)
qed

definition wit_rmq :: "string \<Rightarrow> rmq" where
  "wit_rmq i = \<lparr>rq_id = i, rq_open = True, q_ctrl = ctrl_queue i, q_send = send_queue i,
     q_recv = recv_queue i\<rparr>"

definition wit_rmq_client :: "originator \<Rightarrow> string \<Rightarrow> rmq_client" where
  "wit_rmq_client og i = \<lparr>kc_id = i, kc_host = ''localhost'', kc_og = og, kc_cfg = default_cfg, kc_if = Some (wit_rmq i)\<rparr>"

lemma wit_rmq_ready [simp]: "i \<noteq> [] \<Longrightarrow> rmq_ready (wit_rmq_client og i) (wit_rmq i)"
  by (simp add: rmq_ready_def wit_rmq_client_def wit_rmq_def)

definition wit_queues :: "string \<Rightarrow> nsbm list list option" where
  "wit_queues = (\<lambda>_. Some [])"

theorem rmq_initialize_configures_witness:
  "\<exists>c' m'. rmq_initialize fragment_env map_broker 10 [False] (rmq_daemon_step fragment_env map_broker (rmq_set_config 1 1 False [] 0 0))
       (wit_rmq_client APP_CLIENT ''a'') wit_queues = Inr (c', m') \<and> SYSTEM_MODE (kc_cfg c') = PUSH \<and> m' = wit_queues"
  using rmq_initialize_configures [OF map_broker_laws wit_rmq_ready _ _ _ _ map_broker_prompt, of "''a''" wit_queues fragment_env APP_CLIENT
      "rmq_set_config 1 1 False [] 0 0" 10 "[False]"]
  by (auto simp: wit_queues_def rmq_config_def Let_def nsb_simps rmq_set_config_def system_mode_of_int_def)

text \<open>\<open>ping\<close> over RabbitMQ is never answered: the request carries neither an introduction nor
  metadata, so \<open>reply_ping\<close> finds no identifier to route to; once the daemon has handled it,
  no queue of the broker has changed.\<close>

theorem rmq_ping_unanswered:
  assumes "amqp_laws br qs" "rmq_ready c r" "qs m request_queue = Some []"
    and "transmits env (with_code CLIENT_REQUEST (buildBaseMsg PING (kc_og c)))" and prompt: "prompt br qs"
  shows "\<exists>m1. rmq_ping env br c m = Inr m1 \<and> qs (rmq_daemon_step env br cf m1) = qs m"
proof -
  let ?p = "with_code CLIENT_REQUEST (buildBaseMsg PING (kc_og c))"
  let ?m1 = "publish br request_queue (SerializeAsString env ?p) m"
  have 1: "rmq_ping env br c m = Inr ?m1"
    using assms(2) by (simp add: rmq_ping_def with_comms_def rmq_ready_def rmq_send_def routing_key_def)
  have q1: "qs ?m1 request_queue = Some [SerializeAsString env ?p]" "qs ?m1 = (qs m)(request_queue := Some [SerializeAsString env ?p])"
    using amqp_publish [OF assms(1)] assms(3) by simp_all
  obtain m2 where m2: "consume br request_queue ?m1 = (Some (SerializeAsString env ?p), m2)"
    "qs m2 = (qs ?m1)(request_queue := Some [])"
    by (rule amqp_consume_Some [where qs = qs and m = ?m1 and q = "request_queue"
        and x = "SerializeAsString env ?p" and l = "[]", OF assms(1) prompt q1(1)])
  have "daemon_replies cf ?p = []"
    by (simp add: daemon_replies_def with_code_def buildBaseMsg_def nsb_simps reply_ping_def empty_manifest_def)
  then have "rmq_daemon_step env br cf ?m1 = m2"
    using m2(1) SerializeAsString_parse [OF assms(4)] by (simp add: rmq_daemon_step_def rmq_handle_message_def)
  with 1 m2(2) q1(2) assms(3) show ?thesis by (auto simp: fun_eq_iff)
qed

theorem rmq_ping_unanswered_witness:
  "\<exists>m1. rmq_ping fragment_env map_broker (wit_rmq_client APP_CLIENT ''a'') wit_queues = Inr m1 \<and>
     rmq_daemon_step fragment_env map_broker rmq_default_config m1 = wit_queues"
  using rmq_ping_unanswered [OF map_broker_laws wit_rmq_ready _ _ map_broker_prompt, of "''a''" wit_queues fragment_env APP_CLIENT]
  by (simp add: wit_queues_def)

section \<open>Delivery over RabbitMQ\<close>

fun rmq_send_all :: "'b io_env \<Rightarrow> ('b, 'm) amqp \<Rightarrow> string \<Rightarrow> rmq_client \<Rightarrow> string list \<Rightarrow> 'm \<Rightarrow> rt_error + 'm" where
  "rmq_send_all env br dest c [] m = Inr m"
| "rmq_send_all env br dest c (pl # pls) m = bind_res (rmq_app_send env br dest pl c m)
     (\<lambda>m1. rmq_send_all env br dest c pls m1)"

text \<open>A listener's callback that keeps what it is given.\<close>

definition keep_entry :: "rmq_entry \<Rightarrow> 'm \<times> rmq_entry list \<Rightarrow> 'm \<times> rmq_entry list" where
  "keep_entry e mu = (fst mu, snd mu @ [e])"

definition rmq_wire :: "'b io_env \<Rightarrow> string \<Rightarrow> string \<Rightarrow> string \<Rightarrow> 'b list" where
  "rmq_wire env src dest pl = SerializeAsString env (data_message SEND APP_CLIENT src dest pl (set_payload pl))"

lemma rmq_app_send_queues:
  assumes "amqp_laws br qs" "rmq_ready c r" "dest \<noteq> []"
  shows "\<exists>m1. rmq_app_send env br dest pl c m = Inr m1 \<and> qs m1 = (case qs m (recv_queue dest) of
       None \<Rightarrow> qs m | Some l \<Rightarrow> (qs m)(recv_queue dest := Some (l @ [rmq_wire env (kc_id c) dest pl])))"
  using assms amqp_publish [OF assms(1)]
  by (simp add: rmq_app_send_def with_comms_def rmq_ready_def rmq_send_def routing_key_def rmq_wire_def
      split: option.split)

lemma rmq_send_all_queues:
  assumes laws: "amqp_laws br qs" and rdy: "rmq_ready c r" and d: "dest \<noteq> []"
  shows "qs m (recv_queue dest) = Some l \<Longrightarrow> \<exists>m1. rmq_send_all env br dest c pls m = Inr m1 \<and>
     qs m1 = (qs m)(recv_queue dest := Some (l @ map (rmq_wire env (kc_id c) dest) pls))"
proof (induction pls arbitrary: m l)
  case Nil
  then show ?case by (auto simp: fun_eq_iff)
next
  case (Cons pl pls)
  obtain m1 where m1: "rmq_app_send env br dest pl c m = Inr m1"
    "qs m1 = (qs m)(recv_queue dest := Some (l @ [rmq_wire env (kc_id c) dest pl]))"
    using rmq_app_send_queues [OF laws rdy d, of env pl m] Cons.prems by auto
  then have "qs m1 (recv_queue dest) = Some (l @ [rmq_wire env (kc_id c) dest pl])" by simp
  from Cons.IH [OF this] m1 show ?case by (auto simp: fun_eq_iff)
qed

lemma unpack_wire:
  "transmits env (data_message SEND APP_CLIENT src dest pl (set_payload pl)) \<Longrightarrow>
     unpack_body env (rmq_wire env src dest pl) out = (True, \<lparr>re_src = src, re_dest = dest, re_payload = pl\<rparr>)"
  using SerializeAsString_parse [of env "data_message SEND APP_CLIENT src dest pl (set_payload pl)"]
  by (simp add: unpack_body_def rmq_wire_def data_message_def nsb_simps request_def)

lemma listen_polls_queue:
  assumes laws: "amqp_laws br qs" "prompt br qs"
  shows "\<forall>pl\<in>set pls. transmits env (data_message SEND APP_CLIENT src dest pl (set_payload pl)) \<Longrightarrow>
     qs m q = Some (map (rmq_wire env src dest) pls) \<Longrightarrow> length pls \<le> n \<Longrightarrow>
     \<exists>m1. listen_polls br q (listen_callback env keep_entry) (replicate n True) (m, u) =
         (m1, u @ map (\<lambda>pl. \<lparr>re_src = src, re_dest = dest, re_payload = pl\<rparr>) pls) \<and>
       qs m1 = (qs m)(q := Some [])"
proof (induction n arbitrary: pls m u)
  case 0
  then show ?case by (auto simp: fun_eq_iff)
next
  case (Suc n)
  show ?case
  proof (cases pls)
    case Nil
    obtain m1 where m1: "consume br q m = (None, m1)" "qs m1 = qs m"
      using amqp_consume_empty [OF laws(1), of m q] Suc.prems(2) Nil by auto
    with Suc.IH [of "[]" m1 u] Suc.prems(2) Nil show ?thesis by simp
  next
    case (Cons pl ps)
    obtain m1 where m1: "consume br q m = (Some (rmq_wire env src dest pl), m1)"
      "qs m1 = (qs m)(q := Some (map (rmq_wire env src dest) ps))"
      using amqp_consume_Some [where m = m and q = q and x = "rmq_wire env src dest pl"
          and l = "map (rmq_wire env src dest) ps", OF laws] Suc.prems(2) Cons by auto
    have "listen_callback env keep_entry (rmq_wire env src dest pl) (m1, u) =
        (m1, u @ [\<lparr>re_src = src, re_dest = dest, re_payload = pl\<rparr>])"
      using unpack_wire [of env src dest pl] Suc.prems(1) Cons by (simp add: listen_callback_def keep_entry_def)
    moreover have p: "\<forall>pl\<in>set ps. transmits env (data_message SEND APP_CLIENT src dest pl (set_payload pl))"
      "qs m1 q = Some (map (rmq_wire env src dest) ps)" "length ps \<le> n"
      using Suc.prems m1(2) Cons by simp_all
    moreover obtain m2 where "listen_polls br q (listen_callback env keep_entry) (replicate n True)
        (m1, u @ [\<lparr>re_src = src, re_dest = dest, re_payload = pl\<rparr>]) =
        (m2, (u @ [\<lparr>re_src = src, re_dest = dest, re_payload = pl\<rparr>]) @ map (\<lambda>pl. \<lparr>re_src = src, re_dest = dest, re_payload = pl\<rparr>) ps)"
      "qs m2 = (qs m1)(q := Some [])"
      using Suc.IH [OF p, of "u @ [\<lparr>re_src = src, re_dest = dest, re_payload = pl\<rparr>]"] by blast
    ultimately show ?thesis using m1 Cons by (intro exI [of _ m2]) (simp add: fun_eq_iff)
  qed
qed

lemma rmq_listen_queue:
  assumes "amqp_laws br qs" "prompt br qs" "rmq_ready c r"
    and "\<forall>pl\<in>set pls. transmits env (data_message SEND APP_CLIENT src dest pl (set_payload pl))"
    and "qs m (recv_queue (kc_id c)) = Some (map (rmq_wire env src dest) pls)" "length pls \<le> n"
  shows "\<exists>m1. rmq_listen env br keep_entry (replicate n True) c (m, []) =
       Inr (m1, map (\<lambda>pl. \<lparr>re_src = src, re_dest = dest, re_payload = pl\<rparr>) pls) \<and>
     qs m1 = (qs m)(recv_queue (kc_id c) := Some [])"
proof -
  let ?q = "recv_queue (kc_id c)"
  have s: "qs (subscribe br ?q m) = qs m" by (rule amqp_subscribe [OF assms(1)])
  obtain m1 where m1: "listen_polls br ?q (listen_callback env keep_entry) (replicate n True) (subscribe br ?q m, []) =
      (m1, map (\<lambda>pl. \<lparr>re_src = src, re_dest = dest, re_payload = pl\<rparr>) pls)" "qs m1 = (qs m)(?q := Some [])"
    using listen_polls_queue [OF assms(1,2,4) _ assms(6), of "subscribe br ?q m" ?q "[]"] s assms(5) by auto
  have "qs (cancel br ?q m1) = qs m1" using m1(2) by (intro amqp_cancel_empty [OF assms(1)]) simp
  with m1 assms(3) show ?thesis
    by (simp add: rmq_listen_def with_comms_def rmq_ready_def listen_loop_def)
qed

text \<open>C29: Over RabbitMQ the payloads an application sends to a destination reach the listener there in
  order, each once and unchanged, and then every queue is as it was.  While they are under way
  only the destination's RECV queue holds them: neither the daemon's request queue nor the
  queue of any simulator (or other client) is touched, so the simulated network is bypassed.\<close>

theorem rmq_delivery_fifo:
  assumes "amqp_laws br qs" "prompt br qs" "rmq_ready ca ra" "rmq_ready cb rb" "kc_id cb = dest"
    and "qs m (recv_queue dest) = Some []" "length pls \<le> n"
    and "\<forall>pl\<in>set pls. transmits env (data_message SEND APP_CLIENT (kc_id ca) dest pl (set_payload pl))"
  shows "\<exists>m1 m2. rmq_send_all env br dest ca pls m = Inr m1 \<and>
     (\<forall>q. q \<noteq> recv_queue dest \<longrightarrow> qs m1 q = qs m q) \<and>
     rmq_listen env br keep_entry (replicate n True) cb (m1, []) =
       Inr (m2, map (\<lambda>pl. \<lparr>re_src = kc_id ca, re_dest = dest, re_payload = pl\<rparr>) pls) \<and> qs m2 = qs m"
proof -
  have d: "dest \<noteq> []" using assms(4,5) by (auto simp: rmq_ready_def)
  obtain m1 where m1: "rmq_send_all env br dest ca pls m = Inr m1"
    "qs m1 = (qs m)(recv_queue dest := Some (map (rmq_wire env (kc_id ca) dest) pls))"
    using rmq_send_all_queues [OF assms(1,3) d assms(6), of env pls] by auto
  then obtain m2 where "rmq_listen env br keep_entry (replicate n True) cb (m1, []) =
      Inr (m2, map (\<lambda>pl. \<lparr>re_src = kc_id ca, re_dest = dest, re_payload = pl\<rparr>) pls)"
    "qs m2 = (qs m1)(recv_queue dest := Some [])"
    using rmq_listen_queue [OF assms(1,2,4), of pls env "kc_id ca" dest m1 n] assms(5,7,8) by auto
  with m1 assms(6) show ?thesis by (auto simp: fun_eq_iff)
qed

theorem rmq_delivery_fifo_witness:
  "\<exists>m1 m2. rmq_send_all fragment_env map_broker ''b'' (wit_rmq_client APP_CLIENT ''a'') [''one'', ''two''] wit_queues = Inr m1 \<and>
     m1 (recv_queue ''sim'') = Some [] \<and>
     rmq_listen fragment_env map_broker keep_entry [True, True, True] (wit_rmq_client APP_CLIENT ''b'') (m1, []) =
       Inr (m2, [\<lparr>re_src = ''a'', re_dest = ''b'', re_payload = ''one''\<rparr>, \<lparr>re_src = ''a'', re_dest = ''b'', re_payload = ''two''\<rparr>])"
proof -
  have i: "kc_id (wit_rmq_client og i) = i" for og i by (simp add: wit_rmq_client_def)
  have q: "wit_queues q = Some []" for q by (simp add: wit_queues_def)
  obtain m1 m2 where "rmq_send_all fragment_env map_broker ''b'' (wit_rmq_client APP_CLIENT ''a'') [''one'', ''two''] wit_queues = Inr m1"
    "\<forall>q. q \<noteq> recv_queue ''b'' \<longrightarrow> m1 q = wit_queues q"
    "rmq_listen fragment_env map_broker keep_entry (replicate 3 True) (wit_rmq_client APP_CLIENT ''b'') (m1, []) =
       Inr (m2, [\<lparr>re_src = ''a'', re_dest = ''b'', re_payload = ''one''\<rparr>, \<lparr>re_src = ''a'', re_dest = ''b'', re_payload = ''two''\<rparr>])"
    using rmq_delivery_fifo [OF map_broker_laws map_broker_prompt wit_rmq_ready wit_rmq_ready i, of "''a''" "''b''" wit_queues
        "[''one'', ''two'']" 3 fragment_env APP_CLIENT APP_CLIENT] q
    by (auto simp: i)
  then show ?thesis using q by (auto simp: numeral_3_eq_3)
qed

text \<open>\<open>recv\<close> of a client with waiting messages returns the oldest, and what the queue holds
  afterwards is some tail of the others: because the consumer it opens for one message takes them
  without acknowledgement and is then cancelled, younger messages can be lost (in the witness the
  second of two), but they are never reordered or repeated, and other queues keep theirs.\<close>

theorem rmq_recv_takes_head:
  assumes "amqp_laws br qs" "prompt br qs" "rmq_ready c r" "qs m (queue_name ch r) = Some (b # l)"
    and "timeout = 0 \<or> (\<exists>rs. readings = False # rs)"
  shows "\<exists>m1 k. rmq_recv br ch timeout readings r m = Inr (Some b, m1) \<and>
     qs m1 = (qs m)(queue_name ch r := Some (drop k l))"
proof -
  let ?q = "queue_name ch r"
  have s: "qs (subscribe br ?q m) = qs m" by (rule amqp_subscribe [OF assms(1)])
  obtain m1 where c: "consume br ?q (subscribe br ?q m) = (Some b, m1)" "qs m1 = (qs m)(?q := Some l)"
    using amqp_consume_Some [where m = "subscribe br ?q m" and q = ?q and x = b and l = l, OF assms(1,2)] s assms(4) by metis
  have "rmq_recv_loop br ?q timeout readings (subscribe br ?q m) = Inr (Some b, cancel br ?q m1)"
    using assms(5) c(1) by (subst rmq_recv_loop.simps) (elim disjE exE; simp)
  moreover obtain k where "qs (cancel br ?q m1) = (qs m1)(?q := Some (drop k l))"
    using amqp_cancel_Some [OF assms(1), of m1 ?q l] c(2) by auto
  ultimately show ?thesis using assms(3) c(2) by (auto simp: rmq_recv_def rmq_ready_def)
qed

theorem rmq_recv_takes_head_witness:
  "\<exists>m1. rmq_recv eager_broker RECV_CH 0 [] (wit_rmq ''b'') (wit_queues(recv_queue ''b'' \<mapsto> [[empty_nsbm], []])) =
     Inr (Some [empty_nsbm], m1) \<and> m1 (recv_queue ''b'') = Some []"
proof -
  have q: "queue_name RECV_CH (wit_rmq ''b'') = recv_queue ''b''" by (simp add: wit_rmq_def)
  show ?thesis
    using rmq_recv_takes_head [OF eager_broker_laws eager_broker_prompt wit_rmq_ready, of "''b''"
        "wit_queues(recv_queue ''b'' \<mapsto> [[empty_nsbm], []])" RECV_CH "[empty_nsbm]" "[[]]" 0 "[]"] q
    by (auto simp: rmq_recv_def rmq_recv_loop.simps eager_broker_def map_broker_def wit_rmq_def)
qed

end
