(* ===== verification/NSB_Threads.thy ===== *)
theory NSB_Threads
  imports NSB_Prelude
begin

text \<open>
  Objects that run a \<open>std::thread\<close> while a flag is set: the listener of \<open>RabbitMQInterface\<close>, the worker
  of \<open>NSBDaemonRMQ\<close>, the listener of the ns-3 program.  \<open>std::terminate\<close> is called when a thread
  object that is joinable is assigned to or destroyed, and when an exception leaves a thread.  The contract
  (locale \<open>worker_object\<close>) is that the operations, and what the thread does between them, keep flag and thread object in step as
  long as they are \<open>safe\<close>.
\<close>

section \<open>Thread objects\<close>

text \<open>How an operation ends the program or its caller: \<open>std::terminate\<close> (or the use of a null pointer), or an exception that
  leaves it.\<close>

datatype halted = Terminated | Uncaught string

record worker =
  wk_flag :: bool
  wk_joinable :: bool

definition idle_worker :: worker where
  "idle_worker = \<lparr>wk_flag = False, wk_joinable = False\<rparr>"

text \<open>\<open>t = std::thread(...)\<close>; \<open>if (t.joinable()) t.join()\<close>, called by the thread itself or by another (the
  loops modelled with the components end at the first reading of a cleared flag); \<open>~thread()\<close>.\<close>

definition spawn :: "worker \<Rightarrow> halted option \<times> worker" where
  "spawn t = (if wk_joinable t then (Some Terminated, t) else (None, t\<lparr>wk_joinable := True\<rparr>))"

definition join_worker :: "bool \<Rightarrow> worker \<Rightarrow> halted option \<times> worker" where
  "join_worker self t = (if \<not> wk_joinable t then (None, t)
     else if self then (Some (Uncaught ''Resource deadlock avoided''), t)
     else (None, t\<lparr>wk_joinable := False\<rparr>))"

definition drop_worker :: "worker \<Rightarrow> halted option" where
  "drop_worker t = (if wk_joinable t then Some Terminated else None)"

section \<open>The contract\<close>

datatype 'x life_cmd = Act 'x | Halt

definition life_step :: "('x \<Rightarrow> 's \<Rightarrow> halted option \<times> 's) \<Rightarrow> ('s \<Rightarrow> halted option \<times> 's) \<Rightarrow> 'x life_cmd \<Rightarrow> 's \<Rightarrow> halted option \<times> 's" where
  "life_step act halt c s = (case c of Act x \<Rightarrow> act x s | Halt \<Rightarrow> halt s)"

text \<open>A run, which ends when the program does; and whether every step of it is safe.\<close>

fun life_run :: "('x \<Rightarrow> 's \<Rightarrow> halted option \<times> 's) \<Rightarrow> ('s \<Rightarrow> halted option \<times> 's) \<Rightarrow> 'x life_cmd list \<Rightarrow> 's \<Rightarrow>
    halted option list \<times> 's" where
  "life_run act halt [] s = ([], s)"
| "life_run act halt (c # cs) s = (let (e, s1) = life_step act halt c s in
       if e = Some Terminated then ([e], s1)
       else let (es, s2) = life_run act halt cs s1 in (e # es, s2))"

fun life_safe :: "('x \<Rightarrow> 's \<Rightarrow> halted option \<times> 's) \<Rightarrow> ('s \<Rightarrow> halted option \<times> 's) \<Rightarrow> ('s \<Rightarrow> 'x life_cmd \<Rightarrow> bool) \<Rightarrow>
    'x life_cmd list \<Rightarrow> 's \<Rightarrow> bool" where
  "life_safe act halt safe [] s = True"
| "life_safe act halt safe (c # cs) s = (safe s c \<and> life_safe act halt safe cs (snd (life_step act halt c s)))"

definition in_step :: "worker \<Rightarrow> bool" where
  "in_step t \<longleftrightarrow> wk_flag t = wk_joinable t"

lemma in_step_idle [simp]: "in_step idle_worker"
  by (simp add: in_step_def idle_worker_def)

lemma drop_in_step: "in_step t \<Longrightarrow> drop_worker t = (if wk_flag t then Some Terminated else None)"
  by (simp add: in_step_def drop_worker_def)

locale worker_object =
  fixes thread :: "'s \<Rightarrow> worker" and act :: "'x \<Rightarrow> 's \<Rightarrow> halted option \<times> 's" and halt :: "'s \<Rightarrow> halted option \<times> 's"
    and safe :: "'s \<Rightarrow> 'x life_cmd \<Rightarrow> bool"
  assumes act_in_step: "in_step (thread s) \<Longrightarrow> safe s (Act x) \<Longrightarrow> act x s = (e, s') \<Longrightarrow> e \<noteq> Some Terminated \<and> in_step (thread s')"
    and halt_in_step: "in_step (thread s) \<Longrightarrow> safe s Halt \<Longrightarrow> halt s = (e, s') \<Longrightarrow> e = None \<and> in_step (thread s') \<and> \<not> wk_flag (thread s')"
    and unsafe_ends: "in_step (thread s) \<Longrightarrow> \<not> safe s c \<Longrightarrow> fst (life_step act halt c s) = Some Terminated"
begin

lemma step_in_step:
  assumes "in_step (thread s)" "safe s c" "life_step act halt c s = (e, s')"
  shows "e \<noteq> Some Terminated \<and> in_step (thread s')"
  using assms act_in_step [OF assms(1)] halt_in_step [OF assms(1)] by (cases c) (auto simp: life_step_def)

lemma run_in_step:
  "in_step (thread s) \<Longrightarrow> life_run act halt cs s = (es, s') \<Longrightarrow> life_safe act halt safe cs s \<Longrightarrow>
     in_step (thread s') \<and> Some Terminated \<notin> set es"
proof (induction cs arbitrary: s es)
  case (Cons c cs)
  obtain e s1 where 1: "life_step act halt c s = (e, s1)" by fastforce
  have 2: "e \<noteq> Some Terminated" "in_step (thread s1)" using step_in_step [OF Cons.prems(1) _ 1] Cons.prems(3) by simp_all
  obtain es1 where 3: "life_run act halt cs s1 = (es1, s')" "es = e # es1"
    using Cons.prems(2) 1 2(1) by (auto split: prod.splits)
  from Cons.IH [OF 2(2) 3(1)] Cons.prems(3) 1 2(1) 3(2) show ?case by auto
qed simp

text \<open>A run that is not safe ends the program.\<close>

lemma run_unsafe:
  "in_step (thread s) \<Longrightarrow> life_run act halt cs s = (es, s') \<Longrightarrow> \<not> life_safe act halt safe cs s \<Longrightarrow> es \<noteq> [] \<and> last es = Some Terminated"
proof (induction cs arbitrary: s es)
  case (Cons c cs)
  obtain e s1 where 1: "life_step act halt c s = (e, s1)" by fastforce
  show ?case
  proof (cases "safe s c")
    case True
    note 2 = step_in_step [OF Cons.prems(1) True 1]
    obtain es1 where 3: "life_run act halt cs s1 = (es1, s')" "es = e # es1"
      using Cons.prems(2) 1 2 by (auto split: prod.splits)
    from Cons.IH [OF conjunct2 [OF 2] 3(1)] Cons.prems(3) True 1 3(2) show ?thesis by simp
  next
    case False
    with unsafe_ends [OF Cons.prems(1), of c] 1 Cons.prems(2) show ?thesis by (auto split: prod.splits)
  qed
qed simp

text \<open>Destroying the object terminates the program exactly when the flag is set; never after a \<open>halt\<close>.\<close>

lemma run_drop:
  "in_step (thread s) \<Longrightarrow> life_run act halt cs s = (es, s') \<Longrightarrow> life_safe act halt safe cs s \<Longrightarrow>
     drop_worker (thread s') = (if wk_flag (thread s') then Some Terminated else None)"
  using run_in_step drop_in_step by blast

lemma run_halt_drop:
  assumes "in_step (thread s)" "life_run act halt cs s = (es, s')" "life_safe act halt safe cs s" "halt s' = (e, s2)" "safe s' Halt"
  shows "e = None \<and> drop_worker (thread s2) = None"
  using run_in_step [OF assms(1-3)] halt_in_step [OF _ assms(5,4)] drop_in_step by simp

end

end
