(* ===== verification/NSB_RMQ_Lifecycle.thy ===== *)
theory NSB_RMQ_Lifecycle
  imports NSB_RMQ NSB_Threads
begin

text \<open>
  The life of the RabbitMQ objects: \<open>async_listen\<close>, \<open>stop_listen\<close>, \<open>close\<close> and the destructors of
  \<open>RabbitMQInterface\<close> and \<open>NSBClientRMQ\<close>, \<open>start\<close>, \<open>stop\<close> and the destructor of \<open>NSBDaemonRMQ\<close>.  Both keep the
  contract of \<open>worker_object\<close>.  What the threads do while they run is in \<open>NSB_RMQ\<close> (\<open>listen_loop\<close>,
  \<open>rmq_run_loop\<close>).
\<close>

section \<open>The listener of RabbitMQInterface\<close>

record rmq_obj =
  ro_if :: rmq
  ro_thread :: worker

definition new_rmq_obj :: "string \<Rightarrow> rmq_obj" where
  "new_rmq_obj ident = \<lparr>ro_if = new_rmq ident, ro_thread = idle_worker\<rparr>"

definition async_listen :: "rmq_obj \<Rightarrow> halted option \<times> rmq_obj" where
  "async_listen r = (if wk_flag (ro_thread r) then (Some (Uncaught ''Already listening''), r)
     else if \<not> rq_open (ro_if r) then (Some (Uncaught ''RabbitMQ not connected''), r)
     else (case spawn ((ro_thread r)\<lparr>wk_flag := True\<rparr>) of (e, t) \<Rightarrow> (e, r\<lparr>ro_thread := t\<rparr>)))"

text \<open>\<open>self\<close>: the caller is the listening thread, that is, a callback.  Otherwise the thread is waited for: after its last poll it
  cancels its consumer through \<open>chan_\<close>, which \<open>close\<close> may have reset (what the broker throws there is caught).\<close>

definition stop_listen :: "bool \<Rightarrow> rmq_obj \<Rightarrow> halted option \<times> rmq_obj" where
  "stop_listen self r = (if \<not> wk_flag (ro_thread r) then (None, r)
     else if \<not> self \<and> wk_joinable (ro_thread r) \<and> \<not> rq_open (ro_if r) then (Some Terminated, r)
     else (case join_worker self ((ro_thread r)\<lparr>wk_flag := False\<rparr>) of (e, t) \<Rightarrow> (e, r\<lparr>ro_thread := t\<rparr>)))"

definition is_listening :: "rmq_obj \<Rightarrow> bool" where
  "is_listening r = wk_flag (ro_thread r)"

definition close_rmq :: "rmq_obj \<Rightarrow> rmq_obj" where
  "close_rmq r = r\<lparr>ro_if := rmq_close (ro_if r)\<rparr>"

text \<open>The destructor closes the channel; then the members are destroyed, the thread among them.\<close>

definition destroy_rmq :: "rmq_obj \<Rightarrow> halted option" where
  "destroy_rmq r = drop_worker (ro_thread (close_rmq r))"

text \<open>What the listening thread does between the calls of the others: a call of \<open>BasicConsume\<close> (when it starts) or of
  \<open>BasicConsumeMessage\<close>, through \<open>chan_\<close> and outside every \<open>try\<close>; \<open>ok\<close>: the broker does not throw.\<close>

definition listener_poll :: "bool \<Rightarrow> rmq_obj \<Rightarrow> halted option \<times> rmq_obj" where
  "listener_poll ok r = (if \<not> wk_flag (ro_thread r) then (None, r)
     else if \<not> rq_open (ro_if r) \<or> \<not> ok then (Some Terminated, r)
     else (None, r))"

datatype rmq_act = AsyncListen | CloseInterface | ListenerPoll bool

definition rmq_act :: "rmq_act \<Rightarrow> rmq_obj \<Rightarrow> halted option \<times> rmq_obj" where
  "rmq_act a r = (case a of AsyncListen \<Rightarrow> async_listen r | CloseInterface \<Rightarrow> (None, close_rmq r) | ListenerPoll ok \<Rightarrow> listener_poll ok r)"

text \<open>What may not happen while the interface listens: a poll or a stop after \<open>close\<close>, and a poll in which the broker throws.\<close>

definition rmq_safe :: "rmq_obj \<Rightarrow> rmq_act life_cmd \<Rightarrow> bool" where
  "rmq_safe r c \<longleftrightarrow> is_listening r \<longrightarrow> (case c of Act (ListenerPoll ok) \<Rightarrow> ok \<and> rq_open (ro_if r) | Halt \<Rightarrow> rq_open (ro_if r) | _ \<Rightarrow> True)"

lemmas thread_defs = spawn_def join_worker_def in_step_def

interpretation listener: worker_object ro_thread rmq_act "stop_listen False" rmq_safe
proof
  fix r x e r'
  assume "in_step (ro_thread r)" "rmq_safe r (Act x)" "rmq_act x r = (e, r')"
  then show "e \<noteq> Some Terminated \<and> in_step (ro_thread r')"
    by (cases x) (auto simp: rmq_act_def rmq_safe_def is_listening_def listener_poll_def async_listen_def close_rmq_def thread_defs
        split: if_splits)
next
  fix r e r'
  assume "in_step (ro_thread r)" "rmq_safe r Halt" "stop_listen False r = (e, r')"
  then show "e = None \<and> in_step (ro_thread r') \<and> \<not> wk_flag (ro_thread r')"
    by (auto simp: rmq_safe_def is_listening_def stop_listen_def thread_defs split: if_splits)
next
  fix r c
  assume "in_step (ro_thread r)" "\<not> rmq_safe r c"
  then show "fst (life_step rmq_act (stop_listen False) c r) = Some Terminated"
    by (auto simp: rmq_safe_def is_listening_def life_step_def rmq_act_def listener_poll_def stop_listen_def thread_defs
        split: life_cmd.splits rmq_act.splits)
qed

text \<open>The operations of the two client classes only hand on.\<close>

definition app_stop_listen :: "bool \<Rightarrow> rmq_obj \<Rightarrow> halted option \<times> rmq_obj" where
  "app_stop_listen self r = stop_listen self r"

definition app_is_listening :: "rmq_obj \<Rightarrow> bool" where
  "app_is_listening r = is_listening r"

definition sim_stop_listen :: "bool \<Rightarrow> rmq_obj \<Rightarrow> halted option \<times> rmq_obj" where
  "sim_stop_listen self r = stop_listen self r"

definition sim_is_listening :: "rmq_obj \<Rightarrow> bool" where
  "sim_is_listening r = is_listening r"

text \<open>\<open>~NSBClientRMQ\<close>: \<open>exit\<close>, whatever it throws, then the interface is destroyed with its thread.\<close>

definition destroy_rmq_client :: "'b io_env \<Rightarrow> ('b, 'm) amqp \<Rightarrow> rmq_client \<Rightarrow> worker \<Rightarrow> 'm \<Rightarrow> halted option \<times> 'm" where
  "destroy_rmq_client env br c t m = (let m1 = (case rmq_exit env br c m of Inl _ \<Rightarrow> m | Inr (_, m1) \<Rightarrow> m1) in
     (case kc_if c of None \<Rightarrow> (None, m1) | Some r \<Rightarrow> (destroy_rmq \<lparr>ro_if = rmq_close r, ro_thread = t\<rparr>, m1)))"

text \<open>The constructor: an interface that connects within ten seconds, or its exception.\<close>

definition new_rmq_client :: "('b, 'm) amqp \<Rightarrow> connect_attempt list \<Rightarrow> string \<Rightarrow> string \<Rightarrow> originator \<Rightarrow> 'm \<Rightarrow>
    rt_error + rmq_client \<times> 'm" where
  "new_rmq_client br as ident host og m = bind_res (rmq_connect br 10 as (new_rmq ident) m)
     (\<lambda>(r, m1). Inr (\<lparr>kc_id = ident, kc_host = host, kc_og = og, kc_cfg = default_cfg, kc_if = Some r\<rparr>, m1))"

section \<open>NSBDaemonRMQ\<close>

text \<open>\<open>DeleteQueue\<close> and \<open>DeleteExchange\<close>, what they leave when they throw included (both exceptions are
  caught).\<close>

record 'm amqp_admin =
  delete_q :: "string \<Rightarrow> 'm \<Rightarrow> 'm"
  delete_x :: "'m \<Rightarrow> 'm"

definition admin_laws :: "'m amqp_admin \<Rightarrow> ('m \<Rightarrow> string \<Rightarrow> 'b list list option) \<Rightarrow> bool" where
  "admin_laws ad qs \<longleftrightarrow> (\<forall>m q. qs (delete_q ad q m) = (qs m)(q := None) \<and>
     (qs m q = None \<longrightarrow> qs (delete_x ad m) q = None))"

record 'm rmq_daemon =
  rd_cfg :: config_params
  rd_open :: bool
  rd_thread :: worker
  rd_broker :: 'm

definition new_rmq_daemon :: "'m \<Rightarrow> 'm rmq_daemon" where
  "new_rmq_daemon m = \<lparr>rd_cfg = rmq_default_config, rd_open = False, rd_thread = idle_worker, rd_broker = m\<rparr>"

text \<open>\<open>up\<close>: whether the broker can be reached.\<close>

definition rd_start :: "('b, 'm) amqp \<Rightarrow> bool \<Rightarrow> 'm rmq_daemon \<Rightarrow> halted option \<times> 'm rmq_daemon" where
  "rd_start br up s = (if wk_flag (rd_thread s) then (None, s)
     else if \<not> up then (Some (Uncaught ''connection failed''), s)
     else (case spawn ((rd_thread s)\<lparr>wk_flag := True\<rparr>) of
         (e, t) \<Rightarrow> (e, s\<lparr>rd_open := True, rd_thread := t, rd_broker := declare_q br request_queue (rd_broker s)\<rparr>)))"

definition rd_stop :: "'m amqp_admin \<Rightarrow> 'm rmq_daemon \<Rightarrow> halted option \<times> 'm rmq_daemon" where
  "rd_stop ad s = (if \<not> wk_flag (rd_thread s) then (None, s)
     else (case join_worker False ((rd_thread s)\<lparr>wk_flag := False\<rparr>) of
         (Some e, t) \<Rightarrow> (Some e, s\<lparr>rd_thread := t\<rparr>)
       | (None, t) \<Rightarrow> (None, if \<not> rd_open s then s\<lparr>rd_thread := t\<rparr>
            else s\<lparr>rd_thread := t, rd_open := False, rd_broker := delete_x ad (delete_q ad request_queue (rd_broker s))\<rparr>)))"

text \<open>The destructor is \<open>stop\<close>, then the thread object goes.\<close>

definition rd_destroy :: "'m amqp_admin \<Rightarrow> 'm rmq_daemon \<Rightarrow> halted option" where
  "rd_destroy ad s = (case rd_stop ad s of (Some e, _) \<Rightarrow> Some e | (None, s1) \<Rightarrow> drop_worker (rd_thread s1))"

text \<open>A start, something that happens to the broker meanwhile, or a poll of the worker, outside every \<open>try\<close> (\<open>ok\<close>: the broker
  does not throw).\<close>

datatype 'm rd_act = Start bool | Meanwhile "'m \<Rightarrow> 'm" | WorkerPoll bool

definition rd_act :: "('b, 'm) amqp \<Rightarrow> 'm rd_act \<Rightarrow> 'm rmq_daemon \<Rightarrow> halted option \<times> 'm rmq_daemon" where
  "rd_act br a s = (case a of Start up \<Rightarrow> rd_start br up s
     | Meanwhile f \<Rightarrow> (None, s\<lparr>rd_broker := f (rd_broker s)\<rparr>)
     | WorkerPoll ok \<Rightarrow> (if wk_flag (rd_thread s) \<and> \<not> ok then Some Terminated else None, s))"

definition rd_safe :: "'m rmq_daemon \<Rightarrow> 'm rd_act life_cmd \<Rightarrow> bool" where
  "rd_safe s c \<longleftrightarrow> (case c of Act (WorkerPoll ok) \<Rightarrow> wk_flag (rd_thread s) \<longrightarrow> ok | _ \<Rightarrow> True)"

interpretation rmq_worker: worker_object rd_thread "rd_act br" "rd_stop ad" rd_safe for br :: "('b, 'm) amqp" and ad
proof
  fix s :: "'m rmq_daemon" and x e s'
  assume "in_step (rd_thread s)" "rd_safe s (Act x)" "rd_act br x s = (e, s')"
  then show "e \<noteq> Some Terminated \<and> in_step (rd_thread s')"
    by (cases x) (auto simp: rd_act_def rd_safe_def rd_start_def thread_defs split: if_splits)
next
  fix s :: "'m rmq_daemon" and e s'
  assume "in_step (rd_thread s)" "rd_stop ad s = (e, s')"
  then show "e = None \<and> in_step (rd_thread s') \<and> \<not> wk_flag (rd_thread s')"
    by (auto simp: rd_stop_def thread_defs split: if_splits)
next
  fix s :: "'m rmq_daemon" and c :: "'m rd_act life_cmd"
  assume "\<not> rd_safe s c"
  then show "fst (life_step (rd_act br) (rd_stop ad) c s) = Some Terminated"
    by (auto simp: rd_safe_def life_step_def rd_act_def split: life_cmd.splits rd_act.splits)
qed

section \<open>The daemon serves what waits\<close>

text \<open>The replies to a body, and those among them for one queue, as they go out.\<close>

definition replies_to :: "'b io_env \<Rightarrow> config_params \<Rightarrow> 'b list \<Rightarrow> (string \<times> nsbm) list" where
  "replies_to env cf bs = (case parse env bs of None \<Rightarrow> [] | Some req \<Rightarrow> daemon_replies cf req)"

definition wires_for :: "'b io_env \<Rightarrow> string \<Rightarrow> (string \<times> nsbm) list \<Rightarrow> 'b list list" where
  "wires_for env q rs = map (SerializeAsString env \<circ> snd) (filter (\<lambda>r. fst r = q) rs)"

lemma wires_for_append [simp]: "wires_for env q (rs @ rs') = wires_for env q rs @ wires_for env q rs'"
  by (simp add: wires_for_def)

lemma replies_not_request: "(q, x) \<in> set (replies_to env cf bs) \<Longrightarrow> q \<noteq> request_queue"
  by (auto simp: replies_to_def daemon_replies_def reply_init_def reply_ping_def Let_def
      split: option.splits if_splits operation.splits)

lemma wires_for_request [simp]: "wires_for env request_queue (replies_to env cf bs) = []"
  using replies_not_request [of request_queue] by (auto simp: wires_for_def filter_empty_conv)

lemma publish_all:
  assumes "amqp_laws br qs"
  shows "qs (fold (\<lambda>(q, x). publish br q (SerializeAsString env x)) rs m) q =
     map_option (\<lambda>l. l @ wires_for env q rs) (qs m q)"
  using amqp_publish [OF assms]
  by (induction rs arbitrary: m) (auto simp: wires_for_def option.map_comp option.map_ident comp_def split: option.split)

lemma handle_message_queues:
  assumes "amqp_laws br qs"
  shows "qs (rmq_handle_message env br cf bs m) q = map_option (\<lambda>l. l @ wires_for env q (replies_to env cf bs)) (qs m q)"
  using publish_all [OF assms, of env "replies_to env cf bs" m]
  by (auto simp: rmq_handle_message_def replies_to_def wires_for_def option.map_ident split: option.split)

lemma passes_idle:
  assumes "amqp_laws br qs" "qs m request_queue = Some []"
  shows "qs (rmq_daemon_passes env br cf fs m) = qs m"
  using assms(2)
proof (induction fs arbitrary: m)
  case (Cons f fs)
  obtain m1 where "consume br request_queue m = (None, m1)" "qs m1 = qs m"
    by (rule amqp_consume_empty [where qs = qs and m = m and q = request_queue, OF assms(1) Cons.prems])
  with Cons show ?case by (cases f) (simp_all add: rmq_daemon_step_def)
qed simp

lemma passes_serve:
  assumes "amqp_laws br qs" "prompt br qs"
  shows "qs m request_queue = Some bss \<Longrightarrow> length bss \<le> length (takeWhile id fs) \<Longrightarrow>
     qs (rmq_daemon_passes env br cf fs m) = (\<lambda>q. if q = request_queue then Some []
       else map_option (\<lambda>l. l @ wires_for env q (concat (map (replies_to env cf) bss))) (qs m q))"
proof (induction bss arbitrary: m fs)
  case Nil
  with passes_idle [OF assms(1)] show ?case by (auto simp: wires_for_def fun_eq_iff option.map_ident)
next
  case (Cons bs bss)
  then obtain fs1 where fs: "fs = True # fs1" by (cases fs) (auto split: if_splits)
  obtain m1 where m1: "consume br request_queue m = (Some bs, m1)" "qs m1 = (qs m)(request_queue := Some bss)"
    by (rule amqp_consume_Some [where qs = qs and m = m and q = request_queue and x = bs and l = bss, OF assms Cons.prems(1)])
  let ?m2 = "rmq_handle_message env br cf bs m1"
  have q2: "qs ?m2 q = map_option (\<lambda>l. l @ wires_for env q (replies_to env cf bs)) (qs m1 q)" for q
    by (rule handle_message_queues [OF assms(1)])
  have "qs ?m2 request_queue = Some bss" using q2 m1(2) by simp
  from Cons.IH [OF this, of fs1] Cons.prems(2) fs m1 q2 show ?case
    by (auto simp: rmq_daemon_step_def fun_eq_iff option.map_comp comp_def)
qed

section \<open>Properties\<close>

text \<open>C31: The daemon over RabbitMQ serves everything: started on a broker that delivers promptly, it has answered
  after as many passes of its loop as there were requests every one that waited, also those from before the
  start; the answers stand in the clients' queues in the order of the requests, no other queue has
  changed, and ending the loop loses nothing.\<close>

theorem rmq_daemon_serves_all:
  assumes "amqp_laws br qs" "prompt br qs" "rd_start br True s = (None, s1)" "\<not> wk_flag (rd_thread s)"
    and "qs (rd_broker s) request_queue = Some bss" "length bss \<le> length (takeWhile id fs)"
  shows "wk_flag (rd_thread s1) \<and> qs (rmq_run_loop env br (rd_cfg s1) fs (rd_broker s1)) =
     (\<lambda>q. if q = request_queue then Some []
       else map_option (\<lambda>l. l @ wires_for env q (concat (map (replies_to env (rd_cfg s)) bss))) (qs (rd_broker s) q))"
proof -
  have s1: "wk_flag (rd_thread s1)" "rd_cfg s1 = rd_cfg s" "rd_broker s1 = declare_q br request_queue (rd_broker s)"
    using assms(3,4) by (auto simp: rd_start_def spawn_def split: if_splits)
  have q1: "qs (subscribe br request_queue (rd_broker s1)) = qs (rd_broker s)"
    using assms(5) by (simp add: amqp_subscribe [OF assms(1)] s1(3) amqp_declare [OF assms(1)] fun_upd_idem)
  let ?m = "rmq_daemon_passes env br (rd_cfg s) fs (subscribe br request_queue (rd_broker s1))"
  have p: "qs ?m = (\<lambda>q. if q = request_queue then Some []
       else map_option (\<lambda>l. l @ wires_for env q (concat (map (replies_to env (rd_cfg s)) bss))) (qs (rd_broker s) q))"
    using passes_serve [OF assms(1,2) _ assms(6), where m = "subscribe br request_queue (rd_broker s1)"] assms(5)
    by (simp only: q1)
  moreover have "qs (cancel br request_queue ?m) = qs ?m" by (rule amqp_cancel_empty [OF assms(1)]) (simp add: p)
  ultimately show ?thesis using s1 by (simp add: rmq_run_loop_def)
qed

definition wit_init :: nsbm where
  "wit_init = rmq_init_request \<lparr>kc_id = ''a'', kc_host = [], kc_og = APP_CLIENT, kc_cfg = default_cfg, kc_if = None\<rparr>"

definition wit_waiting :: "string \<Rightarrow> nsbm list list option" where
  "wit_waiting = [request_queue \<mapsto> [[wit_init], []], ctrl_queue ''a'' \<mapsto> []]"

theorem rmq_daemon_serves_all_witness:
  "\<exists>s1. rd_start map_broker True (new_rmq_daemon wit_waiting) = (None, s1) \<and>
     rmq_run_loop fragment_env map_broker (rd_cfg s1) [True, True, False] (rd_broker s1) (ctrl_queue ''a'') =
       Some [[init_answer rmq_default_config]]"
proof -
  let ?s = "new_rmq_daemon wit_waiting"
  obtain s1 where s1: "rd_start map_broker True ?s = (None, s1)"
    by (simp add: rd_start_def new_rmq_daemon_def idle_worker_def spawn_def)
  have r: "replies_to fragment_env c [wit_init] = [(ctrl_queue ''a'', init_answer c)]" "replies_to fragment_env c [] = []" for c
    by (simp_all add: replies_to_def fragment_env_def wit_init_def daemon_replies_def reply_init_def init_answer_def nsb_simps)
  have w: "wit_waiting request_queue = Some [[wit_init], []]" "wit_waiting (ctrl_queue ''a'') = Some []"
    by (simp_all add: wit_waiting_def)
  from rmq_daemon_serves_all [OF map_broker_laws map_broker_prompt s1, of "[[wit_init], []]" "[True, True, False]" fragment_env] s1
  show ?thesis using r w by (auto simp: new_rmq_daemon_def idle_worker_def wires_for_def SerializeAsString_def fragment_env_def)
qed

text \<open>C32: For any sequence of \<open>async_listen\<close>, \<open>close\<close>, \<open>stop_listen\<close> (called from outside the callback) and polls of the listening
  thread in between: if no poll of a listening interface finds the broker throwing, and a listening interface is
  neither polled nor stopped once it has been closed, then the program goes on, the listening flag tells whether there is a thread, and
  the destructor, which only closes the channel, terminates the program exactly when the interface still listens; after a \<open>stop_listen\<close>
  of an interface that has not been closed while it listens it does not.  In every other case the sequence ends with the
  program terminated.\<close>

theorem rmq_listener_lifecycle:
  assumes "life_run rmq_act (stop_listen False) cs r = (es, r')" "ro_thread r = idle_worker"
  shows "if life_safe rmq_act (stop_listen False) rmq_safe cs r
     then Some Terminated \<notin> set es \<and> (is_listening r' \<longleftrightarrow> wk_joinable (ro_thread r')) \<and>
       destroy_rmq r' = (if is_listening r' then Some Terminated else None) \<and>
       (rmq_safe r' Halt \<longrightarrow> destroy_rmq (snd (stop_listen False r')) = None)
     else es \<noteq> [] \<and> last es = Some Terminated"
proof (cases "life_safe rmq_act (stop_listen False) rmq_safe cs r")
  case True
  have i: "in_step (ro_thread r)" by (simp add: assms(2))
  obtain e r2 where h: "stop_listen False r' = (e, r2)" by fastforce
  show ?thesis
    using True listener.run_in_step [OF i assms(1) True] listener.run_drop [OF i assms(1) True] listener.run_halt_drop [OF i assms(1) True h] h
    by (auto simp: is_listening_def in_step_def destroy_rmq_def close_rmq_def)
next
  case False
  with listener.run_unsafe [OF _ assms(1)] assms(2) show ?thesis by simp
qed

text \<open>An interface that listens, is polled and is destroyed; and one that is closed while it listens.\<close>

theorem rmq_listener_lifecycle_witness:
  "\<exists>r'. life_run rmq_act (stop_listen False) [Act AsyncListen, Act (ListenerPoll True), Act AsyncListen]
       ((new_rmq_obj ''a'')\<lparr>ro_if := (new_rmq ''a'')\<lparr>rq_open := True\<rparr>\<rparr>) = ([None, None, Some (Uncaught ''Already listening'')], r') \<and>
     destroy_rmq r' = Some Terminated \<and> destroy_rmq (snd (stop_listen False r')) = None \<and>
     last (fst (life_run rmq_act (stop_listen False) [Act AsyncListen, Act CloseInterface, Act (ListenerPoll True)]
       ((new_rmq_obj ''a'')\<lparr>ro_if := (new_rmq ''a'')\<lparr>rq_open := True\<rparr>\<rparr>))) = Some Terminated"
proof -
  let ?r = "(new_rmq_obj ''a'')\<lparr>ro_if := (new_rmq ''a'')\<lparr>rq_open := True\<rparr>\<rparr>"
  let ?r' = "?r\<lparr>ro_thread := \<lparr>wk_flag = True, wk_joinable = True\<rparr>\<rparr>"
  let ?cs = "[Act AsyncListen, Act (ListenerPoll True), Act AsyncListen]" and ?bad = "[Act AsyncListen, Act CloseInterface, Act (ListenerPoll True)]"
  note defs = life_step_def rmq_act_def rmq_safe_def listener_poll_def is_listening_def async_listen_def new_rmq_obj_def idle_worker_def
    spawn_def close_rmq_def rmq_close_def
  have t: "ro_thread ?r = idle_worker" by (simp add: new_rmq_obj_def)
  have run: "life_run rmq_act (stop_listen False) ?cs ?r = ([None, None, Some (Uncaught ''Already listening'')], ?r')"
    and safe: "life_safe rmq_act (stop_listen False) rmq_safe ?cs ?r" by (simp_all add: defs)
  have "destroy_rmq ?r' = Some Terminated \<and> destroy_rmq (snd (stop_listen False ?r')) = None"
    using rmq_listener_lifecycle [OF run t] safe by (simp add: is_listening_def rmq_safe_def)
  moreover obtain es r2 where bad: "life_run rmq_act (stop_listen False) ?bad ?r = (es, r2)" by fastforce
  have "\<not> life_safe rmq_act (stop_listen False) rmq_safe ?bad ?r" by (simp add: defs)
  with rmq_listener_lifecycle [OF bad t] have "last es = Some Terminated" by simp
  ultimately show ?thesis using run bad by (intro exI [of _ ?r']) simp
qed

text \<open>A callback that calls \<open>stop_listen\<close> breaks the interface: joining itself throws, the flag is
  cleared and the thread object stays joinable; a later \<open>stop_listen\<close> does nothing, and the next
  \<open>async_listen\<close>, or the destructor, terminates the program.\<close>

theorem rmq_callback_stop_terminates:
  assumes "is_listening r" "in_step (ro_thread r)" "stop_listen True r = (e, r')"
  shows "e \<noteq> None \<and> \<not> is_listening r' \<and> stop_listen False r' = (None, r') \<and>
     (rq_open (ro_if r) \<longrightarrow> fst (async_listen r') = Some Terminated) \<and> destroy_rmq r' = Some Terminated"
  using assms
  by (auto simp: stop_listen_def is_listening_def async_listen_def destroy_rmq_def close_rmq_def drop_worker_def thread_defs)

theorem rmq_callback_stop_terminates_witness:
  "\<exists>e r'. stop_listen True \<lparr>ro_if = new_rmq ''a'', ro_thread = \<lparr>wk_flag = True, wk_joinable = True\<rparr>\<rparr> = (e, r') \<and>
     destroy_rmq r' = Some Terminated"
proof -
  let ?r = "\<lparr>ro_if = new_rmq ''a'', ro_thread = \<lparr>wk_flag = True, wk_joinable = True\<rparr>\<rparr>"
  obtain e r' where s: "stop_listen True ?r = (e, r')" by fastforce
  from rmq_callback_stop_terminates [OF _ _ s] s show ?thesis by (simp add: is_listening_def in_step_def)
qed

text \<open>Closing an interface that listens: the next poll of its thread, or the next \<open>stop_listen\<close>, goes through a null pointer.\<close>

lemma close_while_listening:
  "is_listening r \<Longrightarrow> fst (listener_poll ok (close_rmq r)) = Some Terminated \<and>
     (in_step (ro_thread r) \<longrightarrow> fst (stop_listen False (close_rmq r)) = Some Terminated)"
  by (simp add: is_listening_def listener_poll_def close_rmq_def rmq_close_def stop_listen_def in_step_def)

text \<open>A broker that throws at a poll ends the program that listens, and the daemon that serves.\<close>

lemma broker_throws_in_thread:
  "is_listening r \<Longrightarrow> fst (listener_poll False r) = Some Terminated"
  "wk_flag (rd_thread s) \<Longrightarrow> fst (rd_act br (WorkerPoll False) s) = Some Terminated"
  by (simp_all add: is_listening_def listener_poll_def rd_act_def)

text \<open>Whatever the sequence of \<open>start\<close> (on a reachable broker or not) and \<open>stop\<close>, with anything happening
  to the broker in between but an exception at a poll of the worker: the worker's flag tells whether it runs, no call and no destructor terminates the
  program, and after a \<open>stop\<close> of a running daemon the request queue is gone, so that what clients
  publish there is dropped.\<close>

theorem rmq_daemon_lifecycle:
  assumes "life_run (rd_act br) (rd_stop ad) cs (new_rmq_daemon m) = (es, s)"
    and safe: "life_safe (rd_act br) (rd_stop ad) rd_safe cs (new_rmq_daemon m)"
    and "amqp_laws br qs" "admin_laws ad qs"
  shows "(wk_flag (rd_thread s) \<longleftrightarrow> wk_joinable (rd_thread s)) \<and> Some Terminated \<notin> set es \<and> rd_destroy ad s = None \<and>
     (rd_open s \<longrightarrow> wk_flag (rd_thread s) \<longrightarrow> (\<exists>s1. rd_stop ad s = (None, s1) \<and>
        (\<forall>b. qs (publish br request_queue b (rd_broker s1)) = qs (rd_broker s1))))"
proof -
  have i: "in_step (rd_thread (new_rmq_daemon m))" by (simp add: new_rmq_daemon_def)
  obtain e s1 where h: "rd_stop ad s = (e, s1)" by fastforce
  have d: "rd_destroy ad s = None"
    using rmq_worker.run_halt_drop [OF i assms(1) safe h] h by (simp add: rd_destroy_def rd_safe_def)
  have "qs (publish br request_queue b (rd_broker s1)) = qs (rd_broker s1)"
    if "rd_open s" "wk_flag (rd_thread s)" for b
  proof -
    have "rd_broker s1 = delete_x ad (delete_q ad request_queue (rd_broker s))"
      using h that by (auto simp: rd_stop_def join_worker_def split: if_splits)
    then have "qs (rd_broker s1) request_queue = None" using assms(4) by (simp add: admin_laws_def)
    then show ?thesis by (simp add: amqp_publish [OF assms(3)])
  qed
  then show ?thesis
    using rmq_worker.run_in_step [OF i assms(1) safe] rmq_worker.run_halt_drop [OF i assms(1) safe h] h d
    by (auto simp: in_step_def rd_safe_def)
qed

theorem rmq_daemon_lifecycle_witness:
  "\<exists>es s. life_run (rd_act map_broker) (rd_stop \<lparr>delete_q = (\<lambda>q m. m(q := None)), delete_x = (\<lambda>m. m)\<rparr>)
       [Act (Start False), Act (Start True), Act (WorkerPoll True), Act (Start True)] (new_rmq_daemon (\<lambda>_. None :: nat list list option)) = (es, s) \<and>
     es = [Some (Uncaught ''connection failed''), None, None, None] \<and>
     rd_destroy \<lparr>delete_q = (\<lambda>q m. m(q := None)), delete_x = (\<lambda>m. m)\<rparr> s = None"
proof -
  let ?ad = "\<lparr>delete_q = (\<lambda>q m. m(q := None)), delete_x = (\<lambda>m. m)\<rparr> :: (string \<Rightarrow> nat list list option) amqp_admin"
  let ?cs = "[Act (Start False), Act (Start True), Act (WorkerPoll True), Act (Start True)]"
  obtain es s where r: "life_run (rd_act map_broker) (rd_stop ?ad) ?cs (new_rmq_daemon (\<lambda>_. None)) = (es, s)" by fastforce
  have "es = [Some (Uncaught ''connection failed''), None, None, None]"
    using r by (simp add: life_step_def rd_act_def rd_start_def new_rmq_daemon_def idle_worker_def spawn_def)
  moreover have "life_safe (rd_act map_broker) (rd_stop ?ad) rd_safe ?cs (new_rmq_daemon (\<lambda>_. None :: nat list list option))"
    by (simp add: rd_safe_def)
  ultimately show ?thesis using rmq_daemon_lifecycle [OF r _ map_broker_laws] r by (auto simp: admin_laws_def)
qed

end
