(* ===== verification/NSB_Unified.thy ===== *)
theory NSB_Unified
  imports NSB_RMQ NSB_System
begin

text \<open>
  The unified client (\<open>cpp/rabbit/include/NSBUnified.hpp\<close>, \<open>cpp/rabbit/src/NSBUnified.cpp\<close>):
  the interface \<open>IComms\<close>, its socket and RabbitMQ backends, its own Redis connector, and the
  application and simulator clients over either backend.  An exception is \<open>Throws\<close>.
\<close>

section \<open>IComms\<close>

record ('b, 'w) icomms =
  sendMsg :: "channel \<Rightarrow> 'b list \<Rightarrow> string \<Rightarrow> 'w \<Rightarrow> rt_error + 'w"
  recvMsg :: "channel \<Rightarrow> int \<Rightarrow> 'w \<Rightarrow> rt_error + 'b list option \<times> 'w"
  closeComms :: "'w \<Rightarrow> 'w"

datatype backend = SOCKET | RABBITMQ

section \<open>SocketBackend\<close>

text \<open>\<open>connect\<close>: per channel, retry until the deadline; the results of \<open>setsockopt\<close> and
  \<open>fcntl\<close> are not looked at; a channel that is still missing afterwards throws.  The address is what \<open>inet_addr\<close>
  (the parameter \<open>inet\<close>) makes of the host, used unchecked.  An attempt is the descriptor that \<open>socket\<close> gives, if it gives one,
  and whether \<open>connect\<close> to an address would succeed on it.\<close>

type_synonym sock_addr = "32 word \<times> 16 word"

datatype sb_attempt = NoSocket | SocketFor fd "sock_addr \<Rightarrow> bool"

fun sb_connect_loop :: "sock_addr \<Rightarrow> int \<Rightarrow> channel \<Rightarrow> int list \<Rightarrow> sb_attempt list \<Rightarrow> (channel, fd) std_map \<Rightarrow>
    rt_error + int list \<times> sb_attempt list \<times> (channel, fd) std_map" where
  "sb_connect_loop addr deadline ch [] as cs = Inl Blocks"
| "sb_connect_loop addr deadline ch (t # ts) as cs =
     (if \<not> t < deadline then Inr (ts, as, cs)
      else case as of [] \<Rightarrow> Inl Blocks
        | NoSocket # as' \<Rightarrow> Inl (Throws ''SocketBackend: socket() failed'')
        | SocketFor f up # as' \<Rightarrow> if up addr then Inr (ts, as', map_assign ch f cs)
            else sb_connect_loop addr deadline ch ts as' cs)"

fun sb_connect_all :: "sock_addr \<Rightarrow> int \<Rightarrow> channel list \<Rightarrow> int list \<Rightarrow> sb_attempt list \<Rightarrow> (channel, fd) std_map \<Rightarrow>
    rt_error + (channel, fd) std_map" where
  "sb_connect_all addr deadline [] ts as cs = Inr cs"
| "sb_connect_all addr deadline (ch # chs) ts as cs = bind_res (sb_connect_loop addr deadline ch ts as cs)
     (\<lambda>(ts', as', cs'). if map_find cs' ch = None then Inl (Throws ''SocketBackend: connection timed out'')
        else sb_connect_all addr deadline chs ts' as' cs')"

definition sb_connect :: "(string \<Rightarrow> 32 word) \<Rightarrow> string \<Rightarrow> i32 \<Rightarrow> int \<Rightarrow> int list \<Rightarrow> sb_attempt list \<Rightarrow>
    rt_error + (channel, fd) std_map" where
  "sb_connect inet host port timeout ts as = (case ts of [] \<Rightarrow> Inl Blocks
     | t0 # ts' \<Rightarrow> sb_connect_all (inet (c_str host), ucast port) (t0 + timeout) Channels ts' as [])"

record 'b sb_state =
  sb_conns :: "(channel, fd) std_map"
  sb_closed :: bool
  sb_send :: "fd \<Rightarrow> send_event list"
  sb_wire :: "fd \<Rightarrow> 'b list"
  sb_queue :: "fd \<Rightarrow> 'b list"
  sb_rounds :: "fd \<Rightarrow> 'b round list"
  sb_calls :: "sys_call list"

definition sb_fd :: "channel \<Rightarrow> 'b sb_state \<Rightarrow> rt_error + fd" where
  "sb_fd ch w = (case map_find (sb_conns w) ch of None \<Rightarrow> Inl (Throws ''SocketBackend: channel not connected'')
     | Some f \<Rightarrow> Inr f)"

definition sb_close :: "'b sb_state \<Rightarrow> 'b sb_state" where
  "sb_close w = (if sb_closed w then w
     else w\<lparr>sb_closed := True, sb_calls := sb_calls w @ concat (map (\<lambda>(ch, f). [Shutdown f, Close f]) (sb_conns w)),
            sb_conns := []\<rparr>)"

text \<open>\<open>sendMsg\<close>: the loop is that of \<open>SocketInterface::sendMessage\<close>, an error throws.\<close>

definition sb_sendMsg :: "channel \<Rightarrow> 'b list \<Rightarrow> string \<Rightarrow> 'b sb_state \<Rightarrow> rt_error + 'b sb_state" where
  "sb_sendMsg ch bytes dest w = bind_res (sb_fd ch w) (\<lambda>f.
     case send_loop bytes (int_of_size bytes) 0 (sb_send w f) (sb_wire w f) of
       Inl _ \<Rightarrow> Inl Blocks
     | Inr (r, evs, wire) \<Rightarrow> if r = -1 then Inl (Throws ''SocketBackend::sendMsg failed'')
         else Inr (w\<lparr>sb_send := (sb_send w)(f := evs), sb_wire := (sb_wire w)(f := wire)\<rparr>))"

text \<open>\<open>recvMsg\<close>: one \<open>select\<close>, then \<open>recv\<close> until there is nothing.\<close>

definition sb_recvMsg :: "channel \<Rightarrow> int \<Rightarrow> 'b sb_state \<Rightarrow> rt_error + 'b list option \<times> 'b sb_state" where
  "sb_recvMsg ch timeout w = bind_res (sb_fd ch w) (\<lambda>f.
     case sb_rounds w f of
       [] \<Rightarrow> Inl Blocks
     | Ready as # rs \<Rightarrow> (let (m, q) = drain (sb_queue w f) as in
         Inr (if m \<noteq> [] then Some m else None,
              w\<lparr>sb_queue := (sb_queue w)(f := q), sb_rounds := (sb_rounds w)(f := rs)\<rparr>))
     | _ # rs \<Rightarrow> Inr (None, w\<lparr>sb_rounds := (sb_rounds w)(f := rs)\<rparr>))"

text \<open>The constructor connects; the destructor closes, which a second call leaves alone.\<close>

definition NSB_UNIFIED_SERVER_CONNECTION_TIMEOUT :: int where
  "NSB_UNIFIED_SERVER_CONNECTION_TIMEOUT = 10"

definition new_SocketBackend :: "(string \<Rightarrow> 32 word) \<Rightarrow> string \<Rightarrow> i32 \<Rightarrow> int list \<Rightarrow> sb_attempt list \<Rightarrow>
    rt_error + (channel, fd) std_map" where
  "new_SocketBackend inet host port ts as = sb_connect inet host port NSB_UNIFIED_SERVER_CONNECTION_TIMEOUT ts as"

definition destroy_SocketBackend :: "'b sb_state \<Rightarrow> 'b sb_state" where
  "destroy_SocketBackend w = sb_close w"

lemma sb_close_once: "destroy_SocketBackend (sb_close w) = sb_close w"
  by (simp add: destroy_SocketBackend_def sb_close_def)

definition SocketBackend :: "('b, 'b sb_state) icomms" where
  "SocketBackend = \<lparr>sendMsg = sb_sendMsg, recvMsg = sb_recvMsg, closeComms = sb_close\<rparr>"

section \<open>RabbitMQBackend\<close>

text \<open>\<open>RabbitMQBackendImpl\<close> repeats \<open>RabbitMQInterface\<close>; its state joins the broker's in the
  world.  \<open>late\<close> are the readings of the clock against the deadline.\<close>

definition rb_declareQueues :: "('b, 'm) amqp \<Rightarrow> rmq \<Rightarrow> 'm \<Rightarrow> rmq \<times> 'm" where
  "rb_declareQueues br r m =
     (let r1 = r\<lparr>q_ctrl := ctrl_queue (rq_id r)\<rparr>; m1 = declare_q br (q_ctrl r1) m;
          r2 = r1\<lparr>q_send := send_queue (rq_id r)\<rparr>; m2 = declare_q br (q_send r2) m1;
          r3 = r2\<lparr>q_recv := recv_queue (rq_id r)\<rparr>; m3 = declare_q br (q_recv r3) m2
      in (r3, declare_q br request_queue m3))"

text \<open>\<open>connect\<close> compares with the time-out after every failure.\<close>

fun rb_connect :: "('b, 'm) amqp \<Rightarrow> connect_attempt list \<Rightarrow> rmq \<Rightarrow> 'm \<Rightarrow> rt_error + rmq \<times> 'm" where
  "rb_connect br [] r m = Inl Blocks"
| "rb_connect br (ConnectOk # as) r m = Inr (rb_declareQueues br (r\<lparr>rq_open := True\<rparr>) m)"
| "rb_connect br (ConnectThrows elapsed # as) r m =
     (if elapsed then Inl (Throws ''RabbitMQ connect timeout'') else rb_connect br as r m)"

lemma rb_connect_eq: "0 \<le> timeout \<Longrightarrow> rb_connect br as r m = rmq_connect br timeout as r m"
  by (induction br as r m rule: rb_connect.induct)
    (simp_all add: rb_declareQueues_def declare_exchange_and_queues_def Let_def)

fun rb_queueName :: "channel \<Rightarrow> rmq \<Rightarrow> string" where
  "rb_queueName CTRL r = q_ctrl r"
| "rb_queueName SEND_CH r = q_send r"
| "rb_queueName RECV_CH r = q_recv r"

lemma rb_queueName_eq: "rb_queueName ch r = queue_name ch r"
  by (cases ch) simp_all

record 'm rb_state =
  rb_if :: rmq
  rb_broker :: 'm
  rb_late :: "bool list"

definition rb_send :: "('b, 'm) amqp \<Rightarrow> channel \<Rightarrow> 'b list \<Rightarrow> string \<Rightarrow> 'm rb_state \<Rightarrow> rt_error + 'm rb_state" where
  "rb_send br ch bytes dest w = bind_res (rmq_send br ch bytes dest (rb_if w) (rb_broker w))
     (\<lambda>m. Inr (w\<lparr>rb_broker := m\<rparr>))"

definition rb_recv :: "('b, 'm) amqp \<Rightarrow> channel \<Rightarrow> int \<Rightarrow> 'm rb_state \<Rightarrow> rt_error + 'b list option \<times> 'm rb_state" where
  "rb_recv br ch timeout w = bind_res (rmq_recv br ch timeout (rb_late w) (rb_if w) (rb_broker w))
     (\<lambda>(b, m). Inr (b, w\<lparr>rb_broker := m\<rparr>))"

definition rb_close :: "'m rb_state \<Rightarrow> 'm rb_state" where
  "rb_close w = w\<lparr>rb_if := rmq_close (rb_if w)\<rparr>"

definition RabbitMQBackend :: "('b, 'm) amqp \<Rightarrow> ('b, 'm rb_state) icomms" where
  "RabbitMQBackend br = \<lparr>sendMsg = rb_send br, recvMsg = rb_recv br, closeComms = rb_close\<rparr>"

section \<open>RedisConnector\<close>

text \<open>The key takes the whole 64-bit tick count, and the value is sent with \<open>%b\<close>, its length given.\<close>

definition u_generateKey :: "int \<Rightarrow> redis_connector \<Rightarrow> string \<times> redis_connector" where
  "u_generateKey now c = (let ctr = (plctr c + 1) AND 0xFFFFF
     in (to_string now @ ''-'' @ rc_client c @ ''-'' @ to_string (sint ctr), c\<lparr>plctr := ctr\<rparr>))"

definition u_doConnect :: "bool option \<Rightarrow> redis_connector \<Rightarrow> redis_connector" where
  "u_doConnect ctx c = c\<lparr>rctx := ctx\<rparr>"

text \<open>\<open>doDisconnect\<close>, with the contexts that go to \<open>redisFree\<close>, and the destructor.\<close>

definition u_doDisconnect :: "redis_connector \<Rightarrow> bool list \<times> redis_connector" where
  "u_doDisconnect c = (case rctx c of None \<Rightarrow> ([], c) | Some err \<Rightarrow> ([err], c\<lparr>rctx := None\<rparr>))"

definition u_destroy_redis :: "redis_connector \<Rightarrow> bool list \<times> redis_connector" where
  "u_destroy_redis c = (if isConnected c then u_doDisconnect c else ([], c))"

definition u_store :: "'s redis_exec \<Rightarrow> int \<Rightarrow> string \<Rightarrow> redis_connector \<Rightarrow> 's \<Rightarrow> string \<times> redis_connector \<times> 's" where
  "u_store exec now v c s = (if \<not> isConnected c then ([], c, s)
     else let (key, c1) = u_generateKey now c in
       (case exec [''SET'', c_str key, v] s of
          (None, s1) \<Rightarrow> ([], mark_err c1, s1)
        | (Some reply, s1) \<Rightarrow> (key, c1, s1)))"

definition u_checkOut :: "'s redis_exec \<Rightarrow> string \<Rightarrow> redis_connector \<Rightarrow> 's \<Rightarrow> string \<times> redis_connector \<times> 's" where
  "u_checkOut exec key c s = (if \<not> isConnected c then ([], c, s)
     else (case exec (getdel_cmd key) s of
          (None, s1) \<Rightarrow> ([], mark_err c, s1)
        | (Some reply, s1) \<Rightarrow> (if reply \<noteq> NilReply then reply_str reply else [], c, s1)))"

definition u_peek :: "'s redis_exec \<Rightarrow> string \<Rightarrow> redis_connector \<Rightarrow> 's \<Rightarrow> string \<times> redis_connector \<times> 's" where
  "u_peek exec key c s = (if \<not> isConnected c then ([], c, s)
     else (case exec (get_cmd key) s of
          (None, s1) \<Rightarrow> ([], mark_err c, s1)
        | (Some reply, s1) \<Rightarrow> (if reply \<noteq> NilReply then reply_str reply else [], c, s1)))"

section \<open>NSBClient\<close>

record u_client =
  u_id :: string
  u_host :: string
  u_backend :: backend
  u_og :: originator
  u_cfg :: cfg
  u_comms :: bool
  u_db :: "redis_connector option"

record ('b, 'w) u_env =
  u_pb :: "'b io_env"
  u_icomms :: "('b, 'w) icomms"
  u_sockname :: "channel \<Rightarrow> (string \<times> i32) option"
  u_redisConnect :: "string \<Rightarrow> i32 \<Rightarrow> bool option"
  u_redis :: "'w redis_exec"
  u_clock :: "'w \<Rightarrow> int"

text \<open>The client as its constructor leaves it, \<open>comms_\<close> made.\<close>

definition new_u_client :: "string \<Rightarrow> string \<Rightarrow> backend \<Rightarrow> originator \<Rightarrow> u_client" where
  "new_u_client i host b og = \<lparr>u_id = i, u_host = host, u_backend = b, u_og = og, u_cfg = default_cfg,
     u_comms = True, u_db = None\<rparr>"

text \<open>\<open>NSBClient::NSBClient\<close>: the backend is chosen and connects, or its exception leaves the constructor.  Host and port of
  the RabbitMQ backend go into the URI of the broker that \<open>cas\<close> are the attempts to reach.\<close>

definition u_open :: "('b, 'm) amqp \<Rightarrow> (string \<Rightarrow> 32 word) \<Rightarrow> string \<Rightarrow> string \<Rightarrow> i32 \<Rightarrow> backend \<Rightarrow> int list \<Rightarrow> sb_attempt list \<Rightarrow>
    connect_attempt list \<Rightarrow> 'm \<Rightarrow> rt_error + (channel, fd) std_map + rmq \<times> 'm" where
  "u_open br inet ident host port b ts as cas m = (if b = SOCKET
     then bind_res (new_SocketBackend inet host port ts as) (\<lambda>cs. Inr (Inl cs))
     else bind_res (rb_connect br cas (new_rmq ident) m) (\<lambda>x. Inr (Inr x)))"

text \<open>\<open>Config(const nsb::nsbm&)\<close>: every field, whether the database is used or not.\<close>

definition u_config :: "nsbm \<Rightarrow> cfg" where
  "u_config m = (let p = config m in \<lparr>SYSTEM_MODE = sys_mode p, SIMULATOR_MODE = sim_mode p, USE_DB = use_db p,
     DB_ADDRESS = db_address p, DB_PORT = db_port p, DB_NUM = db_num p\<rparr>)"

definition u_getPayload :: "('b, 'w) u_env \<Rightarrow> nsbm \<Rightarrow> u_client \<Rightarrow> 'w \<Rightarrow> string \<times> u_client \<times> 'w" where
  "u_getPayload env m c w = (case u_db c of
     Some conn \<Rightarrow> if USE_DB (u_cfg c)
       then (case u_checkOut (u_redis env) (msg_key m) conn w of (v, conn', w1) \<Rightarrow> (v, c\<lparr>u_db := Some conn'\<rparr>, w1))
       else (payload m, c, w)
   | None \<Rightarrow> (payload m, c, w))"

definition u_setPayload :: "('b, 'w) u_env \<Rightarrow> string \<Rightarrow> nsbm \<Rightarrow> u_client \<Rightarrow> 'w \<Rightarrow> nsbm \<times> u_client \<times> 'w" where
  "u_setPayload env pl m c w = (case u_db c of
     Some conn \<Rightarrow> if USE_DB (u_cfg c)
       then (case u_store (u_redis env) (u_clock env w) pl conn w of
           (key, conn', w1) \<Rightarrow> (set_msg_key key m, c\<lparr>u_db := Some conn'\<rparr>, w1))
       else (set_payload pl m, c, w)
   | None \<Rightarrow> (set_payload pl m, c, w))"

definition u_send_on :: "('b, 'w) u_env \<Rightarrow> channel \<Rightarrow> nsbm \<Rightarrow> string \<Rightarrow> 'w \<Rightarrow> rt_error + 'w" where
  "u_send_on env ch m dest w = sendMsg (u_icomms env) ch (SerializeAsString (u_pb env) m) dest w"

text \<open>The INIT request: the local addresses over sockets, the host and zero ports over RabbitMQ.\<close>

definition u_init_request :: "('b, 'w) u_env \<Rightarrow> u_client \<Rightarrow> nsbm" where
  "u_init_request env c = (let base = set_intro (\<lambda>i. i\<lparr>client_identifier := u_id c\<rparr>) (with_code SUCCESS (buildBaseMsg INIT (u_og c))) in
     if u_backend c = SOCKET
     then getSetChannelAddrPort (u_sockname env) RECV_CH False
            (getSetChannelAddrPort (u_sockname env) SEND_CH False
              (getSetChannelAddrPort (u_sockname env) CTRL True base))
     else set_intro (\<lambda>i. i\<lparr>address := u_host c, ch_CTRL := 0, ch_SEND := 0, ch_RECV := 0\<rparr>) base)"

definition u_accept_config :: "('b, 'w) u_env \<Rightarrow> nsbm \<Rightarrow> u_client \<Rightarrow> rt_error + u_client" where
  "u_accept_config env m c =
     (if man_op (manifest m) \<noteq> INIT then Inl (Throws ''NSB INIT unexpected operation'')
      else if man_code (manifest m) \<noteq> SUCCESS \<and> man_code (manifest m) \<noteq> DAEMON_RESPONSE
      then Inl (Throws ''NSB INIT failed'')
      else let c1 = c\<lparr>u_cfg := u_config m\<rparr> in
        if USE_DB (u_cfg c1)
        then let conn = u_doConnect (u_redisConnect env (DB_ADDRESS (u_cfg c1)) (DB_PORT (u_cfg c1)))
                   \<lparr>rc_client = u_id c, plctr = 0, rc_address = DB_ADDRESS (u_cfg c1),
                    rc_port = DB_PORT (u_cfg c1), rctx = None\<rparr>
             in if isConnected conn then Inr (c1\<lparr>u_db := Some conn\<rparr>)
                else Inl (Throws ''NSB INIT: failed to connect to Redis'')
        else Inr c1)"

text \<open>\<open>initialize\<close>: the exchange, then what is made of the response.\<close>

definition u_init_exchange :: "('b, 'w) u_env \<Rightarrow> int \<Rightarrow> u_client \<Rightarrow> 'w \<Rightarrow> rt_error + 'b list option \<times> 'w" where
  "u_init_exchange env timeout c w = bind_res (u_send_on env CTRL (u_init_request env c) [] w)
     (\<lambda>w1. recvMsg (u_icomms env) CTRL timeout w1)"

definition u_init_result :: "('b, 'w) u_env \<Rightarrow> 'b list option \<Rightarrow> u_client \<Rightarrow> rt_error + u_client" where
  "u_init_result env resp c = (case resp of None \<Rightarrow> Inl (Throws ''NSB INIT timeout'')
     | Some bs \<Rightarrow> (case parse (u_pb env) bs of None \<Rightarrow> Inl (Throws ''NSB INIT parse error'')
        | Some m \<Rightarrow> u_accept_config env m c))"

definition u_initialize :: "('b, 'w) u_env \<Rightarrow> int \<Rightarrow> u_client \<Rightarrow> 'w \<Rightarrow> rt_error + u_client \<times> 'w" where
  "u_initialize env timeout c w = bind_res (u_init_exchange env timeout c w)
     (\<lambda>(resp, w1). bind_res (u_init_result env resp c) (\<lambda>c'. Inr (c', w1)))"

definition u_ping :: "('b, 'w) u_env \<Rightarrow> int \<Rightarrow> u_client \<Rightarrow> 'w \<Rightarrow> rt_error + bool \<times> 'w" where
  "u_ping env timeout c w = bind_res (u_send_on env CTRL (with_code SUCCESS (buildBaseMsg PING (u_og c))) [] w) (\<lambda>w1.
     bind_res (recvMsg (u_icomms env) CTRL timeout w1) (\<lambda>(resp, w2).
       Inr (case resp of None \<Rightarrow> False
         | Some bs \<Rightarrow> (case parse (u_pb env) bs of None \<Rightarrow> False
            | Some m \<Rightarrow> man_op (manifest m) = PING \<and>
                (man_code (manifest m) = SUCCESS \<or> man_code (manifest m) = DAEMON_RESPONSE)), w2)))"

definition u_exit :: "('b, 'w) u_env \<Rightarrow> u_client \<Rightarrow> 'w \<Rightarrow> rt_error + u_client \<times> 'w" where
  "u_exit env c w = (if \<not> u_comms c then Inr (c, w)
     else bind_res (u_send_on env CTRL (with_code SUCCESS (buildBaseMsg EXIT (u_og c))) [] w)
       (\<lambda>w1. Inr (c\<lparr>u_comms := False\<rparr>, closeComms (u_icomms env) w1)))"

text \<open>The destructor: \<open>exit\<close>, exceptions swallowed.\<close>

definition u_destroy :: "('b, 'w) u_env \<Rightarrow> u_client \<Rightarrow> 'w \<Rightarrow> 'w" where
  "u_destroy env c w = (case u_exit env c w of Inl _ \<Rightarrow> w | Inr (_, w1) \<Rightarrow> w1)"

text \<open>The constructors of the two derived classes: the base object, then \<open>initialize\<close>; when the
  response makes it throw, the base object is destroyed on the way out.  (\<open>Inl\<close>: the exchange
  itself failed.)\<close>

definition u_construct :: "('b, 'w) u_env \<Rightarrow> int \<Rightarrow> u_client \<Rightarrow> 'w \<Rightarrow> rt_error + (rt_error + u_client) \<times> 'w" where
  "u_construct env timeout c w = bind_res (u_init_exchange env timeout c w)
     (\<lambda>(resp, w1). case u_init_result env resp c of
         Inl e \<Rightarrow> Inr (Inl e, u_destroy env c w1)
       | Inr c' \<Rightarrow> Inr (Inr c', w1))"

section \<open>NSBAppClient and NSBSimClient\<close>

text \<open>\<open>send\<close> and \<open>post\<close> differ in operation and source only.\<close>

definition u_data :: "('b, 'w) u_env \<Rightarrow> operation \<Rightarrow> string \<Rightarrow> string \<Rightarrow> string \<Rightarrow> u_client \<Rightarrow> 'w \<Rightarrow>
    rt_error + string \<times> u_client \<times> 'w" where
  "u_data env opn src dest pl c w =
     (let base = set_metadata (\<lambda>h. h\<lparr>src_id := src, dest_id := dest, payload_size := int_of_size pl\<rparr>)
                   (with_code MESSAGE (buildBaseMsg opn (u_og c)));
          (m, c1, w1) = u_setPayload env pl base c w
      in bind_res (u_send_on env SEND_CH m dest w1)
           (\<lambda>w2. Inr (if USE_DB (u_cfg c1) then msg_key m else [], c1, w2)))"

definition u_app_send :: "('b, 'w) u_env \<Rightarrow> string \<Rightarrow> string \<Rightarrow> u_client \<Rightarrow> 'w \<Rightarrow> rt_error + string \<times> u_client \<times> 'w" where
  "u_app_send env dest pl c w = u_data env SEND (u_id c) dest pl c w"

definition u_sim_post :: "('b, 'w) u_env \<Rightarrow> string \<Rightarrow> string \<Rightarrow> string \<Rightarrow> u_client \<Rightarrow> 'w \<Rightarrow>
    rt_error + string \<times> u_client \<times> 'w" where
  "u_sim_post env src dest pl c w = u_data env POST src dest pl c w"

text \<open>The requests of PULL mode over sockets.  A system-wide FETCH without a source creates no
  metadata at all.\<close>

definition u_receive_request :: "u_client \<Rightarrow> string \<Rightarrow> nsbm" where
  "u_receive_request c dest = set_metadata (\<lambda>h. h\<lparr>dest_id := (if dest = [] then u_id c else dest)\<rparr>)
     (with_code SUCCESS (buildBaseMsg RECEIVE (u_og c)))"

definition u_fetch_request :: "u_client \<Rightarrow> string \<Rightarrow> nsbm" where
  "u_fetch_request c src = (let req = with_code SUCCESS (buildBaseMsg FETCH (u_og c)) in
     if src \<noteq> [] then set_metadata (\<lambda>h. h\<lparr>src_id := src\<rparr>) req
     else if SIMULATOR_MODE (u_cfg c) = PER_NODE then set_metadata (\<lambda>h. h\<lparr>src_id := u_id c\<rparr>) req
     else req)"

text \<open>Waiting for the answer, or for whatever comes in; \<open>ops\<close> are the operations accepted.\<close>

definition u_take :: "('b, 'w) u_env \<Rightarrow> operation list \<Rightarrow> nsbm \<Rightarrow> int \<Rightarrow> u_client \<Rightarrow> 'w \<Rightarrow>
    rt_error + message_entry \<times> u_client \<times> 'w" where
  "u_take env ops req timeout c w =
     bind_res (if u_backend c = SOCKET \<and> SYSTEM_MODE (u_cfg c) = PULL then u_send_on env RECV_CH req [] w else Inr w) (\<lambda>w1.
     bind_res (recvMsg (u_icomms env) RECV_CH
         (if u_backend c = SOCKET \<and> SYSTEM_MODE (u_cfg c) = PUSH then 0 else timeout) w1) (\<lambda>(resp, w2).
       case resp of None \<Rightarrow> Inr (empty_entry, c, w2)
       | Some bs \<Rightarrow> (case parse (u_pb env) bs of None \<Rightarrow> Inr (empty_entry, c, w2)
          | Some m \<Rightarrow>
             (if man_op (manifest m) \<notin> set ops then Inr (empty_entry, c, w2)
              else if man_code (manifest m) = MESSAGE
              then (case u_getPayload env m c w2 of (pl, c1, w3) \<Rightarrow>
                  Inr (mk_entry (src_id (metadata m)) (dest_id (metadata m)) pl (payload_size (metadata m)), c1, w3))
              else Inr (empty_entry, c, w2)))))"

definition u_app_receive :: "('b, 'w) u_env \<Rightarrow> int \<Rightarrow> string \<Rightarrow> u_client \<Rightarrow> 'w \<Rightarrow> rt_error + message_entry \<times> u_client \<times> 'w" where
  "u_app_receive env timeout dest c w = u_take env [SEND, RECEIVE, FORWARD, POST] (u_receive_request c dest) timeout c w"

definition u_sim_fetch :: "('b, 'w) u_env \<Rightarrow> int \<Rightarrow> string \<Rightarrow> u_client \<Rightarrow> 'w \<Rightarrow> rt_error + message_entry \<times> u_client \<times> 'w" where
  "u_sim_fetch env timeout src c w = u_take env [SEND, FETCH, FORWARD] (u_fetch_request c src) timeout c w"

end
