(* ===== verification/NSB_Channel.thy ===== *)
theory NSB_Channel
  imports NSB_Unified
begin

text \<open>
  What the receiving sides of the two socket interfaces share: call by call they cut one stream of
  bytes into messages.  The locale \<open>byte_channel\<close> states it over any interface; it is
  interpreted on \<open>SocketInterface\<close> and on the unified client's \<open>SocketBackend\<close>.  (The RabbitMQ
  interface does not keep the contract: see \<open>rmq_recv_takes_head\<close> in \<open>NSB_RMQ\<close>.)
\<close>

section \<open>The contract\<close>

fun recv_n :: "('w \<Rightarrow> 'e + 'b list \<times> 'w) \<Rightarrow> nat \<Rightarrow> 'w \<Rightarrow> 'e + 'b list list \<times> 'w" where
  "recv_n f 0 w = Inr ([], w)"
| "recv_n f (Suc n) w = bind_res (f w) (\<lambda>(m, w1). bind_res (recv_n f n w1) (\<lambda>(ms, w2). Inr (m # ms, w2)))"

locale byte_channel =
  fixes receive :: "'w \<Rightarrow> 'e + 'b list \<times> 'w"
    and inbound :: "'w \<Rightarrow> 'b list"
  assumes receive_stream: "receive w = Inr (m, w') \<Longrightarrow> m @ inbound w' = inbound w"
begin

lemma recv_n_stream: "recv_n receive n w = Inr (ms, w') \<Longrightarrow> concat ms @ inbound w' = inbound w"
proof (induction n arbitrary: w ms)
  case (Suc n)
  then obtain m w1 ms1 where "receive w = Inr (m, w1)" "recv_n receive n w1 = Inr (ms1, w')" "ms = m # ms1"
    by (auto simp: bind_res_Inr)
  with Suc.IH receive_stream show ?case by fastforce
qed simp

lemma length_recv_n: "recv_n receive n w = Inr (ms, w') \<Longrightarrow> length ms = n"
  by (induction n arbitrary: w ms) (auto simp: bind_res_Inr)

end

section \<open>The interfaces\<close>

definition socket_inbound :: "channel \<Rightarrow> 'b socket_state \<Rightarrow> 'b list" where
  "socket_inbound ch w = (case map_find (conns w) ch of None \<Rightarrow> []
     | Some f \<Rightarrow> sk_queue w f @ arrivals (sk_rounds w f))"

interpretation socket_channel: byte_channel "socket_receive ch t" "socket_inbound ch" for ch t
proof
  fix w :: "'a socket_state" and m w'
  assume "socket_receive ch t w = Inr (m, w')"
  then show "m @ socket_inbound ch w' = socket_inbound ch w"
    by (auto simp: socket_receive_def socket_inbound_def bind_res_Inr dest!: receive_loop_conserves
        split: option.splits)
qed

text \<open>The unified backends say with an option whether they received anything.\<close>

definition some_bytes :: "rt_error + 'b list option \<times> 'w \<Rightarrow> rt_error + 'b list \<times> 'w" where
  "some_bytes r = bind_res r (\<lambda>(b, w). Inr (case b of None \<Rightarrow> [] | Some m \<Rightarrow> m, w))"

definition sb_inbound :: "channel \<Rightarrow> 'b sb_state \<Rightarrow> 'b list" where
  "sb_inbound ch w = (case map_find (sb_conns w) ch of None \<Rightarrow> []
     | Some f \<Rightarrow> sb_queue w f @ arrivals (sb_rounds w f))"

lemma sb_recvMsg_stream:
  assumes "sb_recvMsg ch t w = Inr (b, w')"
  shows "(case b of None \<Rightarrow> [] | Some m \<Rightarrow> m) @ sb_inbound ch w' = sb_inbound ch w"
proof -
  obtain f where f: "map_find (sb_conns w) ch = Some f"
    using assms by (auto simp: sb_recvMsg_def sb_fd_def bind_res_Inr split: option.splits)
  show ?thesis
  proof (cases "sb_rounds w f")
    case (Cons r rs)
    show ?thesis
    proof (cases r)
      case (Ready as)
      obtain m q where d: "drain (sb_queue w f) as = (m, q)" by fastforce
      from drain_conserves [OF d] assms f Cons Ready d show ?thesis
        by (auto simp: sb_recvMsg_def sb_fd_def sb_inbound_def simp flip: append_assoc)
    qed (use assms f Cons in \<open>auto simp: sb_recvMsg_def sb_fd_def sb_inbound_def\<close>)
  qed (use assms f in \<open>simp add: sb_recvMsg_def sb_fd_def\<close>)
qed

interpretation socket_backend: byte_channel "\<lambda>w. some_bytes (sb_recvMsg ch t w)" "sb_inbound ch" for ch t
  by unfold_locales (auto simp: some_bytes_def bind_res_Inr dest!: sb_recvMsg_stream)

end
