(* ===== verification/NSB_Unified_Facts.thy ===== *)
theory NSB_Unified_Facts
  imports NSB_Channel
begin

text \<open>
  The unified client at work: over its socket backend with the daemon \<open>NSBDaemon\<close> on the
  other side (the world of \<open>NSB_System\<close>), over its RabbitMQ backend with \<open>NSBDaemonRMQ\<close>, and its
  own payload store.
\<close>

section \<open>On the sockets\<close>

text \<open>The socket backend on the network of \<open>loop_comms\<close>: a send is one read of the daemon, a
  receive hands on what the daemon sent.  Closing the client's sockets does nothing to the daemon's state.\<close>

definition u_loop :: "'b io_env \<Rightarrow> (channel \<Rightarrow> fd) \<Rightarrow> ('b, ('b, 's) loop_world) icomms" where
  "u_loop env fds = \<lparr>sendMsg = (\<lambda>ch bs dest w. case loop_send env fds ch bs w of Inl _ \<Rightarrow> Inl Blocks | Inr (_, w1) \<Rightarrow> Inr w1),
     recvMsg = (\<lambda>ch t w. case loop_receive fds ch None w of Inl _ \<Rightarrow> Inl Blocks
        | Inr (bs, w1) \<Rightarrow> Inr (if bs = [] then None else Some bs, w1)),
     closeComms = (\<lambda>w. w)\<rparr>"

definition u_on_loop :: "'b io_env \<Rightarrow> (channel \<Rightarrow> fd) \<Rightarrow> ('b, ('b, 's) loop_world) u_env \<Rightarrow> bool" where
  "u_on_loop env fds ue \<longleftrightarrow> u_pb ue = env \<and> u_icomms ue = u_loop env fds"

text \<open>A unified client over sockets with the daemon's modes and no database.\<close>

definition u_ready :: "originator \<Rightarrow> daemon \<Rightarrow> u_client \<Rightarrow> bool" where
  "u_ready og d c \<longleftrightarrow> u_og c = og \<and> u_backend c = SOCKET \<and> u_comms c \<and> u_db c = None \<and> \<not> USE_DB (u_cfg c) \<and>
     SYSTEM_MODE (u_cfg c) = SYSTEM_MODE (d_cfg d) \<and> SIMULATOR_MODE (u_cfg c) = SIMULATOR_MODE (d_cfg d) \<and>
     \<not> USE_DB (d_cfg d)"

lemma u_loop_store:
  assumes "u_on_loop env fds ue" "transmits env m" "dispatch env m (lw_daemon w) = Inr (d, out, False, [])"
  shows "u_send_on ue ch m dest w = Inr (w\<lparr>lw_daemon := d\<rparr>)"
  using loop_store [OF assms(2,3)] assms(1) by (simp add: u_send_on_def u_on_loop_def u_loop_def)

lemma u_loop_request:
  assumes "u_on_loop env fds ue" "transmits env m" "dispatch env m (lw_daemon w) = Inr (d, out, True, [])"
    and "transmits env out" "lw_inbox w (fds ch) = []"
  shows "\<exists>w1 bs. u_send_on ue ch m dest w = Inr w1 \<and>
     recvMsg (u_icomms ue) ch t w1 = Inr (Some bs, w\<lparr>lw_daemon := d\<rparr>) \<and> parse env bs = Some out"
proof -
  obtain w1 bs where "loop_send env fds ch (SerializeAsString env m) w = Inr (0, w1)"
    "loop_receive fds ch None w1 = Inr (bs, w\<lparr>lw_daemon := d\<rparr>)" "bs \<noteq> []" "parse env bs = Some out"
    using loop_request [where t = None and fds = fds and ch = ch and w = w, OF assms(2-5)] by blast
  then show ?thesis using assms(1)
    by (intro exI [of _ w1] exI [of _ bs]) (simp add: u_send_on_def u_on_loop_def u_loop_def)
qed

lemma base_fields [nsb_simps]:
  "manifest (with_code code (buildBaseMsg opn og)) = \<lparr>man_op = opn, man_og = og, man_code = code\<rparr>"
  "has_manifest (with_code code (buildBaseMsg opn og))"
  "metadata (with_code code (buildBaseMsg opn og)) = empty_metadata"
  "\<not> has_metadata (with_code code (buildBaseMsg opn og))" "\<not> has_intro (with_code code (buildBaseMsg opn og))"
  by (simp_all add: with_code_def buildBaseMsg_def nsb_simps empty_manifest_def)

lemma u_receive_request_fields [nsb_simps]:
  "manifest (u_receive_request c k) = \<lparr>man_op = RECEIVE, man_og = u_og c, man_code = SUCCESS\<rparr>"
  "has_metadata (u_receive_request c k)" "dest_id (metadata (u_receive_request c k)) = (if k = [] then u_id c else k)"
  by (simp_all add: u_receive_request_def nsb_simps)

lemma u_fetch_request_fields [nsb_simps]:
  "manifest (u_fetch_request c k) = \<lparr>man_op = FETCH, man_og = u_og c, man_code = SUCCESS\<rparr>"
  "has_metadata (u_fetch_request c k) \<longleftrightarrow> k \<noteq> [] \<or> SIMULATOR_MODE (u_cfg c) = PER_NODE"
  "src_id (metadata (u_fetch_request c k)) = (if k \<noteq> [] then k else if SIMULATOR_MODE (u_cfg c) = PER_NODE then u_id c else [])"
  by (simp_all add: u_fetch_request_def Let_def nsb_simps empty_metadata_def)

text \<open>The message of \<open>send\<close> and \<open>post\<close> without a database.\<close>

definition u_message :: "operation \<Rightarrow> originator \<Rightarrow> string \<Rightarrow> string \<Rightarrow> string \<Rightarrow> nsbm" where
  "u_message opn og src dest pl = set_payload pl
     (set_metadata (\<lambda>h. h\<lparr>src_id := src, dest_id := dest, payload_size := int_of_size pl\<rparr>)
       (with_code MESSAGE (buildBaseMsg opn og)))"

lemma u_message_fields [nsb_simps]:
  "manifest (u_message opn og src dest pl) = \<lparr>man_op = opn, man_og = og, man_code = MESSAGE\<rparr>"
  "metadata (u_message opn og src dest pl) = \<lparr>src_id = src, dest_id = dest, payload_size = int_of_size pl\<rparr>"
  "payload (u_message opn og src dest pl) = pl"
  by (simp_all add: u_message_def nsb_simps empty_metadata_def)

lemma u_data_loop:
  assumes "u_on_loop env fds ue" "u_db c = None" "\<not> USE_DB (u_cfg c)" "u_og c = og"
    and "transmits env (u_message opn og src dest pl)"
    and "dispatch env (u_message opn og src dest pl) (lw_daemon w) = Inr (d, out, False, [])"
  shows "u_data ue opn src dest pl c w = Inr ([], c, w\<lparr>lw_daemon := d\<rparr>)"
  using u_loop_store [OF assms(1,5,6)] assms(2-4)
  by (simp add: u_data_def u_setPayload_def u_message_def)

lemma u_take_loop:
  assumes "u_on_loop env fds ue" "u_ready og d0 c" "SYSTEM_MODE (u_cfg c) = PULL"
    and "transmits env req" "dispatch env req (lw_daemon w) = Inr (d, entry_reply d opn e response_template, True, [])"
    and "transmits env (entry_reply d opn e response_template)" "lw_inbox w (fds RECV_CH) = []"
    and "opn \<in> set ops" "\<not> USE_DB (d_cfg d)"
  shows "u_take ue ops req t c w = Inr (if entry_exists e then e else empty_entry, c, w\<lparr>lw_daemon := d\<rparr>)"
proof -
  let ?r = "entry_reply d opn e response_template"
  obtain w1 bs where w1: "u_send_on ue RECV_CH req [] w = Inr w1"
    "recvMsg (u_icomms ue) RECV_CH t w1 = Inr (Some bs, w\<lparr>lw_daemon := d\<rparr>)" "parse env bs = Some ?r"
    using u_loop_request [where ch = RECV_CH and dest = "[]" and t = t and w = w, OF assms(1,4-7)] by blast
  have pl: "u_getPayload ue ?r c (w\<lparr>lw_daemon := d\<rparr>) = (payload ?r, c, w\<lparr>lw_daemon := d\<rparr>)"
    using assms(2) by (simp add: u_getPayload_def u_ready_def)
  have "src_id (metadata ?r) = source e" "dest_id (metadata ?r) = destination e"
    "payload ?r = payload_obj e" "payload_size (metadata ?r) = entry_size e" if "entry_exists e"
    using that assms(9) by (simp_all add: entry_reply_def put_entry_def msg_set_payload_obj_def nsb_simps)
  with w1 pl assms(1-3,8) show ?thesis
    by (simp add: u_take_def u_ready_def u_on_loop_def nsb_simps)
qed

section \<open>Against the socket daemon\<close>

text \<open>C33: A system-wide simulator of the unified client that fetches without naming a source never
  gets anything: its request has no metadata, so the daemon answers NO_MESSAGE and keeps
  whatever it holds, while \<open>NSBSimClient\<close> in the same situation is given the oldest message.\<close>

theorem unified_fetch_starves:
  assumes "u_on_loop env fds ue" "u_ready SIM_CLIENT (lw_daemon w) c"
    and "on_loop env fds exec ce" "ready SIM_CLIENT (lw_daemon w) c0"
    and "SYSTEM_MODE (d_cfg (lw_daemon w)) = PULL" "SIMULATOR_MODE (d_cfg (lw_daemon w)) = SYSTEM_WIDE"
    and "tx_buffer (lw_daemon w) = e # tx" "deliverable env (lw_daemon w) e" "lw_inbox w (fds RECV_CH) = []"
    and "transmits env (u_fetch_request c [])" "transmits env (fetch_request c0 SIM_CLIENT None)"
    and "transmits env (entry_reply (lw_daemon w) FETCH empty_entry response_template)"
  shows "u_sim_fetch ue t [] c w = Inr (empty_entry, c, w) \<and>
     sim_fetch ce None t0 c0 w = Inr (e, c0, w\<lparr>lw_daemon := (lw_daemon w)\<lparr>tx_buffer := tx\<rparr>\<rparr>)"
proof
  let ?d = "lw_daemon w"
  have m: "\<not> has_metadata (u_fetch_request c [])" "SYSTEM_MODE (u_cfg c) = PULL" "\<not> USE_DB (d_cfg ?d)"
    using assms(2,5,6) by (simp_all add: nsb_simps u_ready_def)
  have "dispatch env (u_fetch_request c []) ?d = Inr (?d, entry_reply ?d FETCH empty_entry response_template, True, [])"
    using m(1) by (simp add: dispatch_def nsb_simps no_sends_def handle_fetch_def take_keyed_def entry_or_blank_def)
  from u_loop_request [where ch = RECV_CH and dest = "[]" and t = t and w = w, OF assms(1,10) this assms(12,9)]
  show "u_sim_fetch ue t [] c w = Inr (empty_entry, c, w)"
    using assms(1,2) m(2) by (auto simp: u_sim_fetch_def u_take_def u_ready_def u_on_loop_def nsb_simps)
  have k: "take_keyed source True (src_id (metadata (fetch_request c0 SIM_CLIENT None))) (tx_buffer ?d) = (Some e, tx)"
    using assms(4,6,7) by (simp add: nsb_simps take_keyed_def pop_front_def ready_def)
  show "sim_fetch ce None t0 c0 w = Inr (e, c0, w\<lparr>lw_daemon := ?d\<lparr>tx_buffer := tx\<rparr>\<rparr>)"
    using sim_fetch_loop [OF assms(3) _ _ _ assms(5) m(3) k _ assms(11) _ assms(9)] assms(4,5,8) m(3)
    by (auto simp: ready_def deliverable_def)
qed

definition wit_u_env :: "fd \<Rightarrow> (nsbm, (nsbm, string \<Rightarrow> string option) loop_world) u_env" where
  "wit_u_env f = \<lparr>u_pb = fragment_env, u_icomms = u_loop fragment_env (wit_fds f),
     u_sockname = (\<lambda>ch. Some (''127.0.0.1'', word_of_int (40000 + f + int (channel_code ch)))),
     u_redisConnect = (\<lambda>_ _. Some False), u_redis = loop_redis map_server, u_clock = (\<lambda>_. 7)\<rparr>"

lemma wit_u_env_on_loop [simp]: "u_on_loop fragment_env (wit_fds f) (wit_u_env f)"
  by (simp add: u_on_loop_def wit_u_env_def)

definition wit_u :: "originator \<Rightarrow> string \<Rightarrow> u_client" where
  "wit_u og i = new_u_client i ''127.0.0.1'' SOCKET og"

lemma wit_u_ready [simp]: "d_cfg d = default_cfg \<Longrightarrow> u_ready og d (wit_u og i)"
  by (simp add: u_ready_def wit_u_def new_u_client_def default_cfg_def)

theorem unified_fetch_starves_witness:
  "u_sim_fetch (wit_u_env 5) 30 [] (wit_u SIM_CLIENT ''sim'')
       (wit_world\<lparr>lw_daemon := wit_daemon\<lparr>tx_buffer := [mk_entry ''a'' ''b'' ''hi'' 2]\<rparr>\<rparr>)
     = Inr (empty_entry, wit_u SIM_CLIENT ''sim'', wit_world\<lparr>lw_daemon := wit_daemon\<lparr>tx_buffer := [mk_entry ''a'' ''b'' ''hi'' 2]\<rparr>\<rparr>) \<and>
   sim_fetch (wit_env 5) None 30 (new_sim_client ''sim'')
       (wit_world\<lparr>lw_daemon := wit_daemon\<lparr>tx_buffer := [mk_entry ''a'' ''b'' ''hi'' 2]\<rparr>\<rparr>)
     = Inr (mk_entry ''a'' ''b'' ''hi'' 2, new_sim_client ''sim'', wit_world\<lparr>lw_daemon := wit_daemon\<lparr>tx_buffer := []\<rparr>\<rparr>)"
  using unified_fetch_starves [OF wit_u_env_on_loop [of 5] _ wit_env_on_loop [of 5], of
      "wit_world\<lparr>lw_daemon := wit_daemon\<lparr>tx_buffer := [mk_entry ''a'' ''b'' ''hi'' 2]\<rparr>\<rparr>" "wit_u SIM_CLIENT ''sim''"
      "new_sim_client ''sim''" "mk_entry ''a'' ''b'' ''hi'' 2" "[]" 30 30]
  by (simp add: wit_world_def wit_daemon_def ready_def new_sim_client_def new_client_def default_cfg_def)

text \<open>Destroying a unified client that still has its interface sends EXIT, which stops the one
  daemon that all clients share: it is no longer running afterwards, with everything else,
  the undelivered messages included, left as it was.\<close>

theorem unified_destructor_stops_daemon:
  assumes "u_on_loop env fds ue" "u_comms c" "transmits env (with_code SUCCESS (buildBaseMsg EXIT (u_og c)))"
  shows "u_destroy ue c w = w\<lparr>lw_daemon := (lw_daemon w)\<lparr>running := False\<rparr>\<rparr>"
proof -
  have s: "stop (lw_daemon w) = (lw_daemon w)\<lparr>running := False\<rparr>" by (cases "lw_daemon w") (simp add: stop_def)
  have "dispatch env (with_code SUCCESS (buildBaseMsg EXIT (u_og c))) (lw_daemon w) =
      Inr (stop (lw_daemon w), response_template, False, [])"
    by (simp add: dispatch_def nsb_simps)
  from u_loop_store [OF assms(1,3) this, of CTRL "[]"] assms(1,2) show ?thesis
    by (simp add: u_destroy_def u_exit_def u_on_loop_def u_loop_def s)
qed

theorem unified_destructor_stops_daemon_witness:
  "running (lw_daemon (u_destroy (wit_u_env 5) (wit_u APP_CLIENT ''a'') (wit_world\<lparr>lw_daemon := wit_daemon\<lparr>running := True\<rparr>\<rparr>))) = False"
  using unified_destructor_stops_daemon [OF wit_u_env_on_loop [of 5], of "wit_u APP_CLIENT ''a''"
      "wit_world\<lparr>lw_daemon := wit_daemon\<lparr>running := True\<rparr>\<rparr>"]
  by (simp add: wit_u_def new_u_client_def)

text \<open>A second simulator at a system-wide daemon: its INIT is refused, the constructor throws, and the
  destruction of the half-built client sends EXIT, so the attempt to join stops the daemon that
  every other client uses.\<close>

theorem refused_init_stops_daemon:
  assumes "u_on_loop env fds ue" "SIMULATOR_MODE (d_cfg (lw_daemon w)) = SYSTEM_WIDE" "sim_client_lookup (lw_daemon w) \<noteq> []"
    and "c = new_u_client ident host b SIM_CLIENT" "lw_inbox w (fds CTRL) = []"
    and "transmits env (u_init_request ue c)" "transmits env (init_reply (lw_daemon w) False response_template)"
      "transmits env (with_code SUCCESS (buildBaseMsg EXIT SIM_CLIENT))"
  shows "u_construct ue t c w = Inr (Inl (Throws ''NSB INIT failed''), w\<lparr>lw_daemon := (lw_daemon w)\<lparr>running := False\<rparr>\<rparr>)"
proof -
  let ?d = "lw_daemon w"
  have req: "man_op (manifest (u_init_request ue c)) = INIT" "man_og (manifest (u_init_request ue c)) = SIM_CLIENT"
    "has_intro (u_init_request ue c)"
    by (simp_all add: u_init_request_def Let_def getSetChannelAddrPort_def nsb_simps assms(4) new_u_client_def
        split: option.split)
  have "dispatch env (u_init_request ue c) ?d = Inr (?d, init_reply ?d False response_template, True, [])"
    using req assms(2,3) by (simp add: dispatch_def no_sends_def handle_init_def Let_def map_size_def)
  from u_loop_request [where t = t and w = w and fds = fds and ch = CTRL and dest = "[]", OF assms(1,6) this assms(7,5)]
  obtain w1 bs where x: "u_send_on ue CTRL (u_init_request ue c) [] w = Inr w1"
    "recvMsg (u_icomms ue) CTRL t w1 = Inr (Some bs, w)"
    "parse env bs = Some (init_reply ?d False response_template)" by auto
  have "u_pb ue = env" using assms(1) by (simp add: u_on_loop_def)
  with x(3) have r: "u_init_result ue (Some bs) c = Inl (Throws ''NSB INIT failed'')"
    by (simp add: u_init_result_def u_accept_config_def nsb_simps)
  have s: "stop ?d = ?d\<lparr>running := False\<rparr>" by (cases ?d) (simp add: stop_def)
  have "dispatch env (with_code SUCCESS (buildBaseMsg EXIT (u_og c))) ?d = Inr (stop ?d, response_template, False, [])"
    by (simp add: dispatch_def nsb_simps)
  from u_loop_store [OF assms(1) _ this, of CTRL "[]"] assms(1,4,8)
  have "u_destroy ue c w = w\<lparr>lw_daemon := ?d\<lparr>running := False\<rparr>\<rparr>"
    by (simp add: u_destroy_def u_exit_def u_on_loop_def u_loop_def s new_u_client_def)
  with x r show ?thesis by (simp add: u_construct_def u_init_exchange_def)
qed

theorem refused_init_stops_daemon_witness:
  "\<exists>w. u_construct (wit_u_env 8) 5 (new_u_client ''sim2'' [] SOCKET SIM_CLIENT)
       (wit_world\<lparr>lw_daemon := wit_daemon\<lparr>running := True, sim_client_lookup := [(''simulator'', client_details_of empty_nsbm [])]\<rparr>\<rparr>)
     = Inr (Inl (Throws ''NSB INIT failed''), w) \<and> \<not> running (lw_daemon w)"
proof -
  let ?w = "wit_world\<lparr>lw_daemon := wit_daemon\<lparr>running := True, sim_client_lookup := [(''simulator'', client_details_of empty_nsbm [])]\<rparr>\<rparr>"
  have "SIMULATOR_MODE (d_cfg (lw_daemon ?w)) = SYSTEM_WIDE" "sim_client_lookup (lw_daemon ?w) \<noteq> []" "lw_inbox ?w = (\<lambda>_. [])"
    by (simp_all add: wit_daemon_def default_cfg_def wit_world_def)
  with refused_init_stops_daemon [OF wit_u_env_on_loop [of 8], where w = ?w and t = 5 and ident = "''sim2''" and host = "[]" and b = SOCKET]
  show ?thesis by simp
qed

text \<open>A message from application to application over the unified client.\<close>

definition u_relay :: "('b, 'w) u_env \<Rightarrow> ('b, 'w) u_env \<Rightarrow> ('b, 'w) u_env \<Rightarrow> u_client \<Rightarrow> u_client \<Rightarrow> u_client \<Rightarrow>
    string \<Rightarrow> string \<Rightarrow> int \<Rightarrow> 'w \<Rightarrow> rt_error + message_entry \<times> 'w" where
  "u_relay ea es eb ca cs cb dest pl t w =
     bind_res (u_app_send ea dest pl ca w) (\<lambda>(_, _, w1).
     bind_res (u_sim_fetch es t (u_id ca) cs w1) (\<lambda>(e, cs1, w2).
     bind_res (u_sim_post es (source e) (destination e) (payload_obj e) cs1 w2) (\<lambda>(_, _, w3).
     bind_res (u_app_receive eb t [] cb w3) (\<lambda>(e', _, w4). Inr (e', w4)))))"

text \<open>With the source named, the unified client over sockets interoperates with the daemon: what
  an application sends the destination receives unchanged, and daemon and network are as before,
  whatever other messages the daemon holds.\<close>

theorem unified_relay_delivers:
  fixes ca cb :: u_client and dest pl :: string and w :: "('b, 's) loop_world"
  defines "e \<equiv> mk_entry (u_id ca) dest pl (int_of_size pl)"
  assumes net: "u_on_loop env fa ea" "u_on_loop env fs es" "u_on_loop env fb eb"
    and rdy: "u_ready APP_CLIENT (lw_daemon w) ca" "u_ready SIM_CLIENT (lw_daemon w) cs" "u_ready APP_CLIENT (lw_daemon w) cb"
    and md: "SYSTEM_MODE (d_cfg (lw_daemon w)) = PULL" "u_id cb = dest"
    and dl: "deliverable env (lw_daemon w) e"
    and fresh: "\<forall>x\<in>set (tx_buffer (lw_daemon w)). source x \<noteq> u_id ca"
      "\<forall>x\<in>set (rx_buffer (lw_daemon w)). destination x \<noteq> dest"
    and box: "lw_inbox w (fs RECV_CH) = []" "lw_inbox w (fb RECV_CH) = []"
    and tr: "transmits env (u_message SEND APP_CLIENT (u_id ca) dest pl)" "transmits env (u_message POST SIM_CLIENT (u_id ca) dest pl)"
      "transmits env (u_fetch_request cs (u_id ca))" "transmits env (u_receive_request cb [])"
  shows "u_relay ea es eb ca cs cb dest pl t w = Inr (e, w)"
proof -
  let ?d = "lw_daemon w"
  let ?d1 = "?d\<lparr>tx_buffer := tx_buffer ?d @ [e]\<rparr>" and ?d3 = "?d\<lparr>rx_buffer := rx_buffer ?d @ [e]\<rparr>"
  have ex: "entry_exists e" "u_id ca \<noteq> []" "dest \<noteq> []" "u_id cb \<noteq> []"
    using dl md(2) by (auto simp: deliverable_def e_def)
  have db: "\<not> USE_DB (d_cfg ?d)" using rdy(1) by (simp add: u_ready_def)
  have ent: "entry_of_msg ?d (u_message opn og (u_id ca) dest pl) = e" for opn og
    using db by (simp add: entry_of_msg_def msg_get_payload_obj_def nsb_simps e_def)
  note op = is_op_def u_message_fields
  have "dispatch env (u_message SEND APP_CLIENT (u_id ca) dest pl) ?d = Inr (?d1, response_template, False, [])"
    using dispatch_send_pull [OF md(1), of _ env] ent by (simp add: op)
  from u_data_loop [where src = "u_id ca" and w = w and fds = fa and c = ca and ue = ea, OF net(1) _ _ _ _ this] rdy(1) tr(1)
  have 1: "u_app_send ea dest pl ca w = Inr ([], ca, w\<lparr>lw_daemon := ?d1\<rparr>)"
    by (simp add: u_app_send_def u_ready_def)
  have "take_keyed source True (u_id ca) (tx_buffer ?d @ [e]) = (Some e, tx_buffer ?d)"
    using take_keyed_appended [OF ex(2) fresh(1)] by (simp add: e_def)
  then have "dispatch env (u_fetch_request cs (u_id ca)) (lw_daemon (w\<lparr>lw_daemon := ?d1\<rparr>)) =
      Inr (?d, entry_reply ?d FETCH e response_template, True, [])"
    using dispatch_fetch [of "u_fetch_request cs (u_id ca)" ?d1 "Some e" "tx_buffer ?d" env] ex(2) entry_reply_cfg [of ?d1 ?d]
    by (simp add: nsb_simps)
  from u_take_loop [where t = t and fds = fs and ue = es and c = cs and w = "w\<lparr>lw_daemon := ?d1\<rparr>",
      OF net(2) rdy(2) _ tr(3) this deliverable_transmits [OF dl refl] _ _ db, of "[SEND, FETCH, FORWARD]"]
  have 2: "u_sim_fetch es t (u_id ca) cs (w\<lparr>lw_daemon := ?d1\<rparr>) = Inr (e, cs, w)"
    using rdy(2) md(1) box(1) ex(1) by (simp add: u_sim_fetch_def u_ready_def)
  have "dispatch env (u_message POST SIM_CLIENT (u_id ca) dest pl) ?d = Inr (?d3, response_template, False, [])"
    using dispatch_post_pull [OF md(1), of _ env] ent by (simp add: op)
  from u_data_loop [where src = "u_id ca" and w = w and fds = fs and c = cs and ue = es, OF net(2) _ _ _ _ this] rdy(2) tr(2)
  have 3: "u_sim_post es (u_id ca) dest pl cs w = Inr ([], cs, w\<lparr>lw_daemon := ?d3\<rparr>)"
    by (simp add: u_sim_post_def u_ready_def)
  have "take_keyed destination True dest (rx_buffer ?d @ [e]) = (Some e, rx_buffer ?d)"
    using take_keyed_appended [OF ex(3) fresh(2)] by (simp add: e_def)
  then have "dispatch env (u_receive_request cb []) (lw_daemon (w\<lparr>lw_daemon := ?d3\<rparr>)) =
      Inr (?d, entry_reply ?d RECEIVE e response_template, True, [])"
    using dispatch_receive [of "u_receive_request cb []" ?d3 "Some e" "rx_buffer ?d" env] md(2) entry_reply_cfg [of ?d3 ?d]
    by (simp add: nsb_simps)
  from u_take_loop [where t = t and fds = fb and ue = eb and c = cb and w = "w\<lparr>lw_daemon := ?d3\<rparr>",
      OF net(3) rdy(3) _ tr(4) this deliverable_transmits [OF dl refl] _ _ db, of "[SEND, RECEIVE, FORWARD, POST]"]
  have 4: "u_app_receive eb t [] cb (w\<lparr>lw_daemon := ?d3\<rparr>) = Inr (e, cb, w)"
    using rdy(3) md(1) box(2) ex(1) by (simp add: u_app_receive_def u_ready_def)
  show ?thesis unfolding u_relay_def using 1 2 3 4 by (simp add: e_def)
qed

theorem unified_relay_delivers_witness:
  "u_relay (wit_u_env 5) (wit_u_env 8) (wit_u_env 11) (wit_u APP_CLIENT ''a'') (wit_u SIM_CLIENT ''sim'') (wit_u APP_CLIENT ''b'')
     ''b'' ''hello'' 30 wit_world = Inr (mk_entry ''a'' ''b'' ''hello'' 5, wit_world)"
  using unified_relay_delivers [OF wit_u_env_on_loop [of 5] wit_u_env_on_loop [of 8] wit_u_env_on_loop [of 11], of wit_world
      "wit_u APP_CLIENT ''a''" "wit_u SIM_CLIENT ''sim''" "wit_u APP_CLIENT ''b''" "''b''" "''hello''" 30]
  by (simp add: wit_world_def wit_daemon_def default_cfg_def wit_u_def new_u_client_def u_ready_def int_of_size_def)

section \<open>Receiving on the socket backend\<close>

lemma sb_recvMsg_returns:
  assumes "map_find (sb_conns w) ch = Some f" "sb_rounds w f = r # rs"
  shows "\<exists>b w'. sb_recvMsg ch t w = Inr (b, w') \<and> sb_conns w' = sb_conns w \<and> sb_rounds w' f = rs"
  using assms by (auto simp: sb_recvMsg_def sb_fd_def Let_def split: round.split prod.split)

lemma recv_n_returns:
  "map_find (sb_conns w) ch = Some f \<Longrightarrow> n \<le> length (sb_rounds w f) \<Longrightarrow>
     \<exists>ms w'. recv_n (\<lambda>w. some_bytes (sb_recvMsg ch t w)) n w = Inr (ms, w')"
proof (induction n arbitrary: w)
  case (Suc n)
  obtain r rs where "sb_rounds w f = r # rs" using Suc.prems(2) by (cases "sb_rounds w f") auto
  with sb_recvMsg_returns [OF Suc.prems(1) this, of t] Suc.prems
  obtain b w1 where w1: "sb_recvMsg ch t w = Inr (b, w1)" "map_find (sb_conns w1) ch = Some f" "n \<le> length (sb_rounds w1 f)"
    by auto
  obtain ms w2 where "recv_n (\<lambda>w. some_bytes (sb_recvMsg ch t w)) n w1 = Inr (ms, w2)"
    using Suc.IH [OF w1(2,3)] by blast
  with w1(1) show ?case by (simp add: some_bytes_def)
qed simp

text \<open>C38: \<open>SocketBackend::recvMsg\<close> returns after one \<open>select\<close>, whatever the peer did, and \<open>n\<close> calls
  cut the channel's stream of bytes into their results: nothing is lost, repeated or reordered.
  (\<open>SocketInterface::receiveMessage\<close> in the same position never returns once the peer has closed.)\<close>

theorem socket_backend_stream:
  assumes "map_find (sb_conns w) ch = Some f" "n \<le> length (sb_rounds w f)"
  shows "\<exists>ms w'. recv_n (\<lambda>w. some_bytes (sb_recvMsg ch t w)) n w = Inr (ms, w') \<and> length ms = n \<and>
     concat ms @ sb_inbound ch w' = sb_inbound ch w"
  using recv_n_returns [OF assms, of t] socket_backend.recv_n_stream socket_backend.length_recv_n by blast

definition wit_sb :: "nat sb_state" where
  "wit_sb = \<lparr>sb_conns = [(RECV_CH, 7)], sb_closed = False, sb_send = (\<lambda>_. []), sb_wire = (\<lambda>_. []),
     sb_queue = (\<lambda>_. [1]), sb_rounds = (\<lambda>_. [Ready [[2, 3]], Ready [[]], SelectTimeout]), sb_calls = []\<rparr>"

theorem socket_backend_stream_witness:
  "\<exists>ms w'. recv_n (\<lambda>w. some_bytes (sb_recvMsg RECV_CH 5 w)) 3 wit_sb = Inr (ms, w') \<and> length ms = 3"
  using socket_backend_stream [of wit_sb RECV_CH 7 3 5] by (force simp: wit_sb_def map_find_def)

section \<open>The payload store\<close>

text \<open>The unified connector keeps a payload byte for byte, NUL bytes included: \<open>peek\<close> and
  \<open>checkOut\<close> return exactly what \<open>store\<close> was given, a second \<open>checkOut\<close> nothing, and the other
  keys of the database are as they were.\<close>

theorem unified_store_exact:
  assumes "redis_laws exec view" "isConnected c" "u_store exec now v c s = (key, c1, s1)"
  shows "\<exists>s2 s3 s4. u_peek exec key c1 s1 = (v, c1, s2) \<and> u_checkOut exec key c1 s2 = (v, c1, s3) \<and>
     u_checkOut exec key c1 s3 = ([], c1, s4) \<and> view s4 = (view s)(c_str key := None)"
proof -
  obtain s1' where e: "exec [''SET'', c_str (fst (u_generateKey now c)), v] s = (Some (StatusReply ''OK''), s1')"
    "view s1' = (view s)(c_str (fst (u_generateKey now c)) \<mapsto> v)"
    using assms(1) by (rule redis_lawsE)
  with assms(2,3) have k: "view s1 = (view s)(c_str key \<mapsto> v)" "isConnected c1"
    by (auto simp: u_store_def u_generateKey_def Let_def isConnected_def)
  obtain s2 where s2: "exec [''GET'', c_str key] s1 = (Some (StrReply v), s2)" "view s2 = view s1"
    using redis_get [OF assms(1), of "c_str key" s1] k(1) by auto
  obtain s3 where s3: "exec [''GETDEL'', c_str key] s2 = (Some (StrReply v), s3)" "view s3 = (view s)(c_str key := None)"
    using redis_getdel [OF assms(1), of "c_str key" s2] k(1) s2(2) by auto
  obtain s4 where s4: "exec [''GETDEL'', c_str key] s3 = (Some NilReply, s4)" "view s4 = view s3"
    using redis_getdel [OF assms(1), of "c_str key" s3] s3(2) by auto
  show ?thesis
    using s2 s3 s4 k(2) by (intro exI [of _ s2] exI [of _ s3] exI [of _ s4])
      (simp add: u_peek_def u_checkOut_def getdel_cmd_def get_cmd_def)
qed

theorem unified_store_exact_witness:
  "\<exists>key c1 s1 s2. u_store map_server 100 [CHR ''h'', CHR 0x00, CHR ''x''] wit_redis Map.empty = (key, c1, s1) \<and>
     u_peek map_server key c1 s1 = ([CHR ''h'', CHR 0x00, CHR ''x''], c1, s2)"
proof -
  obtain key c1 s1 where st: "u_store map_server 100 [CHR ''h'', CHR 0x00, CHR ''x''] wit_redis Map.empty = (key, c1, s1)"
    by (metis prod_cases3)
  have "isConnected wit_redis" by (simp add: isConnected_def wit_redis_def)
  from unified_store_exact [OF map_server_laws this st] st show ?thesis by auto
qed

section \<open>On RabbitMQ\<close>

text \<open>The RabbitMQ backend while the daemon serves its request queue: before a client looks at its own
  queue the daemon has made a pass.\<close>

definition served :: "'b io_env \<Rightarrow> ('b, 'm) amqp \<Rightarrow> config_params \<Rightarrow> ('b, 'm rb_state) icomms" where
  "served env br cf = (RabbitMQBackend br)\<lparr>recvMsg := (\<lambda>ch t w.
     rb_recv br ch t (w\<lparr>rb_broker := rmq_daemon_step env br cf (rb_broker w)\<rparr>))\<rparr>"

definition rb_ready :: "u_client \<Rightarrow> 'm rb_state \<Rightarrow> bool" where
  "rb_ready c w \<longleftrightarrow> u_backend c = RABBITMQ \<and> u_id c \<noteq> [] \<and> rq_open (rb_if w) \<and> q_ctrl (rb_if w) = ctrl_queue (u_id c)"

lemma rb_send_ctrl:
  assumes "rb_ready c w" "u_icomms ue = served env br cf" "u_pb ue = env"
  shows "u_send_on ue CTRL m dest w = Inr (w\<lparr>rb_broker := publish br request_queue (SerializeAsString env m) (rb_broker w)\<rparr>)"
  using assms by (simp add: u_send_on_def served_def RabbitMQBackend_def rb_send_def rmq_send_def rb_ready_def routing_key_def)

lemma rmq_daemon_silent:
  assumes "amqp_laws br qs" "prompt br qs" "qs m request_queue = Some (SerializeAsString env req # l)"
    and "transmits env req" "daemon_replies cf req = []"
  shows "qs (rmq_daemon_step env br cf m) = (qs m)(request_queue := Some l)"
proof -
  obtain m1 where "consume br request_queue m = (Some (SerializeAsString env req), m1)"
    "qs m1 = (qs m)(request_queue := Some l)"
    by (rule amqp_consume_Some [where qs = qs and m = m and q = "request_queue"
        and x = "SerializeAsString env req" and l = l, OF assms(1-3)])
  with assms(4,5) show ?thesis
    by (simp add: rmq_daemon_step_def rmq_handle_message_def SerializeAsString_parse)
qed

lemma rmq_recv_loop_empty:
  assumes "amqp_laws br qs" "qs m q = Some []" "t > 0"
  shows "\<exists>m1. rmq_recv_loop br q t (replicate n False @ [True]) m = Inr (None, m1) \<and> qs m1 = qs m"
  using assms
proof (induction n arbitrary: m)
  case 0
  then show ?case using amqp_cancel_empty [of br qs m q] by (simp add: rmq_recv_loop.simps)
next
  case (Suc n)
  obtain m1 where m1: "consume br q m = (None, m1)" "qs m1 = qs m"
    using amqp_consume_empty [OF Suc.prems(1,2)] .
  obtain m2 where "rmq_recv_loop br q t (replicate n False @ [True]) m1 = Inr (None, m2)" "qs m2 = qs m1"
    using Suc.IH [OF Suc.prems(1) _ Suc.prems(3), of m1] m1(2) Suc.prems(2) by auto
  with m1 Suc.prems(3) show ?case by (subst rmq_recv_loop.simps) simp
qed

lemma rmq_recv_empty:
  assumes "amqp_laws br qs" "qs m (queue_name ch r) = Some []" "rq_open r" "t > 0"
  shows "\<exists>m1. rmq_recv br ch t (replicate n False @ [True]) r m = Inr (None, m1) \<and> qs m1 = qs m"
  using rmq_recv_loop_empty [OF assms(1) _ assms(4), of "subscribe br (queue_name ch r) m" "queue_name ch r" n]
    amqp_subscribe [OF assms(1)] assms(2,3)
  by (auto simp: rmq_recv_def)

lemma u_init_request_rabbit:
  "u_backend c = RABBITMQ \<Longrightarrow> u_id c \<noteq> [] \<Longrightarrow>
     daemon_replies cf (u_init_request ue c) = [(ctrl_queue (u_id c), init_answer cf)]"
  by (simp add: u_init_request_def Let_def daemon_replies_def nsb_simps reply_init_def init_answer_def)
    (simp add: has_manifest_def set_intro_def set_manifest_def with_code_def buildBaseMsg_def)

lemma served_recv:
  "u_icomms ue = served env br cf \<Longrightarrow> recvMsg (u_icomms ue) ch t w =
     bind_res (rmq_recv br ch t (rb_late w) (rb_if w) (rmq_daemon_step env br cf (rb_broker w)))
       (\<lambda>(b, m). Inr (b, w\<lparr>rb_broker := m\<rparr>))"
  by (simp add: served_def rb_recv_def)

text \<open>The two exchanges, each of them leaving every queue as it was.\<close>

lemma u_initialize_rabbit:
  assumes laws: "amqp_laws br qs" "prompt br qs" and "rb_ready c w" "u_icomms ue = served env br cf" "u_pb ue = env"
    and "rb_late w = replicate (Suc n) False @ [True]"
    and q: "qs (rb_broker w) request_queue = Some []" "qs (rb_broker w) (ctrl_queue (u_id c)) = Some []"
    and "transmits env (u_init_request ue c)" "transmits env (init_answer cf)" "\<not> use_db cf"
  shows "\<exists>m. u_initialize ue t c w = Inr (c\<lparr>u_cfg := u_config (init_answer cf)\<rparr>, w\<lparr>rb_broker := m\<rparr>) \<and>
     qs m = qs (rb_broker w)"
proof -
  let ?req = "u_init_request ue c" and ?ans = "SerializeAsString env (init_answer cf)"
  let ?m1 = "publish br request_queue (SerializeAsString env ?req) (rb_broker w)"
  let ?m2 = "rmq_daemon_step env br cf ?m1"
  have r: "u_backend c = RABBITMQ" "u_id c \<noteq> []" "rq_open (rb_if w)" "q_ctrl (rb_if w) = ctrl_queue (u_id c)"
    using assms(3) by (simp_all add: rb_ready_def)
  have s: "u_send_on ue CTRL ?req [] w = Inr (w\<lparr>rb_broker := ?m1\<rparr>)"
    by (rule rb_send_ctrl [OF assms(3-5)])
  have q1: "qs ?m1 = (qs (rb_broker w))(request_queue := Some [SerializeAsString env ?req])"
    using amqp_publish [OF assms(1)] q(1) by simp
  have q2: "qs ?m2 = (qs (rb_broker w))(ctrl_queue (u_id c) := Some [?ans])"
    using rmq_daemon_answers [where m = ?m1 and l = "[]" and k = "[]", OF laws _ assms(9) u_init_request_rabbit [OF r(1,2)]] q1 q
    by (auto simp: fun_eq_iff)
  obtain m3 where m3: "rmq_recv br CTRL t (rb_late w) (rb_if w) ?m2 = Inr (Some ?ans, m3)"
    "qs m3 = (qs ?m2)(ctrl_queue (u_id c) := Some [])"
    using rmq_recv_single [OF laws _ r(3), of ?m2 CTRL ?ans t "rb_late w"] q2 r(4) assms(6) by auto
  have "u_accept_config ue (init_answer cf) c = Inr (c\<lparr>u_cfg := u_config (init_answer cf)\<rparr>)"
    using assms(11) by (simp add: u_accept_config_def Let_def nsb_simps u_config_def)
  moreover have "qs m3 = qs (rb_broker w)" using m3(2) q2 q(2) by (auto simp: fun_eq_iff)
  ultimately show ?thesis
    using s m3(1) SerializeAsString_parse [OF assms(10)] assms(5)
    by (intro exI [of _ m3]) (simp add: u_initialize_def u_init_exchange_def u_init_result_def served_recv [OF assms(4)])
qed

lemma u_ping_rabbit:
  assumes laws: "amqp_laws br qs" "prompt br qs" and "rb_ready c w" "u_icomms ue = served env br cf" "u_pb ue = env" "t > 0"
    and "rb_late w = replicate n False @ [True]"
    and q: "qs (rb_broker w) request_queue = Some []" "qs (rb_broker w) (ctrl_queue (u_id c)) = Some []"
    and "transmits env (with_code SUCCESS (buildBaseMsg PING (u_og c)))"
  shows "\<exists>m. u_ping ue t c w = Inr (False, w\<lparr>rb_broker := m\<rparr>) \<and> qs m = qs (rb_broker w)"
proof -
  let ?req = "with_code SUCCESS (buildBaseMsg PING (u_og c))"
  let ?m1 = "publish br request_queue (SerializeAsString env ?req) (rb_broker w)"
  let ?m2 = "rmq_daemon_step env br cf ?m1"
  have r: "rq_open (rb_if w)" "q_ctrl (rb_if w) = ctrl_queue (u_id c)" using assms(3) by (simp_all add: rb_ready_def)
  have s: "u_send_on ue CTRL ?req [] w = Inr (w\<lparr>rb_broker := ?m1\<rparr>)" by (rule rb_send_ctrl [OF assms(3-5)])
  have q1: "qs ?m1 = (qs (rb_broker w))(request_queue := Some [SerializeAsString env ?req])"
    using amqp_publish [OF assms(1)] q(1) by simp
  have "daemon_replies cf ?req = []" by (simp add: daemon_replies_def nsb_simps reply_ping_def)
  from rmq_daemon_silent [where m = ?m1 and l = "[]", OF laws _ assms(10) this] q1 q
  have q2: "qs ?m2 = qs (rb_broker w)" by (auto simp: fun_eq_iff)
  obtain m3 where "rmq_recv br CTRL t (rb_late w) (rb_if w) ?m2 = Inr (None, m3)" "qs m3 = qs ?m2"
    using rmq_recv_empty [OF assms(1) _ r(1) assms(6), of ?m2 CTRL n] q2 r(2) q(2) assms(7) by auto
  with s q2 show ?thesis by (intro exI [of _ m3]) (simp add: u_ping_def served_recv [OF assms(4)])
qed

text \<open>Over RabbitMQ a unified client can initialise against the running daemon but never ping it:
  \<open>initialize\<close> returns the daemon's configuration, while \<open>ping\<close>, its request served as well,
  waits out its time and returns false.\<close>

theorem unified_rabbit_handshake:
  assumes laws: "amqp_laws br qs" "prompt br qs" and "rb_ready c w" "u_icomms ue = served env br cf" "u_pb ue = env" "t > 0"
    and "rb_late w = replicate (Suc n) False @ [True]"
    and "qs (rb_broker w) request_queue = Some []" "qs (rb_broker w) (ctrl_queue (u_id c)) = Some []"
    and "transmits env (u_init_request ue c)" "transmits env (init_answer cf)" "\<not> use_db cf"
    and "transmits env (with_code SUCCESS (buildBaseMsg PING (u_og c)))"
  shows "\<exists>c1 w1 w2. u_initialize ue t c w = Inr (c1, w1) \<and> u_cfg c1 = u_config (init_answer cf) \<and>
     u_ping ue t c1 w1 = Inr (False, w2) \<and> qs (rb_broker w2) = qs (rb_broker w)"
proof -
  let ?c1 = "c\<lparr>u_cfg := u_config (init_answer cf)\<rparr>"
  obtain m where m: "u_initialize ue t c w = Inr (?c1, w\<lparr>rb_broker := m\<rparr>)" "qs m = qs (rb_broker w)"
    using u_initialize_rabbit [OF assms(1-5,7-12)] by blast
  have "rb_ready ?c1 (w\<lparr>rb_broker := m\<rparr>)" using assms(3) by (simp add: rb_ready_def)
  from u_ping_rabbit [where n = "Suc n", OF laws this assms(4-6)] m(2) assms(7-9,13)
  obtain m' where "u_ping ue t ?c1 (w\<lparr>rb_broker := m\<rparr>) = Inr (False, w\<lparr>rb_broker := m'\<rparr>)" "qs m' = qs m"
    by auto
  with m show ?thesis
    by (intro exI [of _ ?c1] exI [of _ "w\<lparr>rb_broker := m\<rparr>"] exI [of _ "w\<lparr>rb_broker := m'\<rparr>"]) simp
qed

definition wit_rb_env :: "(nsbm, (string \<Rightarrow> nsbm list list option) rb_state) u_env" where
  "wit_rb_env = \<lparr>u_pb = fragment_env, u_icomms = served fragment_env map_broker (rmq_set_config 1 1 False [] 0 0),
     u_sockname = (\<lambda>_. None), u_redisConnect = (\<lambda>_ _. None), u_redis = (\<lambda>_ s. (None, s)), u_clock = (\<lambda>_. 7)\<rparr>"

theorem unified_rabbit_handshake_witness:
  "\<exists>c1 w1 w2. u_initialize wit_rb_env 5 (new_u_client ''a'' [] RABBITMQ APP_CLIENT)
       \<lparr>rb_if = wit_rmq ''a'', rb_broker = wit_queues, rb_late = [False, True]\<rparr> = Inr (c1, w1) \<and>
     SYSTEM_MODE (u_cfg c1) = PUSH \<and> u_ping wit_rb_env 5 c1 w1 = Inr (False, w2)"
  using unified_rabbit_handshake [where w = "\<lparr>rb_if = wit_rmq ''a'', rb_broker = wit_queues, rb_late = [False, True]\<rparr>"
      and ue = wit_rb_env and env = fragment_env and c = "new_u_client ''a'' [] RABBITMQ APP_CLIENT" and t = 5 and n = 0
      and cf = "rmq_set_config 1 1 False [] 0 0", OF map_broker_laws map_broker_prompt]
  by (auto simp: wit_rb_env_def rb_ready_def new_u_client_def wit_rmq_def wit_queues_def rmq_set_config_def
      u_config_def Let_def nsb_simps system_mode_of_int_def)

end
