(* ===== verification/NSB_Examples.thy ===== *)
theory NSB_Examples
  imports NSB_Tests NSB_RMQ_Lifecycle NSB_Unified_Facts
begin

text \<open>
  The example programs of \<open>cpp/rabbit/examples\<close>: \<open>example_daemon.cpp\<close>, \<open>example_send_recv.cpp\<close> and
  \<open>example_unified.cpp\<close>.  A program's value is its exit status with what it printed of a message.
\<close>

section \<open>example_send_recv\<close>

text \<open>What the \<open>try\<close> block does; \<open>as\<close>, \<open>rs\<close> are the connection attempts and the clock readings of the calls, and
  \<open>meanwhile\<close> is what the other processes do to the broker before a response to INIT is waited for.\<close>

definition send_recv_block :: "'b io_env \<Rightarrow> ('b, 'm) amqp \<Rightarrow> connect_attempt list \<times> connect_attempt list \<Rightarrow>
    bool list \<times> bool list \<times> bool list \<Rightarrow> ('m \<Rightarrow> 'm) \<Rightarrow> 'm \<Rightarrow> rt_error + (int \<times> rmq_entry option) \<times> 'm" where
  "send_recv_block env br as rs meanwhile m =
     bind_res (new_rmq_client br (fst as) ''cpp_sender'' ''localhost'' APP_CLIENT m) (\<lambda>(s0, m1).
     bind_res (new_rmq_client br (snd as) ''cpp_receiver'' ''localhost'' APP_CLIENT m1) (\<lambda>(r0, m2).
     bind_res (rmq_initialize env br 10 (fst rs) meanwhile s0 m2) (\<lambda>(sender, m3).
     bind_res (rmq_initialize env br 10 (fst (snd rs)) meanwhile r0 m3) (\<lambda>(receiver, m4).
     bind_res (rmq_app_send env br ''cpp_receiver'' ''Hello from cpp_sender'' sender m4) (\<lambda>m5.
     bind_res (rmq_receive env br 5 (snd (snd rs)) \<lparr>re_src = [], re_dest = [], re_payload = []\<rparr> receiver m5) (\<lambda>((ok, msg), m6).
       Inr (if ok then (0, Some msg) else (2, None), m6)))))))"

text \<open>An exception gives status 1; \<open>None\<close>: the program does not end.\<close>

definition exit_status :: "rt_error + (int \<times> 'e option) \<times> 'm \<Rightarrow> (int \<times> 'e option) option" where
  "exit_status r = (case r of Inl Blocks \<Rightarrow> None | Inl (Throws _) \<Rightarrow> Some (1, None) | Inr (x, _) \<Rightarrow> Some x)"

definition example_send_recv :: "'b io_env \<Rightarrow> ('b, 'm) amqp \<Rightarrow> connect_attempt list \<times> connect_attempt list \<Rightarrow>
    bool list \<times> bool list \<times> bool list \<Rightarrow> ('m \<Rightarrow> 'm) \<Rightarrow> 'm \<Rightarrow> (int \<times> rmq_entry option) option" where
  "example_send_recv env br as rs meanwhile m = exit_status (send_recv_block env br as rs meanwhile m)"

text \<open>A new client, and the queues after its constructor: its own and the daemon's are there, empty if they were empty or not
  there; an empty queue stays empty.\<close>

definition no_mail :: "('m \<Rightarrow> string \<Rightarrow> 'b list list option) \<Rightarrow> 'm \<Rightarrow> string \<Rightarrow> bool" where
  "no_mail qs m q \<longleftrightarrow> qs m q = None \<or> qs m q = Some []"

lemma new_rmq_client_ready:
  assumes "amqp_laws br qs" "new_rmq_client br as i host og m = Inr (c, m1)" "i \<noteq> []"
  shows "rmq_ready c (the (kc_if c))" "kc_id c = i" "kc_host c = host"
    "q \<in> {request_queue, ctrl_queue i, send_queue i, recv_queue i} \<Longrightarrow> no_mail qs m q \<Longrightarrow> qs m1 q = Some []"
    "no_mail qs m q \<Longrightarrow> no_mail qs m1 q" "qs m q = Some [] \<Longrightarrow> qs m1 q = Some []"
proof -
  obtain r where r: "rmq_connect br 10 as (new_rmq i) m = Inr (r, m1)" "c = \<lparr>kc_id = i, kc_host = host, kc_og = og, kc_cfg = default_cfg, kc_if = Some r\<rparr>"
    using assms(2) by (auto simp: new_rmq_client_def bind_res_Inr)
  have "r = fst (declare_exchange_and_queues br (new_rmq i\<lparr>rq_open := True\<rparr>) m)"
    using rmq_connect_result [OF r(1)] by (metis fst_conv)
  then show "rmq_ready c (the (kc_if c))" using assms(3)
    by (simp add: r(2) rmq_ready_def declare_exchange_and_queues_def Let_def new_rmq_def)
  show "kc_id c = i" "kc_host c = host" by (simp_all add: r(2))
  have q: "qs m1 q = (if q \<in> {request_queue, ctrl_queue i, send_queue i, recv_queue i}
      then Some (case qs m q of None \<Rightarrow> [] | Some l \<Rightarrow> l) else qs m q)" for q
    using rmq_connect_declares [OF assms(1) r(1)] by simp
  show "q \<in> {request_queue, ctrl_queue i, send_queue i, recv_queue i} \<Longrightarrow> no_mail qs m q \<Longrightarrow> qs m1 q = Some []"
    unfolding q no_mail_def by auto
  show "no_mail qs m q \<Longrightarrow> no_mail qs m1 q" "qs m q = Some [] \<Longrightarrow> qs m1 q = Some []"
    unfolding q no_mail_def by auto
qed

lemma plain_rmq_init [simp]:
  "plain_text (kc_id c) \<Longrightarrow> plain_text (kc_host c) \<Longrightarrow> plain_message (rmq_init_request c)"
  by (simp add: plain_message_def rmq_init_request_def with_code_def buildBaseMsg_def nsb_simps)
    (simp add: set_intro_def config_def empty_config_def nsb_simps)

lemma plain_init_answer [simp]: "plain_text (db_address cf) \<Longrightarrow> plain_message (init_answer cf)"
  by (simp add: plain_message_def init_answer_def nsb_simps)
    (simp add: set_config_def intro_def empty_intro_def)

definition plain_setting :: "'b io_env \<Rightarrow> config_params \<Rightarrow> bool" where
  "plain_setting env cf \<longleftrightarrow> carries_plain env \<and> plain_text (db_address cf)"

lemma rmq_client_configured:
  assumes "amqp_laws br qs" "prompt br qs" "plain_setting env cf" "rmq_ready c r" "plain_text (kc_id c)" "plain_text (kc_host c)"
    and "qs m request_queue = Some []" "qs m (ctrl_queue (kc_id c)) = Some []"
  obtains m' where "rmq_initialize env br 10 (False # l) (rmq_daemon_step env br cf) c m = Inr (c\<lparr>kc_cfg := rmq_config (init_answer cf)\<rparr>, m')"
    "qs m' = qs m"
  using rmq_initialize_configures [OF assms(1,4,7) _ _ _ assms(2), of env cf 10 "False # l"] assms(3-6,8)
  by (auto simp: rmq_ready_def carries_plain_def plain_setting_def)

lemma ready_configured: "rmq_ready c r \<Longrightarrow> rmq_ready (c\<lparr>kc_cfg := x\<rparr>) r"
  by (simp add: rmq_ready_def)

lemma rmq_take_one:
  assumes "amqp_laws br qs" "prompt br qs" "rmq_ready c r" "qs m (recv_queue (kc_id c)) = Some [rmq_wire env src dest pl]"
    and "transmits env (data_message SEND APP_CLIENT src dest pl (set_payload pl))"
  shows "\<exists>m1. rmq_receive env br 5 (False # l) out c m = Inr ((True, \<lparr>re_src = src, re_dest = dest, re_payload = pl\<rparr>), m1)"
proof -
  obtain m1 where "rmq_recv br RECV_CH 5 (False # l) r m = Inr (Some (rmq_wire env src dest pl), m1)"
    using rmq_recv_single [OF assms(1,2), of m RECV_CH r _ 5 "False # l"] assms(3,4) by (auto simp: rmq_ready_def)
  then show ?thesis using unpack_wire [OF assms(5), of out] assms(3)
    by (simp add: rmq_receive_def rmq_take_def with_comms_def rmq_ready_def)
qed

text \<open>C30: The example sends its text past the daemon: when the broker can be reached and delivers promptly, the daemon
  answers the two INITs, whatever its configuration, and no mail is left in the queue of the daemon, the receiver's own queue
  or the control queues of the two clients (they are durable: what an earlier run has left there would be taken first), the
  program ends with status 0 and prints the sender and the text as they were sent.\<close>

theorem example_send_recv_delivers:
  assumes laws: "amqp_laws br qs" "prompt br qs" and env: "plain_setting env cf"
    and up: "new_rmq_client br (fst as) ''cpp_sender'' ''localhost'' APP_CLIENT m = Inr (s0, m1)"
      "new_rmq_client br (snd as) ''cpp_receiver'' ''localhost'' APP_CLIENT m1 = Inr (r0, m2)"
    and rs: "rs = (False # rs1, False # rs2, False # rs3)"
    and mail: "no_mail qs m request_queue" "no_mail qs m (ctrl_queue ''cpp_sender'')" "no_mail qs m (ctrl_queue ''cpp_receiver'')"
      "no_mail qs m (recv_queue ''cpp_receiver'')"
  shows "example_send_recv env br as rs (rmq_daemon_step env br cf) m =
     Some (0, Some \<lparr>re_src = ''cpp_sender'', re_dest = ''cpp_receiver'', re_payload = ''Hello from cpp_sender''\<rparr>)"
proof -
  let ?a = "''cpp_sender''" and ?b = "''cpp_receiver''" and ?pl = "''Hello from cpp_sender''"
  let ?srv = "rmq_daemon_step env br cf" and ?cfg = "rmq_config (init_answer cf)"
  have ne: "?a \<noteq> []" "?b \<noteq> []" by simp_all
  note s0 = new_rmq_client_ready [OF laws(1) up(1) ne(1)] and r0 = new_rmq_client_ready [OF laws(1) up(2) ne(2)]
  have q2: "qs m2 request_queue = Some []" "qs m2 (ctrl_queue ?a) = Some []" "qs m2 (ctrl_queue ?b) = Some []" "qs m2 (recv_queue ?b) = Some []"
    using r0(4) [OF _ s0(5) [OF mail(1)]] r0(6) [OF s0(4) [OF _ mail(2)]] r0(4) [OF _ s0(5) [OF mail(3)]] r0(4) [OF _ s0(5) [OF mail(4)]]
    by blast+
  have plain: "plain_text ?a" "plain_text ?b" "plain_text ''localhost''" "plain_text ?pl"
    by (simp_all add: plain_text_def)
  obtain m3 where 3: "rmq_initialize env br 10 (False # rs1) ?srv s0 m2 = Inr (s0\<lparr>kc_cfg := ?cfg\<rparr>, m3)" "qs m3 = qs m2"
    by (rule rmq_client_configured [OF laws env s0(1), of m2 rs1]) (simp_all only: s0 plain q2)
  obtain m4 where 4: "rmq_initialize env br 10 (False # rs2) ?srv r0 m3 = Inr (r0\<lparr>kc_cfg := ?cfg\<rparr>, m4)" "qs m4 = qs m3"
    by (rule rmq_client_configured [OF laws env r0(1), of m3 rs2]) (simp_all only: r0 plain q2 3(2))
  obtain m5 where 5: "rmq_app_send env br ?b ?pl (s0\<lparr>kc_cfg := ?cfg\<rparr>) m4 = Inr m5" "qs m5 (recv_queue ?b) = Some [rmq_wire env ?a ?b ?pl]"
    using rmq_app_send_queues [OF laws(1) ready_configured [OF s0(1), of ?cfg] ne(2), where env = env and pl = ?pl and m = m4] q2(4) 3(2) 4(2) s0(2) by fastforce
  have "transmits env (data_message SEND APP_CLIENT ?a ?b ?pl (set_payload ?pl))"
    using env plain_data [OF plain(1,2,4)] unfolding plain_setting_def carries_plain_def by blast
  then obtain m6 where "rmq_receive env br 5 (False # rs3) \<lparr>re_src = [], re_dest = [], re_payload = []\<rparr> (r0\<lparr>kc_cfg := ?cfg\<rparr>) m5 =
      Inr ((True, \<lparr>re_src = ?a, re_dest = ?b, re_payload = ?pl\<rparr>), m6)"
    using rmq_take_one [OF laws ready_configured [OF r0(1), of ?cfg], where m = m5 and env = env and src = ?a and dest = ?b and pl = ?pl and l = rs3] 5(2) r0(2) by fastforce
  with up 3(1) 4(1) 5(1) show ?thesis
    by (simp only: example_send_recv_def send_recv_block_def rs fst_conv snd_conv bind_res_simps prod.case exit_status_def sum.case if_True)
qed

theorem example_send_recv_delivers_witness:
  "example_send_recv fragment_env map_broker ([ConnectOk], [ConnectThrows False, ConnectOk]) ([False], [False], [False])
     (rmq_daemon_step fragment_env map_broker rmq_default_config) (\<lambda>_. None) =
     Some (0, Some \<lparr>re_src = ''cpp_sender'', re_dest = ''cpp_receiver'', re_payload = ''Hello from cpp_sender''\<rparr>)"
proof -
  have up: "\<exists>c m1. new_rmq_client map_broker as i h og m = Inr (c, m1)" if "as = [ConnectOk] \<or> as = [ConnectThrows False, ConnectOk]"
    for as i h og and m :: "string \<Rightarrow> nsbm list list option"
    using that by (auto simp: new_rmq_client_def split: prod.split)
  obtain s0 m1 where 1: "new_rmq_client map_broker [ConnectOk] ''cpp_sender'' ''localhost'' APP_CLIENT (\<lambda>_. None :: nsbm list list option) = Inr (s0, m1)"
    using up by blast
  obtain r0 m2 where 2: "new_rmq_client map_broker [ConnectThrows False, ConnectOk] ''cpp_receiver'' ''localhost'' APP_CLIENT m1 = Inr (r0, m2)"
    using up by blast
  show ?thesis
    by (rule example_send_recv_delivers [OF map_broker_laws map_broker_prompt, where ?s0.0 = s0 and ?r0.0 = r0 and ?m1.0 = m1 and ?m2.0 = m2])
      (simp_all add: 1 2 no_mail_def plain_setting_def carries_plain_def rmq_default_config_def empty_config_def)
qed

section \<open>example_daemon\<close>

text \<open>\<open>main\<close> of the daemon: \<open>up\<close>, whether the broker can be reached, and \<open>fs\<close>, what the worker reads of its flag until
  the signal has come and \<open>stop\<close> clears it.\<close>

definition daemon_status :: "halted option \<Rightarrow> int option" where
  "daemon_status e = (case e of None \<Rightarrow> Some 0 | Some (Uncaught _) \<Rightarrow> Some 1 | Some Terminated \<Rightarrow> None)"

definition example_daemon :: "'b io_env \<Rightarrow> ('b, 'm) amqp \<Rightarrow> 'm amqp_admin \<Rightarrow> bool \<Rightarrow> bool list \<Rightarrow> 'm \<Rightarrow> int option \<times> 'm rmq_daemon" where
  "example_daemon env br ad up fs m =
     (case rd_start br up ((new_rmq_daemon m)\<lparr>rd_cfg := rmq_set_config 0 0 False [] 0 0\<rparr>) of
        (Some e, s1) \<Rightarrow> (daemon_status (Some e), s1)
      | (None, s1) \<Rightarrow> (case rd_stop ad (s1\<lparr>rd_broker := rmq_run_loop env br (rd_cfg s1) fs (rd_broker s1)\<rparr>) of
          (e, s2) \<Rightarrow> (daemon_status e, s2)))"

lemma example_daemon_config: "rmq_set_config 0 0 False [] 0 0 = rmq_default_config"
  by (simp add: rmq_set_config_def rmq_default_config_def empty_config_def system_mode_of_int_def simulator_mode_of_int_def)

text \<open>The daemon of the example answers every request that waits, in the default configuration, ends with status 0 and
  takes the request queue away.\<close>

lemma example_daemon_serves:
  assumes laws: "amqp_laws br qs" "prompt br qs" "admin_laws ad qs"
    and wait: "qs m request_queue = Some bss" "length bss \<le> length (takeWhile id fs)"
  shows "\<exists>s mx. example_daemon env br ad True fs m = (Some 0, s) \<and> rd_broker s = delete_x ad (delete_q ad request_queue mx) \<and>
     qs (rd_broker s) request_queue = None \<and> (\<forall>q. q \<noteq> request_queue \<longrightarrow>
       qs mx q = map_option (\<lambda>l. l @ wires_for env q (concat (map (replies_to env rmq_default_config) bss))) (qs m q))"
proof -
  let ?m1 = "declare_q br request_queue m"
  let ?s1 = "\<lparr>rd_cfg = rmq_default_config, rd_open = True, rd_thread = \<lparr>wk_flag = True, wk_joinable = True\<rparr>, rd_broker = ?m1\<rparr>"
  have s1: "rd_start br True ((new_rmq_daemon m)\<lparr>rd_cfg := rmq_set_config 0 0 False [] 0 0\<rparr>) = (None, ?s1)"
    by (simp add: rd_start_def new_rmq_daemon_def idle_worker_def spawn_def example_daemon_config)
  let ?p = "rmq_daemon_passes env br rmq_default_config fs (subscribe br request_queue ?m1)"
  have q1: "qs (subscribe br request_queue ?m1) = qs m"
    using wait(1) by (simp add: amqp_subscribe [OF laws(1)] amqp_declare [OF laws(1)] fun_upd_idem)
  have p: "qs ?p = (\<lambda>q. if q = request_queue then Some []
       else map_option (\<lambda>l. l @ wires_for env q (concat (map (replies_to env rmq_default_config) bss))) (qs m q))"
    using passes_serve [OF laws(1,2) _ wait(2), where m = "subscribe br request_queue ?m1"] wait(1) by (simp only: q1)
  let ?mx = "rmq_run_loop env br rmq_default_config fs ?m1"
  have mx: "qs ?mx = qs ?p" unfolding rmq_run_loop_def by (rule amqp_cancel_empty [OF laws(1)]) (simp add: p)
  have s2: "rd_stop ad (?s1\<lparr>rd_broker := ?mx\<rparr>) = (None, \<lparr>rd_cfg = rmq_default_config, rd_open = False,
      rd_thread = idle_worker, rd_broker = delete_x ad (delete_q ad request_queue ?mx)\<rparr>)"
    by (simp add: rd_stop_def join_worker_def idle_worker_def)
  have "qs (delete_x ad (delete_q ad request_queue ?mx)) request_queue = None" using laws(3) by (simp add: admin_laws_def)
  moreover have "\<forall>q. q \<noteq> request_queue \<longrightarrow>
      qs ?mx q = map_option (\<lambda>l. l @ wires_for env q (concat (map (replies_to env rmq_default_config) bss))) (qs m q)"
    by (simp add: mx p)
  moreover have "example_daemon env br ad True fs m = (Some 0, \<lparr>rd_cfg = rmq_default_config, rd_open = False,
      rd_thread = idle_worker, rd_broker = delete_x ad (delete_q ad request_queue ?mx)\<rparr>)"
    using s2 by (simp add: example_daemon_def s1 daemon_status_def)
  ultimately show ?thesis by auto
qed

text \<open>With no broker the program reports the exception and ends with status 1.\<close>

lemma example_daemon_no_broker: "fst (example_daemon env br ad False fs m) = Some 1"
  by (simp add: example_daemon_def rd_start_def new_rmq_daemon_def idle_worker_def daemon_status_def)

section \<open>example_unified\<close>

text \<open>The backend and the port that the command line asks for (\<open>args\<close> without the program's name); \<open>None\<close>: the usage
  text, and status 1.\<close>

definition unified_choice :: "string list \<Rightarrow> (backend \<times> i32) option" where
  "unified_choice args = (case args of [] \<Rightarrow> Some (RABBITMQ, 5672)
     | a # _ \<Rightarrow> if a = ''socket'' then Some (SOCKET, 5555) else if a = ''rabbitmq'' then Some (RABBITMQ, 5672) else None)"

definition backend_name :: "backend \<Rightarrow> string" where
  "backend_name b = (if b = SOCKET then ''socket'' else ''rabbitmq'')"

definition unified_text :: "backend \<Rightarrow> string" where
  "unified_text b = ''Hello from unified C++ client ('' @ backend_name b @ '')''"

definition DAEMON_TIMEOUT :: int where "DAEMON_TIMEOUT = 30"

text \<open>What the program meets: \<open>inet_addr\<close>; per client the readings of the clock and the attempts of its constructor over sockets, or
  its attempts to reach the broker; the broker in the world; and, once its backend is connected, what the client's calls on
  \<open>comms_\<close> do to the world.\<close>

record ('b, 'm, 'w) u_setting =
  uo_inet :: "string \<Rightarrow> 32 word"
  uo_clock :: "string \<Rightarrow> int list"
  uo_tries :: "string \<Rightarrow> sb_attempt list"
  uo_amqp :: "('b, 'm) amqp"
  uo_ctries :: "string \<Rightarrow> connect_attempt list"
  uo_broker :: "'w \<Rightarrow> 'm"
  uo_attach :: "(channel, fd) std_map + rmq \<times> 'm \<Rightarrow> 'w \<Rightarrow> ('b, 'w) u_env \<times> 'w"

text \<open>The constructor of \<open>NSBAppClient\<close>: the base class connects the backend, then \<open>initialize\<close>.\<close>

definition u_app_client :: "('b, 'm, 'w) u_setting \<Rightarrow> string \<Rightarrow> string \<Rightarrow> i32 \<Rightarrow> backend \<Rightarrow> 'w \<Rightarrow>
    rt_error + ('b, 'w) u_env \<times> u_client \<times> 'w" where
  "u_app_client S i host port b w =
     bind_res (u_open (uo_amqp S) (uo_inet S) i host port b (uo_clock S i) (uo_tries S i) (uo_ctries S i) (uo_broker S w)) (\<lambda>x.
     case uo_attach S x w of (ue, w1) \<Rightarrow>
     bind_res (u_construct ue DAEMON_TIMEOUT (new_u_client i host b APP_CLIENT) w1) (\<lambda>(r, w2).
     bind_res r (\<lambda>c. Inr (ue, c, w2))))"

text \<open>The \<open>try\<close> block: the two clients are destroyed, the receiver first, before the program returns.  (Of an exception only the
  status is modelled, not what the destructors do on the way out.)\<close>

definition unified_block :: "('b, 'm, 'w) u_setting \<Rightarrow> backend \<Rightarrow> i32 \<Rightarrow> 'w \<Rightarrow> rt_error + (int \<times> message_entry option) \<times> 'w" where
  "unified_block S b port w =
     bind_res (u_app_client S ''unified_sender'' ''localhost'' port b w) (\<lambda>(ea, sender, w1).
     bind_res (u_app_client S ''unified_receiver'' ''localhost'' port b w1) (\<lambda>(eb, receiver, w2).
     bind_res (u_app_send ea ''unified_receiver'' (unified_text b) sender w2) (\<lambda>(_, sender1, w3).
     bind_res (u_app_receive eb 5 [] receiver w3) (\<lambda>(msg, receiver1, w4).
       Inr (if entry_exists msg then (0, Some msg) else (2, None), u_destroy ea sender1 (u_destroy eb receiver1 w4))))))"

definition example_unified :: "('b, 'm, 'w) u_setting \<Rightarrow> string list \<Rightarrow> 'w \<Rightarrow> (int \<times> message_entry option) option" where
  "example_unified S args w = (case unified_choice args of None \<Rightarrow> Some (1, None)
     | Some (b, port) \<Rightarrow> exit_status (unified_block S b port w))"

text \<open>A command line with anything else gets the usage text.\<close>

lemma example_unified_usage: "a \<noteq> ''socket'' \<Longrightarrow> a \<noteq> ''rabbitmq'' \<Longrightarrow> example_unified S (a # args) w = Some (1, None)"
  by (simp add: example_unified_def unified_choice_def)

text \<open>The calls of a client with the interface \<open>r\<close> on \<open>comms_\<close>, the world being the broker and the daemon making its passes
  (\<open>served\<close>); \<open>late\<close>: the readings of the clock of each wait.\<close>

definition rabbit_comms :: "'b io_env \<Rightarrow> ('b, 'm) amqp \<Rightarrow> config_params \<Rightarrow> bool list \<Rightarrow> rmq \<Rightarrow> ('b, 'm) icomms" where
  "rabbit_comms env br cf late r = (let at = (\<lambda>m. \<lparr>rb_if = r, rb_broker = m, rb_late = late\<rparr>) in
     \<lparr>sendMsg = (\<lambda>ch bs dest m. bind_res (sendMsg (served env br cf) ch bs dest (at m)) (\<lambda>w. Inr (rb_broker w))),
      recvMsg = (\<lambda>ch t m. bind_res (recvMsg (served env br cf) ch t (at m)) (\<lambda>(b, w). Inr (b, rb_broker w))),
      closeComms = (\<lambda>m. rb_broker (closeComms (served env br cf) (at m)))\<rparr>)"

subsection \<open>On the socket backend\<close>

text \<open>What the C library and the kernel document: \<open>inet_addr\<close> reads numbers only and gives \<open>INADDR_NONE\<close> for anything that does
  not begin with a digit, and that is the broadcast address, to which no TCP connection is made.  The clock reaches the
  deadline of ten seconds before the readings and the attempts of a client run out.\<close>

definition INADDR_NONE :: "32 word" where
  "INADDR_NONE = 0xFFFFFFFF"

definition not_numeric :: "string \<Rightarrow> bool" where
  "not_numeric h \<longleftrightarrow> (\<forall>c cs. h = c # cs \<longrightarrow> c \<notin> set ''0123456789'')"

definition inet_addr_law :: "(string \<Rightarrow> 32 word) \<Rightarrow> bool" where
  "inet_addr_law inet \<longleftrightarrow> (\<forall>h. not_numeric h \<longrightarrow> inet h = INADDR_NONE)"

definition no_broadcast :: "sb_attempt list \<Rightarrow> bool" where
  "no_broadcast as \<longleftrightarrow> (\<forall>f up p. SocketFor f up \<in> set as \<longrightarrow> \<not> up (INADDR_NONE, p))"

definition clock_passes :: "int list \<Rightarrow> sb_attempt list \<Rightarrow> bool" where
  "clock_passes ts as \<longleftrightarrow> (case ts of [] \<Rightarrow> False
     | t0 # ts' \<Rightarrow> (\<exists>t\<in>set ts'. t0 + NSB_UNIFIED_SERVER_CONNECTION_TIMEOUT \<le> t) \<and> length ts' \<le> length as)"

lemma sb_connect_loop_broadcast:
  assumes "no_broadcast as" "\<exists>t\<in>set ts. dl \<le> t" "length ts \<le> length as"
  shows "(\<exists>ts' as'. sb_connect_loop (INADDR_NONE, p) dl ch ts as cs = Inr (ts', as', cs)) \<or>
     (\<exists>x. sb_connect_loop (INADDR_NONE, p) dl ch ts as cs = Inl (Throws x))"
  using assms
proof (induction ts arbitrary: as)
  case (Cons t ts)
  then show ?case
  proof (cases "t < dl")
    case True
    then obtain a as1 where as: "as = a # as1" using Cons.prems(3) by (cases as) auto
    have "no_broadcast as1" "\<exists>t\<in>set ts. dl \<le> t" "length ts \<le> length as1"
      using Cons.prems True as by (auto simp: no_broadcast_def)
    from Cons.IH [OF this] Cons.prems(1) True as show ?thesis by (cases a) (auto simp: no_broadcast_def)
  qed simp
qed simp

lemma new_SocketBackend_by_name:
  assumes "inet_addr_law inet" "not_numeric host" "no_broadcast as" "clock_passes ts as"
  shows "\<exists>x. new_SocketBackend inet host port ts as = Inl (Throws x)"
proof -
  obtain t0 ts' where ts: "ts = t0 # ts'" "\<exists>t\<in>set ts'. t0 + NSB_UNIFIED_SERVER_CONNECTION_TIMEOUT \<le> t" "length ts' \<le> length as"
    using assms(4) by (cases ts) (auto simp: clock_passes_def)
  have "not_numeric (c_str host)" using assms(2) by (cases host) (simp_all add: not_numeric_def c_str_def)
  then have "inet (c_str host) = INADDR_NONE" using assms(1) by (simp add: inet_addr_law_def)
  with sb_connect_loop_broadcast [OF assms(3) ts(2,3), of "ucast port" CTRL "[]"] ts(1) show ?thesis
    by (auto simp: new_SocketBackend_def sb_connect_def Channels_def map_find_def)
qed

text \<open>C34: A client of the unified library connects over sockets to an address in numbers only: given a host that does not begin with a
  digit, the constructor retries until its ten seconds are over and throws, whatever listens there.  So the example, which asks for
  \<open>localhost\<close>, cannot run on its socket backend: it ends with status 1, before it has sent anything.\<close>

theorem unified_socket_needs_address:
  assumes "inet_addr_law (uo_inet S)" "\<forall>i. no_broadcast (uo_tries S i) \<and> clock_passes (uo_clock S i) (uo_tries S i)"
  shows "(not_numeric host \<longrightarrow> (\<exists>x. u_app_client S i host port SOCKET w = Inl (Throws x))) \<and>
     example_unified S [''socket''] w = Some (1, None)"
proof -
  have throws: "\<exists>x. u_app_client S i host port SOCKET w = Inl (Throws x)" if "not_numeric host" for i host port
    using new_SocketBackend_by_name [OF assms(1) that, of "uo_tries S i" "uo_clock S i" port] assms(2)
    by (auto simp: u_app_client_def u_open_def)
  obtain x where "u_app_client S ''unified_sender'' ''localhost'' 5555 SOCKET w = Inl (Throws x)"
    using throws [of "''localhost''"] by (auto simp: not_numeric_def)
  then have "example_unified S [''socket''] w = Some (1, None)"
    by (simp add: example_unified_def unified_choice_def unified_block_def exit_status_def)
  with throws show ?thesis by simp
qed

text \<open>A kernel that connects to every address but the broadcast address, and a broker with the daemon behind it.\<close>

definition wit_rabbit_env :: "rmq \<Rightarrow> (nsbm, string \<Rightarrow> nsbm list list option) u_env" where
  "wit_rabbit_env r = \<lparr>u_pb = fragment_env, u_icomms = rabbit_comms fragment_env map_broker rmq_default_config [False] r,
     u_sockname = (\<lambda>_. None), u_redisConnect = (\<lambda>_ _. None), u_redis = (\<lambda>_ m. (None, m)), u_clock = (\<lambda>_. 7)\<rparr>"

definition wit_setting :: "(nsbm, string \<Rightarrow> nsbm list list option, string \<Rightarrow> nsbm list list option) u_setting" where
  "wit_setting = \<lparr>uo_inet = (\<lambda>h. if not_numeric h then INADDR_NONE else 0x7F000001), uo_clock = (\<lambda>_. [100, 100, 109, 110]),
     uo_tries = (\<lambda>_. [SocketFor 3 (\<lambda>(a, _). a \<noteq> INADDR_NONE), SocketFor 4 (\<lambda>(a, _). a \<noteq> INADDR_NONE), NoSocket]),
     uo_amqp = map_broker, uo_ctries = (\<lambda>_. [ConnectThrows False, ConnectOk]), uo_broker = (\<lambda>m. m),
     uo_attach = (\<lambda>x m. case x of Inl _ \<Rightarrow> (wit_rabbit_env (new_rmq ''a''), m) | Inr (r, m1) \<Rightarrow> (wit_rabbit_env r, m1))\<rparr>"

theorem unified_socket_needs_address_witness:
  "(\<exists>x. u_app_client wit_setting ''a'' ''nsb-host'' 65432 SOCKET Map.empty = Inl (Throws x)) \<and>
     example_unified wit_setting [''socket''] Map.empty = Some (1, None)"
  using unified_socket_needs_address [of wit_setting "''nsb-host''" "''a''" 65432 Map.empty]
  by (auto simp: wit_setting_def inet_addr_law_def no_broadcast_def clock_passes_def not_numeric_def NSB_UNIFIED_SERVER_CONNECTION_TIMEOUT_def)

text \<open>Given an address, the same attempts connect all three channels.\<close>

lemma unified_socket_connects:
  "new_SocketBackend inet host port [t0, t0, t0, t0] [SocketFor f1 up, SocketFor f2 up, SocketFor f3 up] =
     Inr [(CTRL, f1), (SEND_CH, f2), (RECV_CH, f3)]" if "up (inet (c_str host), ucast port)"
  using that by (simp add: new_SocketBackend_def sb_connect_def Channels_def NSB_UNIFIED_SERVER_CONNECTION_TIMEOUT_def map_find_def less_channel_def)

text \<open>An application of the unified client joins the daemon over sockets.\<close>

lemma u_init_request_socket: "u_backend c = SOCKET \<Longrightarrow> u_init_request env c = init_request (u_sockname env) (u_id c) (u_og c)"
  by (simp add: u_init_request_def init_request_def request_def head_of_def with_code_def buildBaseMsg_def
      set_manifest_def manifest_def empty_nsbm_def empty_manifest_def)

definition u_test_env :: "'b io_env \<Rightarrow> (channel \<Rightarrow> fd) \<Rightarrow> ('b, ('b, 's) loop_world) u_env \<Rightarrow> bool" where
  "u_test_env env fds ue \<longleftrightarrow> u_on_loop env fds ue \<and> plain_names (u_sockname ue) \<and> carries_plain env"

lemma u_client_joins:
  assumes "u_test_env env fds ue" "test_world md w" "c = new_u_client i host SOCKET APP_CLIENT" "plain_text i"
  obtains c' d where "u_construct ue t c w = Inr (Inr c', w\<lparr>lw_daemon := d\<rparr>)" "u_ready APP_CLIENT (lw_daemon w) c'" "u_id c' = i"
    "same_mail (lw_daemon w) d"
proof -
  let ?m = "u_init_request ue c"
  have m: "?m = init_request (u_sockname ue) i APP_CLIENT" using u_init_request_socket [of c ue] by (simp add: assms(3) new_u_client_def)
  obtain d where d: "dispatch env ?m (lw_daemon w) = Inr (d, init_reply d True response_template, True, [])" "same_mail (lw_daemon w) d"
    by (auto simp: m dispatch_def no_sends_def handle_init_def Let_def nsb_simps same_mail_def)
  have db: "\<not> USE_DB (d_cfg d)" "lw_inbox w (fds CTRL) = []" using d(2) assms(2) by (simp_all add: same_mail_def test_world_def)
  have t: "transmits env ?m" "transmits env (init_reply d True response_template)" "u_on_loop env fds ue"
    using assms(1,4) db(1) by (simp_all add: m u_test_env_def carries_plain_def)
  obtain w1 bs where x: "u_send_on ue CTRL ?m [] w = Inr w1" "recvMsg (u_icomms ue) CTRL t w1 = Inr (Some bs, w\<lparr>lw_daemon := d\<rparr>)"
    "parse env bs = Some (init_reply d True response_template)"
    using u_loop_request [where dest = "[]" and t = t, OF t(3,1) d(1) t(2) db(2)] by blast
  let ?c = "c\<lparr>u_cfg := u_config (init_reply d True response_template)\<rparr>"
  have r: "u_init_result ue (Some bs) c = Inr ?c"
    using x(3) t(3) db(1) init_reply_config [of d True]
    by (simp add: u_init_result_def u_accept_config_def u_on_loop_def nsb_simps u_config_def Let_def)
  have "u_ready APP_CLIENT (lw_daemon w) ?c" "u_id ?c = i"
    using db(1) d(2) init_reply_config [of d True]
    by (simp_all add: u_ready_def assms(3) new_u_client_def u_config_def Let_def same_mail_def)
  with x r d(2) that show ?thesis by (simp add: u_construct_def u_init_exchange_def)
qed

lemma plain_u [simp]:
  "plain_message (with_code SUCCESS (buildBaseMsg opn og))"
  "plain_text src \<Longrightarrow> plain_text dest \<Longrightarrow> plain_text pl \<Longrightarrow> plain_message (u_message opn og src dest pl)"
  "plain_text (u_id c) \<Longrightarrow> plain_message (u_receive_request c [])"
  by (simp_all add: plain_message_def u_message_def u_receive_request_def with_code_def buildBaseMsg_def nsb_simps empty_intro_def empty_config_def)
    (simp add: set_payload_def intro_def config_def empty_intro_def empty_config_def nsb_simps)

subsection \<open>On the RabbitMQ backend\<close>

lemma rabbit_comms_simps [simp]:
  "sendMsg (rabbit_comms env br cf late r) ch bs dest m = rmq_send br ch bs dest r m"
  "recvMsg (rabbit_comms env br cf late r) ch t m = rmq_recv br ch t late r (rmq_daemon_step env br cf m)"
  by (cases "rmq_send br ch bs dest r m"; simp add: rabbit_comms_def served_def RabbitMQBackend_def rb_send_def)
    (cases "rmq_recv br ch t late r (rmq_daemon_step env br cf m)"; auto simp: rabbit_comms_def served_def rb_recv_def)

definition rabbit_setting :: "'b io_env \<Rightarrow> config_params \<Rightarrow> bool list \<Rightarrow> ('b, 'm, 'm) u_setting \<Rightarrow> bool" where
  "rabbit_setting env cf late S \<longleftrightarrow> (\<forall>m. uo_broker S m = m) \<and>
     (\<forall>r m m'. \<exists>ue. uo_attach S (Inr (r, m)) m' = (ue, m) \<and> u_pb ue = env \<and>
        u_icomms ue = rabbit_comms env (uo_amqp S) cf late r)"

definition rabbit_client :: "'b io_env \<Rightarrow> ('b, 'm) amqp \<Rightarrow> config_params \<Rightarrow> bool list \<Rightarrow> ('b, 'm) u_env \<Rightarrow> rmq \<Rightarrow> u_client \<Rightarrow> bool" where
  "rabbit_client env br cf late ue r c \<longleftrightarrow> u_pb ue = env \<and> u_icomms ue = rabbit_comms env br cf late r \<and> u_backend c = RABBITMQ \<and>
     u_id c \<noteq> [] \<and> rq_open r \<and> q_ctrl r = ctrl_queue (u_id c) \<and> q_recv r = recv_queue (u_id c)"

lemma rmq_daemon_idle:
  assumes "amqp_laws br qs" "qs m request_queue = Some []"
  shows "qs (rmq_daemon_step env br cf m) = qs m"
  using passes_idle [OF assms, of env cf "[True]"] by simp

lemma plain_init_rabbit [simp]:
  "u_backend c = RABBITMQ \<Longrightarrow> plain_text (u_id c) \<Longrightarrow> plain_text (u_host c) \<Longrightarrow> plain_message (u_init_request ue c)"
  by (simp add: plain_message_def u_init_request_def Let_def with_code_def buildBaseMsg_def nsb_simps)
    (simp add: set_intro_def config_def empty_config_def nsb_simps)

lemma rabbit_construct:
  assumes laws: "amqp_laws br qs" "prompt br qs" and c: "rabbit_client env br cf (False # l) ue r c" "u_og c = APP_CLIENT"
    and env: "plain_setting env cf" "\<not> use_db cf" "plain_text (u_id c)" "plain_text (u_host c)"
    and q: "qs m request_queue = Some []" "qs m (ctrl_queue (u_id c)) = Some []"
  shows "\<exists>m1. u_construct ue t c m = Inr (Inr (c\<lparr>u_cfg := u_config (init_answer cf)\<rparr>), m1) \<and> qs m1 = qs m"
proof -
  let ?req = "u_init_request ue c" and ?ans = "SerializeAsString env (init_answer cf)"
  let ?m1 = "publish br request_queue (SerializeAsString env ?req) m" and ?m2 = "rmq_daemon_step env br cf (publish br request_queue (SerializeAsString env ?req) m)"
  have r: "u_backend c = RABBITMQ" "u_id c \<noteq> []" "rq_open r" "q_ctrl r = ctrl_queue (u_id c)" "u_pb ue = env"
    "u_icomms ue = rabbit_comms env br cf (False # l) r" using c(1) by (simp_all add: rabbit_client_def)
  have t: "transmits env ?req" "transmits env (init_answer cf)"
    using env r(1) by (simp_all add: plain_setting_def carries_plain_def)
  have s: "u_send_on ue CTRL ?req [] m = Inr ?m1" by (simp add: u_send_on_def r rmq_send_def routing_key_def)
  have q1: "qs ?m1 = (qs m)(request_queue := Some [SerializeAsString env ?req])" using amqp_publish [OF laws(1)] q(1) by simp
  have q2: "qs ?m2 = (qs m)(ctrl_queue (u_id c) := Some [?ans])"
    using rmq_daemon_answers [where m = ?m1 and l = "[]" and k = "[]", OF laws _ t(1) u_init_request_rabbit [OF r(1,2)]] q1 q
    by (auto simp: fun_eq_iff)
  obtain m3 where m3: "rmq_recv br CTRL t (False # l) r ?m2 = Inr (Some ?ans, m3)" "qs m3 = (qs ?m2)(ctrl_queue (u_id c) := Some [])"
    using rmq_recv_single [OF laws _ r(3), of ?m2 CTRL ?ans t "False # l"] q2 r(4) by auto
  have "u_accept_config ue (init_answer cf) c = Inr (c\<lparr>u_cfg := u_config (init_answer cf)\<rparr>)"
    using env(2) by (simp add: u_accept_config_def Let_def nsb_simps u_config_def)
  moreover have "qs m3 = qs m" using m3(2) q2 q(2) by (auto simp: fun_eq_iff)
  ultimately show ?thesis using s m3(1) SerializeAsString_parse [OF t(2)] r(5,6)
    by (intro exI [of _ m3]) (simp add: u_construct_def u_init_exchange_def u_init_result_def)
qed

lemma rabbit_app_client:
  assumes laws: "amqp_laws (uo_amqp S) qs" "prompt (uo_amqp S) qs" and S: "rabbit_setting env cf (False # l) S"
    and env: "plain_setting env cf" "\<not> use_db cf" "plain_text i" "plain_text host" "i \<noteq> []"
    and up: "rb_connect (uo_amqp S) (uo_ctries S i) (new_rmq i) m = Inr (r, m1)"
    and q: "no_mail qs m request_queue" "no_mail qs m (ctrl_queue i)"
  obtains ue c m2 where "u_app_client S i host port RABBITMQ m = Inr (ue, c, m2)" "rabbit_client env (uo_amqp S) cf (False # l) ue r c"
    "c = (new_u_client i host RABBITMQ APP_CLIENT)\<lparr>u_cfg := u_config (init_answer cf)\<rparr>"
    "\<And>q. no_mail qs m q \<Longrightarrow> no_mail qs m2 q" "qs m2 (recv_queue i) \<noteq> None" "qs m2 request_queue = Some []"
proof -
  let ?c = "new_u_client i host RABBITMQ APP_CLIENT"
  obtain ue where ue: "uo_attach S (Inr (r, m1)) m = (ue, m1)" "u_pb ue = env" "u_icomms ue = rabbit_comms env (uo_amqp S) cf (False # l) r"
    "uo_broker S m = m"
    using S unfolding rabbit_setting_def by blast
  have "rmq_connect (uo_amqp S) 10 (uo_ctries S i) (new_rmq i) m = Inr (r, m1)" using up by (simp add: rb_connect_eq [where timeout = 10])
  note d = rmq_connect_declares [OF laws(1) this]
  then have q1: "qs m1 k = (if k \<in> {request_queue, ctrl_queue i, send_queue i, recv_queue i}
      then Some (case qs m k of None \<Rightarrow> [] | Some l \<Rightarrow> l) else qs m k)" for k by simp
  have c: "rabbit_client env (uo_amqp S) cf (False # l) ue r ?c" "u_og ?c = APP_CLIENT" "u_id ?c = i" "u_host ?c = host"
    using ue d env(5) by (simp_all add: rabbit_client_def new_u_client_def)
  have e: "qs m1 request_queue = Some []" "qs m1 (ctrl_queue i) = Some []" using q unfolding q1 no_mail_def by auto
  obtain m2 where m2: "u_construct ue DAEMON_TIMEOUT ?c m1 = Inr (Inr (?c\<lparr>u_cfg := u_config (init_answer cf)\<rparr>), m2)" "qs m2 = qs m1"
    using rabbit_construct [OF laws c(1,2) env(1,2), of m1 DAEMON_TIMEOUT] c(3,4) env(3,4) e by auto
  show ?thesis
  proof (rule that)
    show "u_app_client S i host port RABBITMQ m = Inr (ue, ?c\<lparr>u_cfg := u_config (init_answer cf)\<rparr>, m2)"
      using m2(1) up ue by (simp add: u_app_client_def u_open_def)
    show "no_mail qs m q \<Longrightarrow> no_mail qs m2 q" for q unfolding m2(2) q1 no_mail_def by auto
    show "qs m2 (recv_queue i) \<noteq> None" by (simp add: m2(2) q1)
  qed (use c(1) m2(2) e(1) in \<open>simp_all add: rabbit_client_def\<close>)
qed

lemma rabbit_app_send:
  assumes "amqp_laws br qs" "rabbit_client env br cf late ue r c" "u_og c = APP_CLIENT" "u_db c = None" "\<not> USE_DB (u_cfg c)" "dest \<noteq> []"
  shows "\<exists>m1. u_app_send ue dest pl c m = Inr ([], c, m1) \<and> qs m1 = (case qs m (recv_queue dest) of None \<Rightarrow> qs m
     | Some l \<Rightarrow> (qs m)(recv_queue dest \<mapsto> l @ [SerializeAsString env (u_message SEND APP_CLIENT (u_id c) dest pl)]))"
  using assms amqp_publish [OF assms(1)]
  by (auto simp: u_app_send_def u_data_def u_setPayload_def u_message_def u_send_on_def rabbit_client_def rmq_send_def routing_key_def
      fun_eq_iff split: option.split)

lemma rabbit_app_receive:
  assumes laws: "amqp_laws br qs" "prompt br qs" and c: "rabbit_client env br cf (False # l) ue r c" "u_db c = None"
    and q: "qs m request_queue = Some []" "qs m (recv_queue (u_id c)) = Some [SerializeAsString env (u_message SEND og src dest pl)]"
    and t: "transmits env (u_message SEND og src dest pl)"
  shows "\<exists>m1. u_app_receive ue t0 [] c m = Inr (mk_entry src dest pl (int_of_size pl), c, m1)"
proof -
  let ?m1 = "rmq_daemon_step env br cf m" and ?b = "SerializeAsString env (u_message SEND og src dest pl)"
  have "qs ?m1 (queue_name RECV_CH r) = Some [?b]" "rq_open r" using q rmq_daemon_idle [OF laws(1) q(1)] c(1) by (simp_all add: rabbit_client_def)
  then obtain m1 where "rmq_recv br RECV_CH t0 (False # l) r ?m1 = Inr (Some ?b, m1)"
    using rmq_recv_single [OF laws, of ?m1 RECV_CH r ?b t0 "False # l"] by auto
  then show ?thesis using c SerializeAsString_parse [OF t]
    by (simp add: u_app_receive_def u_take_def rabbit_client_def u_getPayload_def nsb_simps)
qed

text \<open>C28: The example on its RabbitMQ backend, the default: when the broker can be reached within the ten seconds and delivers
  promptly, the daemon serves the request queue and announces no database, and no mail is left in the request queue, the
  receiver's own queue or the control queues of the two clients, the program ends with status 0 and prints the sender and the
  text as they were sent.\<close>

theorem example_unified_rabbit_delivers:
  assumes laws: "amqp_laws (uo_amqp S) qs" "prompt (uo_amqp S) qs" and S: "rabbit_setting env cf (False # l) S"
    and env: "plain_setting env cf" "\<not> use_db cf"
    and up: "\<forall>i m. \<exists>x. rb_connect (uo_amqp S) (uo_ctries S i) (new_rmq i) m = Inr x"
    and mail: "no_mail qs m request_queue" "no_mail qs m (ctrl_queue ''unified_sender'')" "no_mail qs m (ctrl_queue ''unified_receiver'')"
      "no_mail qs m (recv_queue ''unified_receiver'')"
    and args: "args = [] \<or> args = [''rabbitmq'']"
  shows "example_unified S args m = Some (0, Some (mk_entry ''unified_sender'' ''unified_receiver'' (unified_text RABBITMQ)
     (int_of_size (unified_text RABBITMQ))))"
proof -
  let ?a = "''unified_sender''" and ?b = "''unified_receiver''" and ?pl = "unified_text RABBITMQ" and ?br = "uo_amqp S"
  have plain: "plain_text ?a" "plain_text ?b" "plain_text ''localhost''" "plain_text ?pl" "?a \<noteq> []" "?b \<noteq> []" "?pl \<noteq> []"
    by (simp_all add: plain_text_def unified_text_def backend_name_def)
  obtain ra n1 where ra: "rb_connect ?br (uo_ctries S ?a) (new_rmq ?a) m = Inr (ra, n1)" using up by force
  obtain ea ca m1 where 1: "u_app_client S ?a ''localhost'' 5672 RABBITMQ m = Inr (ea, ca, m1)" "rabbit_client env ?br cf (False # l) ea ra ca"
    "ca = (new_u_client ?a ''localhost'' RABBITMQ APP_CLIENT)\<lparr>u_cfg := u_config (init_answer cf)\<rparr>" "\<And>q. no_mail qs m q \<Longrightarrow> no_mail qs m1 q"
    using rabbit_app_client [OF laws S env plain(1,3,5) ra mail(1,2)] by metis
  obtain rb n2 where rb: "rb_connect ?br (uo_ctries S ?b) (new_rmq ?b) m1 = Inr (rb, n2)" using up by force
  obtain eb cb m2 where 2: "u_app_client S ?b ''localhost'' 5672 RABBITMQ m1 = Inr (eb, cb, m2)" "rabbit_client env ?br cf (False # l) eb rb cb"
    "cb = (new_u_client ?b ''localhost'' RABBITMQ APP_CLIENT)\<lparr>u_cfg := u_config (init_answer cf)\<rparr>" "\<And>q. no_mail qs m1 q \<Longrightarrow> no_mail qs m2 q"
    "qs m2 (recv_queue ?b) \<noteq> None" "qs m2 request_queue = Some []"
    using rabbit_app_client [OF laws S env plain(2,3,6) rb 1(4) 1(4), OF mail(1,3)] by metis
  have r2: "qs m2 (recv_queue ?b) = Some []" using 2(4) [OF 1(4) [OF mail(4)]] 2(5) by (simp add: no_mail_def)
  have f: "u_og ca = APP_CLIENT" "u_db ca = None" "\<not> USE_DB (u_cfg ca)" "u_db cb = None" "u_id ca = ?a" "u_id cb = ?b"
    using env(2) by (simp_all add: 1(3) 2(3) new_u_client_def u_config_def nsb_simps)
  let ?m = "u_message SEND APP_CLIENT ?a ?b ?pl"
  obtain m3 where 3: "u_app_send ea ?b ?pl ca m2 = Inr ([], ca, m3)" "qs m3 = (qs m2)(recv_queue ?b \<mapsto> [SerializeAsString env ?m])"
    using rabbit_app_send [OF laws(1) 1(2) f(1-3) plain(6), where pl = ?pl and m = m2] r2 f(5) by auto
  have t: "transmits env ?m" using env(1) plain by (simp add: plain_setting_def carries_plain_def)
  have "qs m3 request_queue = Some []" "qs m3 (recv_queue (u_id cb)) = Some [SerializeAsString env ?m]"
    using 3(2) 2(6) f(6) by simp_all
  from rabbit_app_receive [OF laws 2(2) f(4) this t, of 5] obtain m4 where
    4: "u_app_receive eb 5 [] cb m3 = Inr (mk_entry ?a ?b ?pl (int_of_size ?pl), cb, m4)" by blast
  have "entry_exists (mk_entry ?a ?b ?pl (int_of_size ?pl))" using plain(7) by (simp add: entry_exists_def mk_entry_def)
  then have "\<exists>w. unified_block S RABBITMQ 5672 m = Inr ((0, Some (mk_entry ?a ?b ?pl (int_of_size ?pl))), w)"
    using 1(1) 2(1) 3(1) 4 by (simp add: unified_block_def)
  then show ?thesis using args by (auto simp: example_unified_def unified_choice_def exit_status_def)
qed

theorem example_unified_rabbit_delivers_witness:
  "example_unified wit_setting [] (\<lambda>_. None) = Some (0, Some (mk_entry ''unified_sender'' ''unified_receiver''
     ''Hello from unified C++ client (rabbitmq)'' 40))"
proof -
  have "rabbit_setting fragment_env rmq_default_config [False] wit_setting" "uo_amqp wit_setting = map_broker"
    by (simp_all add: rabbit_setting_def wit_setting_def wit_rabbit_env_def)
  moreover have "plain_setting fragment_env rmq_default_config" "\<not> use_db rmq_default_config"
    by (simp_all add: plain_setting_def carries_plain_def rmq_default_config_def empty_config_def)
  moreover have "\<forall>i m. \<exists>x. rb_connect (uo_amqp wit_setting) (uo_ctries wit_setting i) (new_rmq i) m = Inr x"
    by (simp add: wit_setting_def)
  ultimately show ?thesis
    using example_unified_rabbit_delivers [of wit_setting "\<lambda>m. m" fragment_env rmq_default_config "[]" "\<lambda>_. None" "[]"]
      map_broker_laws map_broker_prompt by (simp add: no_mail_def unified_text_def backend_name_def int_of_size_def)
qed

end
