(* ===== verification/NSB_Session.thy ===== *)
theory NSB_Session
  imports NSB_Spec NSB_Examples
begin

text \<open>
  What a program that uses the client library sees.  Any number of clients, applications and simulators, call
  \<open>send\<close>, \<open>fetch\<close>, \<open>post\<close> and \<open>receive\<close> in any order; every call is a whole exchange with the
  daemon.  The locale \<open>mail_library\<close> states what each of the four operations promises of the post office of
  \<open>NSB_Spec\<close>, and follows any sequence of calls; \<open>NSBClient\<close> and the unified client over sockets provide it.
\<close>

section \<open>Sessions\<close>

datatype lib_call = CallSend string string | CallFetch string | CallPost string string string | CallReceive

text \<open>A library over a world \<open>'w\<close>; \<open>'h\<close> names a client object.\<close>

record ('h, 'e, 'w) library =
  lb_send :: "'h \<Rightarrow> string \<Rightarrow> string \<Rightarrow> 'w \<Rightarrow> 'e + 'w"
  lb_fetch :: "'h \<Rightarrow> string \<Rightarrow> 'w \<Rightarrow> 'e + message_entry \<times> 'w"
  lb_post :: "'h \<Rightarrow> string \<Rightarrow> string \<Rightarrow> string \<Rightarrow> 'w \<Rightarrow> 'e + 'w"
  lb_receive :: "'h \<Rightarrow> 'w \<Rightarrow> 'e + message_entry \<times> 'w"

fun lib_step :: "('h, 'e, 'w) library \<Rightarrow> 'h \<Rightarrow> lib_call \<Rightarrow> 'w \<Rightarrow> 'e + message_entry list \<times> 'w" where
  "lib_step lb h (CallSend dest pl) w = bind_res (lb_send lb h dest pl w) (\<lambda>w1. Inr ([], w1))"
| "lib_step lb h (CallFetch src) w = bind_res (lb_fetch lb h src w) (\<lambda>(e, w1). Inr ([e], w1))"
| "lib_step lb h (CallPost src dest pl) w = bind_res (lb_post lb h src dest pl w) (\<lambda>w1. Inr ([], w1))"
| "lib_step lb h CallReceive w = bind_res (lb_receive lb h w) (\<lambda>(e, w1). Inr ([e], w1))"

fun lib_run :: "('h, 'e, 'w) library \<Rightarrow> ('h \<times> lib_call) list \<Rightarrow> 'w \<Rightarrow> 'e + ('h \<times> message_entry) list \<times> 'w" where
  "lib_run lb [] w = Inr ([], w)"
| "lib_run lb ((h, c) # cs) w = bind_res (lib_step lb h c w) (\<lambda>(r, w1).
     bind_res (lib_run lb cs w1) (\<lambda>(rs, w2). Inr (map (Pair h) r @ rs, w2)))"

text \<open>What the call means to the post office: \<open>name\<close> is the client's identifier, \<open>fkey\<close> the source that its
  \<open>fetch\<close> asks for.  A request that finds nothing, or a message without content, comes back as the empty entry.\<close>

fun call_event :: "('h \<Rightarrow> string) \<Rightarrow> ('h \<Rightarrow> string \<Rightarrow> string) \<Rightarrow> 'h \<Rightarrow> lib_call \<Rightarrow> po_event" where
  "call_event name fkey h (CallSend dest pl) = Deposit (mk_entry (name h) dest pl (int_of_size pl))"
| "call_event name fkey h (CallFetch src) = Collect (fkey h src)"
| "call_event name fkey h (CallPost src dest pl) = Dispatch (mk_entry src dest pl (int_of_size pl))"
| "call_event name fkey h CallReceive = Pickup (name h)"

definition shown :: "message_entry option \<Rightarrow> message_entry" where
  "shown r = entry_taken (entry_or_blank r)"

definition shown_all :: "('h \<times> message_entry option) list \<Rightarrow> ('h \<times> message_entry) list" where
  "shown_all = map (map_prod id shown)"

text \<open>Calls that a client may make: those of its kind, with strings that fit the wire, and no fetch from nobody.\<close>

fun call_ok :: "originator \<Rightarrow> lib_call \<Rightarrow> bool" where
  "call_ok og (CallSend dest pl) \<longleftrightarrow> og = APP_CLIENT \<and> plain_text dest \<and> plain_text pl"
| "call_ok og (CallFetch src) \<longleftrightarrow> og = SIM_CLIENT \<and> plain_text src \<and> src \<noteq> []"
| "call_ok og (CallPost src dest pl) \<longleftrightarrow> og = SIM_CLIENT \<and> plain_text src \<and> plain_text dest \<and> plain_text pl"
| "call_ok og CallReceive \<longleftrightarrow> og = APP_CLIENT"

section \<open>The contract\<close>

text \<open>\<open>ok n\<close> is a state in which the library is good for \<open>n\<close> more calls, \<open>may\<close> says which calls a client object may make.\<close>

locale mail_library =
  fixes lb :: "('h, 'e, 'w) library"
    and mail :: "'w \<Rightarrow> post_office"
    and ok :: "nat \<Rightarrow> 'w \<Rightarrow> bool"
    and may :: "'h \<Rightarrow> lib_call \<Rightarrow> bool"
    and name :: "'h \<Rightarrow> string"
    and fkey :: "'h \<Rightarrow> string \<Rightarrow> string"
  assumes send_law: "ok (Suc n) w \<Longrightarrow> may h (CallSend dest pl) \<Longrightarrow> \<exists>w'. lb_send lb h dest pl w = Inr w' \<and> ok n w' \<and>
      po_step (Deposit (mk_entry (name h) dest pl (int_of_size pl))) (mail w) = ([], mail w')"
    and post_law: "ok (Suc n) w \<Longrightarrow> may h (CallPost src dest pl) \<Longrightarrow> \<exists>w'. lb_post lb h src dest pl w = Inr w' \<and> ok n w' \<and>
      po_step (Dispatch (mk_entry src dest pl (int_of_size pl))) (mail w) = ([], mail w')"
    and fetch_law: "ok (Suc n) w \<Longrightarrow> may h (CallFetch src) \<Longrightarrow> \<exists>r w'. lb_fetch lb h src w = Inr (shown r, w') \<and> ok n w' \<and>
      po_step (Collect (fkey h src)) (mail w) = ([r], mail w')"
    and receive_law: "ok (Suc n) w \<Longrightarrow> may h CallReceive \<Longrightarrow> \<exists>r w'. lb_receive lb h w = Inr (shown r, w') \<and> ok n w' \<and>
      po_step (Pickup (name h)) (mail w) = ([r], mail w')"
begin

lemma step_refines:
  assumes "ok (Suc n) w" "may h c"
  shows "\<exists>r w'. lib_step lb h c w = Inr (map shown r, w') \<and> ok n w' \<and> po_step (call_event name fkey h c) (mail w) = (r, mail w')"
proof (cases c)
  case (CallSend dest pl)
  with send_law [OF assms(1) assms(2) [unfolded CallSend]] show ?thesis by auto
next
  case (CallFetch src)
  with fetch_law [OF assms(1) assms(2) [unfolded CallFetch]] show ?thesis by auto
next
  case (CallPost src dest pl)
  with post_law [OF assms(1) assms(2) [unfolded CallPost]] show ?thesis by auto
next
  case CallReceive
  with receive_law [OF assms(1) assms(2) [unfolded CallReceive]] show ?thesis by auto
qed

lemma run_refines:
  "ok (length cs + n) w \<Longrightarrow> \<forall>(h, c)\<in>set cs. may h c \<Longrightarrow>
     \<exists>rs w'. lib_run lb cs w = Inr (shown_all rs, w') \<and> ok n w' \<and>
       po_run (map (\<lambda>(h, c). (h, call_event name fkey h c)) cs) (mail w) = (rs, mail w')"
proof (induction cs arbitrary: w)
  case (Cons hc cs)
  obtain h c where hc: "hc = (h, c)" by force
  obtain r w1 where 1: "lib_step lb h c w = Inr (map shown r, w1)" "ok (length cs + n) w1" "po_step (call_event name fkey h c) (mail w) = (r, mail w1)"
    using step_refines [of "length cs + n" w h c] Cons.prems hc by auto
  obtain rs w2 where "lib_run lb cs w1 = Inr (shown_all rs, w2)" "ok n w2"
    "po_run (map (\<lambda>(h, c). (h, call_event name fkey h c)) cs) (mail w1) = (rs, mail w2)"
    using Cons.IH [OF 1(2)] Cons.prems(2) by auto
  with 1 hc show ?case by (intro exI [of _ "map (Pair h) r @ rs"] exI [of _ w2]) (simp add: shown_all_def comp_def)
qed (simp add: shown_all_def)

end

text \<open>Which calls the objects of a plan may make.\<close>

definition may_call :: "nat list \<Rightarrow> (nat \<Rightarrow> originator) \<Rightarrow> nat \<Rightarrow> lib_call \<Rightarrow> bool" where
  "may_call objs kind h c \<longleftrightarrow> h \<in> set objs \<and> call_ok (kind h) c"

section \<open>NSBClient\<close>

text \<open>Client objects by number, in the environments \<open>ce\<close>; \<open>t\<close> is the time-out of the waiting calls.\<close>

type_synonym 'w clients = "(nat \<Rightarrow> client) \<times> 'w"

definition nsb_library :: "i32 \<Rightarrow> (nat \<Rightarrow> ('b, 'w) client_env) \<Rightarrow> (nat, io_stop, 'w clients) library" where
  "nsb_library t ce = \<lparr>
     lb_send = (\<lambda>h dest pl (cl, w). bind_res (app_send (ce h) dest pl (cl h) w) (\<lambda>(_, c, w1). Inr (cl(h := c), w1))),
     lb_fetch = (\<lambda>h src (cl, w). bind_res (sim_fetch (ce h) (Some src) t (cl h) w) (\<lambda>(e, c, w1). Inr (e, cl(h := c), w1))),
     lb_post = (\<lambda>h src dest pl (cl, w). bind_res (sim_post (ce h) src dest pl (cl h) w) (\<lambda>(_, c, w1). Inr (cl(h := c), w1))),
     lb_receive = (\<lambda>h (cl, w). bind_res (app_receive (ce h) None t (cl h) w) (\<lambda>(e, c, w1). Inr (e, cl(h := c), w1)))\<rparr>"

text \<open>A world whose daemon serves and holds plain messages only.\<close>

definition plain_entry :: "message_entry \<Rightarrow> bool" where
  "plain_entry e \<longleftrightarrow> plain_text (source e) \<and> plain_text (destination e) \<and> plain_text (payload_obj e)"

definition mail_world :: "simulator_mode \<Rightarrow> ('b, 's) loop_world \<Rightarrow> bool" where
  "mail_world md w \<longleftrightarrow> test_world md w \<and> running (lw_daemon w) \<and> (\<forall>e\<in>set (tx_buffer (lw_daemon w)) \<union> set (rx_buffer (lw_daemon w)). plain_entry e)"

text \<open>The clients of a session, by number, each with an environment of its own on one network, ready in its role and with an identifier of its own.\<close>

definition client_is :: "originator \<Rightarrow> string \<Rightarrow> daemon \<Rightarrow> client \<Rightarrow> bool" where
  "client_is og i d c \<longleftrightarrow> ready og d c \<and> clientId c = i \<and> plain_text i \<and> i \<noteq> []"

record plan =
  se_mode :: simulator_mode
  se_objs :: "nat list"
  se_kind :: "nat \<Rightarrow> originator"
  se_name :: "nat \<Rightarrow> string"

record ('b, 's) session = plan +
  se_pb :: "'b io_env"
  se_fds :: "nat \<Rightarrow> channel \<Rightarrow> fd"
  se_exec :: "'s redis_exec"
  se_env :: "nat \<Rightarrow> ('b, ('b, 's) loop_world) client_env"

definition session_setup :: "('b, 's) session \<Rightarrow> bool" where
  "session_setup S \<longleftrightarrow> (\<forall>h. test_env (se_pb S) (se_fds S h) (se_exec S) (se_env S h)) \<and> (se_mode S = PER_NODE \<or> se_mode S = SYSTEM_WIDE)"

definition session_ok :: "('b, 's) session \<Rightarrow> ('b, 's) loop_world clients \<Rightarrow> bool" where
  "session_ok S cw \<longleftrightarrow> session_setup S \<and> mail_world (se_mode S) (snd cw) \<and>
     (\<forall>h\<in>set (se_objs S). client_is (se_kind S h) (se_name S h) (lw_daemon (snd cw)) (fst cw h))"

definition fetch_key :: "'z plan_scheme \<Rightarrow> nat \<Rightarrow> string \<Rightarrow> string" where
  "fetch_key S h src = (if se_mode S = PER_NODE then se_name S h else src)"

lemma mail_world_cong:
  assumes "mail_world md w"
  shows "d' = (lw_daemon w)\<lparr>tx_buffer := tx\<rparr> \<Longrightarrow> \<forall>e\<in>set tx. plain_entry e \<Longrightarrow> mail_world md (w\<lparr>lw_daemon := d'\<rparr>)"
    "d' = (lw_daemon w)\<lparr>rx_buffer := rx\<rparr> \<Longrightarrow> \<forall>e\<in>set rx. plain_entry e \<Longrightarrow> mail_world md (w\<lparr>lw_daemon := d'\<rparr>)"
  using assms by (auto simp: mail_world_def test_world_def)

lemma session_step:
  assumes "session_ok S (cl, w)" "mail_world (se_mode S) (w\<lparr>lw_daemon := d\<rparr>)" "d_cfg d = d_cfg (lw_daemon w)"
  shows "session_ok S (cl(h := cl h), w\<lparr>lw_daemon := d\<rparr>)"
  using assms ready_cong [OF assms(3)] by (simp add: session_ok_def client_is_def)

lemma session_client:
  assumes "session_ok S (cl, w)" "h \<in> set (se_objs S)"
  shows "se_kind S h = og \<Longrightarrow> ready og (lw_daemon w) (cl h)" "clientId (cl h) = se_name S h"
    "plain_text (se_name S h)" "se_name S h \<noteq> []"
  using assms by (auto simp: session_ok_def client_is_def)

lemma session_world: "session_ok S (cl, w) \<Longrightarrow> mail_world (se_mode S) w \<and> test_world (se_mode S) w"
  by (simp add: session_ok_def mail_world_def)

lemma session_env:
  assumes "session_ok S cw"
  shows "test_env (se_pb S) (se_fds S h) (se_exec S) (se_env S h)" "carries_plain (se_pb S)" "se_mode S = PER_NODE \<or> se_mode S = SYSTEM_WIDE"
  using assms by (auto simp: session_ok_def session_setup_def test_env_def)

text \<open>A message added to a buffer, and one taken out of it.\<close>

definition loop_mail :: "('b, 's) loop_world \<Rightarrow> post_office" where
  "loop_mail w = post_office_of (lw_daemon w)"

lemma loop_mail_deposit:
  "po_step (Deposit e) (loop_mail w) = ([], loop_mail (w\<lparr>lw_daemon := (lw_daemon w)\<lparr>tx_buffer := tx_buffer (lw_daemon w) @ [e]\<rparr>\<rparr>))"
  "po_step (Dispatch e) (loop_mail w) = ([], loop_mail (w\<lparr>lw_daemon := (lw_daemon w)\<lparr>rx_buffer := rx_buffer (lw_daemon w) @ [e]\<rparr>\<rparr>))"
  by (simp_all add: loop_mail_def post_office_queues post_office_of_upd(1) [OF filter_queue_append]
      post_office_of_upd(2) [OF filter_queue_append])

lemma loop_mail_take:
  "take_keyed source True k (tx_buffer (lw_daemon w)) = (r, tx) \<Longrightarrow> k \<noteq> [] \<Longrightarrow>
     po_step (Collect k) (loop_mail w) = ([r], loop_mail (w\<lparr>lw_daemon := (lw_daemon w)\<lparr>tx_buffer := tx\<rparr>\<rparr>))"
  "take_keyed destination True k (rx_buffer (lw_daemon w)) = (r, rx) \<Longrightarrow> k \<noteq> [] \<Longrightarrow>
     po_step (Pickup k) (loop_mail w) = ([r], loop_mail (w\<lparr>lw_daemon := (lw_daemon w)\<lparr>rx_buffer := rx\<rparr>\<rparr>))"
  by (simp_all add: loop_mail_def post_office_queues take_keyed_queues(1)
      post_office_of_upd(1) [OF take_keyed_queues(2)] post_office_of_upd(2) [OF take_keyed_queues(2)])

lemma plain_append: "plain_entry e \<Longrightarrow> \<forall>x\<in>set l. plain_entry x \<Longrightarrow> \<forall>x\<in>set (l @ [e]). plain_entry x"
  by auto

lemma mk_plain [simp]: "plain_entry (mk_entry a b pl n) \<longleftrightarrow> plain_text a \<and> plain_text b \<and> plain_text pl"
  by (simp add: plain_entry_def)

lemma mail_world_plain:
  "mail_world md w \<Longrightarrow> \<forall>e\<in>set (tx_buffer (lw_daemon w)). plain_entry e"
  "mail_world md w \<Longrightarrow> \<forall>e\<in>set (rx_buffer (lw_daemon w)). plain_entry e"
  by (simp_all add: mail_world_def)

text \<open>Whatever the daemon takes out of a plain buffer can be sent.\<close>

lemma taken_transmits:
  assumes "carries_plain env" "\<forall>e\<in>set l. plain_entry e" "take_keyed key True k l = (r, l')"
  shows "transmits env (entry_reply d opn (entry_or_blank r) response_template)" "\<forall>e\<in>set l'. plain_entry e"
proof -
  note s = take_keyed_subset [OF assms(3)]
  then show "\<forall>e\<in>set l'. plain_entry e" using assms(2) by blast
  show "transmits env (entry_reply d opn (entry_or_blank r) response_template)"
    by (rule reply_transmits [OF assms(1)]) (use s assms(2) in \<open>cases r; force simp: plain_entry_def\<close>)
qed

lemma plain_keyed [simp]:
  "plain_text k \<Longrightarrow> plain_text (clientId c) \<Longrightarrow> plain_message (fetch_request c og (Some k))"
  by (cases "SIMULATOR_MODE (c_cfg c)")
    (simp_all add: plain_message_def fetch_request_def nsb_simps empty_intro_def empty_config_def)

section \<open>NSBClient keeps the contract\<close>

lemma nsb_send_law:
  assumes ok: "session_ok S cw" and h0: "h \<in> set (se_objs S)"
    and c: "call_ok (se_kind S h) (CallSend dest pl)"
  shows "\<exists>cw'. lb_send (nsb_library t (se_env S)) h dest pl cw = Inr cw' \<and> session_ok S cw' \<and>
      po_step (Deposit (mk_entry (se_name S h) dest pl (int_of_size pl))) (loop_mail (snd cw)) = ([], loop_mail (snd cw'))"
proof -
  obtain cl w where cw: "cw = (cl, w)" by force
  let ?d = "lw_daemon w" and ?e = "mk_entry (se_name S h) dest pl (int_of_size pl)"
  let ?m = "data_message SEND APP_CLIENT (se_name S h) dest pl (set_payload pl)"
  have h: "ready APP_CLIENT ?d (cl h)" "clientId (cl h) = se_name S h" "plain_text (se_name S h)" and w: "mail_world (se_mode S) w" "test_world (se_mode S) w"
    using session_client [OF ok [unfolded cw] h0] session_world [OF ok [unfolded cw]] c by simp_all
  have t: "transmits (se_pb S) ?m" using session_env(2) [OF ok] c h(3) by (simp add: carries_plain_def)
  have "app_send (se_env S h) dest pl (cl h) w = Inr ([], cl h, w\<lparr>lw_daemon := ?d\<lparr>tx_buffer := tx_buffer ?d @ [entry_of_msg ?d ?m]\<rparr>\<rparr>)"
    by (rule app_send_loop [where fds = "se_fds S h" and exec = "se_exec S", OF _ _ _ t])
      (use session_env(1) [OF ok, of h] h w(2) in \<open>simp_all add: test_env_def test_world_def ready_def\<close>)
  moreover have "entry_of_msg ?d ?m = ?e"
    using w(2) by (simp add: entry_of_msg_def msg_get_payload_obj_def nsb_simps test_world_def)
  moreover have "session_ok S (cl(h := cl h), w\<lparr>lw_daemon := ?d\<lparr>tx_buffer := tx_buffer ?d @ [?e]\<rparr>\<rparr>)"
    by (rule session_step [OF ok [unfolded cw]])
      (use mail_world_cong(1) [OF w(1) refl] plain_append mail_world_plain [OF w(1)] h(3) c in simp_all)
  ultimately show ?thesis using loop_mail_deposit(1) [of ?e w] by (simp add: nsb_library_def cw del: fun_upd_triv)
qed

lemma nsb_post_law:
  assumes ok: "session_ok S cw" and h0: "h \<in> set (se_objs S)"
    and c: "call_ok (se_kind S h) (CallPost src dest pl)"
  shows "\<exists>cw'. lb_post (nsb_library t (se_env S)) h src dest pl cw = Inr cw' \<and> session_ok S cw' \<and>
      po_step (Dispatch (mk_entry src dest pl (int_of_size pl))) (loop_mail (snd cw)) = ([], loop_mail (snd cw'))"
proof -
  obtain cl w where cw: "cw = (cl, w)" by force
  let ?d = "lw_daemon w" and ?e = "mk_entry src dest pl (int_of_size pl)"
  let ?m = "data_message POST SIM_CLIENT src dest pl (set_payload pl)"
  have h: "ready SIM_CLIENT ?d (cl h)" and w: "mail_world (se_mode S) w" "test_world (se_mode S) w"
    using session_client [OF ok [unfolded cw] h0] session_world [OF ok [unfolded cw]] c by simp_all
  have t: "transmits (se_pb S) ?m" using session_env(2) [OF ok] c by (simp add: carries_plain_def)
  have "sim_post (se_env S h) src dest pl (cl h) w = Inr ([], cl h, w\<lparr>lw_daemon := ?d\<lparr>rx_buffer := rx_buffer ?d @ [entry_of_msg ?d ?m]\<rparr>\<rparr>)"
    by (rule sim_post_loop [where fds = "se_fds S h" and exec = "se_exec S", OF _ _ _ t])
      (use session_env(1) [OF ok, of h] h w(2) in \<open>simp_all add: test_env_def test_world_def ready_def\<close>)
  moreover have "entry_of_msg ?d ?m = ?e"
    using w(2) by (simp add: entry_of_msg_def msg_get_payload_obj_def nsb_simps test_world_def)
  moreover have "session_ok S (cl(h := cl h), w\<lparr>lw_daemon := ?d\<lparr>rx_buffer := rx_buffer ?d @ [?e]\<rparr>\<rparr>)"
    by (rule session_step [OF ok [unfolded cw]])
      (use mail_world_cong(2) [OF w(1) refl] plain_append mail_world_plain [OF w(1)] c in simp_all)
  ultimately show ?thesis using loop_mail_deposit(2) [of ?e w] by (simp add: nsb_library_def cw del: fun_upd_triv)
qed

lemma nsb_fetch_law:
  assumes ok: "session_ok S cw" and h0: "h \<in> set (se_objs S)"
    and c: "call_ok (se_kind S h) (CallFetch src)"
  shows "\<exists>r cw'. lb_fetch (nsb_library t (se_env S)) h src cw = Inr (shown r, cw') \<and> session_ok S cw' \<and>
      po_step (Collect (fetch_key S h src)) (loop_mail (snd cw)) = ([r], loop_mail (snd cw'))"
proof -
  obtain cl w where cw: "cw = (cl, w)" by force
  let ?d = "lw_daemon w" and ?k = "fetch_key S h src"
  have h: "ready SIM_CLIENT ?d (cl h)" "clientId (cl h) = se_name S h" "plain_text (se_name S h)" "se_name S h \<noteq> []"
    and w: "mail_world (se_mode S) w" "test_world (se_mode S) w"
    using session_client [OF ok [unfolded cw] h0] session_world [OF ok [unfolded cw]] c by simp_all
  have t: "transmits (se_pb S) (fetch_request (cl h) SIM_CLIENT (Some src))" using session_env(2) [OF ok] c h(2,3) by (simp add: carries_plain_def)
  have k: "src_id (metadata (fetch_request (cl h) SIM_CLIENT (Some src))) = ?k" "?k \<noteq> []"
    using h w(2) session_env(3) [OF ok] c by (auto simp: fetch_request_fields ready_def test_world_def fetch_key_def)
  obtain r tx where tk: "take_keyed source True ?k (tx_buffer ?d) = (r, tx)" by fastforce
  note tt = taken_transmits [OF session_env(2) [OF ok] mail_world_plain(1) [OF w(1)] tk]
  have "sim_fetch (se_env S h) (Some src) t (cl h) w = Inr (shown r, cl h, w\<lparr>lw_daemon := ?d\<lparr>tx_buffer := tx\<rparr>\<rparr>)"
    unfolding shown_def
    by (rule sim_fetch_reply [where fds = "se_fds S h" and exec = "se_exec S", OF _ _ _ _ _ tk [folded k(1)] t tt(1)])
      (use session_env(1) [OF ok, of h] h w(2) in \<open>simp_all add: test_env_def test_world_def ready_def\<close>)
  moreover have "session_ok S (cl(h := cl h), w\<lparr>lw_daemon := ?d\<lparr>tx_buffer := tx\<rparr>\<rparr>)"
    by (rule session_step [OF ok [unfolded cw]]) (use mail_world_cong(1) [OF w(1) refl tt(2)] in simp_all)
  ultimately show ?thesis using loop_mail_take(1) [OF tk k(2)] by (auto simp: nsb_library_def cw simp del: fun_upd_triv)
qed

lemma nsb_receive_law:
  assumes ok: "session_ok S cw" and h0: "h \<in> set (se_objs S)" and c: "call_ok (se_kind S h) CallReceive"
  shows "\<exists>r cw'. lb_receive (nsb_library t (se_env S)) h cw = Inr (shown r, cw') \<and> session_ok S cw' \<and>
      po_step (Pickup (se_name S h)) (loop_mail (snd cw)) = ([r], loop_mail (snd cw'))"
proof -
  obtain cl w where cw: "cw = (cl, w)" by force
  let ?d = "lw_daemon w"
  have h: "ready APP_CLIENT ?d (cl h)" "clientId (cl h) = se_name S h" "plain_text (se_name S h)" "se_name S h \<noteq> []"
    and w: "mail_world (se_mode S) w" "test_world (se_mode S) w"
    using session_client [OF ok [unfolded cw] h0] session_world [OF ok [unfolded cw]] c by simp_all
  have t: "transmits (se_pb S) (receive_request (cl h) APP_CLIENT None)" using session_env(2) [OF ok] h(2,3) by (simp add: carries_plain_def)
  obtain r rx where tk: "take_keyed destination True (se_name S h) (rx_buffer ?d) = (r, rx)" by fastforce
  have tk': "take_keyed destination True (dest_id (metadata (receive_request (cl h) APP_CLIENT None))) (rx_buffer ?d) = (r, rx)"
    using tk h(2) by (simp add: nsb_simps)
  note tt = taken_transmits [OF session_env(2) [OF ok] mail_world_plain(2) [OF w(1)] tk]
  have "app_receive (se_env S h) None t (cl h) w = Inr (shown r, cl h, w\<lparr>lw_daemon := ?d\<lparr>rx_buffer := rx\<rparr>\<rparr>)"
    unfolding shown_def
    by (rule app_receive_reply [where fds = "se_fds S h" and exec = "se_exec S", OF _ _ _ _ _ tk' t tt(1)])
      (use session_env(1) [OF ok, of h] h w(2) in \<open>simp_all add: test_env_def test_world_def ready_def\<close>)
  moreover have "session_ok S (cl(h := cl h), w\<lparr>lw_daemon := ?d\<lparr>rx_buffer := rx\<rparr>\<rparr>)"
    by (rule session_step [OF ok [unfolded cw]]) (use mail_world_cong(2) [OF w(1) refl tt(2)] in simp_all)
  ultimately show ?thesis using loop_mail_take(2) [OF tk h(4)] by (auto simp: nsb_library_def cw simp del: fun_upd_triv)
qed

interpretation nsb_client: mail_library "nsb_library t (se_env S)" "\<lambda>cw. loop_mail (snd cw)" "\<lambda>_. session_ok S"
    "may_call (se_objs S) (se_kind S)" "se_name S" "fetch_key S" for t S
  by (unfold_locales; unfold may_call_def; elim conjE; rule nsb_send_law nsb_post_law nsb_fetch_law nsb_receive_law; assumption)

section \<open>The clients join\<close>

text \<open>The constructors of the client objects, one after the other.\<close>

definition fresh_client :: "'z plan_scheme \<Rightarrow> nat \<Rightarrow> client" where
  "fresh_client S h = (if se_kind S h = SIM_CLIENT then new_sim_client (se_name S h) else new_app_client (se_name S h))"

fun join_all :: "(nat \<Rightarrow> ('b, 'w) client_env) \<Rightarrow> nat list \<Rightarrow> 'w clients \<Rightarrow> io_stop + 'w clients" where
  "join_all ce [] cw = Inr cw"
| "join_all ce (h # hs) (cl, w) = bind_res (initialize (ce h) (cl h) w) (\<lambda>(c, w1). join_all ce hs (cl(h := c), w1))"

text \<open>A system-wide daemon takes one simulator.\<close>

definition room_for :: "'z plan_scheme \<Rightarrow> nat list \<Rightarrow> daemon \<Rightarrow> bool" where
  "room_for S hs d \<longleftrightarrow> (se_mode S = SYSTEM_WIDE \<longrightarrow>
     length (filter (\<lambda>h. se_kind S h = SIM_CLIENT) hs) \<le> (if sim_client_lookup d = [] then 1 else 0))"

definition names_ok :: "'z plan_scheme \<Rightarrow> bool" where
  "names_ok S \<longleftrightarrow> distinct (se_objs S) \<and> (\<forall>h\<in>set (se_objs S). plain_text (se_name S h) \<and> se_name S h \<noteq> [] \<and>
     (se_kind S h = APP_CLIENT \<or> se_kind S h = SIM_CLIENT))"

lemma fresh_client_sel:
  "se_kind S h = APP_CLIENT \<or> se_kind S h = SIM_CLIENT \<Longrightarrow> originIndicator (fresh_client S h) = Some (se_kind S h)"
  "clientId (fresh_client S h) = se_name S h"
  by (auto simp: fresh_client_def)

lemma join_one:
  assumes S: "session_setup S" "names_ok S" and w: "mail_world (se_mode S) w" and h: "h \<in> set (se_objs S)" "room_for S (h # hs) (lw_daemon w)"
  shows "\<exists>c d. initialize (se_env S h) (fresh_client S h) w = Inr (c, w\<lparr>lw_daemon := d\<rparr>) \<and> same_mail (lw_daemon w) d \<and>
    room_for S hs d \<and> mail_world (se_mode S) (w\<lparr>lw_daemon := d\<rparr>) \<and> client_is (se_kind S h) (se_name S h) d c"
proof -
  have n: "plain_text (se_name S h)" "se_name S h \<noteq> []" and og: "se_kind S h = APP_CLIENT \<or> se_kind S h = SIM_CLIENT"
    using S(2) h(1) by (auto simp: names_ok_def)
  have tw: "test_world (se_mode S) w" using w by (simp add: mail_world_def)
  have room: "se_kind S h = APP_CLIENT \<or> se_kind S h = SIM_CLIENT \<and> (se_mode S = PER_NODE \<or> se_mode S = SYSTEM_WIDE \<and> sim_client_lookup (lw_daemon w) = [])"
    using og S(1) h(2) by (auto simp: room_for_def session_setup_def split: if_splits)
  have e: "test_env (se_pb S) (se_fds S h) (se_exec S) (se_env S h)" using S(1) by (simp add: session_setup_def)
  obtain c d where 1: "initialize (se_env S h) (fresh_client S h) w = Inr (c, w\<lparr>lw_daemon := d\<rparr>)" "ready (se_kind S h) (lw_daemon w) c"
    "clientId c = se_name S h" "same_mail (lw_daemon w) d" "se_kind S h = APP_CLIENT \<Longrightarrow> sim_client_lookup d = sim_client_lookup (lw_daemon w)"
    by (rule client_joins [OF e tw fresh_client_sel(1) [OF og] _ room]) (simp_all add: fresh_client_sel(2) n(1))
  have "room_for S hs d" using h(2) 1(5) og by (auto simp: room_for_def split: if_splits)
  moreover have "mail_world (se_mode S) (w\<lparr>lw_daemon := d\<rparr>)"
    using w same_mail_world [OF 1(4) tw] 1(4) by (simp add: mail_world_def same_mail_def)
  moreover have "ready (se_kind S h) d c = ready (se_kind S h) (lw_daemon w) c"
    using 1(4) by (intro ready_cong) (simp add: same_mail_def)
  ultimately show ?thesis using 1 n by (auto simp: client_is_def)
qed

lemma client_is_same: "same_mail d d' \<Longrightarrow> client_is og i d' c = client_is og i d c"
  by (simp add: client_is_def same_mail_ready)

text \<open>Every constructor works, so all do: \<open>q\<close> is what the constructor of one client leaves, \<open>good\<close> the worlds it works in.\<close>

lemma join_all_steps:
  assumes one: "\<And>h hs w. good w \<Longrightarrow> h \<in> set (se_objs S) \<Longrightarrow> room_for S (h # hs) (lw_daemon w) \<Longrightarrow>
      \<exists>c d. initialize (ce h) (fresh_client S h) w = Inr (c, w\<lparr>lw_daemon := d\<rparr>) \<and> same_mail (lw_daemon w) d \<and>
        room_for S hs d \<and> good (w\<lparr>lw_daemon := d\<rparr>) \<and> q h d c"
    and keep: "\<And>h d d' c. same_mail d d' \<Longrightarrow> q h d c \<Longrightarrow> q h d' c"
  shows "good w \<Longrightarrow> set hs \<subseteq> set (se_objs S) \<Longrightarrow> room_for S hs (lw_daemon w) \<Longrightarrow>
     distinct hs \<Longrightarrow> \<forall>h\<in>set hs. cl h = fresh_client S h \<Longrightarrow>
     \<exists>cl' d. join_all ce hs (cl, w) = Inr (cl', w\<lparr>lw_daemon := d\<rparr>) \<and> same_mail (lw_daemon w) d \<and>
       (\<forall>h. h \<notin> set hs \<longrightarrow> cl' h = cl h) \<and> (\<forall>h\<in>set hs. q h d (cl' h))"
proof (induction hs arbitrary: cl w)
  case (Cons h hs)
  obtain c d where 1: "initialize (ce h) (fresh_client S h) w = Inr (c, w\<lparr>lw_daemon := d\<rparr>)" "same_mail (lw_daemon w) d"
    "room_for S hs d" "good (w\<lparr>lw_daemon := d\<rparr>)" "q h d c"
    using one [OF Cons.prems(1) _ Cons.prems(3)] Cons.prems(2) by auto
  have "\<forall>g\<in>set hs. (cl(h := c)) g = fresh_client S g" using Cons.prems(4,5) by auto
  then obtain cl' d' where 2: "join_all ce hs (cl(h := c), w\<lparr>lw_daemon := d\<rparr>) = Inr (cl', w\<lparr>lw_daemon := d'\<rparr>)"
    "same_mail d d'" "\<forall>x. x \<notin> set hs \<longrightarrow> cl' x = (cl(h := c)) x" "\<forall>h\<in>set hs. q h d' (cl' h)"
    using Cons.IH [of "w\<lparr>lw_daemon := d\<rparr>" "cl(h := c)"] 1(3,4) Cons.prems(2,4) by (auto simp del: fun_upd_apply)
  have "cl' h = c" "cl h = fresh_client S h" using 2(3) Cons.prems(4,5) by simp_all
  with 1(1,5) 2 keep [OF 2(2)] same_mail_trans [OF 1(2) 2(2)] show ?case by auto
next
  case Nil
  show ?case by (intro exI [of _ cl] exI [of _ "lw_daemon w"]) (simp add: same_mail_def)
qed

lemma join_all_ok:
  assumes "session_setup S" "names_ok S" "mail_world (se_mode S) w" "room_for S (se_objs S) (lw_daemon w)"
  shows "\<exists>cl d. join_all (se_env S) (se_objs S) (fresh_client S, w) = Inr (cl, w\<lparr>lw_daemon := d\<rparr>) \<and> same_mail (lw_daemon w) d \<and>
     (\<forall>h. h \<notin> set (se_objs S) \<longrightarrow> cl h = fresh_client S h) \<and> (\<forall>h\<in>set (se_objs S). client_is (se_kind S h) (se_name S h) d (cl h))"
  by (rule join_all_steps [where good = "mail_world (se_mode S)", OF join_one [OF assms(1,2)] _ assms(3) order_refl assms(4)])
    (use assms(2) client_is_same in \<open>auto simp: names_ok_def\<close>)

section \<open>Any session\<close>

definition session_events :: "'z plan_scheme \<Rightarrow> (nat \<times> lib_call) list \<Rightarrow> (nat \<times> po_event) list" where
  "session_events S cs = map (\<lambda>(h, c). (h, call_event (se_name S) (fetch_key S) h c)) cs"

definition library_session :: "(nat \<Rightarrow> ('b, 'w) client_env) \<Rightarrow> (nat \<Rightarrow> client) \<Rightarrow> nat list \<Rightarrow> i32 \<Rightarrow> (nat \<times> lib_call) list \<Rightarrow> 'w \<Rightarrow>
    io_stop + (nat \<times> message_entry) list \<times> 'w clients" where
  "library_session ce cl objs t cs w = bind_res (join_all ce objs (cl, w)) (\<lambda>cw. lib_run (nsb_library t ce) cs cw)"

definition session_calls_ok :: "'z plan_scheme \<Rightarrow> (nat \<times> lib_call) list \<Rightarrow> bool" where
  "session_calls_ok S cs \<longleftrightarrow> (\<forall>(h, c)\<in>set cs. h \<in> set (se_objs S) \<and> call_ok (se_kind S h) c)"

lemma loop_mail_same: "same_mail (lw_daemon w) d \<Longrightarrow> loop_mail (w\<lparr>lw_daemon := d\<rparr>) = loop_mail w"
  by (simp add: loop_mail_def post_office_of_def same_mail_def)

lemma mail_world_same: "mail_world md w \<Longrightarrow> same_mail (lw_daemon w) d \<Longrightarrow> mail_world md (w\<lparr>lw_daemon := d\<rparr>)"
  using same_mail_world [of w d md] by (simp add: mail_world_def same_mail_def)

lemma session_runs:
  assumes "session_setup S" "names_ok S" "mail_world (se_mode S) w" "room_for S (se_objs S) (lw_daemon w)" "session_calls_ok S cs"
  obtains rs cl w' where "library_session (se_env S) (fresh_client S) (se_objs S) t cs w = Inr (shown_all rs, cl, w')" "session_ok S (cl, w')"
    "po_run (session_events S cs) (loop_mail w) = (rs, loop_mail w')"
proof -
  obtain cl d where j: "join_all (se_env S) (se_objs S) (fresh_client S, w) = Inr (cl, w\<lparr>lw_daemon := d\<rparr>)" "same_mail (lw_daemon w) d"
    "\<forall>h\<in>set (se_objs S). client_is (se_kind S h) (se_name S h) d (cl h)"
    using join_all_ok [OF assms(1-4)] by blast
  have "session_ok S (cl, w\<lparr>lw_daemon := d\<rparr>)"
    using assms(1) j(3) mail_world_same [OF assms(3) j(2)] by (simp add: session_ok_def)
  from nsb_client.run_refines [OF this, of cs t] assms(5) loop_mail_same [OF j(2)] j(1) that show ?thesis
    by (force simp: library_session_def session_events_def session_calls_ok_def may_call_def)
qed

text \<open>C2: Refinement by the client library, over a network that hands each message over whole (\<open>loop_comms\<close>) and against a
  serving daemon in PULL mode without a database that holds whatever plain mail it holds.  The conditions (\<open>session_setup\<close>,
  \<open>names_ok\<close>, \<open>room_for\<close>, \<open>session_calls_ok\<close>): every text, identifiers and addresses included, is ASCII and at most 1000
  characters long, and Protobuf carries the messages made of such texts; identifiers are not empty; in SYSTEM_WIDE mode at most one
  simulator takes part, and none if one is registered already; applications call \<open>send\<close> and \<open>receive\<close>, simulators \<open>post\<close> and \<open>fetch\<close>,
  and every \<open>fetch\<close> names a source (in PER_NODE mode the library replaces it by the simulator's own name).  Then any number of applications and
  simulators construct their clients and call, one call at a time, in any order; no constructor and no call fails or waits for ever, and every
  answer, and the mail left at the end, are those of the post office with one queue per source and one per destination.\<close>

theorem library_refines_post_office:
  assumes "session_setup S" "names_ok S" "mail_world (se_mode S) w" "room_for S (se_objs S) (lw_daemon w)" "session_calls_ok S cs"
  shows "\<exists>rs cl w'. library_session (se_env S) (fresh_client S) (se_objs S) t cs w = Inr (shown_all rs, cl, w') \<and>
     po_run (session_events S cs) (loop_mail w) = (rs, loop_mail w')"
  using session_runs [OF assms, of t] by blast

text \<open>The session of the two witnesses: two applications and a simulator, which forwards what the first application sent.\<close>

definition wit_session :: "(nsbm, string \<Rightarrow> string option) session" where
  "wit_session = \<lparr>se_mode = SYSTEM_WIDE, se_objs = [0, 1, 2], se_kind = (\<lambda>h. if h = 2 then SIM_CLIENT else APP_CLIENT),
     se_name = (\<lambda>h. if h = 0 then ''a'' else if h = 1 then ''b'' else ''sim''), se_pb = fragment_env,
     se_fds = (\<lambda>h. wit_fds (int (3 * h + 5))), se_exec = map_server, se_env = (\<lambda>h. wit_env (int (3 * h + 5)))\<rparr>"

definition wit_calls :: "(nat \<times> lib_call) list" where
  "wit_calls = [(0, CallSend ''b'' ''one''), (1, CallReceive), (0, CallSend ''b'' ''two''), (2, CallFetch ''a''),
     (2, CallPost ''a'' ''b'' ''one''), (1, CallReceive), (2, CallFetch ''a''), (2, CallFetch ''a'')]"

definition wit_serving :: "(nsbm, string \<Rightarrow> string option) loop_world" where
  "wit_serving = wit_world\<lparr>lw_daemon := wit_daemon\<lparr>running := True\<rparr>\<rparr>"

lemma wit_session_setup: "session_setup wit_session" "names_ok wit_session" "session_calls_ok wit_session wit_calls"
  "mail_world (se_mode wit_session) wit_serving" "room_for wit_session (se_objs wit_session) (lw_daemon wit_serving)"
  by (simp_all add: wit_session_def session_setup_def names_ok_def session_calls_ok_def wit_calls_def wit_test_env plain_text_def
      mail_world_def test_world_def wit_serving_def wit_world_def wit_daemon_def default_cfg_def room_for_def)

theorem library_refines_post_office_witness:
  "\<exists>cl w'. library_session (se_env wit_session) (fresh_client wit_session) (se_objs wit_session) 30 wit_calls wit_serving = Inr ([(1, empty_entry), (2, mk_entry ''a'' ''b'' ''one'' 3),
       (1, mk_entry ''a'' ''b'' ''one'' 3), (2, mk_entry ''a'' ''b'' ''two'' 3), (2, empty_entry)], cl, w')"
proof -
  obtain rs cl w' where "library_session (se_env wit_session) (fresh_client wit_session) (se_objs wit_session) 30 wit_calls wit_serving = Inr (shown_all rs, cl, w')"
    "po_run (session_events wit_session wit_calls) (loop_mail wit_serving) = (rs, loop_mail w')"
    using library_refines_post_office [OF wit_session_setup(1,2,4,5,3), of 30] by blast
  then show ?thesis
    by (auto simp: session_events_def wit_session_def wit_calls_def loop_mail_def post_office_of_def wit_serving_def wit_world_def wit_daemon_def
        serve_queue_def shown_all_def shown_def fetch_key_def int_of_size_def)
qed

section \<open>First in, first out\<close>

definition dispatched :: "string \<Rightarrow> po_event list \<Rightarrow> message_entry list" where
  "dispatched k evs = concat (map (\<lambda>ev. case ev of Dispatch e \<Rightarrow> if destination e = k then [e] else [] | _ \<Rightarrow> []) evs)"

definition answers_to :: "'h \<Rightarrow> ('h \<times> message_entry option) list \<Rightarrow> message_entry list" where
  "answers_to h rs = concat (map (\<lambda>(f, r). if f = h then (case r of None \<Rightarrow> [] | Some e \<Rightarrow> [e]) else []) rs)"

lemma dispatched_Cons: "dispatched k (ev # evs) = dispatched k [ev] @ dispatched k evs"
  by (simp add: dispatched_def)

lemma answers_to_append [simp]: "answers_to h (xs @ ys) = answers_to h xs @ answers_to h ys" "answers_to h [] = []"
  by (simp_all add: answers_to_def)

lemma po_step_fifo:
  assumes "po_step ev p = (r, p1)" "ev = Pickup k \<Longrightarrow> f = h" "f = h \<Longrightarrow> ev = Pickup k \<or> (\<exists>e. ev = Deposit e)"
  shows "downlink p k @ dispatched k [ev] = answers_to h (map (Pair f) r) @ downlink p1 k"
proof (cases ev)
  case (Pickup j)
  then have "j = k \<longleftrightarrow> f = h" using assms(2,3) by auto
  with Pickup assms(1) show ?thesis
    by (cases "downlink p k") (auto simp: dispatched_def answers_to_def serve_queue_def)
qed (use assms in \<open>auto simp: dispatched_def answers_to_def\<close>)

lemma po_run_fifo:
  "po_run evs p = (rs, p') \<Longrightarrow>
     \<forall>(f, ev)\<in>set evs. (ev = Pickup k \<longrightarrow> f = h) \<and> (f = h \<longrightarrow> ev = Pickup k \<or> (\<exists>e. ev = Deposit e)) \<Longrightarrow>
     downlink p k @ dispatched k (map snd evs) = answers_to h rs @ downlink p' k"
proof (induction evs arbitrary: p rs)
  case (Cons fev evs)
  obtain f ev where fev: "fev = (f, ev)" by force
  obtain r p1 where s: "po_step ev p = (r, p1)" by force
  obtain rs1 where 1: "po_run evs p1 = (rs1, p')" "rs = map (Pair f) r @ rs1"
    using Cons.prems(1) s fev by (auto split: prod.splits)
  have IH: "downlink p1 k @ dispatched k (map snd evs) = answers_to h rs1 @ downlink p' k"
    using Cons.IH [OF 1(1)] Cons.prems(2) by auto
  have st: "downlink p k @ dispatched k [ev] = answers_to h (map (Pair f) r) @ downlink p1 k"
    using po_step_fifo [OF s, of k f h] Cons.prems(2) fev by simp
  have "downlink p k @ dispatched k (map snd (fev # evs)) = (downlink p k @ dispatched k [ev]) @ dispatched k (map snd evs)"
    unfolding fev list.map snd_conv append_assoc using dispatched_Cons [of k ev "map snd evs"] by simp
  also have "\<dots> = answers_to h rs @ downlink p' k" unfolding st append_assoc IH by (simp add: 1(2))
  finally show ?case .
qed (simp add: dispatched_def)

lemma shown_simps: "shown None = empty_entry" "shown (Some e) = (if entry_exists e then e else empty_entry)"
  by (simp_all add: shown_def entry_taken_def)

lemma answers_to_single: "answers_to h [(f, None)] = []" "answers_to h [(f, Some e)] = (if f = h then [e] else [])"
  by (simp_all add: answers_to_def)

lemma shown_answer: "filter entry_exists (answers_to h [(f, r)]) = filter entry_exists (if f = h then [shown r] else [])"
  by (cases r) (auto simp: shown_simps answers_to_single)

lemma shown_answers: "filter entry_exists (answers_to h rs) = filter entry_exists (map snd (filter (\<lambda>x. fst x = h) (shown_all rs)))"
proof (induction rs)
  case (Cons x rs)
  then show ?case using answers_to_append(1) [of h "[x]" rs] shown_answer [of h "fst x" "snd x"]
    by (simp add: shown_all_def)
qed (simp add: shown_all_def)

text \<open>What was posted for an identifier during the session.\<close>

definition posted_to :: "string \<Rightarrow> (nat \<times> lib_call) list \<Rightarrow> message_entry list" where
  "posted_to k cs = concat (map (\<lambda>(_, c). case c of
     CallPost src dest pl \<Rightarrow> if dest = k then [mk_entry src dest pl (int_of_size pl)] else [] | _ \<Rightarrow> []) cs)"

lemma dispatched_posted: "dispatched k (map snd (session_events S cs)) = posted_to k cs"
  by (induction cs) (auto simp: dispatched_def posted_to_def session_events_def split: lib_call.split)

text \<open>C5: In any session that keeps the conditions of \<open>library_refines_post_office\<close> (ASCII texts of at most 1000 characters, a PULL daemon
  without a database, one simulator at most in SYSTEM_WIDE mode, every \<open>fetch\<close> with a source, one call at a time) an application whose
  identifier no other application has gets, call by call, first what the daemon
  already held for it and then what the simulators post for it, in the order in which they post it; nothing with
  content is lost, doubled or altered, whatever the other clients do: what it got and what is left for it at the daemon are
  what was there and what was posted.\<close>

theorem library_delivers_in_order:
  assumes "session_setup S" "names_ok S" "mail_world (se_mode S) w" "room_for S (se_objs S) (lw_daemon w)" "session_calls_ok S cs"
    and "se_kind S h = APP_CLIENT" "\<forall>g\<in>set (se_objs S). se_kind S g = APP_CLIENT \<and> se_name S g = se_name S h \<longrightarrow> g = h"
  shows "\<exists>got cl w'. library_session (se_env S) (fresh_client S) (se_objs S) t cs w = Inr (got, cl, w') \<and>
     filter entry_exists (map snd (filter (\<lambda>x. fst x = h) got) @ filter (\<lambda>e. destination e = se_name S h) (rx_buffer (lw_daemon w'))) =
     filter entry_exists (filter (\<lambda>e. destination e = se_name S h) (rx_buffer (lw_daemon w)) @ posted_to (se_name S h) cs)"
proof -
  obtain rs cl w' where r: "library_session (se_env S) (fresh_client S) (se_objs S) t cs w = Inr (shown_all rs, cl, w')"
    "po_run (session_events S cs) (loop_mail w) = (rs, loop_mail w')"
    by (rule session_runs [OF assms(1-5), of t])
  have "\<forall>(f, ev)\<in>set (session_events S cs). (ev = Pickup (se_name S h) \<longrightarrow> f = h) \<and> (f = h \<longrightarrow> ev = Pickup (se_name S h) \<or> (\<exists>e. ev = Deposit e))"
  proof (clarsimp simp: session_events_def)
    fix f c
    assume "(f, c) \<in> set cs"
    with assms(5-7) show "(call_event (se_name S) (fetch_key S) f c = Pickup (se_name S h) \<longrightarrow> f = h) \<and>
        (f = h \<longrightarrow> call_event (se_name S) (fetch_key S) h c = Pickup (se_name S h) \<or> (\<exists>e. call_event (se_name S) (fetch_key S) h c = Deposit e))"
      by (cases c) (auto simp: session_calls_ok_def)
  qed
  from po_run_fifo [OF r(2) this, unfolded dispatched_posted]
  have "downlink (loop_mail w) (se_name S h) @ posted_to (se_name S h) cs = answers_to h rs @ downlink (loop_mail w') (se_name S h)" .
  then have "filter entry_exists (answers_to h rs @ downlink (loop_mail w') (se_name S h)) =
      filter entry_exists (downlink (loop_mail w) (se_name S h) @ posted_to (se_name S h) cs)" by metis
  then have "filter entry_exists (map snd (filter (\<lambda>x. fst x = h) (shown_all rs)) @ filter (\<lambda>e. destination e = se_name S h) (rx_buffer (lw_daemon w'))) =
      filter entry_exists (filter (\<lambda>e. destination e = se_name S h) (rx_buffer (lw_daemon w)) @ posted_to (se_name S h) cs)"
    unfolding filter_append shown_answers loop_mail_def post_office_queues .
  with r(1) show ?thesis by blast
qed

theorem library_delivers_in_order_witness:
  "\<exists>got cl w'. library_session (se_env wit_session) (fresh_client wit_session) (se_objs wit_session) 30 wit_calls wit_serving = Inr (got, cl, w') \<and>
     filter entry_exists (map snd (filter (\<lambda>x. fst x = 1) got) @ filter (\<lambda>e. destination e = ''b'') (rx_buffer (lw_daemon w'))) =
       [mk_entry ''a'' ''b'' ''one'' 3]"
proof -
  have "se_kind wit_session 1 = APP_CLIENT"
    "\<forall>g\<in>set (se_objs wit_session). se_kind wit_session g = APP_CLIENT \<and> se_name wit_session g = se_name wit_session 1 \<longrightarrow> g = 1"
    by (simp_all add: wit_session_def)
  note d = library_delivers_in_order [OF wit_session_setup(1,2,4,5,3) this, of 30]
  have "se_name wit_session 1 = ''b''" "rx_buffer (lw_daemon wit_serving) = []"
    "filter entry_exists (posted_to ''b'' wit_calls) = [mk_entry ''a'' ''b'' ''one'' 3]"
    by (simp_all add: wit_session_def wit_calls_def posted_to_def wit_serving_def wit_world_def wit_daemon_def int_of_size_def)
  with d show ?thesis by simp
qed

end
