(* ===== verification/NSB_Interop.thy ===== *)
theory NSB_Interop
  imports NSB_Session
begin

text \<open>
  The unified client over sockets provides the contract \<open>mail_library\<close> of \<open>NSB_Session\<close>, and so do the two
  libraries side by side at one daemon: clients written against \<open>NSBClient\<close> and clients written against the
  unified library exchange messages as if there were one library.
\<close>

section \<open>The unified client over sockets\<close>

text \<open>The same contract, with one difference: the unified \<open>fetch\<close> asks for the source it is given in either
  simulator mode, where \<open>NSBSimClient\<close> asks per node for itself.\<close>

type_synonym ('b, 's) u_clients = "(nat \<Rightarrow> u_client) \<times> ('b, 's) loop_world"

definition u_library :: "int \<Rightarrow> (nat \<Rightarrow> ('b, ('b, 's) loop_world) u_env) \<Rightarrow> (nat, rt_error, ('b, 's) u_clients) library" where
  "u_library t ue = \<lparr>
     lb_send = (\<lambda>h dest pl (cl, w). bind_res (u_app_send (ue h) dest pl (cl h) w) (\<lambda>(_, c, w1). Inr (cl(h := c), w1))),
     lb_fetch = (\<lambda>h src (cl, w). bind_res (u_sim_fetch (ue h) t src (cl h) w) (\<lambda>(e, c, w1). Inr (e, cl(h := c), w1))),
     lb_post = (\<lambda>h src dest pl (cl, w). bind_res (u_sim_post (ue h) src dest pl (cl h) w) (\<lambda>(_, c, w1). Inr (cl(h := c), w1))),
     lb_receive = (\<lambda>h (cl, w). bind_res (u_app_receive (ue h) t [] (cl h) w) (\<lambda>(e, c, w1). Inr (e, cl(h := c), w1)))\<rparr>"

record ('b, 's) u_session =
  us_pb :: "'b io_env"
  us_fds :: "nat \<Rightarrow> channel \<Rightarrow> fd"
  us_env :: "nat \<Rightarrow> ('b, ('b, 's) loop_world) u_env"
  us_mode :: simulator_mode
  us_objs :: "nat list"
  us_kind :: "nat \<Rightarrow> originator"
  us_name :: "nat \<Rightarrow> string"

definition u_client_is :: "originator \<Rightarrow> string \<Rightarrow> daemon \<Rightarrow> u_client \<Rightarrow> bool" where
  "u_client_is og i d c \<longleftrightarrow> u_ready og d c \<and> u_id c = i \<and> plain_text i \<and> i \<noteq> []"

definition u_session_ok :: "('b, 's) u_session \<Rightarrow> ('b, 's) u_clients \<Rightarrow> bool" where
  "u_session_ok S cw \<longleftrightarrow> (\<forall>h. u_test_env (us_pb S) (us_fds S h) (us_env S h)) \<and> mail_world (us_mode S) (snd cw) \<and>
     (\<forall>h\<in>set (us_objs S). u_client_is (us_kind S h) (us_name S h) (lw_daemon (snd cw)) (fst cw h))"

lemma u_session_step:
  assumes "u_session_ok S (cl, w)" "mail_world (us_mode S) (w\<lparr>lw_daemon := d\<rparr>)" "d_cfg d = d_cfg (lw_daemon w)"
  shows "u_session_ok S (cl(h := cl h), w\<lparr>lw_daemon := d\<rparr>)"
  using assms by (simp add: u_session_ok_def u_client_is_def u_ready_def)

lemma u_session_client:
  assumes "u_session_ok S (cl, w)" "h \<in> set (us_objs S)"
  shows "us_kind S h = og \<Longrightarrow> u_ready og (lw_daemon w) (cl h)" "u_id (cl h) = us_name S h" "plain_text (us_name S h)" "us_name S h \<noteq> []"
  using assms by (auto simp: u_session_ok_def u_client_is_def)

lemma u_session_world: "u_session_ok S (cl, w) \<Longrightarrow> mail_world (us_mode S) w \<and> test_world (us_mode S) w"
  by (simp add: u_session_ok_def mail_world_def)

lemma u_session_env:
  assumes "u_session_ok S cw"
  shows "u_on_loop (us_pb S) (us_fds S h) (us_env S h)" "carries_plain (us_pb S)"
  using assms by (auto simp: u_session_ok_def u_test_env_def)

text \<open>The two data calls and the two requests.\<close>

lemma u_data_deposit:
  assumes ok: "u_session_ok S (cl, w)" and c: "u_ready og (lw_daemon w) (cl h)" "plain_text src" "plain_text dest" "plain_text pl"
    and e: "e = mk_entry src dest pl (int_of_size pl)"
    and d: "opn = SEND \<and> d = (lw_daemon w)\<lparr>tx_buffer := tx_buffer (lw_daemon w) @ [e]\<rparr> \<or>
      opn = POST \<and> d = (lw_daemon w)\<lparr>rx_buffer := rx_buffer (lw_daemon w) @ [e]\<rparr>"
  shows "u_data (us_env S h) opn src dest pl (cl h) w = Inr ([], cl h, w\<lparr>lw_daemon := d\<rparr>)"
    "u_session_ok S (cl(h := cl h), w\<lparr>lw_daemon := d\<rparr>)"
proof -
  let ?m = "u_message opn og src dest pl"
  have w: "mail_world (us_mode S) w" "SYSTEM_MODE (d_cfg (lw_daemon w)) = PULL" "\<not> USE_DB (d_cfg (lw_daemon w))"
    using u_session_world [OF ok] by (simp_all add: test_world_def)
  have "entry_of_msg (lw_daemon w) ?m = e"
    using w(3) by (simp add: e entry_of_msg_def msg_get_payload_obj_def nsb_simps)
  then have "dispatch (us_pb S) ?m (lw_daemon w) = Inr (d, response_template, False, [])"
    using d dispatch_send_pull [OF w(2), of ?m] dispatch_post_pull [OF w(2), of ?m] by (auto simp: is_op_def nsb_simps)
  from u_data_loop [OF u_session_env(1) [OF ok] _ _ _ _ this] c u_session_env(2) [OF ok]
  show "u_data (us_env S h) opn src dest pl (cl h) w = Inr ([], cl h, w\<lparr>lw_daemon := d\<rparr>)"
    by (simp add: u_ready_def carries_plain_def)
  have "mail_world (us_mode S) (w\<lparr>lw_daemon := d\<rparr>)" "d_cfg d = d_cfg (lw_daemon w)"
    using d mail_world_cong [OF w(1) refl] plain_append [of e] mail_world_plain [OF w(1)] c(2-4) e by auto
  from u_session_step [OF ok this] show "u_session_ok S (cl(h := cl h), w\<lparr>lw_daemon := d\<rparr>)" .
qed

lemma u_take_request:
  assumes ok: "u_session_ok S (cl, w)" and c: "u_ready og (lw_daemon w) (cl h)" and req: "plain_message req" "opn \<in> set ops"
    and d: "dispatch (us_pb S) req (lw_daemon w) =
        Inr (d, entry_reply (lw_daemon w) opn (entry_or_blank r) response_template, True, [])"
      "mail_world (us_mode S) (w\<lparr>lw_daemon := d\<rparr>)" "d_cfg d = d_cfg (lw_daemon w)"
    and r: "transmits (us_pb S) (entry_reply (lw_daemon w) opn (entry_or_blank r) response_template)"
  shows "u_take (us_env S h) ops req t (cl h) w = Inr (shown r, cl h, w\<lparr>lw_daemon := d\<rparr>)"
proof -
  have w: "SYSTEM_MODE (d_cfg (lw_daemon w)) = PULL" "\<not> USE_DB (d_cfg (lw_daemon w))" "lw_inbox w (us_fds S h RECV_CH) = []"
    using u_session_world [OF ok] by (simp_all add: test_world_def)
  have rep: "entry_reply (lw_daemon w) = entry_reply d" using d(3) entry_reply_cfg [of "lw_daemon w" d] by (simp add: fun_eq_iff)
  have "transmits (us_pb S) req" using req(1) u_session_env(2) [OF ok] by (simp add: carries_plain_def)
  from u_take_loop [OF u_session_env(1) [OF ok] c _ this d(1) [unfolded rep] r [unfolded rep] w(3) req(2)] w(1,2) c d(3)
  show ?thesis by (simp add: u_ready_def shown_def entry_taken_def)
qed

lemma u_send_law:
  assumes ok: "u_session_ok S cw" and h: "h \<in> set (us_objs S)" and c: "call_ok (us_kind S h) (CallSend dest pl)"
  shows "\<exists>cw'. lb_send (u_library t (us_env S)) h dest pl cw = Inr cw' \<and> u_session_ok S cw' \<and>
      po_step (Deposit (mk_entry (us_name S h) dest pl (int_of_size pl))) (loop_mail (snd cw)) = ([], loop_mail (snd cw'))"
proof -
  obtain cl w where cw: "cw = (cl, w)" by force
  note u = u_session_client [OF ok [unfolded cw] h]
  let ?e = "mk_entry (us_name S h) dest pl (int_of_size pl)"
  have "u_ready APP_CLIENT (lw_daemon w) (cl h)" using u(1) c by simp
  from u_data_deposit [OF ok [unfolded cw] this u(3) _ _ refl disjI1 [OF conjI [OF refl refl]], of dest pl] c u(2)
    loop_mail_deposit(1) [of ?e w]
  show ?thesis by (simp add: u_library_def u_app_send_def cw del: fun_upd_triv)
qed

lemma u_post_law:
  assumes ok: "u_session_ok S cw" and h: "h \<in> set (us_objs S)" and c: "call_ok (us_kind S h) (CallPost src dest pl)"
  shows "\<exists>cw'. lb_post (u_library t (us_env S)) h src dest pl cw = Inr cw' \<and> u_session_ok S cw' \<and>
      po_step (Dispatch (mk_entry src dest pl (int_of_size pl))) (loop_mail (snd cw)) = ([], loop_mail (snd cw'))"
proof -
  obtain cl w where cw: "cw = (cl, w)" by force
  let ?e = "mk_entry src dest pl (int_of_size pl)"
  have "u_ready SIM_CLIENT (lw_daemon w) (cl h)" using u_session_client(1) [OF ok [unfolded cw] h] c by simp
  from u_data_deposit [OF ok [unfolded cw] this _ _ _ refl disjI2 [OF conjI [OF refl refl]], of src dest pl] c
    loop_mail_deposit(2) [of ?e w]
  show ?thesis by (simp add: u_library_def u_sim_post_def cw del: fun_upd_triv)
qed

lemma u_fetch_law:
  assumes ok: "u_session_ok S cw" and h: "h \<in> set (us_objs S)" and c: "call_ok (us_kind S h) (CallFetch src)"
  shows "\<exists>r cw'. lb_fetch (u_library t (us_env S)) h src cw = Inr (shown r, cw') \<and> u_session_ok S cw' \<and>
      po_step (Collect src) (loop_mail (snd cw)) = ([r], loop_mail (snd cw'))"
proof -
  obtain cl w where cw: "cw = (cl, w)" by force
  let ?d = "lw_daemon w" and ?m = "u_fetch_request (cl h) src"
  have u: "u_ready SIM_CLIENT ?d (cl h)" and w: "mail_world (us_mode S) w"
    using u_session_client(1) [OF ok [unfolded cw] h] u_session_world [OF ok [unfolded cw]] c by simp_all
  have k: "plain_text src" "src \<noteq> []" using c by simp_all
  obtain r tx where tk: "take_keyed source True src (tx_buffer ?d) = (r, tx)" by fastforce
  note tt = taken_transmits [OF u_session_env(2) [OF ok] mail_world_plain(1) [OF w] tk]
  have d: "dispatch (us_pb S) ?m ?d = Inr (?d\<lparr>tx_buffer := tx\<rparr>, entry_reply ?d FETCH (entry_or_blank r) response_template, True, [])"
    using dispatch_fetch [of ?m ?d r tx] tk k(2) by (simp add: nsb_simps)
  have p: "plain_message ?m"
    using k by (simp add: plain_message_def u_fetch_request_def with_code_def buildBaseMsg_def nsb_simps empty_intro_def empty_config_def)
  have w': "mail_world (us_mode S) (w\<lparr>lw_daemon := ?d\<lparr>tx_buffer := tx\<rparr>\<rparr>)" by (rule mail_world_cong(1) [OF w refl tt(2)])
  have "u_take (us_env S h) [SEND, FETCH, FORWARD] ?m t (cl h) w = Inr (shown r, cl h, w\<lparr>lw_daemon := ?d\<lparr>tx_buffer := tx\<rparr>\<rparr>)"
    by (rule u_take_request [OF ok [unfolded cw] u p _ d w' _ tt(1)]) simp_all
  moreover have "u_session_ok S (cl(h := cl h), w\<lparr>lw_daemon := ?d\<lparr>tx_buffer := tx\<rparr>\<rparr>)"
    by (rule u_session_step [OF ok [unfolded cw] w']) simp
  ultimately show ?thesis using loop_mail_take(1) [OF tk k(2)] by (auto simp: u_library_def u_sim_fetch_def cw simp del: fun_upd_triv)
qed

lemma u_receive_law:
  assumes ok: "u_session_ok S cw" and h: "h \<in> set (us_objs S)" and c: "call_ok (us_kind S h) CallReceive"
  shows "\<exists>r cw'. lb_receive (u_library t (us_env S)) h cw = Inr (shown r, cw') \<and> u_session_ok S cw' \<and>
      po_step (Pickup (us_name S h)) (loop_mail (snd cw)) = ([r], loop_mail (snd cw'))"
proof -
  obtain cl w where cw: "cw = (cl, w)" by force
  let ?d = "lw_daemon w" and ?m = "u_receive_request (cl h) []"
  note n = u_session_client(2-4) [OF ok [unfolded cw] h]
  have u: "u_ready APP_CLIENT ?d (cl h)" and w: "mail_world (us_mode S) w"
    using u_session_client(1) [OF ok [unfolded cw] h] u_session_world [OF ok [unfolded cw]] c by simp_all
  obtain r rx where tk: "take_keyed destination True (us_name S h) (rx_buffer ?d) = (r, rx)" by fastforce
  note tt = taken_transmits [OF u_session_env(2) [OF ok] mail_world_plain(2) [OF w] tk]
  have d: "dispatch (us_pb S) ?m ?d = Inr (?d\<lparr>rx_buffer := rx\<rparr>, entry_reply ?d RECEIVE (entry_or_blank r) response_template, True, [])"
    using dispatch_receive [of ?m ?d r rx] tk n by (simp add: nsb_simps)
  have p: "plain_message ?m" using n by simp
  have w': "mail_world (us_mode S) (w\<lparr>lw_daemon := ?d\<lparr>rx_buffer := rx\<rparr>\<rparr>)" by (rule mail_world_cong(2) [OF w refl tt(2)])
  have "u_take (us_env S h) [SEND, RECEIVE, FORWARD, POST] ?m t (cl h) w = Inr (shown r, cl h, w\<lparr>lw_daemon := ?d\<lparr>rx_buffer := rx\<rparr>\<rparr>)"
    by (rule u_take_request [OF ok [unfolded cw] u p _ d w' _ tt(1)]) simp_all
  moreover have "u_session_ok S (cl(h := cl h), w\<lparr>lw_daemon := ?d\<lparr>rx_buffer := rx\<rparr>\<rparr>)"
    by (rule u_session_step [OF ok [unfolded cw] w']) simp
  ultimately show ?thesis using loop_mail_take(2) [OF tk n(3)] by (auto simp: u_library_def u_app_receive_def cw simp del: fun_upd_triv)
qed

interpretation u_client: mail_library "u_library t (us_env S)" "\<lambda>cw. loop_mail (snd cw)" "\<lambda>_. u_session_ok S"
    "may_call (us_objs S) (us_kind S)" "us_name S" "\<lambda>_ src. src" for t S
  by (unfold_locales; unfold may_call_def; elim conjE; rule u_send_law u_post_law u_fetch_law u_receive_law; assumption)

section \<open>Both at one daemon\<close>

text \<open>Objects of the two libraries side by side: \<open>Inl\<close> numbers an \<open>NSBClient\<close>, \<open>Inr\<close> a unified client.\<close>

type_synonym ('b, 's) both_clients = "(nat \<Rightarrow> client) \<times> (nat \<Rightarrow> u_client) \<times> ('b, 's) loop_world"

definition both_library :: "i32 \<Rightarrow> (nat \<Rightarrow> ('b, ('b, 's) loop_world) client_env) \<Rightarrow> int \<Rightarrow> (nat \<Rightarrow> ('b, ('b, 's) loop_world) u_env) \<Rightarrow>
    (nat + nat, io_stop + rt_error, ('b, 's) both_clients) library" where
  "both_library t ce tu ue = \<lparr>
     lb_send = (\<lambda>h dest pl (cl, ucl, w). case h of
         Inl i \<Rightarrow> map_sum Inl (\<lambda>(cl, w). (cl, ucl, w)) (lb_send (nsb_library t ce) i dest pl (cl, w))
       | Inr i \<Rightarrow> map_sum Inr (Pair cl) (lb_send (u_library tu ue) i dest pl (ucl, w))),
     lb_fetch = (\<lambda>h src (cl, ucl, w). case h of
         Inl i \<Rightarrow> map_sum Inl (\<lambda>(e, cl, w). (e, cl, ucl, w)) (lb_fetch (nsb_library t ce) i src (cl, w))
       | Inr i \<Rightarrow> map_sum Inr (\<lambda>(e, uw). (e, cl, uw)) (lb_fetch (u_library tu ue) i src (ucl, w))),
     lb_post = (\<lambda>h src dest pl (cl, ucl, w). case h of
         Inl i \<Rightarrow> map_sum Inl (\<lambda>(cl, w). (cl, ucl, w)) (lb_post (nsb_library t ce) i src dest pl (cl, w))
       | Inr i \<Rightarrow> map_sum Inr (Pair cl) (lb_post (u_library tu ue) i src dest pl (ucl, w))),
     lb_receive = (\<lambda>h (cl, ucl, w). case h of
         Inl i \<Rightarrow> map_sum Inl (\<lambda>(e, cl, w). (e, cl, ucl, w)) (lb_receive (nsb_library t ce) i (cl, w))
       | Inr i \<Rightarrow> map_sum Inr (\<lambda>(e, uw). (e, cl, uw)) (lb_receive (u_library tu ue) i (ucl, w)))\<rparr>"

definition both_ok :: "('b, 's) session \<Rightarrow> ('b, 's) u_session \<Rightarrow> ('b, 's) both_clients \<Rightarrow> bool" where
  "both_ok S U cuw \<longleftrightarrow> (case cuw of (cl, ucl, w) \<Rightarrow> session_ok S (cl, w) \<and> u_session_ok U (ucl, w) \<and> se_mode S = us_mode U)"

text \<open>A client stays ready when the other library changes the daemon's mail.\<close>

lemma session_ok_world: "session_ok S (cl, w) \<Longrightarrow> mail_world (se_mode S) w' \<Longrightarrow> session_ok S (cl, w')"
  by (auto simp: session_ok_def client_is_def ready_def mail_world_def test_world_def)

lemma u_session_ok_world: "u_session_ok S (cl, w) \<Longrightarrow> mail_world (us_mode S) w' \<Longrightarrow> u_session_ok S (cl, w')"
  by (auto simp: u_session_ok_def u_client_is_def u_ready_def mail_world_def test_world_def)

lemma both_okI1: "both_ok S U (cl, ucl, w) \<Longrightarrow> session_ok S (cl', w') \<Longrightarrow> both_ok S U (cl', ucl, w')"
  using session_world [of S cl' w'] u_session_ok_world [of U ucl w w'] by (simp add: both_ok_def)

lemma both_okI2: "both_ok S U (cl, ucl, w) \<Longrightarrow> u_session_ok U (ucl', w') \<Longrightarrow> both_ok S U (cl, ucl', w')"
  using u_session_world [of U ucl' w'] session_ok_world [of S cl w w'] by (simp add: both_ok_def)

lemma both_okD: "both_ok S U (cl, ucl, w) \<Longrightarrow> session_ok S (cl, w) \<and> u_session_ok U (ucl, w)"
  by (simp add: both_ok_def)

definition both_objs :: "('b, 's) session \<Rightarrow> ('b, 's) u_session \<Rightarrow> (nat + nat) set" where
  "both_objs S U = Inl ` set (se_objs S) \<union> Inr ` set (us_objs U)"

definition both_kind :: "('b, 's) session \<Rightarrow> ('b, 's) u_session \<Rightarrow> nat + nat \<Rightarrow> originator" where
  "both_kind S U = case_sum (se_kind S) (us_kind U)"

definition both_name :: "('b, 's) session \<Rightarrow> ('b, 's) u_session \<Rightarrow> nat + nat \<Rightarrow> string" where
  "both_name S U = case_sum (se_name S) (us_name U)"

definition both_key :: "('b, 's) session \<Rightarrow> nat + nat \<Rightarrow> string \<Rightarrow> string" where
  "both_key S h src = (case h of Inl i \<Rightarrow> fetch_key S i src | Inr _ \<Rightarrow> src)"

definition both_mail :: "('b, 's) both_clients \<Rightarrow> post_office" where
  "both_mail cuw = (case cuw of (_, _, w) \<Rightarrow> loop_mail w)"

lemmas both_defs = both_library_def both_kind_def both_name_def both_key_def both_mail_def

lemma both_send_law:
  assumes ok: "both_ok S U cuw" and h: "h \<in> both_objs S U" and c: "call_ok (both_kind S U h) (CallSend dest pl)"
  shows "\<exists>cuw'. lb_send (both_library t (se_env S) tu (us_env U)) h dest pl cuw = Inr cuw' \<and> both_ok S U cuw' \<and>
      po_step (Deposit (mk_entry (both_name S U h) dest pl (int_of_size pl))) (both_mail cuw) = ([], both_mail cuw')"
proof -
  obtain cl ucl w where w: "cuw = (cl, ucl, w)" by (cases cuw) auto
  note ok2 = both_okD [OF ok [unfolded w]] and okI = both_okI1 [OF ok [unfolded w]] both_okI2 [OF ok [unfolded w]]
  show ?thesis
  proof (cases h)
    case (Inl i)
    then obtain cw' where "lb_send (nsb_library t (se_env S)) i dest pl (cl, w) = Inr cw'" "session_ok S cw'"
      "po_step (Deposit (mk_entry (both_name S U h) dest pl (int_of_size pl))) (loop_mail w) = ([], loop_mail (snd cw'))"
      using nsb_send_law [OF conjunct1 [OF ok2], of i dest pl t] h c by (auto simp: both_objs_def both_kind_def both_name_def)
    with okI(1) show ?thesis by (cases cw') (simp add: both_defs w Inl)
  next
    case (Inr i)
    then obtain cw' where "lb_send (u_library tu (us_env U)) i dest pl (ucl, w) = Inr cw'" "u_session_ok U cw'"
      "po_step (Deposit (mk_entry (both_name S U h) dest pl (int_of_size pl))) (loop_mail w) = ([], loop_mail (snd cw'))"
      using u_send_law [OF conjunct2 [OF ok2], of i dest pl tu] h c by (auto simp: both_objs_def both_kind_def both_name_def)
    with okI(2) show ?thesis by (cases cw') (simp add: both_defs w Inr)
  qed
qed

lemma both_post_law:
  assumes ok: "both_ok S U cuw" and h: "h \<in> both_objs S U" and c: "call_ok (both_kind S U h) (CallPost src dest pl)"
  shows "\<exists>cuw'. lb_post (both_library t (se_env S) tu (us_env U)) h src dest pl cuw = Inr cuw' \<and> both_ok S U cuw' \<and>
      po_step (Dispatch (mk_entry src dest pl (int_of_size pl))) (both_mail cuw) = ([], both_mail cuw')"
proof -
  obtain cl ucl w where w: "cuw = (cl, ucl, w)" by (cases cuw) auto
  note ok2 = both_okD [OF ok [unfolded w]] and okI = both_okI1 [OF ok [unfolded w]] both_okI2 [OF ok [unfolded w]]
  show ?thesis
  proof (cases h)
    case (Inl i)
    then obtain cw' where "lb_post (nsb_library t (se_env S)) i src dest pl (cl, w) = Inr cw'" "session_ok S cw'"
      "po_step (Dispatch (mk_entry src dest pl (int_of_size pl))) (loop_mail w) = ([], loop_mail (snd cw'))"
      using nsb_post_law [OF conjunct1 [OF ok2], of i src dest pl t] h c by (auto simp: both_objs_def both_kind_def both_name_def)
    with okI(1) show ?thesis by (cases cw') (simp add: both_defs w Inl)
  next
    case (Inr i)
    then obtain cw' where "lb_post (u_library tu (us_env U)) i src dest pl (ucl, w) = Inr cw'" "u_session_ok U cw'"
      "po_step (Dispatch (mk_entry src dest pl (int_of_size pl))) (loop_mail w) = ([], loop_mail (snd cw'))"
      using u_post_law [OF conjunct2 [OF ok2], of i src dest pl tu] h c by (auto simp: both_objs_def both_kind_def both_name_def)
    with okI(2) show ?thesis by (cases cw') (simp add: both_defs w Inr)
  qed
qed

lemma both_fetch_law:
  assumes ok: "both_ok S U cuw" and h: "h \<in> both_objs S U" and c: "call_ok (both_kind S U h) (CallFetch src)"
  shows "\<exists>r cuw'. lb_fetch (both_library t (se_env S) tu (us_env U)) h src cuw = Inr (shown r, cuw') \<and> both_ok S U cuw' \<and>
      po_step (Collect (both_key S h src)) (both_mail cuw) = ([r], both_mail cuw')"
proof -
  obtain cl ucl w where w: "cuw = (cl, ucl, w)" by (cases cuw) auto
  note ok2 = both_okD [OF ok [unfolded w]] and okI = both_okI1 [OF ok [unfolded w]] both_okI2 [OF ok [unfolded w]]
  show ?thesis
  proof (cases h)
    case (Inl i)
    then obtain r cw' where "lb_fetch (nsb_library t (se_env S)) i src (cl, w) = Inr (shown r, cw')" "session_ok S cw'"
      "po_step (Collect (both_key S h src)) (loop_mail w) = ([r], loop_mail (snd cw'))"
      using nsb_fetch_law [OF conjunct1 [OF ok2], of i src t] h c by (auto simp: both_objs_def both_kind_def both_name_def both_key_def)
    with okI(1) show ?thesis by (cases cw') (simp add: both_defs w Inl)
  next
    case (Inr i)
    then obtain r cw' where "lb_fetch (u_library tu (us_env U)) i src (ucl, w) = Inr (shown r, cw')" "u_session_ok U cw'"
      "po_step (Collect (both_key S h src)) (loop_mail w) = ([r], loop_mail (snd cw'))"
      using u_fetch_law [OF conjunct2 [OF ok2], of i src tu] h c by (auto simp: both_objs_def both_kind_def both_name_def both_key_def)
    with okI(2) show ?thesis by (cases cw') (simp add: both_defs w Inr)
  qed
qed

lemma both_receive_law:
  assumes ok: "both_ok S U cuw" and h: "h \<in> both_objs S U" and c: "call_ok (both_kind S U h) CallReceive"
  shows "\<exists>r cuw'. lb_receive (both_library t (se_env S) tu (us_env U)) h cuw = Inr (shown r, cuw') \<and> both_ok S U cuw' \<and>
      po_step (Pickup (both_name S U h)) (both_mail cuw) = ([r], both_mail cuw')"
proof -
  obtain cl ucl w where w: "cuw = (cl, ucl, w)" by (cases cuw) auto
  note ok2 = both_okD [OF ok [unfolded w]] and okI = both_okI1 [OF ok [unfolded w]] both_okI2 [OF ok [unfolded w]]
  show ?thesis
  proof (cases h)
    case (Inl i)
    then obtain r cw' where "lb_receive (nsb_library t (se_env S)) i (cl, w) = Inr (shown r, cw')" "session_ok S cw'"
      "po_step (Pickup (both_name S U h)) (loop_mail w) = ([r], loop_mail (snd cw'))"
      using nsb_receive_law [OF conjunct1 [OF ok2], of i t] h c by (auto simp: both_objs_def both_kind_def both_name_def both_key_def)
    with okI(1) show ?thesis by (cases cw') (simp add: both_defs w Inl)
  next
    case (Inr i)
    then obtain r cw' where "lb_receive (u_library tu (us_env U)) i (ucl, w) = Inr (shown r, cw')" "u_session_ok U cw'"
      "po_step (Pickup (both_name S U h)) (loop_mail w) = ([r], loop_mail (snd cw'))"
      using u_receive_law [OF conjunct2 [OF ok2], of i tu] h c by (auto simp: both_objs_def both_kind_def both_name_def both_key_def)
    with okI(2) show ?thesis by (cases cw') (simp add: both_defs w Inr)
  qed
qed

definition both_may :: "('b, 's) session \<Rightarrow> ('b, 's) u_session \<Rightarrow> nat + nat \<Rightarrow> lib_call \<Rightarrow> bool" where
  "both_may S U h c \<longleftrightarrow> h \<in> both_objs S U \<and> call_ok (both_kind S U h) c"

interpretation both: mail_library "both_library t (se_env S) tu (us_env U)" both_mail "\<lambda>_. both_ok S U" "both_may S U"
    "both_name S U" "both_key S" for t S tu U
  by (unfold_locales; unfold both_may_def; elim conjE; rule both_send_law both_post_law both_fetch_law both_receive_law; assumption)

text \<open>C6: The two client libraries work together: clients of \<open>NSBClient\<close> and unified clients over sockets, constructed and ready in their
  roles, call, one call at a time and in any order, on one serving daemon in PULL mode without a database, with ASCII texts of at most
  1000 characters that Protobuf carries; every \<open>fetch\<close> names a source.  (A \<open>fetch\<close> without one, \<open>fetch()\<close>, is not among the calls: on it the
  libraries differ, \<open>unified_fetch_starves\<close>.)  Every such call returns, and every answer, and the mail left at the end, are
  those of one post office; which library a client uses makes no difference but for the source that a simulator's \<open>fetch\<close> asks for:
  per node \<open>NSBSimClient\<close> asks for its own name, the unified client for the source it is given.\<close>

theorem both_libraries_refine_post_office:
  assumes "both_ok S U (cl, ucl, w)" "\<forall>(h, c)\<in>set cs. both_may S U h c"
  shows "\<exists>rs cl' ucl' w'. lib_run (both_library t (se_env S) tu (us_env U)) cs (cl, ucl, w) = Inr (shown_all rs, cl', ucl', w') \<and>
     po_run (map (\<lambda>(h, c). (h, call_event (both_name S U) (both_key S) h c)) cs) (loop_mail w) = (rs, loop_mail w')"
  using both.run_refines [OF assms, of t tu] by (fastforce simp: both_mail_def)

text \<open>An application of the old library sends, a unified simulator forwards, a unified application receives.\<close>

definition wit_u_session :: "(nsbm, string \<Rightarrow> string option) u_session" where
  "wit_u_session = \<lparr>us_pb = fragment_env, us_fds = (\<lambda>h. wit_fds (int (3 * h + 20))), us_env = (\<lambda>h. wit_u_env (int (3 * h + 20))),
     us_mode = SYSTEM_WIDE, us_objs = [0, 1], us_kind = (\<lambda>h. if h = 0 then SIM_CLIENT else APP_CLIENT),
     us_name = (\<lambda>h. if h = 0 then ''sim'' else ''b'')\<rparr>"

definition wit_old :: "(nsbm, string \<Rightarrow> string option) session" where
  "wit_old = wit_session\<lparr>se_objs := [0]\<rparr>"

theorem both_libraries_refine_post_office_witness:
  "\<exists>cl' ucl' w'. lib_run (both_library 30 (se_env wit_old) 30 (us_env wit_u_session))
     [(Inl 0, CallSend ''b'' ''one''), (Inr 0, CallFetch ''a''), (Inr 0, CallPost ''a'' ''b'' ''one''), (Inr 1, CallReceive), (Inr 1, CallReceive)]
     (\<lambda>_. new_app_client ''a'', \<lambda>h. if h = 0 then wit_u SIM_CLIENT ''sim'' else wit_u APP_CLIENT ''b'', wit_serving) =
   Inr ([(Inr 0, mk_entry ''a'' ''b'' ''one'' 3), (Inr 1, mk_entry ''a'' ''b'' ''one'' 3), (Inr 1, empty_entry)], cl', ucl', w')"
proof -
  let ?cs = "[(Inl 0, CallSend ''b'' ''one''), (Inr 0, CallFetch ''a''), (Inr 0, CallPost ''a'' ''b'' ''one''), (Inr 1, CallReceive),
     (Inr 1, CallReceive)] :: ((nat + nat) \<times> lib_call) list"
  let ?u = "\<lambda>h :: nat. if h = 0 then wit_u SIM_CLIENT ''sim'' else wit_u APP_CLIENT ''b''"
  have u: "u_test_env fragment_env (wit_fds f) (wit_u_env f)" for f
    by (simp add: u_test_env_def carries_plain_def plain_names_def) (simp add: wit_u_env_def plain_text_def)
  have w: "mail_world SYSTEM_WIDE wit_serving"
    by (simp add: mail_world_def test_world_def wit_serving_def wit_world_def wit_daemon_def default_cfg_def)
  have "both_ok wit_old wit_u_session (\<lambda>_. new_app_client ''a'', ?u, wit_serving)"
    using u w wit_test_env
    by (simp add: both_ok_def session_ok_def session_setup_def u_session_ok_def wit_old_def wit_session_def wit_u_session_def
        client_is_def u_client_is_def plain_text_def)
      (simp add: ready_def u_ready_def new_app_client_def new_client_def wit_serving_def wit_world_def wit_daemon_def default_cfg_def wit_u_def new_u_client_def)
  moreover have "\<forall>(h, c)\<in>set ?cs. both_may wit_old wit_u_session h c"
    by (simp add: both_may_def both_objs_def both_kind_def wit_old_def wit_session_def wit_u_session_def plain_text_def)
  ultimately obtain rs cl' ucl' w' where "lib_run (both_library 30 (se_env wit_old) 30 (us_env wit_u_session)) ?cs
      (\<lambda>_. new_app_client ''a'', ?u, wit_serving) = Inr (shown_all rs, cl', ucl', w')"
    "po_run (map (\<lambda>(h, c). (h, call_event (both_name wit_old wit_u_session) (both_key wit_old) h c)) ?cs) (loop_mail wit_serving) = (rs, loop_mail w')"
    using both_libraries_refine_post_office [of wit_old wit_u_session _ ?u wit_serving ?cs 30 30] by blast
  then show ?thesis
    by (auto simp: both_name_def both_key_def wit_old_def wit_session_def wit_u_session_def loop_mail_def post_office_of_def wit_serving_def wit_world_def
        wit_daemon_def serve_queue_def shown_all_def shown_def fetch_key_def int_of_size_def)
qed

end
