(* ===== verification/NSB_Stored.thy ===== *)
theory NSB_Stored
  imports NSB_Session
begin

text \<open>
  The library with the database: every payload lies in Redis under a key of its own, and the daemon
  holds only the keys.  To the clients this is the same post office (the contract \<open>mail_library\<close> of \<open>NSB_Session\<close>), as long
  as no client uses up the \<open>2 ^ 20\<close> values of its key counter: the keys that are out are then all different, so
  that no payload overwrites or takes away another.
\<close>

section \<open>Keys\<close>

text \<open>The counter of a client's connector, and the keys that the clients of a plan have used so far.\<close>

definition counter :: "client \<Rightarrow> int" where
  "counter c = (case db c of None \<Rightarrow> 0 | Some conn \<Rightarrow> sint (plctr conn))"

definition issued :: "'z plan_scheme \<Rightarrow> (nat \<Rightarrow> client) \<Rightarrow> string \<Rightarrow> bool" where
  "issued P cl k \<longleftrightarrow> (\<exists>h\<in>set (se_objs P). \<exists>t i. k = payload_id t (se_name P h) i \<and> 0 \<le> sint i \<and> sint i \<le> counter (cl h))"

lemma counter_next:
  assumes "0 \<le> sint (plctr conn)" "sint (plctr conn) + 1 < 2 ^ 20"
  shows "sint (plctr (snd (generatePayloadId now conn))) = sint (plctr conn) + 1"
proof -
  define n where "n = nat (sint (plctr conn))"
  have n: "plctr conn = of_nat n" "Suc n < 2 ^ 20" "sint (plctr conn) = int n"
    using assms by (simp_all add: n_def)
  have "take_bit 20 (of_nat (Suc n) :: i32) = of_nat (take_bit 20 (Suc n))" by (rule take_bit_of_nat)
  also have "take_bit 20 (Suc n) = Suc n" using n(2) by (simp add: take_bit_nat_eq_self)
  finally have "plctr (snd (generatePayloadId now conn)) = of_nat (Suc n)"
    unfolding plctr_generate n(1) by (simp add: add.commute)
  with word_pos(1) [of "Suc n" "Suc n"] n(2,3) show ?thesis by simp
qed

lemma next_key_issued:
  assumes "db c = Some conn" "rc_client conn = i" "0 \<le> sint (plctr conn)" "sint (plctr conn) + 1 < 2 ^ 20"
    "c' = c\<lparr>db := Some (snd (generatePayloadId now conn))\<rparr>"
  shows "counter c' = counter c + 1" "counter c = sint (plctr conn)"
    "\<exists>t j. next_key now c = payload_id t i j \<and> sint j = counter c + 1"
  using assms counter_next [OF assms(3,4), of now] key_generate [of now conn]
  by (auto simp: counter_def next_key_def)

lemma payload_id_other:
  "0 \<le> sint i \<Longrightarrow> 0 \<le> sint j \<Longrightarrow> a \<noteq> b \<or> sint i \<noteq> sint j \<Longrightarrow> payload_id t a i \<noteq> payload_id t' b j"
  using payload_id_inj by auto

text \<open>A new key is none of those issued.\<close>

lemma issued_fresh:
  assumes "inj_on (se_name P) (set (se_objs P))" "h \<in> set (se_objs P)" "k = payload_id t (se_name P h) j" "sint j = counter (cl h) + 1" "0 \<le> counter (cl h)"
  shows "\<not> issued P cl k"
proof
  assume "issued P cl k"
  then obtain g t' i where g: "g \<in> set (se_objs P)" "k = payload_id t' (se_name P g) i" "0 \<le> sint i" "sint i \<le> counter (cl g)"
    by (auto simp: issued_def)
  have "0 \<le> sint j" using assms(4,5) by simp
  with g(2,3) assms(3) have "se_name P g = se_name P h" "i = j" using payload_id_inj by metis+
  with assms(1,2,4) g show False by (auto simp: inj_on_def)
qed

lemma issued_mono: "issued P cl k \<Longrightarrow> (\<And>h. counter (cl h) \<le> counter (cl' h)) \<Longrightarrow> issued P cl' k"
  unfolding issued_def by (meson order_trans)

text \<open>Keys are short and plain when the identifiers are, and reach Redis whole.\<close>

definition id_ok :: "string \<Rightarrow> bool" where
  "id_ok s \<longleftrightarrow> plain_text s \<and> length s \<le> 900 \<and> s \<noteq> [] \<and> CHR 0x00 \<notin> set s"

lemma length_nat_digits: "n < 10 ^ Suc k \<Longrightarrow> length (nat_digits n) \<le> Suc k"
proof (induction k arbitrary: n)
  case 0
  then show ?case by (simp add: nat_digits.simps)
next
  case (Suc k)
  then have "n div 10 < 10 ^ Suc k" by (simp add: less_mult_imp_div_less)
  from Suc.IH [OF this] show ?case by (subst nat_digits.simps) simp
qed

lemma digit_plain: "is_digit c \<Longrightarrow> of_char c < (128 :: nat) \<and> c \<noteq> CHR 0x00"
  by (auto simp: is_digit_def)

lemma to_string_plain: "(\<forall>c\<in>set (to_string i). of_char c < (128 :: nat)) \<and> CHR 0x00 \<notin> set (to_string i)"
proof -
  have "\<forall>c\<in>set (nat_digits n). of_char c < (128 :: nat) \<and> c \<noteq> CHR 0x00" for n
    using digit_plain nat_digits_all_digits by blast
  then have "\<forall>c\<in>set (to_string i). of_char c < (128 :: nat) \<and> c \<noteq> CHR 0x00" by (auto simp: to_string_def)
  then show ?thesis by blast
qed

lemma length_to_string: "length (to_string (sint (i :: i32))) \<le> 11"
proof -
  have "- (2 ^ 31) \<le> sint i" "sint i < 2 ^ 31" using sint_range_size [of i] by (simp_all add: word_size)
  then have "nat (- sint i) < 10 ^ Suc 9" "nat (sint i) < 10 ^ Suc 9" by auto
  from this [THEN length_nat_digits] show ?thesis by (auto simp: to_string_def)
qed

lemma payload_id_plain:
  assumes "id_ok a"
  shows "plain_text (payload_id t a i)" "CHR 0x00 \<notin> set (payload_id t a i)" "payload_id t a i \<noteq> []"
  using assms to_string_plain [of "sint t"] to_string_plain [of "sint i"] length_to_string [of t] length_to_string [of i]
  by (auto simp: id_ok_def plain_text_def payload_id_def)

lemma issued_plain:
  assumes "issued P cl k" "\<forall>h\<in>set (se_objs P). id_ok (se_name P h)"
  shows "plain_text k" "c_str k = k" "k \<noteq> []"
  using assms payload_id_plain c_str_id by (auto simp: issued_def)

section \<open>The stored mail\<close>

text \<open>An entry with the payload in place of the key; and the world whose daemon holds the mail itself.\<close>

definition content :: "('s \<Rightarrow> string \<Rightarrow> string option) \<Rightarrow> 's \<Rightarrow> message_entry \<Rightarrow> message_entry" where
  "content view s e = mk_entry (source e) (destination e) (case view s (payload_obj e) of None \<Rightarrow> [] | Some v \<Rightarrow> v) (entry_size e)"

definition unstored :: "('s \<Rightarrow> string \<Rightarrow> string option) \<Rightarrow> ('b, 's) loop_world \<Rightarrow> ('b, 's) loop_world" where
  "unstored view w = w\<lparr>lw_daemon := (lw_daemon w)\<lparr>tx_buffer := map (content view (lw_redis w)) (tx_buffer (lw_daemon w)),
     rx_buffer := map (content view (lw_redis w)) (rx_buffer (lw_daemon w))\<rparr>\<rparr>"

definition stored_mail :: "('s \<Rightarrow> string \<Rightarrow> string option) \<Rightarrow> ('b, 's) loop_world \<Rightarrow> post_office" where
  "stored_mail view w = loop_mail (unstored view w)"

lemma content_sel [simp]: "source (content view s e) = source e" "destination (content view s e) = destination e"
  by (simp_all add: content_def)

lemma content_cong: "view s' (payload_obj e) = view s (payload_obj e) \<Longrightarrow> content view s' e = content view s e"
  by (simp add: content_def)

lemma stored_mail_cong:
  assumes "map (content view s') tx = map (content view (lw_redis w)) (tx_buffer (lw_daemon w)) @ us"
    "map (content view s') rx = map (content view (lw_redis w)) (rx_buffer (lw_daemon w)) @ vs"
  shows "stored_mail view (w\<lparr>lw_redis := s', lw_daemon := (lw_daemon w)\<lparr>tx_buffer := tx, rx_buffer := rx\<rparr>\<rparr>) =
    loop_mail ((unstored view w)\<lparr>lw_daemon := (lw_daemon (unstored view w))\<lparr>
      tx_buffer := tx_buffer (lw_daemon (unstored view w)) @ us, rx_buffer := rx_buffer (lw_daemon (unstored view w)) @ vs\<rparr>\<rparr>)"
  using assms by (simp add: stored_mail_def loop_mail_def unstored_def post_office_of_def)

section \<open>The state of the library\<close>

definition stored_world :: "simulator_mode \<Rightarrow> ('b, 's) loop_world \<Rightarrow> bool" where
  "stored_world md w \<longleftrightarrow> SYSTEM_MODE (d_cfg (lw_daemon w)) = PULL \<and> SIMULATOR_MODE (d_cfg (lw_daemon w)) = md \<and>
     USE_DB (d_cfg (lw_daemon w)) \<and> running (lw_daemon w) \<and> lw_inbox w = (\<lambda>_. [])"

definition stored_client :: "nat \<Rightarrow> originator \<Rightarrow> string \<Rightarrow> daemon \<Rightarrow> client \<Rightarrow> bool" where
  "stored_client n og i d c \<longleftrightarrow> ready og d c \<and> clientId c = i \<and> id_ok i \<and>
     (case db c of None \<Rightarrow> False | Some conn \<Rightarrow> isConnected conn \<and> rc_client conn = i \<and> 0 \<le> sint (plctr conn) \<and>
        sint (plctr conn) + int n < 2 ^ 20)"

definition stored_entry :: "'z plan_scheme \<Rightarrow> (nat \<Rightarrow> client) \<Rightarrow> (string \<Rightarrow> string option) \<Rightarrow> message_entry \<Rightarrow> bool" where
  "stored_entry P cl kv e \<longleftrightarrow> plain_text (source e) \<and> plain_text (destination e) \<and> issued P cl (payload_obj e) \<and>
     (\<exists>v. kv (payload_obj e) = Some v \<and> v \<noteq> [])"

definition held :: "('b, 's) loop_world \<Rightarrow> message_entry list" where
  "held w = tx_buffer (lw_daemon w) @ rx_buffer (lw_daemon w)"

definition stored_ok :: "('b, 's) session \<Rightarrow> ('s \<Rightarrow> string \<Rightarrow> string option) \<Rightarrow> nat \<Rightarrow> ('b, 's) loop_world clients \<Rightarrow> bool" where
  "stored_ok S view n cw \<longleftrightarrow> session_setup S \<and> redis_laws (se_exec S) view \<and> inj_on (se_name S) (set (se_objs S)) \<and>
     stored_world (se_mode S) (snd cw) \<and>
     (\<forall>h\<in>set (se_objs S). stored_client n (se_kind S h) (se_name S h) (lw_daemon (snd cw)) (fst cw h)) \<and>
     (\<forall>e\<in>set (held (snd cw)). stored_entry S (fst cw) (view (lw_redis (snd cw))) e) \<and>
     distinct (map payload_obj (held (snd cw)))"

text \<open>Payloads that Redis keeps whole: not empty, without NUL.\<close>

definition storable :: "lib_call \<Rightarrow> bool" where
  "storable c \<longleftrightarrow> (case c of CallSend dest pl \<Rightarrow> pl \<noteq> [] \<and> CHR 0x00 \<notin> set pl
     | CallPost src dest pl \<Rightarrow> pl \<noteq> [] \<and> CHR 0x00 \<notin> set pl | _ \<Rightarrow> True)"

definition stored_may :: "'z plan_scheme \<Rightarrow> nat \<Rightarrow> lib_call \<Rightarrow> bool" where
  "stored_may P h c \<longleftrightarrow> may_call (se_objs P) (se_kind P) h c \<and> storable c"

lemma stored_clientE:
  assumes "stored_client n og i d c"
  obtains conn where "db c = Some conn" "isConnected conn" "rc_client conn = i" "0 \<le> sint (plctr conn)" "sint (plctr conn) + int n < 2 ^ 20"
    "ready og d c" "clientId c = i" "id_ok i"
  using assms by (auto simp: stored_client_def split: option.splits)

lemma stored_client_mono: "stored_client (Suc n) og i d c \<Longrightarrow> d_cfg d' = d_cfg d \<Longrightarrow> stored_client n og i d' c"
  using ready_cong [of d' d og c] by (auto simp: stored_client_def split: option.splits)

text \<open>The key of a client's next payload is new, and with its connector advanced the client is good for one call less.\<close>

lemma next_stored_key:
  assumes ok: "stored_ok S view (Suc n) (cl, w)" and h: "h \<in> set (se_objs S)" and conn: "db (cl h) = Some conn"
    and k: "k = next_key now (cl h)" and c: "c = (cl h)\<lparr>db := Some (snd (generatePayloadId now conn))\<rparr>"
  shows "issued S (cl(h := c)) k" "c_str k = k" "\<And>x. x \<in> set (held w) \<Longrightarrow> payload_obj x \<noteq> k"
    "\<And>j. issued S cl j \<Longrightarrow> issued S (cl(h := c)) j"
    "\<And>d g. d_cfg d = d_cfg (lw_daemon w) \<Longrightarrow> g \<in> set (se_objs S) \<Longrightarrow> stored_client n (se_kind S g) (se_name S g) d ((cl(h := c)) g)"
proof -
  note o = ok [unfolded stored_ok_def, simplified]
  have cl: "stored_client (Suc n) (se_kind S h) (se_name S h) (lw_daemon w) (cl h)" "\<forall>h\<in>set (se_objs S). id_ok (se_name S h)"
    using o h by (auto elim: stored_clientE)
  then have cn: "rc_client conn = se_name S h" "0 \<le> sint (plctr conn)" "sint (plctr conn) + 1 + int n < 2 ^ 20"
    using conn by (auto simp: stored_client_def)
  have lt: "sint (plctr conn) + 1 < 2 ^ 20" using cn(3) by simp
  obtain t j where j: "k = payload_id t (se_name S h) j" "sint j = counter (cl h) + 1" "counter c = counter (cl h) + 1" "counter (cl h) = sint (plctr conn)"
    using next_key_issued [OF conn cn(1,2) lt c] k by blast
  have mono: "counter (cl g) \<le> counter ((cl(h := c)) g)" for g using j(3) by simp
  show new: "issued S (cl(h := c)) k" unfolding issued_def
    by (intro bexI [OF _ h] exI [of _ t] exI [of _ j]) (use j cn(2) in simp)
  show "c_str k = k" by (rule issued_plain(2) [OF new cl(2)])
  have "\<not> issued S cl k"
    by (rule issued_fresh [where h = h and cl = cl and t = t and j = j]) (use o h j cn(2) in simp_all)
  then show "payload_obj x \<noteq> k" if "x \<in> set (held w)" for x using o that by (auto simp: stored_entry_def)
  show "issued S (cl(h := c)) i" if "issued S cl i" for i using that mono by (rule issued_mono)
  show "stored_client n (se_kind S g) (se_name S g) d ((cl(h := c)) g)" if "d_cfg d = d_cfg (lw_daemon w)" "g \<in> set (se_objs S)" for d g
  proof (cases "g = h")
    case True
    have "ready (se_kind S h) d c = ready (se_kind S h) (lw_daemon w) (cl h)" using that(1) by (simp add: ready_def c)
    moreover have "isConnected (snd (generatePayloadId now conn)) = isConnected conn" "rc_client (snd (generatePayloadId now conn)) = rc_client conn"
      by (simp_all add: generatePayloadId_def isConnected_def Let_def)
    ultimately show ?thesis using True cl(1) conn cn j(3,4) by (simp add: stored_client_def c counter_def)
  next
    case False
    then show ?thesis using o that stored_client_mono [of n _ _ "lw_daemon w" _ d] by simp
  qed
qed

text \<open>A message that a client has stored and the daemon has taken in.\<close>

lemma stored_deposit:
  assumes ok: "stored_ok S view (Suc n) (cl, w)" and h: "h \<in> set (se_objs S)" and conn: "db (cl h) = Some conn"
    and k: "k = next_key now (cl h)" and s: "view s = (view (lw_redis w))(c_str k \<mapsto> pl)" and pl: "pl \<noteq> []"
    and e: "e = mk_entry src dest k sz" "plain_text src" "plain_text dest" and c: "c = (cl h)\<lparr>db := Some (snd (generatePayloadId now conn))\<rparr>"
    and us: "us = [e] \<and> vs = [] \<or> us = [] \<and> vs = [e]"
    and w': "w' = w\<lparr>lw_redis := s, lw_daemon := (lw_daemon w)\<lparr>tx_buffer := tx_buffer (lw_daemon w) @ us, rx_buffer := rx_buffer (lw_daemon w) @ vs\<rparr>\<rparr>"
  shows "stored_ok S view n (cl(h := c), w')"
    "stored_mail view w' = loop_mail ((unstored view w)\<lparr>lw_daemon := (lw_daemon (unstored view w))\<lparr>
       tx_buffer := tx_buffer (lw_daemon (unstored view w)) @ map (content view s) us, rx_buffer := rx_buffer (lw_daemon (unstored view w)) @ map (content view s) vs\<rparr>\<rparr>)"
    "content view s e = mk_entry src dest pl sz"
proof -
  let ?s = "lw_redis w" and ?d = "lw_daemon w"
  note o = ok [unfolded stored_ok_def, simplified] and key = next_stored_key [OF ok h conn k c]
  have same: "map (content view s) l = map (content view ?s) l" if "set l \<subseteq> set (held w)" for l
    using key(3) that s by (auto intro!: content_cong simp: key(2))
  show "content view s e = mk_entry src dest pl sz" by (simp add: content_def e(1) s key(2))
  show "stored_mail view w' = loop_mail ((unstored view w)\<lparr>lw_daemon := (lw_daemon (unstored view w))\<lparr>
       tx_buffer := tx_buffer (lw_daemon (unstored view w)) @ map (content view s) us, rx_buffer := rx_buffer (lw_daemon (unstored view w)) @ map (content view s) vs\<rparr>\<rparr>)"
    unfolding w' by (rule stored_mail_cong) (simp_all add: same held_def)
  have "payload_obj e \<notin> set (map payload_obj (held w))" using key(3) e(1) by auto
  moreover have "distinct (map payload_obj (held w))" using o by blast
  ultimately have "distinct (map payload_obj (held w'))"
    using us unfolding held_def w' map_append set_append by (elim disjE conjE) (simp_all add: Int_commute)
  then have hw: "set (held w') = insert e (set (held w))" "distinct (map payload_obj (held w'))"
    using us by (auto simp: held_def w')
  have "stored_entry S (cl(h := c)) (view s) x" if "x \<in> set (held w')" for x
  proof (cases "x = e")
    case True
    then show ?thesis using e key(1,2) s pl by (simp add: stored_entry_def)
  next
    case False
    with that hw(1) have x: "x \<in> set (held w)" by blast
    with o have y: "stored_entry S cl (view ?s) x" by blast
    with key(2,4) key(3) [OF x] s show ?thesis by (simp add: stored_entry_def)
  qed
  moreover have "d_cfg (lw_daemon w') = d_cfg ?d" by (simp add: w')
  note key(5) [OF this]
  ultimately show "stored_ok S view n (cl(h := c), w')"
    using o hw(2) by (simp add: stored_ok_def stored_world_def w')
qed

text \<open>A message that the daemon has given out.\<close>

lemma find_erase_map: "find_erase q (map f l) = (map_option f (fst (find_erase (\<lambda>x. q (f x)) l)), map f (snd (find_erase (\<lambda>x. q (f x)) l)))"
  by (induction l) (auto split: prod.split)

text \<open>One buffer is \<open>l\<close>, the other \<open>l2\<close>; \<open>d\<close> is the daemon after the request.\<close>

lemma taken_out:
  assumes "find_erase q l = (r, l')" "distinct (map payload_obj (l @ l2))"
  shows "set l' \<subseteq> set l" "distinct (map payload_obj (l' @ l2))"
    "\<forall>e x. r = Some e \<longrightarrow> x \<in> set l' \<union> set l2 \<longrightarrow> payload_obj x \<noteq> payload_obj e"
proof -
  show "set l' \<subseteq> set l" using find_erase_subset [OF assms(1)] by blast
  have "distinct (map payload_obj (l' @ l2)) \<and> (\<forall>e x. r = Some e \<longrightarrow> x \<in> set l' \<union> set l2 \<longrightarrow> payload_obj x \<noteq> payload_obj e)"
  proof (cases r)
    case None
    with assms show ?thesis by (simp add: find_erase_None)
  next
    case (Some e)
    with assms(1) obtain us vs where "l = us @ e # vs" "l' = us @ vs" by (auto elim: find_erase_SomeD)
    with assms(2) Some show ?thesis by (auto simp: image_iff)
  qed
  then show "distinct (map payload_obj (l' @ l2))" "\<forall>e x. r = Some e \<longrightarrow> x \<in> set l' \<union> set l2 \<longrightarrow> payload_obj x \<noteq> payload_obj e"
    by blast+
qed

lemma stored_take:
  assumes ok: "stored_ok S view (Suc n) (cl, w)" and r: "find_erase q l = (r, l')"
    and d: "lw_daemon w' = d" "lw_inbox w' = lw_inbox w" "d_cfg d = d_cfg (lw_daemon w)" "running d" "set (held w) = set l \<union> set l2"
      "set (held w') = set l' \<union> set l2" "distinct (map payload_obj (l @ l2))" "distinct (map payload_obj (l' @ l2)) \<Longrightarrow> distinct (map payload_obj (held w'))"
    and s: "view (lw_redis w') = (case r of None \<Rightarrow> view (lw_redis w) | Some e \<Rightarrow>
      if entry_exists e then (view (lw_redis w))(payload_obj e := None) else view (lw_redis w))"
  shows "stored_ok S view n (cl, w')" "map (content view (lw_redis w')) l' = map (content view (lw_redis w)) l'"
    "map (content view (lw_redis w')) l2 = map (content view (lw_redis w)) l2"
proof -
  note o = ok [unfolded stored_ok_def, simplified]
  note sub = taken_out(1,2) [OF r d(7)]
  have other: "payload_obj x \<noteq> payload_obj e" if "r = Some e" "x \<in> set l' \<union> set l2" for x e
    using taken_out(3) [OF r d(7)] that by blast
  have v: "view (lw_redis w') (payload_obj x) = view (lw_redis w) (payload_obj x)" if "x \<in> set l' \<union> set l2" for x
    using other [OF _ that] s by (cases r) simp_all
  then show "map (content view (lw_redis w')) l' = map (content view (lw_redis w)) l'"
    "map (content view (lw_redis w')) l2 = map (content view (lw_redis w)) l2"
    by (auto intro: content_cong)
  have "stored_entry S cl (view (lw_redis w')) x" if "x \<in> set (held w')" for x
  proof -
    have x: "x \<in> set l' \<union> set l2" using that d(6) by simp
    then have "x \<in> set (held w)" using sub(1) d(5) by blast
    with o v [OF x] show ?thesis by (simp add: stored_entry_def)
  qed
  moreover have "stored_client n (se_kind S g) (se_name S g) (lw_daemon w') (cl g)" if "g \<in> set (se_objs S)" for g
    by (rule stored_client_mono [of n _ _ "lw_daemon w"]) (use o that d in simp_all)
  ultimately show "stored_ok S view n (cl, w')"
    using o d(1-4) d(8) [OF sub(2)] by (simp add: stored_ok_def stored_world_def)
qed

lemma take_content:
  "take_keyed key True k l = (r, l') \<Longrightarrow> k \<noteq> [] \<Longrightarrow> (\<And>e. key (content view s e) = key e) \<Longrightarrow>
     take_keyed key True k (map (content view s) l) = (map_option (content view s) r, map (content view s) l')"
  by (simp add: take_keyed_def find_erase_map)

text \<open>The client's side of an answer: the payload is checked out, or there is nothing to show.\<close>

definition readable :: "(string \<Rightarrow> string option) \<Rightarrow> message_entry option \<Rightarrow> bool" where
  "readable kv r \<longleftrightarrow> (\<forall>e. r = Some e \<longrightarrow> c_str (payload_obj e) = payload_obj e \<and> payload_obj e \<noteq> [] \<and> (\<exists>v. kv (payload_obj e) = Some v \<and> v \<noteq> []))"

definition checked_out :: "(string \<Rightarrow> string option) \<Rightarrow> message_entry option \<Rightarrow> string \<Rightarrow> string option" where
  "checked_out kv r = (case r of None \<Rightarrow> kv | Some e \<Rightarrow> if entry_exists e then kv(payload_obj e := None) else kv)"

lemma stored_response:
  assumes "redis_laws exec view" "on_loop env fds exec ce" "bs \<noteq> []" "parse env bs = Some (entry_reply d opn (entry_or_blank r) out)"
    and "USE_DB (c_cfg c)" "USE_DB (d_cfg d)" "db_online c" "readable (view (lw_redis w)) r"
  obtains s where "handle_response ce opn bs c w = Inr (shown (map_option (content view (lw_redis w)) r), c, w\<lparr>lw_redis := s\<rparr>)"
    "view s = checked_out (view (lw_redis w)) r"
proof (cases "entry_exists (entry_or_blank r)")
  case True
  then obtain e where e: "r = Some e" "entry_exists e" by (cases r) (simp_all add: entry_or_blank_def)
  with assms(8) obtain v where v: "view (lw_redis w) (payload_obj e) = Some v" "v \<noteq> []" "c_str (payload_obj e) = payload_obj e"
    by (auto simp: readable_def)
  have p: "parse env bs = Some (entry_reply d opn e out)" using assms(4) e by (simp add: entry_or_blank_def)
  from handle_response_db [OF assms(1,2,3) p e(2) assms(5,6,7), of w v] v
  obtain s where s: "handle_response ce opn bs c w = Inr (mk_entry (source e) (destination e) v (entry_size e), c, w\<lparr>lw_redis := s\<rparr>)"
    "view s = (view (lw_redis w))(payload_obj e := None)" by auto
  have "entry_exists (content view (lw_redis w) e)" using e(2) v by (simp add: entry_exists_def content_def)
  with s e v show ?thesis by (intro that [of s]) (simp_all add: shown_simps content_def checked_out_def)
next
  case False
  have "handle_response ce opn bs c w = Inr (empty_entry, c, w\<lparr>lw_redis := lw_redis w\<rparr>)"
    using assms(2-4) False by (simp add: handle_response_def nsb_simps on_loop_def)
  moreover have "\<not> entry_exists (content view (lw_redis w) e) \<and> \<not> entry_exists e" if "r = Some e" for e
    using False that assms(8) by (auto simp: entry_or_blank_def entry_exists_def content_def readable_def)
  ultimately show ?thesis by (intro that [of "lw_redis w"]; cases r) (simp_all add: shown_simps checked_out_def)
qed

lemma stored_fetch:
  assumes "redis_laws exec view" "on_loop env fds exec ce" "ready og (lw_daemon w) c" "db_online c"
    and "USE_DB (d_cfg (lw_daemon w))" "SYSTEM_MODE (d_cfg (lw_daemon w)) = PULL"
    and "take_keyed source True (src_id (metadata (fetch_request c og k))) (tx_buffer (lw_daemon w)) = (r, tx)"
    and "transmits env (fetch_request c og k)" "transmits env (entry_reply (lw_daemon w) FETCH (entry_or_blank r) response_template)"
    and "lw_inbox w (fds RECV_CH) = []" "readable (view (lw_redis w)) r"
  obtains s where "sim_fetch ce k t c w = Inr (shown (map_option (content view (lw_redis w)) r), c,
       w\<lparr>lw_redis := s, lw_daemon := (lw_daemon w)\<lparr>tx_buffer := tx\<rparr>\<rparr>)" "view s = checked_out (view (lw_redis w)) r"
proof -
  let ?w = "w\<lparr>lw_daemon := (lw_daemon w)\<lparr>tx_buffer := tx\<rparr>\<rparr>"
  have "dispatch env (fetch_request c og k) (lw_daemon w) =
      Inr ((lw_daemon w)\<lparr>tx_buffer := tx\<rparr>, entry_reply (lw_daemon w) FETCH (entry_or_blank r) response_template, True, [])"
    using dispatch_fetch [OF assms(7)] by (simp add: nsb_simps)
  from loop_request [OF assms(8) this assms(9), of fds RECV_CH "Some t"] assms(10)
  obtain w1 bs where ex: "loop_send env fds RECV_CH (SerializeAsString env (fetch_request c og k)) w = Inr (0, w1)"
    "loop_receive fds RECV_CH (Some t) w1 = Inr (bs, ?w)" "bs \<noteq> []"
    "parse env bs = Some (entry_reply (lw_daemon w) FETCH (entry_or_blank r) response_template)" by blast
  have u: "USE_DB (c_cfg c)" "readable (view (lw_redis ?w)) r" using assms(3,5,11) by (simp_all add: ready_def)
  obtain s where s: "handle_response ce FETCH bs c ?w = Inr (shown (map_option (content view (lw_redis ?w)) r), c, ?w\<lparr>lw_redis := s\<rparr>)"
    "view s = checked_out (view (lw_redis ?w)) r"
    by (rule stored_response [OF assms(1,2) ex(3,4) u(1) assms(5,4) u(2)])
  with ex assms(2,3,6) show ?thesis
    by (intro that [of s]) (simp_all add: sim_fetch_def pull_or_wait_def on_loop_def ready_def)
qed

lemma stored_receive:
  assumes "redis_laws exec view" "on_loop env fds exec ce" "ready og (lw_daemon w) c" "db_online c"
    and "USE_DB (d_cfg (lw_daemon w))" "SYSTEM_MODE (d_cfg (lw_daemon w)) = PULL"
    and "take_keyed destination True (dest_id (metadata (receive_request c og k))) (rx_buffer (lw_daemon w)) = (r, rx)"
    and "transmits env (receive_request c og k)" "transmits env (entry_reply (lw_daemon w) RECEIVE (entry_or_blank r) response_template)"
    and "lw_inbox w (fds RECV_CH) = []" "readable (view (lw_redis w)) r"
  obtains s where "app_receive ce k t c w = Inr (shown (map_option (content view (lw_redis w)) r), c,
       w\<lparr>lw_redis := s, lw_daemon := (lw_daemon w)\<lparr>rx_buffer := rx\<rparr>\<rparr>)" "view s = checked_out (view (lw_redis w)) r"
proof -
  let ?w = "w\<lparr>lw_daemon := (lw_daemon w)\<lparr>rx_buffer := rx\<rparr>\<rparr>"
  have "dispatch env (receive_request c og k) (lw_daemon w) =
      Inr ((lw_daemon w)\<lparr>rx_buffer := rx\<rparr>, entry_reply (lw_daemon w) RECEIVE (entry_or_blank r) response_template, True, [])"
    using dispatch_receive [OF assms(7)] by (simp add: nsb_simps)
  from loop_request [OF assms(8) this assms(9), of fds RECV_CH "Some t"] assms(10)
  obtain w1 bs where ex: "loop_send env fds RECV_CH (SerializeAsString env (receive_request c og k)) w = Inr (0, w1)"
    "loop_receive fds RECV_CH (Some t) w1 = Inr (bs, ?w)" "bs \<noteq> []"
    "parse env bs = Some (entry_reply (lw_daemon w) RECEIVE (entry_or_blank r) response_template)" by blast
  have u: "USE_DB (c_cfg c)" "readable (view (lw_redis ?w)) r" using assms(3,5,11) by (simp_all add: ready_def)
  obtain s where s: "handle_response ce RECEIVE bs c ?w = Inr (shown (map_option (content view (lw_redis ?w)) r), c, ?w\<lparr>lw_redis := s\<rparr>)"
    "view s = checked_out (view (lw_redis ?w)) r"
    by (rule stored_response [OF assms(1,2) ex(3,4) u(1) assms(5,4) u(2)])
  with ex assms(2,3,6) show ?thesis
    by (intro that [of s]) (simp_all add: app_receive_def pull_or_wait_def on_loop_def ready_def)
qed

section \<open>The contract\<close>

lemma stored_okE:
  assumes "stored_ok S view (Suc n) (cl, w)" "h \<in> set (se_objs S)"
  shows "redis_laws (se_exec S) view" "on_loop (se_pb S) (se_fds S h) (se_exec S) (se_env S h)" "carries_plain (se_pb S)"
    "se_kind S h = og \<Longrightarrow> ready og (lw_daemon w) (cl h)" "db_online (cl h)" "clientId (cl h) = se_name S h" "id_ok (se_name S h)"
    "USE_DB (d_cfg (lw_daemon w))" "SYSTEM_MODE (d_cfg (lw_daemon w)) = PULL" "lw_inbox w = (\<lambda>_. [])"
    "SIMULATOR_MODE (c_cfg (cl h)) = se_mode S" "se_mode S = PER_NODE \<or> se_mode S = SYSTEM_WIDE" "running (lw_daemon w)"
    "plain_text (se_name S h)" "se_name S h \<noteq> []"
    "\<exists>conn. db (cl h) = Some conn \<and> rc_client conn = se_name S h \<and> isConnected conn"
  using assms by (auto simp: stored_ok_def session_setup_def test_env_def stored_world_def db_online_def ready_def id_ok_def elim!: stored_clientE)

lemma held_entry:
  assumes "stored_ok S view n (cl, w)" "e \<in> set (held w)"
  shows "plain_entry e" "c_str (payload_obj e) = payload_obj e" "payload_obj e \<noteq> []" "\<exists>v. view (lw_redis w) (payload_obj e) = Some v \<and> v \<noteq> []"
proof -
  have e: "stored_entry S cl (view (lw_redis w)) e" and i: "\<forall>h\<in>set (se_objs S). id_ok (se_name S h)"
    using assms by (auto simp: stored_ok_def elim!: stored_clientE)
  then have "issued S cl (payload_obj e)" by (simp add: stored_entry_def)
  note p = issued_plain [OF this i]
  show "plain_entry e" using e p(1) by (simp add: stored_entry_def plain_entry_def)
  show "c_str (payload_obj e) = payload_obj e" "payload_obj e \<noteq> []" by (rule p(2), rule p(3))
  show "\<exists>v. view (lw_redis w) (payload_obj e) = Some v \<and> v \<noteq> []" using e by (simp add: stored_entry_def)
qed

lemma held_readable:
  "stored_ok S view n (cl, w) \<Longrightarrow> (\<And>e. r = Some e \<Longrightarrow> e \<in> set (held w)) \<Longrightarrow> readable (view (lw_redis w)) r"
  using held_entry(2-4) [of S view n cl w] unfolding readable_def by blast

lemma plain_keyed_data [simp]:
  "plain_text src \<Longrightarrow> plain_text dest \<Longrightarrow> plain_text k \<Longrightarrow> plain_message (data_message opn og src dest pl (set_msg_key k))"
  by (simp add: plain_message_def nsb_simps)
    (simp add: data_message_def request_def head_of_def set_manifest_def set_metadata_def set_msg_key_def payload_def intro_def config_def
      empty_nsbm_def empty_intro_def empty_config_def has_manifest_def)

lemma next_key_plain:
  assumes "stored_ok S view (Suc n) (cl, w)" "h \<in> set (se_objs S)"
  shows "plain_text (next_key now (cl h))"
proof -
  obtain conn where "db (cl h) = Some conn" "rc_client conn = se_name S h" using stored_okE(16) [OF assms] by blast
  then show ?thesis using payload_id_plain(1) [OF stored_okE(7) [OF assms]] key_generate [of now conn] by (auto simp: next_key_def)
qed

text \<open>The mail of two worlds whose buffers hold the same contents.\<close>

lemma stored_mail_is:
  assumes "map (content view (lw_redis w')) (tx_buffer (lw_daemon w')) = tx_buffer d" "map (content view (lw_redis w')) (rx_buffer (lw_daemon w')) = rx_buffer d"
  shows "stored_mail view w' = loop_mail (w\<lparr>lw_daemon := d\<rparr>)"
  using assms by (simp add: stored_mail_def unstored_def loop_mail_def post_office_of_def)

lemma unstored_sel [simp]:
  "tx_buffer (lw_daemon (unstored view w)) = map (content view (lw_redis w)) (tx_buffer (lw_daemon w))"
  "rx_buffer (lw_daemon (unstored view w)) = map (content view (lw_redis w)) (rx_buffer (lw_daemon w))"
  by (simp_all add: unstored_def)

lemma loop_mail_one [simp]:
  "rx = rx_buffer (lw_daemon u) \<Longrightarrow> loop_mail (u\<lparr>lw_daemon := (lw_daemon u)\<lparr>tx_buffer := tx, rx_buffer := rx\<rparr>\<rparr>) = loop_mail (u\<lparr>lw_daemon := (lw_daemon u)\<lparr>tx_buffer := tx\<rparr>\<rparr>)"
  "tx = tx_buffer (lw_daemon u) \<Longrightarrow> loop_mail (u\<lparr>lw_daemon := (lw_daemon u)\<lparr>tx_buffer := tx, rx_buffer := rx\<rparr>\<rparr>) = loop_mail (u\<lparr>lw_daemon := (lw_daemon u)\<lparr>rx_buffer := rx\<rparr>\<rparr>)"
  by (simp_all add: loop_mail_def post_office_of_def)

lemma stored_send_law:
  assumes ok: "stored_ok S view (Suc n) cw" and m: "stored_may S h (CallSend dest pl)"
  shows "\<exists>cw'. lb_send (nsb_library t (se_env S)) h dest pl cw = Inr cw' \<and> stored_ok S view n cw' \<and>
      po_step (Deposit (mk_entry (se_name S h) dest pl (int_of_size pl))) (stored_mail view (snd cw)) = ([], stored_mail view (snd cw'))"
proof -
  obtain cl w where cw: "cw = (cl, w)" by force
  have h: "h \<in> set (se_objs S)" and c: "se_kind S h = APP_CLIENT" "plain_text dest" "pl \<noteq> []" "c_str pl = pl"
    using m c_str_id by (auto simp: stored_may_def may_call_def storable_def)
  note o = stored_okE [OF ok [unfolded cw] h]
  let ?d = "lw_daemon w" and ?k = "next_key (clock (se_env S h) w) (cl h)" and ?e = "mk_entry (se_name S h) dest pl (int_of_size pl)"
  obtain conn where conn: "db (cl h) = Some conn" using o(16) by blast
  have "transmits (se_pb S) (data_message SEND APP_CLIENT (clientId (cl h)) dest pl (set_msg_key ?k))"
    using o(3,6,14) c(2) next_key_plain [OF ok [unfolded cw] h] by (simp add: carries_plain_def)
  from app_send_loop_db [OF o(1,2) o(4) [OF c(1)] o(5,8,9) this] obtain conn' s where 1: "app_send (se_env S h) dest pl (cl h) w =
      Inr (?k, (cl h)\<lparr>db := Some conn'\<rparr>, w\<lparr>lw_redis := s, lw_daemon := ?d\<lparr>tx_buffer := tx_buffer ?d @ [mk_entry (se_name S h) dest ?k (int_of_size pl)]\<rparr>\<rparr>)"
    "view s = (view (lw_redis w))(c_str ?k \<mapsto> pl)" "conn' = snd (generatePayloadId (clock (se_env S h) w) conn)"
    unfolding o(6) c(4) conn option.sel by blast
  note dp = stored_deposit [OF ok [unfolded cw] h conn refl 1(2) c(3) refl o(14) c(2) 1(3) [THEN arg_cong [where f = "\<lambda>x. (cl h)\<lparr>db := Some x\<rparr>"]],
      where us = "[mk_entry (se_name S h) dest ?k (int_of_size pl)]" and vs = "[]", simplified, OF refl]
  show ?thesis
    using 1(1) dp loop_mail_deposit(1) [of ?e "unstored view w", folded stored_mail_def] by (auto simp: nsb_library_def cw)
qed

lemma stored_post_law:
  assumes ok: "stored_ok S view (Suc n) cw" and m: "stored_may S h (CallPost src dest pl)"
  shows "\<exists>cw'. lb_post (nsb_library t (se_env S)) h src dest pl cw = Inr cw' \<and> stored_ok S view n cw' \<and>
      po_step (Dispatch (mk_entry src dest pl (int_of_size pl))) (stored_mail view (snd cw)) = ([], stored_mail view (snd cw'))"
proof -
  obtain cl w where cw: "cw = (cl, w)" by force
  have h: "h \<in> set (se_objs S)" and c: "se_kind S h = SIM_CLIENT" "plain_text src" "plain_text dest" "pl \<noteq> []" "c_str pl = pl"
    using m c_str_id by (auto simp: stored_may_def may_call_def storable_def)
  note o = stored_okE [OF ok [unfolded cw] h]
  let ?d = "lw_daemon w" and ?k = "next_key (clock (se_env S h) w) (cl h)" and ?e = "mk_entry src dest pl (int_of_size pl)"
  obtain conn where conn: "db (cl h) = Some conn" using o(16) by blast
  have "transmits (se_pb S) (data_message POST SIM_CLIENT src dest pl (set_msg_key ?k))"
    using o(3) c(2,3) next_key_plain [OF ok [unfolded cw] h] by (simp add: carries_plain_def)
  from sim_post_loop_db [OF o(1,2) o(4) [OF c(1)] o(5,8,9) this] obtain conn' s where 1: "sim_post (se_env S h) src dest pl (cl h) w =
      Inr (?k, (cl h)\<lparr>db := Some conn'\<rparr>, w\<lparr>lw_redis := s, lw_daemon := ?d\<lparr>rx_buffer := rx_buffer ?d @ [mk_entry src dest ?k (int_of_size pl)]\<rparr>\<rparr>)"
    "view s = (view (lw_redis w))(c_str ?k \<mapsto> pl)" "conn' = snd (generatePayloadId (clock (se_env S h) w) conn)"
    unfolding c(5) conn option.sel by blast
  note dp = stored_deposit [OF ok [unfolded cw] h conn refl 1(2) c(4) refl c(2,3) 1(3) [THEN arg_cong [where f = "\<lambda>x. (cl h)\<lparr>db := Some x\<rparr>"]],
      where us = "[]" and vs = "[mk_entry src dest ?k (int_of_size pl)]", simplified, OF refl]
  show ?thesis
    using 1(1) dp loop_mail_deposit(2) [of ?e "unstored view w", folded stored_mail_def] by (auto simp: nsb_library_def cw)
qed

lemma stored_fetch_law:
  assumes ok: "stored_ok S view (Suc n) cw" and m: "stored_may S h (CallFetch src)"
  shows "\<exists>r cw'. lb_fetch (nsb_library t (se_env S)) h src cw = Inr (shown r, cw') \<and> stored_ok S view n cw' \<and>
      po_step (Collect (fetch_key S h src)) (stored_mail view (snd cw)) = ([r], stored_mail view (snd cw'))"
proof -
  obtain cl w where cw: "cw = (cl, w)" by force
  have h: "h \<in> set (se_objs S)" and c: "se_kind S h = SIM_CLIENT" "plain_text src" "src \<noteq> []"
    using m by (auto simp: stored_may_def may_call_def)
  note o = stored_okE [OF ok [unfolded cw] h] and hd = held_entry [OF ok [unfolded cw]]
  let ?d = "lw_daemon w" and ?k = "fetch_key S h src" and ?c = "content view (lw_redis w)"
  have t: "transmits (se_pb S) (fetch_request (cl h) SIM_CLIENT (Some src))" using o(3,6,14) c by (simp add: carries_plain_def)
  have k: "src_id (metadata (fetch_request (cl h) SIM_CLIENT (Some src))) = ?k" "?k \<noteq> []"
    using o(6,11,12,15) c(3) by (auto simp: fetch_request_fields fetch_key_def)
  obtain r tx where tk: "take_keyed source True ?k (tx_buffer ?d) = (r, tx)" by fastforce
  then have fe: "find_erase (\<lambda>e. source e = ?k) (tx_buffer ?d) = (r, tx)" using k(2) by (simp add: take_keyed_def)
  have "\<forall>e\<in>set (tx_buffer ?d). plain_entry e" using hd(1) by (simp add: held_def)
  note tt = taken_transmits(1) [OF o(3) this tk]
  have rd: "readable (view (lw_redis w)) r"
    by (rule held_readable [OF ok [unfolded cw]]) (use take_keyed_subset [OF tk] in \<open>simp add: held_def\<close>)
  have box: "lw_inbox w (se_fds S h RECV_CH) = []" using o(10) by simp
  obtain s where 1: "sim_fetch (se_env S h) (Some src) t (cl h) w = Inr (shown (map_option ?c r), cl h,
       w\<lparr>lw_redis := s, lw_daemon := ?d\<lparr>tx_buffer := tx\<rparr>\<rparr>)" "view s = checked_out (view (lw_redis w)) r"
    by (rule stored_fetch [OF o(1,2) o(4) [OF c(1)] o(5,8,9) tk [folded k(1)] t tt box rd])
  let ?w = "w\<lparr>lw_redis := s, lw_daemon := ?d\<lparr>tx_buffer := tx\<rparr>\<rparr>"
  have dt: "distinct (map payload_obj (held w))" using ok by (simp add: cw stored_ok_def)
  note st = stored_take [OF ok [unfolded cw] fe, of ?w _ "rx_buffer ?d"]
  have new: "stored_ok S view n (cl, ?w)" "map (content view s) tx = map ?c tx" "map (content view s) (rx_buffer ?d) = map ?c (rx_buffer ?d)"
    using st [OF refl] dt 1(2) o(13) by (simp_all add: held_def checked_out_def)
  have "stored_mail view ?w = loop_mail ((unstored view w)\<lparr>lw_daemon := (lw_daemon (unstored view w))\<lparr>tx_buffer := map ?c tx\<rparr>\<rparr>)"
    by (rule stored_mail_is) (use new(2,3) in simp_all)
  moreover have "po_step (Collect ?k) (stored_mail view w) =
      ([map_option ?c r], loop_mail ((unstored view w)\<lparr>lw_daemon := (lw_daemon (unstored view w))\<lparr>tx_buffer := map ?c tx\<rparr>\<rparr>))"
    unfolding stored_mail_def by (rule loop_mail_take(1)) (use take_content [OF tk k(2)] k(2) in simp_all)
  ultimately show ?thesis using 1(1) new(1) by (auto simp: nsb_library_def cw)
qed

lemma stored_receive_law:
  assumes ok: "stored_ok S view (Suc n) cw" and m: "stored_may S h CallReceive"
  shows "\<exists>r cw'. lb_receive (nsb_library t (se_env S)) h cw = Inr (shown r, cw') \<and> stored_ok S view n cw' \<and>
      po_step (Pickup (se_name S h)) (stored_mail view (snd cw)) = ([r], stored_mail view (snd cw'))"
proof -
  obtain cl w where cw: "cw = (cl, w)" by force
  have h: "h \<in> set (se_objs S)" and c: "se_kind S h = APP_CLIENT" using m by (auto simp: stored_may_def may_call_def)
  note o = stored_okE [OF ok [unfolded cw] h] and hd = held_entry [OF ok [unfolded cw]]
  let ?d = "lw_daemon w" and ?k = "se_name S h" and ?c = "content view (lw_redis w)"
  have t: "transmits (se_pb S) (receive_request (cl h) APP_CLIENT None)" using o(3,6,14) by (simp add: carries_plain_def)
  have k: "dest_id (metadata (receive_request (cl h) APP_CLIENT None)) = ?k" "?k \<noteq> []" using o(6,15) by (simp_all add: nsb_simps)
  obtain r rx where tk: "take_keyed destination True ?k (rx_buffer ?d) = (r, rx)" by fastforce
  then have fe: "find_erase (\<lambda>e. destination e = ?k) (rx_buffer ?d) = (r, rx)" using k(2) by (simp add: take_keyed_def)
  have "\<forall>e\<in>set (rx_buffer ?d). plain_entry e" using hd(1) by (simp add: held_def)
  note tt = taken_transmits(1) [OF o(3) this tk]
  have rd: "readable (view (lw_redis w)) r"
    by (rule held_readable [OF ok [unfolded cw]]) (use take_keyed_subset [OF tk] in \<open>simp add: held_def\<close>)
  have box: "lw_inbox w (se_fds S h RECV_CH) = []" using o(10) by simp
  obtain s where 1: "app_receive (se_env S h) None t (cl h) w = Inr (shown (map_option ?c r), cl h,
       w\<lparr>lw_redis := s, lw_daemon := ?d\<lparr>rx_buffer := rx\<rparr>\<rparr>)" "view s = checked_out (view (lw_redis w)) r"
    by (rule stored_receive [OF o(1,2) o(4) [OF c(1)] o(5,8,9) tk [folded k(1)] t tt box rd])
  let ?w = "w\<lparr>lw_redis := s, lw_daemon := ?d\<lparr>rx_buffer := rx\<rparr>\<rparr>"
  have dt: "distinct (map payload_obj (held w))" using ok by (simp add: cw stored_ok_def)
  note st = stored_take [OF ok [unfolded cw] fe, of ?w _ "tx_buffer ?d"]
  have new: "stored_ok S view n (cl, ?w)" "map (content view s) rx = map ?c rx" "map (content view s) (tx_buffer ?d) = map ?c (tx_buffer ?d)"
    using st [OF refl] dt 1(2) o(13) by (simp_all add: held_def checked_out_def Un_commute Int_commute)
  have "stored_mail view ?w = loop_mail ((unstored view w)\<lparr>lw_daemon := (lw_daemon (unstored view w))\<lparr>rx_buffer := map ?c rx\<rparr>\<rparr>)"
    by (rule stored_mail_is) (use new(2,3) in simp_all)
  moreover have "po_step (Pickup ?k) (stored_mail view w) =
      ([map_option ?c r], loop_mail ((unstored view w)\<lparr>lw_daemon := (lw_daemon (unstored view w))\<lparr>rx_buffer := map ?c rx\<rparr>\<rparr>))"
    unfolding stored_mail_def by (rule loop_mail_take(2)) (use take_content [OF tk k(2)] k(2) in simp_all)
  ultimately show ?thesis using 1(1) new(1) by (auto simp: nsb_library_def cw)
qed

interpretation stored_client: mail_library "nsb_library t (se_env S)" "\<lambda>cw. stored_mail view (snd cw)" "stored_ok S view"
    "stored_may S" "se_name S" "fetch_key S" for t S view
  by unfold_locales (rule stored_send_law stored_post_law stored_fetch_law stored_receive_law; assumption)+


section \<open>The clients join\<close>

text \<open>Redis accepts every connection, and the daemon's database address is one that fits the wire.\<close>

definition redis_reachable :: "('b, 's) session \<Rightarrow> ('b, 's) loop_world \<Rightarrow> bool" where
  "redis_reachable S w \<longleftrightarrow> (\<forall>h a p. redisConnect (se_env S h) a p = Some False) \<and> plain_text (DB_ADDRESS (d_cfg (lw_daemon w)))"

definition keys_apart :: "'z plan_scheme \<Rightarrow> bool" where
  "keys_apart P \<longleftrightarrow> inj_on (se_name P) (set (se_objs P)) \<and> (\<forall>h\<in>set (se_objs P). id_ok (se_name P h))"

definition stored_good :: "('b, 's) session \<Rightarrow> ('b, 's) loop_world \<Rightarrow> bool" where
  "stored_good S w \<longleftrightarrow> stored_world (se_mode S) w \<and> redis_reachable S w"

lemma plain_init_reply_db [simp]: "plain_text (DB_ADDRESS (d_cfg d)) \<Longrightarrow> plain_message (init_reply d True response_template)"
  by (simp add: plain_message_def init_reply_def nsb_simps Let_def response_template_def)
    (simp add: intro_def set_config_def set_manifest_def head_of_def empty_nsbm_def empty_intro_def empty_config_def has_manifest_def)

lemma stored_join:
  assumes e: "test_env env fds exec ce" "\<forall>a p. redisConnect ce a p = Some False" "plain_text (DB_ADDRESS (d_cfg (lw_daemon w)))"
    and w: "stored_world md w" and c: "originIndicator c = Some og" "id_ok (clientId c)"
    and room: "og = APP_CLIENT \<or> og = SIM_CLIENT \<and> (md = PER_NODE \<or> md = SYSTEM_WIDE \<and> sim_client_lookup (lw_daemon w) = [])"
  obtains c' d where "initialize ce c w = Inr (c', w\<lparr>lw_daemon := d\<rparr>)" "same_mail (lw_daemon w) d"
    "og = APP_CLIENT \<Longrightarrow> sim_client_lookup d = sim_client_lookup (lw_daemon w)" "n < 2 ^ 20 \<Longrightarrow> stored_client n og (clientId c) d c'"
proof -
  let ?m = "init_request (sockname ce) (clientId c) og"
  obtain d where d: "dispatch (pb ce) ?m (lw_daemon w) = Inr (d, init_reply d True response_template, True, [])"
    "same_mail (lw_daemon w) d" "og = APP_CLIENT \<Longrightarrow> sim_client_lookup d = sim_client_lookup (lw_daemon w)"
    using w room
    by (auto simp: dispatch_def no_sends_def handle_init_def Let_def nsb_simps stored_world_def same_mail_def emplace_not_empty map_size_def)
  have pb: "pb ce = env" "on_loop env fds exec ce" "carries_plain env" "plain_names (sockname ce)" using e(1) by (simp_all add: test_env_def on_loop_def)
  have "plain_text (clientId c)" using c(2) by (simp add: id_ok_def)
  then have t: "transmits env ?m" using pb by (simp add: carries_plain_def)
  have "plain_message (init_reply d True response_template)"
    using e(3) d(2) by (simp add: same_mail_def)
  then have t2: "transmits env (init_reply d True response_template)" using pb(3) by (simp add: carries_plain_def)
  have box: "lw_inbox w (fds CTRL) = []" using w by (simp add: stored_world_def)
  have u: "USE_DB (d_cfg d)" using d(2) w by (simp add: same_mail_def stored_world_def)
  from initialize_loop [OF pb(2) c(1) box d(1) [unfolded pb(1)] _ t t2] e(2) u obtain c' conn where
    "initialize ce c w = Inr (c', w\<lparr>lw_daemon := d\<rparr>)" "ready og d c'" "clientId c' = clientId c"
    "db c' = Some conn" "isConnected conn" "rc_client conn = clientId c" "plctr conn = 0" by auto
  with d c(2) show ?thesis by (intro that [of c' d]) (simp_all add: stored_client_def)
qed

lemma stored_join_all:
  assumes S: "session_setup S" "names_ok S" "keys_apart S" and w: "stored_good S w" "room_for S (se_objs S) (lw_daemon w)" and n: "n < 2 ^ 20"
  shows "\<exists>cl d. join_all (se_env S) (se_objs S) (fresh_client S, w) = Inr (cl, w\<lparr>lw_daemon := d\<rparr>) \<and> same_mail (lw_daemon w) d \<and>
     (\<forall>h. h \<notin> set (se_objs S) \<longrightarrow> cl h = fresh_client S h) \<and> (\<forall>h\<in>set (se_objs S). stored_client n (se_kind S h) (se_name S h) d (cl h))"
proof (rule join_all_steps [where good = "stored_good S" and ce = "se_env S", OF _ _ w(1) order_refl w(2)])
  fix h hs and w :: "('a, 'b) loop_world"
  assume 0: "stored_good S w" "h \<in> set (se_objs S)" "room_for S (h # hs) (lw_daemon w)"
  have og: "se_kind S h = APP_CLIENT \<or> se_kind S h = SIM_CLIENT" using S(2) 0(2) by (auto simp: names_ok_def)
  have room: "se_kind S h = APP_CLIENT \<or> se_kind S h = SIM_CLIENT \<and> (se_mode S = PER_NODE \<or> se_mode S = SYSTEM_WIDE \<and> sim_client_lookup (lw_daemon w) = [])"
    using og S(1) 0(3) by (auto simp: room_for_def session_setup_def split: if_splits)
  have e: "test_env (se_pb S) (se_fds S h) (se_exec S) (se_env S h)" using S(1) by (simp add: session_setup_def)
  have k: "id_ok (clientId (fresh_client S h))" using S(3) 0(2) by (simp add: keys_apart_def fresh_client_sel(2))
  note g = 0(1) [unfolded stored_good_def redis_reachable_def]
  obtain c d where 1: "initialize (se_env S h) (fresh_client S h) w = Inr (c, w\<lparr>lw_daemon := d\<rparr>)" "same_mail (lw_daemon w) d"
    "se_kind S h = APP_CLIENT \<Longrightarrow> sim_client_lookup d = sim_client_lookup (lw_daemon w)"
    "stored_client n (se_kind S h) (clientId (fresh_client S h)) d c"
    by (rule stored_join [OF e _ _ _ fresh_client_sel(1) [OF og] k room, where n = n]) (use g n in blast)+
  have "room_for S hs d" using 0(3) 1(3) og by (auto simp: room_for_def split: if_splits)
  moreover have "stored_good S (w\<lparr>lw_daemon := d\<rparr>)"
    using g 1(2) by (simp add: stored_good_def redis_reachable_def stored_world_def same_mail_def)
  ultimately show "\<exists>c d. initialize (se_env S h) (fresh_client S h) w = Inr (c, w\<lparr>lw_daemon := d\<rparr>) \<and> same_mail (lw_daemon w) d \<and>
      room_for S hs d \<and> stored_good S (w\<lparr>lw_daemon := d\<rparr>) \<and> stored_client n (se_kind S h) (se_name S h) d c"
    using 1 by (auto simp: fresh_client_sel(2))
next
  fix h d d' c
  assume "same_mail d d'" "stored_client n (se_kind S h) (se_name S h) d c"
  then show "stored_client n (se_kind S h) (se_name S h) d' c" by (simp add: stored_client_def same_mail_ready split: option.splits)
qed (use S(2) in \<open>simp_all add: names_ok_def\<close>)

text \<open>C3: Refinement with the database: the session of \<open>library_refines_post_office\<close>, under its conditions (ASCII texts of at most 1000
  characters, PULL mode, one simulator at most in SYSTEM_WIDE mode, every \<open>fetch\<close> with a source, one call at a time), against a daemon that
  uses Redis and holds no mail at the start.  The payloads lie in Redis and the daemon sees only their keys; yet every answer, and the mail
  left at the end, are those of the post office, payloads included, for any Redis that keeps its documented laws (\<open>redis_laws\<close>) and
  whatever else it stores, as long as every client reaches it (\<open>redis_reachable\<close>), the clients' identifiers are different, without NUL and at
  most 900 characters long (\<open>keys_apart\<close>), the payloads are not empty and have no NUL byte (\<open>storable\<close>), and the session has fewer
  than \<open>2 ^ 20\<close> calls, the values of a key counter.\<close>

theorem stored_library_refines_post_office:
  assumes "session_setup S" "names_ok S" "keys_apart S" "redis_laws (se_exec S) view" "redis_reachable S w"
    and "stored_world (se_mode S) w" "held w = []" "room_for S (se_objs S) (lw_daemon w)"
    and "session_calls_ok S cs" "\<forall>(h, c)\<in>set cs. storable c" "length cs < 2 ^ 20"
  shows "\<exists>rs cl w'. library_session (se_env S) (fresh_client S) (se_objs S) t cs w = Inr (shown_all rs, cl, w') \<and>
     po_run (session_events S cs) (stored_mail view w) = (rs, stored_mail view w')"
proof -
  have "stored_good S w" using assms(5,6) by (simp add: stored_good_def)
  from stored_join_all [OF assms(1-3) this assms(8,11)] obtain cl d where
    j: "join_all (se_env S) (se_objs S) (fresh_client S, w) = Inr (cl, w\<lparr>lw_daemon := d\<rparr>)" "same_mail (lw_daemon w) d"
    "\<forall>h\<in>set (se_objs S). stored_client (length cs) (se_kind S h) (se_name S h) d (cl h)" by blast
  have "stored_ok S view (length cs + 0) (cl, w\<lparr>lw_daemon := d\<rparr>)"
    using assms(1,3,4,6,7) j(2,3) by (simp add: stored_ok_def keys_apart_def stored_world_def held_def same_mail_def)
  moreover have "stored_mail view (w\<lparr>lw_daemon := d\<rparr>) = stored_mail view w"
    using j(2) by (simp add: stored_mail_def loop_mail_def post_office_of_def unstored_def same_mail_def)
  moreover have "\<forall>(h, c)\<in>set cs. stored_may S h c" using assms(9,10) by (auto simp: session_calls_ok_def stored_may_def may_call_def)
  ultimately show ?thesis
    using stored_client.run_refines [of S view cs 0 "(cl, w\<lparr>lw_daemon := d\<rparr>)" t] j(1)
    by (auto simp: library_session_def session_events_def)
qed

text \<open>The session of the first witness with a database.\<close>

definition wit_storing :: "(nsbm, string \<Rightarrow> string option) loop_world" where
  "wit_storing = wit_world\<lparr>lw_daemon := wit_daemon\<lparr>running := True, d_cfg := default_cfg\<lparr>USE_DB := True\<rparr>\<rparr>\<rparr>"

theorem stored_library_refines_post_office_witness:
  "\<exists>cl w'. library_session (se_env wit_session) (fresh_client wit_session) (se_objs wit_session) 30 wit_calls wit_storing = Inr ([(1, empty_entry), (2, mk_entry ''a'' ''b'' ''one'' 3),
       (1, mk_entry ''a'' ''b'' ''one'' 3), (2, mk_entry ''a'' ''b'' ''two'' 3), (2, empty_entry)], cl, w')"
proof -
  have "keys_apart wit_session" "redis_laws (se_exec wit_session) (\<lambda>s. s)" "redis_reachable wit_session wit_storing"
    "stored_world (se_mode wit_session) wit_storing" "held wit_storing = []" "room_for wit_session (se_objs wit_session) (lw_daemon wit_storing)"
    "\<forall>(h, c)\<in>set wit_calls. storable c" "length wit_calls < 2 ^ 20"
    by (simp_all add: keys_apart_def wit_session_def id_ok_def plain_text_def redis_reachable_def wit_env_def wit_storing_def wit_world_def wit_daemon_def
        default_cfg_def stored_world_def held_def room_for_def storable_def wit_calls_def)
  from stored_library_refines_post_office [OF wit_session_setup(1,2) this(1-6) wit_session_setup(3) this(7,8), of 30]
  show ?thesis
    by (auto simp: session_events_def wit_session_def wit_calls_def stored_mail_def unstored_def loop_mail_def post_office_of_def wit_storing_def wit_world_def wit_daemon_def
        serve_queue_def shown_all_def shown_def fetch_key_def int_of_size_def)
qed

end
