(* ===== verification/NSB_Transport.thy ===== *)
theory NSB_Transport
  imports NSB_Session
begin

text \<open>
  The connected system down to the bytes.  The clients of \<open>NSB_Session\<close> talk through their
  \<open>SocketInterface\<close> (the loops of \<open>sendMessage\<close> and \<open>receiveMessage\<close> of \<open>NSB_Socket\<close>) to the \<open>select\<close> loop of
  the daemon (\<open>serve\<close> of \<open>NSB_Server\<close>).  Between them is a kernel that cuts every message as it likes: how
  much room each \<open>send\<close> finds, over how many returns of \<open>select\<close> the message comes in, and in which pieces \<open>recv\<close> gets
  the bytes there.  Neither side knows where a message ends: a message that comes in over more than one return of \<open>select\<close>
  is taken for several (\<open>split_message_lost\<close>).  Where each message comes in at once (\<open>whole_reads\<close>), the
  network \<open>loop_comms\<close> of \<open>NSB_System\<close> is an abstraction of this one (a simulation); so what is proved over
  \<open>loop_comms\<close> holds over the bytes.
\<close>

section \<open>The kernel and the two sides\<close>

text \<open>\<open>tc_peer\<close> is the daemon's descriptor of a client's channel, \<open>tc_home\<close> the client and its descriptor at the other
  end.  The kernel may decide anew for every message: its functions take the number of messages moved so far.  \<open>tc_cut\<close> and
  \<open>tc_pack\<close> give, for a message to the daemon and for one to a client, the returns of \<open>select\<close> over which it comes in, and for
  each of them the results of \<open>recv\<close>.\<close>

record 'b tcp =
  tc_env :: "'b io_env"
  tc_sfd :: fd
  tc_peer :: "nat \<Rightarrow> channel \<Rightarrow> fd"
  tc_home :: "fd \<Rightarrow> (nat \<times> fd) option"
  tc_room :: "nat \<Rightarrow> 'b list \<Rightarrow> send_event list"
  tc_cut :: "nat \<Rightarrow> 'b list \<Rightarrow> 'b list list list"
  tc_pack :: "nat \<Rightarrow> 'b list \<Rightarrow> 'b list list list"

record 'b tcp_world =
  tw_server :: "'b server"
  tw_socks :: "nat \<Rightarrow> 'b socket_state"
  tw_tick :: nat

text \<open>Pieces of a message: none is empty, and together they are the message.\<close>

definition pieces_of :: "'b list \<Rightarrow> 'b list list \<Rightarrow> bool" where
  "pieces_of x as \<longleftrightarrow> concat as = x \<and> [] \<notin> set as"

definition rounds_of :: "'b list \<Rightarrow> 'b list list list \<Rightarrow> bool" where
  "rounds_of x rs \<longleftrightarrow> pieces_of x (concat rs) \<and> [] \<notin> set rs"

definition kernel_ok :: "'b tcp \<Rightarrow> bool" where
  "kernel_ok T \<longleftrightarrow> (\<forall>n x. length x \<le> room (tc_room T n x) \<and> SendError \<notin> set (tc_room T n x) \<and>
     rounds_of x (tc_cut T n x) \<and> rounds_of x (tc_pack T n x))"

text \<open>Every message comes in at one return of \<open>select\<close>.\<close>

definition whole_reads :: "'b tcp \<Rightarrow> bool" where
  "whole_reads T \<longleftrightarrow> (\<forall>n x. x \<noteq> [] \<longrightarrow> length (tc_cut T n x) = 1 \<and> length (tc_pack T n x) = 1)"

lemma whole_cut:
  assumes "kernel_ok T" "whole_reads T" "x \<noteq> []"
  obtains cs where "tc_cut T n x = [cs]" "pieces_of x cs"
  using assms by (auto simp: kernel_ok_def whole_reads_def rounds_of_def length_Suc_conv
      dest!: spec [where x = n] spec [where x = x])

lemma whole_pack:
  assumes "kernel_ok T" "whole_reads T" "x \<noteq> []"
  obtains cs where "tc_pack T n x = [cs]" "pieces_of x cs"
  using assms by (auto simp: kernel_ok_def whole_reads_def rounds_of_def length_Suc_conv
      dest!: spec [where x = n] spec [where x = x])

text \<open>A socket is at the other end of one descriptor only.\<close>

definition links_ok :: "'b tcp \<Rightarrow> bool" where
  "links_ok T \<longleftrightarrow> (\<forall>f g x. tc_home T f = Some x \<and> tc_home T g = Some x \<longrightarrow> f = g)"

text \<open>A message with a manifest has bytes: Protobuf writes at least the tag of the manifest.\<close>

definition speaks :: "'b io_env \<Rightarrow> bool" where
  "speaks env \<longleftrightarrow> (\<forall>m bs. serialize env m = Some bs \<and> has_manifest m \<longrightarrow> bs \<noteq> [])"

text \<open>What the daemon sends reaches the client at the other end.\<close>

definition tcp_arrive :: "'b tcp \<Rightarrow> fd \<times> 'b list \<Rightarrow> 'b tcp_world \<Rightarrow> 'b tcp_world" where
  "tcp_arrive T gx tw = (case tc_home T (fst gx) of None \<Rightarrow> tw
     | Some (h, cf) \<Rightarrow> (let s = tw_socks tw h in
         tw\<lparr>tw_socks := (tw_socks tw)(h := s\<lparr>sk_rounds := (sk_rounds s)(cf := sk_rounds s cf @ map Ready (tc_pack T (tw_tick tw) (snd gx)))\<rparr>),
            tw_tick := Suc (tw_tick tw)\<rparr>))"

definition readable_at :: "fd \<Rightarrow> 'b list list \<Rightarrow> fd \<Rightarrow> 'b list list option" where
  "readable_at g chunks = (\<lambda>f. if f = g then Some chunks else None)"

text \<open>The daemon's loop over what a client has written, one pass for each return of \<open>select\<close>, and its answers on their way.\<close>

definition tcp_daemon :: "'b tcp \<Rightarrow> fd \<Rightarrow> 'b list \<Rightarrow> 'b tcp_world \<Rightarrow> io_stop + 'b tcp_world" where
  "tcp_daemon T g written tw =
     (case serve (tc_env T) (tc_sfd T) (map (\<lambda>cs. Activity (readable_at g cs) None) (tc_cut T (tw_tick tw) written)) (tw_server tw) of
        Inl _ \<Rightarrow> Inl NoReturn
      | Inr (_, sv) \<Rightarrow> Inr (fold (tcp_arrive T) (drop (length (sv_sent (tw_server tw))) (sv_sent sv))
          (tw\<lparr>tw_server := sv, tw_tick := Suc (tw_tick tw)\<rparr>)))"

text \<open>\<open>sendMessage\<close> of client \<open>h\<close>; then the daemon reads, if there is anything to read.\<close>

definition tcp_send :: "'b tcp \<Rightarrow> nat \<Rightarrow> channel \<Rightarrow> 'b list \<Rightarrow> 'b tcp_world \<Rightarrow> io_stop + i32 \<times> 'b tcp_world" where
  "tcp_send T h ch bs tw = (let s = tw_socks tw h in case map_find (conns s) ch of None \<Rightarrow> Inl OutOfRange
     | Some cf \<Rightarrow> bind_res (socket_send ch bs (s\<lparr>sk_send := (sk_send s)(cf := tc_room T (tw_tick tw) bs), sk_wire := (sk_wire s)(cf := [])\<rparr>))
         (\<lambda>(r, s1). let tw1 = tw\<lparr>tw_socks := (tw_socks tw)(h := s1), tw_tick := Suc (tw_tick tw)\<rparr> in
            if sk_wire s1 cf = [] then Inr (r, tw1)
            else bind_res (tcp_daemon T (tc_peer T h ch) (sk_wire s1 cf) tw1) (\<lambda>tw2. Inr (r, tw2))))"

text \<open>\<open>receiveMessage\<close>: with a time-out and nothing on the way, \<open>select\<close> times out.\<close>

definition tcp_receive :: "nat \<Rightarrow> channel \<Rightarrow> i32 option \<Rightarrow> 'b tcp_world \<Rightarrow> io_stop + 'b list \<times> 'b tcp_world" where
  "tcp_receive h ch t tw = (let s = tw_socks tw h in case map_find (conns s) ch of None \<Rightarrow> Inl OutOfRange
     | Some cf \<Rightarrow> bind_res (socket_receive ch t (if sk_rounds s cf = [] \<and> t \<noteq> None
            then s\<lparr>sk_rounds := (sk_rounds s)(cf := [SelectTimeout])\<rparr> else s))
         (\<lambda>(m, s1). Inr (m, tw\<lparr>tw_socks := (tw_socks tw)(h := s1)\<rparr>)))"

definition tcp_comms :: "'b tcp \<Rightarrow> nat \<Rightarrow> ('b, 'b tcp_world) comms" where
  "tcp_comms T h = \<lparr>sendMessage = tcp_send T h, receiveMessage = tcp_receive h\<rparr>"

section \<open>Pieces\<close>

lemma read_all_pieces:
  assumes "pieces_of x as"
  shows "read_all as = x"
proof -
  have "takeWhile (\<lambda>c. c \<noteq> []) as = as"
    by (rule takeWhile_eq_all_conv [THEN iffD2]) (use assms in \<open>auto simp: pieces_of_def\<close>)
  then show ?thesis using assms unfolding read_all_def pieces_of_def by metis
qed

lemma drain_empty: "[] \<notin> set as \<Longrightarrow> drain q as = (m, r) \<Longrightarrow> r = []"
proof (induction q as arbitrary: m r rule: drain.induct)
  case (1 q as)
  let ?q1 = "q @ (case as of [] \<Rightarrow> [] | a # _ \<Rightarrow> a)"
  show ?case
  proof (cases "?q1 = []")
    case True
    with 1(2,3) show ?thesis by (subst (asm) drain.simps) (auto split: list.splits)
  next
    case False
    obtain m1 r1 where d: "drain (drop (RECEIVE_BUFFER_SIZE - 1) ?q1) (tl as) = (m1, r1)" by fastforce
    with False 1(3) have "r = r1" by (subst (asm) drain.simps) (simp only: Let_def if_False prod.case prod.inject)
    moreover have "[] \<notin> set (tl as)" using 1(2) by (cases as) auto
    ultimately show ?thesis using "1.IH" [OF refl False _ d] by simp
  qed
qed

lemma drain_pieces:
  assumes "pieces_of x as"
  shows "drain [] as = (x, [])"
proof -
  obtain m r where d: "drain [] as = (m, r)" by fastforce
  have "r = []" by (rule drain_empty [OF _ d]) (use assms in \<open>simp add: pieces_of_def\<close>)
  with drain_conserves [OF d] assms d show ?thesis by (simp add: pieces_of_def)
qed

section \<open>The simulation\<close>

text \<open>An answer on its way, and the answers waiting for a client.\<close>

definition on_way :: "'b round \<Rightarrow> 'b list \<Rightarrow> bool" where
  "on_way r x \<longleftrightarrow> x \<noteq> [] \<and> (\<exists>as. r = Ready as \<and> pieces_of x as)"

definition end_ok :: "'b tcp \<Rightarrow> (nat \<Rightarrow> 'b socket_state) \<Rightarrow> (fd \<Rightarrow> 'b list list) \<Rightarrow> nat \<Rightarrow> channel \<Rightarrow> bool" where
  "end_ok T socks box h ch \<longleftrightarrow> (case map_find (conns (socks h)) ch of None \<Rightarrow> False
     | Some cf \<Rightarrow> tc_home T (tc_peer T h ch) = Some (h, cf) \<and> sk_queue (socks h) cf = [] \<and>
         list_all2 on_way (sk_rounds (socks h) cf) (box (tc_peer T h ch)))"

lemma end_okE:
  assumes "end_ok T socks box h ch"
  obtains cf where "map_find (conns (socks h)) ch = Some cf" "tc_home T (tc_peer T h ch) = Some (h, cf)"
    "sk_queue (socks h) cf = []" "list_all2 on_way (sk_rounds (socks h) cf) (box (tc_peer T h ch))"
  using assms by (auto simp: end_ok_def split: option.splits)

lemma end_ok_cong:
  "conns (socks' h) = conns (socks h) \<Longrightarrow> sk_queue (socks' h) = sk_queue (socks h) \<Longrightarrow> sk_rounds (socks' h) = sk_rounds (socks h) \<Longrightarrow>
     end_ok T socks' box h ch = end_ok T socks box h ch"
  by (cases "map_find (conns (socks h)) ch") (simp_all add: end_ok_def)

definition server_ready :: "'b tcp \<Rightarrow> 'b server \<Rightarrow> bool" where
  "server_ready T sv \<longleftrightarrow> running (sv_daemon sv) \<and> SYSTEM_MODE (d_cfg (sv_daemon sv)) = PULL \<and> distinct (channel_fds sv) \<and>
     (\<forall>f\<in>set (tc_sfd T # channel_fds sv). fd_set_ok f)"

definition tcp_sim :: "'b tcp \<Rightarrow> nat set \<Rightarrow> 'b tcp_world \<Rightarrow> ('b, 's) loop_world \<Rightarrow> bool" where
  "tcp_sim T H tw lw \<longleftrightarrow> server_ready T (tw_server tw) \<and> sv_daemon (tw_server tw) = lw_daemon lw \<and>
     (\<forall>h\<in>H. \<forall>ch. tc_peer T h ch \<in> set (channel_fds (tw_server tw)) \<and> end_ok T (tw_socks tw) (lw_inbox lw) h ch)"

text \<open>The daemon's side of a message.\<close>

lemma serve_fds_one:
  assumes "distinct fs" "read_all chunks = bs" "bs \<noteq> []"
  shows "serve_fds env (readable_at g chunks) fs s =
    (if g \<in> set fs then bind_res (serve_read env g bs s) (\<lambda>s1. Inr (fs, s1)) else Inr (fs, s))"
  using assms(1)
proof (induction fs arbitrary: s)
  case (Cons f fs)
  then show ?case using assms(2,3)
    by (cases "serve_read env g bs s") (auto simp: bind_res_def readable_at_def)
qed simp

lemma serve_one:
  assumes "server_ready T s" "g \<in> set (channel_fds s)" "pieces_of bs chunks" "bs \<noteq> []"
    and "handle_message (tc_env T) g bs (sv_daemon s) = Inr (d, out)" "running d" "peers_read (tc_env T)"
  shows "serve (tc_env T) (tc_sfd T) [Activity (readable_at g chunks) None] s =
    Inr (False, s\<lparr>sv_daemon := d, sv_handled := sv_handled s @ [(g, bs)], sv_sent := sv_sent s @ out\<rparr>)"
proof -
  let ?s = "s\<lparr>sv_daemon := d, sv_handled := sv_handled s @ [(g, bs)], sv_sent := sv_sent s @ out\<rparr>"
  have "serve_read (tc_env T) g bs s = Inr ?s" using assms(5) by (simp add: serve_read_def pipes_read [OF assms(7)])
  then have "serve_activity (tc_env T) (readable_at g chunks) None s = Inr ?s"
    using serve_fds_one [OF _ read_all_pieces [OF assms(3)] assms(4), of "channel_fds s" "tc_env T" g s] assms(1,2)
    by (simp add: serve_activity_def server_ready_def accept_channel_def)
  moreover have "serve (tc_env T) (tc_sfd T) [] ?s = Inr (False, ?s)"
    using assms(1,6) by (subst serve.simps) (simp add: server_ready_def)
  ultimately show ?thesis
    using assms(1) by (subst serve.simps) (simp add: server_ready_def)
qed

text \<open>Its answers on their way to the clients.\<close>

lemma arrive_ends:
  assumes "links_ok T" "kernel_ok T \<and> whole_reads T" "x \<noteq> []" "\<forall>h\<in>H. \<forall>ch. end_ok T (tw_socks tw) box h ch"
  shows "\<forall>h\<in>H. \<forall>ch. end_ok T (tw_socks (tcp_arrive T (g, x) tw)) (box(g := box g @ [x])) h ch"
proof (intro ballI allI)
  fix h ch
  assume "h \<in> H"
  with assms(4) have "end_ok T (tw_socks tw) box h ch" by blast
  then obtain cf where e: "map_find (conns (tw_socks tw h)) ch = Some cf" "tc_home T (tc_peer T h ch) = Some (h, cf)"
    "sk_queue (tw_socks tw h) cf = []" "list_all2 on_way (sk_rounds (tw_socks tw h) cf) (box (tc_peer T h ch))"
    by (rule end_okE)
  obtain cs where w: "tc_pack T (tw_tick tw) x = [cs]" "on_way (Ready cs) x"
    using whole_pack [OF conjunct1 [OF assms(2)] conjunct2 [OF assms(2)] assms(3)] assms(3) by (auto simp: on_way_def)
  show "end_ok T (tw_socks (tcp_arrive T (g, x) tw)) (box(g := box g @ [x])) h ch"
  proof (cases "tc_peer T h ch = g")
    case True
    with e w show ?thesis by (simp add: end_ok_def tcp_arrive_def Let_def list_all2_appendI)
  next
    case False
    then have "tc_home T g \<noteq> Some (h, cf)" using assms(1) e(2) by (auto simp: links_ok_def)
    with e False show ?thesis by (auto simp: end_ok_def tcp_arrive_def Let_def split: option.split)
  qed
qed

lemma arrive_server [simp]: "tw_server (tcp_arrive T gx tw) = tw_server tw"
  by (simp add: tcp_arrive_def Let_def split: option.split prod.split)

lemma deliver_Cons: "deliver ((g, x) # out) box = deliver out (box(g := box g @ [x]))"
  by (simp add: deliver_def)

lemma arrive_all:
  assumes "links_ok T" "kernel_ok T \<and> whole_reads T"
  shows "\<forall>(g, x)\<in>set out. x \<noteq> [] \<Longrightarrow> \<forall>h\<in>H. \<forall>ch. end_ok T (tw_socks tw) box h ch \<Longrightarrow>
     (\<forall>h\<in>H. \<forall>ch. end_ok T (tw_socks (fold (tcp_arrive T) out tw)) (deliver out box) h ch) \<and>
     tw_server (fold (tcp_arrive T) out tw) = tw_server tw"
proof (induction out arbitrary: tw box)
  case (Cons gx out)
  obtain g x where gx: "gx = (g, x)" by force
  from Cons.prems gx have "x \<noteq> []" "\<forall>(g, x)\<in>set out. x \<noteq> []" by auto
  from Cons.IH [OF this(2) arrive_ends [OF assms this(1) Cons.prems(2), of g]] show ?case
    by (simp add: deliver_Cons gx del: fun_upd_apply)
qed (simp add: deliver_def)

lemma answers_not_empty:
  assumes "speaks env" "SYSTEM_MODE (d_cfg d) = PULL" "handle_message env f bs d = Inr (d', out)"
  shows "\<forall>(g, x)\<in>set out. x \<noteq> []"
proof (cases "parse env bs")
  case (Some m)
  obtain o2 req where d: "dispatch env m d = Inr (d', o2, req, [])" "out = (if req then send_serialized env f o2 else [])"
    using assms(2,3) Some dispatch_pull_ok [OF assms(2), of env m] by (auto simp: handle_message_def)
  with dispatch_response_manifest [OF d(1)] assms(1) show ?thesis
    by (auto simp: send_serialized_def speaks_def split: option.splits if_splits)
qed (use assms in \<open>simp add: handle_message_def\<close>)

text \<open>\<open>sendMessage\<close>.\<close>

lemma socket_send_all:
  assumes "map_find (conns s) ch = Some cf" "length bs \<le> int_max" "length bs \<le> room (sk_send s cf)" "SendError \<notin> set (sk_send s cf)"
    "sk_wire s cf = []"
  shows "\<exists>evs. socket_send ch bs s = Inr (0, if bs = [] then s else s\<lparr>sk_send := (sk_send s)(cf := evs), sk_wire := (sk_wire s)(cf := bs)\<rparr>)"
proof -
  have "sint (int_of_size bs) = int (length bs)" using word_pos(1) [OF order_refl assms(2)] by (simp add: int_of_size_def)
  moreover obtain evs where "send_loop bs (int_of_size bs) 0 (sk_send s cf) [] = Inr (0, evs, bs)"
    using send_loop_returns [OF assms(2), of 0 "sk_send s cf" "[]"] assms(3,4) by (auto simp: int_of_size_def)
  ultimately show ?thesis using assms(1,5) by (intro exI [of _ evs]) (simp add: socket_send_def)
qed

lemma tcp_send_sim:
  assumes T: "links_ok T" "kernel_ok T \<and> whole_reads T" "speaks (tc_env T)" "peers_read (tc_env T)"
    and sim: "tcp_sim T H tw lw" and h: "h \<in> H"
    and bs: "bs \<noteq> []" "length bs \<le> int_max"
    and l: "loop_send (tc_env T) (tc_peer T h) ch bs lw = Inr (r, lw')" "running (lw_daemon lw')"
  shows "\<exists>tw'. tcp_send T h ch bs tw = Inr (r, tw') \<and> tcp_sim T H tw' lw'"
proof -
  let ?s = "tw_socks tw h" and ?g = "tc_peer T h ch" and ?sv = "tw_server tw" and ?n = "tw_tick tw"
  obtain d out where m: "handle_message (tc_env T) ?g bs (lw_daemon lw) = Inr (d, out)" "r = 0"
    "lw' = lw\<lparr>lw_daemon := d, lw_inbox := deliver out (lw_inbox lw)\<rparr>"
    using l(1) by (auto simp: loop_send_def split: sum.splits)
  have sv: "server_ready T ?sv" "sv_daemon ?sv = lw_daemon lw" "?g \<in> set (channel_fds ?sv)"
    and ends: "\<forall>h\<in>H. \<forall>ch. end_ok T (tw_socks tw) (lw_inbox lw) h ch"
    using sim h by (auto simp: tcp_sim_def)
  have "end_ok T (tw_socks tw) (lw_inbox lw) h ch" using ends h by blast
  then obtain cf where cf: "map_find (conns ?s) ch = Some cf" by (rule end_okE)
  let ?u = "?s\<lparr>sk_send := (sk_send ?s)(cf := tc_room T ?n bs), sk_wire := (sk_wire ?s)(cf := [])\<rparr>"
  obtain cs where cs: "tc_cut T (Suc ?n) bs = [cs]" "pieces_of bs cs"
    using whole_cut [OF conjunct1 [OF T(2)] conjunct2 [OF T(2)] bs(1)] by blast
  have k: "length bs \<le> room (tc_room T ?n bs)" "SendError \<notin> set (tc_room T ?n bs)"
    using T(2) by (simp_all add: kernel_ok_def)
  obtain s1 where s1: "socket_send ch bs ?u = Inr (0, s1)" "sk_wire s1 cf = bs" "conns s1 = conns ?s" "sk_queue s1 = sk_queue ?s"
    "sk_rounds s1 = sk_rounds ?s"
    using socket_send_all [of ?u ch cf bs] cf bs k(1,2) by auto
  let ?tw1 = "tw\<lparr>tw_socks := (tw_socks tw)(h := s1), tw_tick := Suc ?n\<rparr>"
  let ?sv' = "?sv\<lparr>sv_daemon := d, sv_handled := sv_handled ?sv @ [(?g, bs)], sv_sent := sv_sent ?sv @ out\<rparr>"
  let ?tw2 = "?tw1\<lparr>tw_server := ?sv', tw_tick := Suc (Suc ?n)\<rparr>"
  have "tcp_daemon T ?g bs ?tw1 = Inr (fold (tcp_arrive T) out ?tw2)"
    using serve_one [OF sv(1,3) cs(2) bs(1), of d out] m(1,3) sv(2) l(2) T(4) cs(1) by (simp add: tcp_daemon_def)
  with s1 cf bs m(2) have send: "tcp_send T h ch bs tw = Inr (r, fold (tcp_arrive T) out ?tw2)"
    by (simp add: tcp_send_def Let_def)
  have "\<forall>h\<in>H. \<forall>ch. end_ok T (tw_socks ?tw2) (lw_inbox lw) h ch"
  proof (intro ballI allI)
    fix h' ch'
    assume "h' \<in> H"
    with ends have "end_ok T (tw_socks tw) (lw_inbox lw) h' ch'" by blast
    moreover have "end_ok T (tw_socks ?tw2) (lw_inbox lw) h' ch' = end_ok T (tw_socks tw) (lw_inbox lw) h' ch'"
      by (rule end_ok_cong) (simp_all add: s1(3-5))
    ultimately show "end_ok T (tw_socks ?tw2) (lw_inbox lw) h' ch'" by simp
  qed
  moreover have "\<forall>(g, x)\<in>set out. x \<noteq> []"
    using answers_not_empty [OF T(3) _ m(1)] sv(1,2) by (simp add: server_ready_def)
  ultimately have a: "\<forall>h\<in>H. \<forall>ch. end_ok T (tw_socks (fold (tcp_arrive T) out ?tw2)) (deliver out (lw_inbox lw)) h ch"
    "tw_server (fold (tcp_arrive T) out ?tw2) = ?sv'"
    using arrive_all [OF T(1,2), of out H ?tw2 "lw_inbox lw"] by simp_all
  have "d_cfg d = d_cfg (lw_daemon lw)" using handle_message_frame [OF m(1)] by blast
  with sv sim l(2) m(3) have "server_ready T ?sv'" by (simp add: server_ready_def)
  with a sim m(3) have "tcp_sim T H (fold (tcp_arrive T) out ?tw2) lw'" by (simp add: tcp_sim_def)
  with send show ?thesis by blast
qed

text \<open>\<open>receiveMessage\<close>.\<close>

lemma tcp_receive_nothing:
  assumes "map_find (conns (tw_socks tw h)) ch = Some cf" "sk_queue (tw_socks tw h) cf = []" "sk_rounds (tw_socks tw h) cf = []"
  shows "tcp_receive h ch (Some t) tw = Inr ([], tw)"
proof -
  let ?s = "tw_socks tw h"
  have "socket_receive ch (Some t) (?s\<lparr>sk_rounds := (sk_rounds ?s)(cf := [SelectTimeout])\<rparr>) =
      Inr ([], ?s\<lparr>sk_queue := (sk_queue ?s)(cf := []), sk_rounds := (sk_rounds ?s)(cf := [])\<rparr>)"
    using assms(1,2) by (simp add: socket_receive_def)
  moreover have "(sk_queue ?s)(cf := []) = sk_queue ?s" "(sk_rounds ?s)(cf := []) = sk_rounds ?s"
    by (simp_all add: fun_upd_idem_iff assms(2,3))
  ultimately show ?thesis using assms(1,3) by (simp add: tcp_receive_def Let_def)
qed

lemma tcp_receive_sim:
  assumes T: "links_ok T" and sim: "tcp_sim T H tw lw" and h: "h \<in> H" and l: "loop_receive (tc_peer T h) ch (Some t) lw = Inr (x, lw')"
  shows "\<exists>tw'. tcp_receive h ch (Some t) tw = Inr (x, tw') \<and> tcp_sim T H tw' lw'"
proof -
  let ?s = "tw_socks tw h" and ?g = "tc_peer T h ch"
  have ends: "\<forall>h\<in>H. \<forall>ch. end_ok T (tw_socks tw) (lw_inbox lw) h ch" using sim by (auto simp: tcp_sim_def)
  then have "end_ok T (tw_socks tw) (lw_inbox lw) h ch" using h by blast
  then obtain cf where cf: "map_find (conns ?s) ch = Some cf" "tc_home T ?g = Some (h, cf)" "sk_queue ?s cf = []"
    "list_all2 on_way (sk_rounds ?s cf) (lw_inbox lw ?g)"
    by (rule end_okE)
  show ?thesis
  proof (cases "lw_inbox lw ?g")
    case Nil
    then have r: "sk_rounds ?s cf = []" "x = []" "lw' = lw" using cf(4) l by (simp_all add: loop_receive_def)
    have "tcp_receive h ch (Some t) tw = Inr ([], tw)" by (rule tcp_receive_nothing [OF cf(1,3) r(1)])
    with r sim show ?thesis by blast
  next
    case (Cons y ys)
    obtain rd rs where rd: "sk_rounds ?s cf = rd # rs" "on_way rd y" "list_all2 on_way rs ys"
      using cf(4) unfolding Cons list_all2_Cons2 by blast
    obtain as where as: "rd = Ready as" "pieces_of y as" "y \<noteq> []" using rd(2) by (auto simp: on_way_def)
    have "x = y" "lw' = lw\<lparr>lw_inbox := (lw_inbox lw)(?g := ys)\<rparr>" using l Cons by (simp_all add: loop_receive_def)
    note r = rd(1) [unfolded as(1)] as(2,3) rd(3) this
    let ?s1 = "?s\<lparr>sk_queue := (sk_queue ?s)(cf := []), sk_rounds := (sk_rounds ?s)(cf := rs)\<rparr>"
    let ?tw = "tw\<lparr>tw_socks := (tw_socks tw)(h := ?s1)\<rparr>"
    have "tcp_receive h ch (Some t) tw = Inr (y, ?tw)"
      using cf(1,3) r(1,3) drain_pieces [OF r(2)] by (simp add: tcp_receive_def Let_def socket_receive_def)
    moreover have "\<forall>h'\<in>H. \<forall>ch'. end_ok T (tw_socks ?tw) ((lw_inbox lw)(?g := ys)) h' ch'"
    proof (intro ballI allI)
      fix h' ch'
      assume "h' \<in> H"
      with ends have "end_ok T (tw_socks tw) (lw_inbox lw) h' ch'" by blast
      then obtain cf' where e: "map_find (conns (tw_socks tw h')) ch' = Some cf'" "tc_home T (tc_peer T h' ch') = Some (h', cf')"
        "sk_queue (tw_socks tw h') cf' = []" "list_all2 on_way (sk_rounds (tw_socks tw h') cf') (lw_inbox lw (tc_peer T h' ch'))"
        by (rule end_okE)
      have "tc_peer T h' ch' = ?g \<longleftrightarrow> h' = h \<and> cf' = cf"
        using T cf(2) e(2) by (auto simp: links_ok_def)
      with e r(4) show "end_ok T (tw_socks ?tw) ((lw_inbox lw)(?g := ys)) h' ch'"
        by (cases "cf' = cf"; cases "h' = h") (auto simp: end_ok_def)
    qed
    ultimately show ?thesis using sim r(5,6) by (intro exI [of _ ?tw]) (simp add: tcp_sim_def)
  qed
qed

section \<open>The client's operations\<close>

text \<open>The same client object on the bytes and on the abstract network.\<close>

definition side_by_side :: "'b tcp \<Rightarrow> nat \<Rightarrow> ('b, 'b tcp_world) client_env \<Rightarrow> ('b, ('b, 's) loop_world) client_env \<Rightarrow> bool" where
  "side_by_side T h te le \<longleftrightarrow> pb te = tc_env T \<and> pb le = tc_env T \<and> comm te = tcp_comms T h \<and>
     comm le = loop_comms (tc_env T) (tc_peer T h) \<and> sockname te = sockname le \<and> redisConnect te = redisConnect le \<and>
     indeterminate te = indeterminate le"

definition tcp_ok :: "'b tcp \<Rightarrow> bool" where
  "tcp_ok T \<longleftrightarrow> links_ok T \<and> kernel_ok T \<and> whole_reads T \<and> speaks (tc_env T) \<and> peers_read (tc_env T)"

text \<open>Messages that \<open>send\<close> can write: there are bytes, and their number is an \<open>int\<close>.\<close>

definition sendable :: "'b io_env \<Rightarrow> nsbm \<Rightarrow> bool" where
  "sendable env m \<longleftrightarrow> SerializeAsString env m \<noteq> [] \<and> length (SerializeAsString env m) \<le> int_max"

lemma tcp_comms_sel [simp]: "sendMessage (tcp_comms T h) = tcp_send T h" "receiveMessage (tcp_comms T h) = tcp_receive h"
  by (simp_all add: tcp_comms_def)

lemma send_message_sim:
  assumes "tcp_ok T" "tcp_sim T H tw lw" "h \<in> H" "sendable (tc_env T) m"
    and "loop_send (tc_env T) (tc_peer T h) ch (SerializeAsString (tc_env T) m) lw = Inr (r, lw')" "running (lw_daemon lw')"
  obtains tw' where "tcp_send T h ch (SerializeAsString (tc_env T) m) tw = Inr (r, tw')" "tcp_sim T H tw' lw'"
  using tcp_send_sim [OF _ _ _ _ assms(2,3) _ _ assms(5,6)] assms(1,4) by (auto simp: tcp_ok_def sendable_def)

lemma loop_receive_running: "loop_receive fds ch t w = Inr (x, w') \<Longrightarrow> lw_daemon w' = lw_daemon w"
  by (auto simp: loop_receive_def split: list.splits)

text \<open>\<open>send\<close> and \<open>post\<close>.\<close>

lemma data_no_db:
  assumes "\<not> USE_DB (c_cfg c)" "originIndicator c = Some og"
  shows "app_send ce dest pl c w = bind_res (sendMessage (comm ce) SEND_CH
      (SerializeAsString (pb ce) (data_message SEND og (clientId c) dest pl (set_payload pl))) w) (\<lambda>(_, w1). Inr ([], c, w1))"
    "sim_post ce src dest pl c w = bind_res (sendMessage (comm ce) SEND_CH
      (SerializeAsString (pb ce) (data_message POST og src dest pl (set_payload pl))) w) (\<lambda>(_, w1). Inr ([], c, w1))"
  using assms by (simp_all add: app_send_def sim_post_def store_payload_def)

lemma one_send_sim:
  assumes T: "tcp_ok T" "side_by_side T h te le" and sim: "tcp_sim T H tw lw" "h \<in> H" and m: "sendable (tc_env T) m"
    and l: "bind_res (sendMessage (comm le) ch (SerializeAsString (pb le) m) lw) (\<lambda>(_, w1). Inr (k, c, w1)) = Inr (k', c', lw')"
      "running (lw_daemon lw')"
  shows "\<exists>tw'. bind_res (sendMessage (comm te) ch (SerializeAsString (pb te) m) tw) (\<lambda>(_, w1). Inr (k, c, w1)) = Inr (k', c', tw') \<and>
     tcp_sim T H tw' lw'"
proof -
  have e: "pb te = tc_env T" "pb le = tc_env T" "comm te = tcp_comms T h" "comm le = loop_comms (tc_env T) (tc_peer T h)"
    using T(2) by (simp_all add: side_by_side_def)
  obtain r where r: "loop_send (tc_env T) (tc_peer T h) ch (SerializeAsString (tc_env T) m) lw = Inr (r, lw')" "k' = k" "c' = c"
    using l(1) unfolding e loop_comms_sel bind_res_Inr by auto
  obtain tw' where "tcp_send T h ch (SerializeAsString (tc_env T) m) tw = Inr (r, tw')" "tcp_sim T H tw' lw'"
    by (rule send_message_sim [OF T(1) sim m r(1) l(2)])
  with e r(2,3) show ?thesis by simp
qed

lemma data_sim:
  assumes T: "tcp_ok T" "side_by_side T h te le" and sim: "tcp_sim T H tw lw" "h \<in> H" and c: "\<not> USE_DB (c_cfg c)" "originIndicator c = Some og"
    and l: "running (lw_daemon lw')"
  shows "sendable (tc_env T) (data_message SEND og (clientId c) dest pl (set_payload pl)) \<Longrightarrow> app_send le dest pl c lw = Inr (k, c', lw') \<Longrightarrow>
      \<exists>tw'. app_send te dest pl c tw = Inr (k, c', tw') \<and> tcp_sim T H tw' lw'"
    "sendable (tc_env T) (data_message POST og src dest pl (set_payload pl)) \<Longrightarrow> sim_post le src dest pl c lw = Inr (k, c', lw') \<Longrightarrow>
      \<exists>tw'. sim_post te src dest pl c tw = Inr (k, c', tw') \<and> tcp_sim T H tw' lw'"
  unfolding data_no_db [OF c] by (rule one_send_sim [OF T sim _ _ l]; assumption)+

text \<open>What the client makes of a response does not depend on the network.\<close>

lemma handle_response_sim:
  assumes "pb te = pb le" "\<not> USE_DB (c_cfg c)" "handle_response le opn bs c lw = Inr (e, c', lw')"
  shows "lw' = lw \<and> handle_response te opn bs c tw = Inr (e, c', tw)"
  using assms by (auto simp: handle_response_def unpack_entry_def split: option.splits if_splits)

text \<open>A request and the wait for its answer.\<close>

lemma request_sim:
  assumes T: "tcp_ok T" and sim: "tcp_sim T H tw lw" "h \<in> H" and m: "sendable (tc_env T) m"
    and l: "loop_send (tc_env T) (tc_peer T h) ch (SerializeAsString (tc_env T) m) lw = Inr (r, lw1)"
      "loop_receive (tc_peer T h) ch (Some t) lw1 = Inr (x, lw2)" "running (lw_daemon lw2)"
  obtains tw1 tw2 where "tcp_send T h ch (SerializeAsString (tc_env T) m) tw = Inr (r, tw1)"
    "tcp_receive h ch (Some t) tw1 = Inr (x, tw2)" "tcp_sim T H tw2 lw2"
proof -
  have "running (lw_daemon lw1)" using l(2,3) by (simp add: loop_receive_running)
  from send_message_sim [OF T sim m l(1) this] obtain tw1 where 1: "tcp_send T h ch (SerializeAsString (tc_env T) m) tw = Inr (r, tw1)"
    "tcp_sim T H tw1 lw1" by blast
  obtain tw2 where "tcp_receive h ch (Some t) tw1 = Inr (x, tw2)" "tcp_sim T H tw2 lw2"
    using tcp_receive_sim [OF _ 1(2) sim(2) l(2)] T by (auto simp: tcp_ok_def)
  with 1(1) that show ?thesis by blast
qed

lemma pull_sim:
  assumes T: "tcp_ok T" "side_by_side T h te le" and sim: "tcp_sim T H tw lw" "h \<in> H" and c: "\<not> USE_DB (c_cfg c)" "originIndicator c = Some og"
    "SYSTEM_MODE (c_cfg c) = PULL" and m: "sendable (tc_env T) (req og)"
    and l: "pull_or_wait le opn req t c lw = Inr (e, c', lw')" "running (lw_daemon lw')"
  shows "\<exists>tw'. pull_or_wait te opn req t c tw = Inr (e, c', tw') \<and> tcp_sim T H tw' lw'"
proof -
  obtain r lw1 x lw2 where 1: "loop_send (tc_env T) (tc_peer T h) RECV_CH (SerializeAsString (tc_env T) (req og)) lw = Inr (r, lw1)"
    "loop_receive (tc_peer T h) RECV_CH (Some t) lw1 = Inr (x, lw2)" "handle_response le opn x c lw2 = Inr (e, c', lw')"
    using l(1) T(2) c by (auto simp: pull_or_wait_def side_by_side_def bind_res_Inr)
  have hr: "lw' = lw2" "handle_response te opn x c tw2 = Inr (e, c', tw2)" for tw2
    using handle_response_sim [OF _ c(1) 1(3), of te] T(2) by (auto simp: side_by_side_def)
  obtain tw1 tw2 where "tcp_send T h RECV_CH (SerializeAsString (tc_env T) (req og)) tw = Inr (r, tw1)"
    "tcp_receive h RECV_CH (Some t) tw1 = Inr (x, tw2)" "tcp_sim T H tw2 lw2"
    by (rule request_sim [OF T(1) sim m 1(1,2)]) (use l(2) hr(1) in simp)
  with hr T(2) c show ?thesis by (auto simp: pull_or_wait_def side_by_side_def)
qed

text \<open>\<open>initialize\<close>.\<close>

lemma initialize_sim:
  assumes T: "tcp_ok T" "side_by_side T h te le" and sim: "tcp_sim T H tw lw" "h \<in> H" and c: "originIndicator c = Some og"
    and m: "sendable (tc_env T) (init_request (sockname te) (clientId c) og)"
    and l: "initialize le c lw = Inr (c', lw')" "running (lw_daemon lw')"
  shows "\<exists>tw'. initialize te c tw = Inr (c', tw') \<and> tcp_sim T H tw' lw'"
proof -
  let ?bs = "SerializeAsString (tc_env T) (init_request (sockname te) (clientId c) og)"
  obtain r lw1 x where 1: "loop_send (tc_env T) (tc_peer T h) CTRL ?bs lw = Inr (r, lw1)"
    "loop_receive (tc_peer T h) CTRL (Some DAEMON_RESPONSE_TIMEOUT) lw1 = Inr (x, lw')" "handle_init_response le x c = Inr c'"
    using l(1) T(2) c by (auto simp: initialize_def side_by_side_def bind_res_Inr)
  have hr: "handle_init_response te x c = Inr c'"
  proof -
    have "pb te = pb le" "redisConnect te = redisConnect le" "indeterminate te = indeterminate le"
      using T(2) by (simp_all add: side_by_side_def)
    with 1(3) show ?thesis unfolding handle_init_response_def by (simp only:)
  qed
  obtain tw1 tw2 where "tcp_send T h CTRL ?bs tw = Inr (r, tw1)"
    "tcp_receive h CTRL (Some DAEMON_RESPONSE_TIMEOUT) tw1 = Inr (x, tw2)" "tcp_sim T H tw2 lw'"
    by (rule request_sim [OF T(1) sim m 1(1,2) l(2)])
  with hr T(2) c show ?thesis by (auto simp: initialize_def side_by_side_def)
qed

section \<open>Sessions over the bytes\<close>

text \<open>The clients \<open>te\<close> of a plan over the kernel \<open>T\<close>, and the same clients on the abstract network.\<close>

definition no_redis :: "unit redis_exec" where
  "no_redis argv s = (None, s)"

definition loop_side :: "'b tcp \<Rightarrow> (nat \<Rightarrow> ('b, 'b tcp_world) client_env) \<Rightarrow> nat \<Rightarrow> ('b, ('b, unit) loop_world) client_env" where
  "loop_side T te h = \<lparr>pb = tc_env T, comm = loop_comms (tc_env T) (tc_peer T h), sockname = sockname (te h),
     redisConnect = redisConnect (te h), redisCommand = loop_redis no_redis, clock = (\<lambda>_. 0), indeterminate = indeterminate (te h)\<rparr>"

definition loop_session :: "'b tcp \<Rightarrow> (nat \<Rightarrow> ('b, 'b tcp_world) client_env) \<Rightarrow> plan \<Rightarrow> ('b, unit) session" where
  "loop_session T te P = \<lparr>se_mode = se_mode P, se_objs = se_objs P, se_kind = se_kind P, se_name = se_name P, se_pb = tc_env T,
     se_fds = tc_peer T, se_exec = no_redis, se_env = loop_side T te\<rparr>"

definition short_plain :: "'b io_env \<Rightarrow> bool" where
  "short_plain env \<longleftrightarrow> (\<forall>m. plain_message m \<longrightarrow> length (SerializeAsString env m) \<le> int_max)"

definition tcp_setup :: "'b tcp \<Rightarrow> (nat \<Rightarrow> ('b, 'b tcp_world) client_env) \<Rightarrow> plan \<Rightarrow> bool" where
  "tcp_setup T te P \<longleftrightarrow> tcp_ok T \<and> carries_plain (tc_env T) \<and> short_plain (tc_env T) \<and> (se_mode P = PER_NODE \<or> se_mode P = SYSTEM_WIDE) \<and>
     (\<forall>h. pb (te h) = tc_env T \<and> comm (te h) = tcp_comms T h \<and> plain_names (sockname (te h)))"

lemma loop_session_sel [simp]:
  "se_mode (loop_session T te P) = se_mode P" "se_objs (loop_session T te P) = se_objs P" "se_kind (loop_session T te P) = se_kind P"
  "se_name (loop_session T te P) = se_name P" "se_env (loop_session T te P) = loop_side T te"
  "fetch_key (loop_session T te P) = fetch_key P" "fresh_client (loop_session T te P) = fresh_client P"
  "room_for (loop_session T te P) = room_for P" "names_ok (loop_session T te P) = names_ok P"
  by (simp_all add: loop_session_def fetch_key_def fresh_client_def room_for_def names_ok_def fun_eq_iff)

lemma loop_session_setup: "tcp_setup T te P \<Longrightarrow> session_setup (loop_session T te P)"
  by (simp add: tcp_setup_def session_setup_def loop_session_def loop_side_def test_env_def on_loop_def)

lemma sides: "tcp_setup T te P \<Longrightarrow> side_by_side T h (te h) (loop_side T te h)"
  by (simp add: tcp_setup_def side_by_side_def loop_side_def)

lemma plain_sendable: "tcp_setup T te P \<Longrightarrow> plain_message m \<Longrightarrow> sendable (tc_env T) m"
  using serialize_transmits by (auto simp: tcp_setup_def sendable_def carries_plain_def short_plain_def)

definition tcp_mail :: "'b tcp_world \<Rightarrow> post_office" where
  "tcp_mail tw = post_office_of (sv_daemon (tw_server tw))"

lemma tcp_sim_mail: "tcp_sim T H tw lw \<Longrightarrow> tcp_mail tw = loop_mail lw"
  by (simp add: tcp_sim_def tcp_mail_def loop_mail_def)

definition tcp_session_ok :: "'b tcp \<Rightarrow> (nat \<Rightarrow> ('b, 'b tcp_world) client_env) \<Rightarrow> plan \<Rightarrow> 'b tcp_world clients \<Rightarrow> bool" where
  "tcp_session_ok T te P ct \<longleftrightarrow> tcp_setup T te P \<and>
     (\<exists>lw. tcp_sim T (set (se_objs P)) (snd ct) lw \<and> session_ok (loop_session T te P) (fst ct, lw))"

lemma tcp_session_okE:
  assumes "tcp_session_ok T te P ct"
  obtains cl tw lw where "ct = (cl, tw)" "tcp_setup T te P" "tcp_sim T (set (se_objs P)) tw lw" "session_ok (loop_session T te P) (cl, lw)"
    "tcp_mail (snd ct) = loop_mail lw"
  using assms tcp_sim_mail by (cases ct) (fastforce simp: tcp_session_ok_def)

text \<open>What a step of the abstract session gives for the bytes.\<close>

lemma tcp_session_okI:
  "tcp_setup T te P \<Longrightarrow> tcp_sim T (set (se_objs P)) tw lw \<Longrightarrow> session_ok (loop_session T te P) (cl, lw) \<Longrightarrow>
     tcp_session_ok T te P (cl, tw) \<and> tcp_mail tw = loop_mail lw"
  using tcp_sim_mail by (auto simp: tcp_session_ok_def)

lemma session_running: "session_ok S (cl, w) \<Longrightarrow> running (lw_daemon w)"
  by (simp add: session_ok_def mail_world_def)

lemma session_no_db:
  assumes "session_ok S (cl, w)" "h \<in> set (se_objs S)" "se_kind S h = og"
  shows "\<not> USE_DB (c_cfg (cl h))" "originIndicator (cl h) = Some og" "SYSTEM_MODE (c_cfg (cl h)) = PULL"
    "plain_text (clientId (cl h))"
  using session_client [OF assms(1,2)] session_world [OF assms(1)] assms(3) by (auto simp: ready_def test_world_def)

text \<open>The four laws.\<close>

lemma tcp_send_law:
  assumes ok: "tcp_session_ok T te P ct" and h: "h \<in> set (se_objs P)" and c: "call_ok (se_kind P h) (CallSend dest pl)"
  shows "\<exists>ct'. lb_send (nsb_library t te) h dest pl ct = Inr ct' \<and> tcp_session_ok T te P ct' \<and>
      po_step (Deposit (mk_entry (se_name P h) dest pl (int_of_size pl))) (tcp_mail (snd ct)) = ([], tcp_mail (snd ct'))"
proof -
  obtain cl tw lw where w: "ct = (cl, tw)" "tcp_setup T te P" "tcp_sim T (set (se_objs P)) tw lw" "session_ok (loop_session T te P) (cl, lw)"
    "tcp_mail (snd ct) = loop_mail lw" using ok by (rule tcp_session_okE)
  obtain k c' lw' where l: "app_send (loop_side T te h) dest pl (cl h) lw = Inr (k, c', lw')" "session_ok (loop_session T te P) (cl(h := c'), lw')"
    "po_step (Deposit (mk_entry (se_name P h) dest pl (int_of_size pl))) (loop_mail lw) = ([], loop_mail lw')"
    using nsb_send_law [OF w(4), of h dest pl t] h c by (auto simp: nsb_library_def bind_res_Inr)
  note n = session_no_db [OF w(4), of h APP_CLIENT]
  have m: "sendable (tc_env T) (data_message SEND APP_CLIENT (clientId (cl h)) dest pl (set_payload pl))"
    by (rule plain_sendable [OF w(2)]) (use n h c in simp)
  have T: "tcp_ok T" using w(2) by (simp add: tcp_setup_def)
  obtain tw' where t: "app_send (te h) dest pl (cl h) tw = Inr (k, c', tw')" "tcp_sim T (set (se_objs P)) tw' lw'"
    using data_sim(1) [OF T sides [OF w(2)] w(3) h _ _ session_running [OF l(2)] m l(1)] n h c by auto
  from tcp_session_okI [OF w(2) t(2) l(2)] t(1) l(3) w(1,5) show ?thesis by (simp add: nsb_library_def)
qed

lemma tcp_post_law:
  assumes ok: "tcp_session_ok T te P ct" and h: "h \<in> set (se_objs P)" and c: "call_ok (se_kind P h) (CallPost src dest pl)"
  shows "\<exists>ct'. lb_post (nsb_library t te) h src dest pl ct = Inr ct' \<and> tcp_session_ok T te P ct' \<and>
      po_step (Dispatch (mk_entry src dest pl (int_of_size pl))) (tcp_mail (snd ct)) = ([], tcp_mail (snd ct'))"
proof -
  obtain cl tw lw where w: "ct = (cl, tw)" "tcp_setup T te P" "tcp_sim T (set (se_objs P)) tw lw" "session_ok (loop_session T te P) (cl, lw)"
    "tcp_mail (snd ct) = loop_mail lw" using ok by (rule tcp_session_okE)
  obtain k c' lw' where l: "sim_post (loop_side T te h) src dest pl (cl h) lw = Inr (k, c', lw')" "session_ok (loop_session T te P) (cl(h := c'), lw')"
    "po_step (Dispatch (mk_entry src dest pl (int_of_size pl))) (loop_mail lw) = ([], loop_mail lw')"
    using nsb_post_law [OF w(4), of h src dest pl t] h c by (auto simp: nsb_library_def bind_res_Inr)
  note n = session_no_db [OF w(4), of h SIM_CLIENT]
  have m: "sendable (tc_env T) (data_message POST SIM_CLIENT src dest pl (set_payload pl))"
    by (rule plain_sendable [OF w(2)]) (use c in simp)
  have T: "tcp_ok T" using w(2) by (simp add: tcp_setup_def)
  obtain tw' where t: "sim_post (te h) src dest pl (cl h) tw = Inr (k, c', tw')" "tcp_sim T (set (se_objs P)) tw' lw'"
    using data_sim(2) [OF T sides [OF w(2)] w(3) h _ _ session_running [OF l(2)] m l(1)] n h c by auto
  from tcp_session_okI [OF w(2) t(2) l(2)] t(1) l(3) w(1,5) show ?thesis by (simp add: nsb_library_def)
qed

lemma tcp_fetch_law:
  assumes ok: "tcp_session_ok T te P ct" and h: "h \<in> set (se_objs P)" and c: "call_ok (se_kind P h) (CallFetch src)"
  shows "\<exists>r ct'. lb_fetch (nsb_library t te) h src ct = Inr (shown r, ct') \<and> tcp_session_ok T te P ct' \<and>
      po_step (Collect (fetch_key P h src)) (tcp_mail (snd ct)) = ([r], tcp_mail (snd ct'))"
proof -
  obtain cl tw lw where w: "ct = (cl, tw)" "tcp_setup T te P" "tcp_sim T (set (se_objs P)) tw lw" "session_ok (loop_session T te P) (cl, lw)"
    "tcp_mail (snd ct) = loop_mail lw" using ok by (rule tcp_session_okE)
  obtain r c' lw' where l: "sim_fetch (loop_side T te h) (Some src) t (cl h) lw = Inr (shown r, c', lw')"
    "session_ok (loop_session T te P) (cl(h := c'), lw')" "po_step (Collect (fetch_key P h src)) (loop_mail lw) = ([r], loop_mail lw')"
    using nsb_fetch_law [OF w(4), of h src t] h c by (auto simp: nsb_library_def bind_res_Inr)
  note n = session_no_db [OF w(4), of h SIM_CLIENT]
  have m: "sendable (tc_env T) (fetch_request (cl h) SIM_CLIENT (Some src))"
    by (rule plain_sendable [OF w(2)]) (use n h c in simp)
  have T: "tcp_ok T" using w(2) by (simp add: tcp_setup_def)
  obtain tw' where t: "sim_fetch (te h) (Some src) t (cl h) tw = Inr (shown r, c', tw')" "tcp_sim T (set (se_objs P)) tw' lw'"
    using pull_sim [OF T sides [OF w(2)] w(3) h _ _ _ m l(1) [unfolded sim_fetch_def] session_running [OF l(2)]] n h c
    by (auto simp: sim_fetch_def)
  from tcp_session_okI [OF w(2) t(2) l(2)] t(1) l(3) w(1,5) show ?thesis by (auto simp: nsb_library_def)
qed

lemma tcp_receive_law:
  assumes ok: "tcp_session_ok T te P ct" and h: "h \<in> set (se_objs P)" and c: "call_ok (se_kind P h) CallReceive"
  shows "\<exists>r ct'. lb_receive (nsb_library t te) h ct = Inr (shown r, ct') \<and> tcp_session_ok T te P ct' \<and>
      po_step (Pickup (se_name P h)) (tcp_mail (snd ct)) = ([r], tcp_mail (snd ct'))"
proof -
  obtain cl tw lw where w: "ct = (cl, tw)" "tcp_setup T te P" "tcp_sim T (set (se_objs P)) tw lw" "session_ok (loop_session T te P) (cl, lw)"
    "tcp_mail (snd ct) = loop_mail lw" using ok by (rule tcp_session_okE)
  obtain r c' lw' where l: "app_receive (loop_side T te h) None t (cl h) lw = Inr (shown r, c', lw')"
    "session_ok (loop_session T te P) (cl(h := c'), lw')" "po_step (Pickup (se_name P h)) (loop_mail lw) = ([r], loop_mail lw')"
    using nsb_receive_law [OF w(4), of h t] h c by (auto simp: nsb_library_def bind_res_Inr)
  note n = session_no_db [OF w(4), of h APP_CLIENT]
  have m: "sendable (tc_env T) (receive_request (cl h) APP_CLIENT None)"
    by (rule plain_sendable [OF w(2)]) (use n h c in simp)
  have T: "tcp_ok T" using w(2) by (simp add: tcp_setup_def)
  obtain tw' where t: "app_receive (te h) None t (cl h) tw = Inr (shown r, c', tw')" "tcp_sim T (set (se_objs P)) tw' lw'"
    using pull_sim [OF T sides [OF w(2)] w(3) h _ _ _ m l(1) [unfolded app_receive_def] session_running [OF l(2)]] n h c
    by (auto simp: app_receive_def)
  from tcp_session_okI [OF w(2) t(2) l(2)] t(1) l(3) w(1,5) show ?thesis by (auto simp: nsb_library_def)
qed

interpretation tcp_client: mail_library "nsb_library t te" "\<lambda>ct. tcp_mail (snd ct)" "\<lambda>_. tcp_session_ok T te P"
    "may_call (se_objs P) (se_kind P)" "se_name P" "fetch_key P" for t te T and P :: plan
  by (unfold_locales; unfold may_call_def; elim conjE; rule tcp_send_law tcp_post_law tcp_fetch_law tcp_receive_law; assumption)

text \<open>The clients join over the bytes.\<close>

lemma tcp_join_all:
  fixes lw :: "('b, unit) loop_world"
  assumes P: "tcp_setup T te P" "names_ok P"
  shows "tcp_sim T (set (se_objs P)) tw lw \<Longrightarrow> mail_world (se_mode P) lw \<Longrightarrow> set hs \<subseteq> set (se_objs P) \<Longrightarrow>
     room_for P hs (lw_daemon lw) \<Longrightarrow> distinct hs \<Longrightarrow> \<forall>h\<in>set hs. cl h = fresh_client P h \<Longrightarrow>
     \<exists>cl' tw' d. join_all te hs (cl, tw) = Inr (cl', tw') \<and> tcp_sim T (set (se_objs P)) tw' (lw\<lparr>lw_daemon := d\<rparr>) \<and> same_mail (lw_daemon lw) d \<and>
       (\<forall>h. h \<notin> set hs \<longrightarrow> cl' h = cl h) \<and> (\<forall>h\<in>set hs. client_is (se_kind P h) (se_name P h) d (cl' h))"
proof (induction hs arbitrary: cl tw lw)
  case (Cons h hs)
  let ?S = "loop_session T te P"
  have h: "h \<in> set (se_objs P)" and fr: "cl h = fresh_client P h" using Cons.prems(3,6) by simp_all
  obtain c d where 1: "initialize (loop_side T te h) (fresh_client P h) lw = Inr (c, lw\<lparr>lw_daemon := d\<rparr>)" "same_mail (lw_daemon lw) d"
    "room_for P hs d" "mail_world (se_mode P) (lw\<lparr>lw_daemon := d\<rparr>)" "client_is (se_kind P h) (se_name P h) d c"
    using join_one [OF loop_session_setup [OF P(1)], of lw h hs] P(2) Cons.prems(2,4) h by auto
  have og: "se_kind P h = APP_CLIENT \<or> se_kind P h = SIM_CLIENT" "plain_text (se_name P h)" using P(2) h by (auto simp: names_ok_def)
  have T: "tcp_ok T" "plain_names (sockname (te h))" using P(1) by (simp_all add: tcp_setup_def)
  have "sendable (tc_env T) (init_request (sockname (te h)) (clientId (fresh_client P h)) (se_kind P h))"
    by (rule plain_sendable [OF P(1)]) (use T(2) og(2) in \<open>simp add: fresh_client_sel(2)\<close>)
  from initialize_sim [OF T(1) sides [OF P(1)] Cons.prems(1) h fresh_client_sel(1) [OF og(1)] this 1(1)] 1(4)
  obtain tw1 where t: "initialize (te h) (fresh_client P h) tw = Inr (c, tw1)" "tcp_sim T (set (se_objs P)) tw1 (lw\<lparr>lw_daemon := d\<rparr>)"
    by (auto simp: mail_world_def)
  have "\<forall>g\<in>set hs. (cl(h := c)) g = fresh_client P g" using Cons.prems(5,6) by auto
  then obtain cl' tw' d' where 2: "join_all te hs (cl(h := c), tw1) = Inr (cl', tw')" "tcp_sim T (set (se_objs P)) tw' (lw\<lparr>lw_daemon := d'\<rparr>)"
    "same_mail d d'" "\<forall>x. x \<notin> set hs \<longrightarrow> cl' x = (cl(h := c)) x" "\<forall>h\<in>set hs. client_is (se_kind P h) (se_name P h) d' (cl' h)"
    using Cons.IH [OF t(2), of "cl(h := c)"] 1(3,4) Cons.prems(3,5) by (auto simp del: fun_upd_apply)
  have "cl' h = c" using 2(4) Cons.prems(5) by simp
  with 1(5) 2 client_is_same [OF 2(3)] same_mail_trans [OF 1(2) 2(3)] t(1) fr show ?case by auto
next
  case Nil
  then show ?case by (intro exI [of _ cl] exI [of _ tw] exI [of _ "lw_daemon lw"]) (simp add: same_mail_def)
qed

section \<open>Properties\<close>

text \<open>A system at rest: the daemon serves in PULL mode without a database and holds plain mail, every client has its three
  connections, and nothing is on its way to a client.\<close>

definition tcp_at_rest :: "'b tcp \<Rightarrow> plan \<Rightarrow> 'b tcp_world \<Rightarrow> bool" where
  "tcp_at_rest T P tw \<longleftrightarrow> server_ready T (tw_server tw) \<and> SIMULATOR_MODE (d_cfg (sv_daemon (tw_server tw))) = se_mode P \<and>
     \<not> USE_DB (d_cfg (sv_daemon (tw_server tw))) \<and>
     (\<forall>e\<in>set (tx_buffer (sv_daemon (tw_server tw))) \<union> set (rx_buffer (sv_daemon (tw_server tw))). plain_entry e) \<and>
     (\<forall>h\<in>set (se_objs P). \<forall>ch. tc_peer T h ch \<in> set (channel_fds (tw_server tw)) \<and> end_ok T (tw_socks tw) (\<lambda>_. []) h ch)"

text \<open>C1: The whole system over bytes (PULL mode, no database).  Clients that write with the loop of \<open>SocketInterface::sendMessage\<close>
  and read with that of \<open>receiveMessage\<close>, and a daemon that serves its connections with \<open>select\<close> and \<open>recv\<close>: if the
  kernel finally takes what is written and gives it out in whatever pieces, but each message at one return of \<open>select\<close>
  (\<open>whole_reads\<close>; \<open>split_message_lost\<close> is what happens otherwise), and the peers stay connected, then any number of applications
  and simulators can construct their clients and make any calls in any order, the texts in them being ASCII and at most 1000
  characters long, every fetch naming a source, and no client being refused for lack of \<open>room_for\<close> it (one
  simulator in SYSTEM_WIDE mode): every constructor and every call returns, and all answers, and the mail left at the daemon,
  are those of the post office.\<close>

theorem tcp_refines_post_office:
  fixes T :: "'b tcp"
  assumes "tcp_setup T te P" "tcp_at_rest T P tw" "names_ok P" "room_for P (se_objs P) (sv_daemon (tw_server tw))" "session_calls_ok P cs"
  shows "\<exists>rs cl tw'. library_session te (fresh_client P) (se_objs P) t cs tw = Inr (shown_all rs, cl, tw') \<and>
     po_run (session_events P cs) (tcp_mail tw) = (rs, tcp_mail tw')"
proof -
  let ?lw = "\<lparr>lw_daemon = sv_daemon (tw_server tw), lw_inbox = (\<lambda>_. []), lw_redis = ()\<rparr> :: ('b, unit) loop_world"
  have sim: "tcp_sim T (set (se_objs P)) tw ?lw" and mw: "mail_world (se_mode P) ?lw"
    using assms(2) by (simp_all add: tcp_sim_def tcp_at_rest_def mail_world_def test_world_def server_ready_def)
  obtain cl tw1 d where j: "join_all te (se_objs P) (fresh_client P, tw) = Inr (cl, tw1)"
    "tcp_sim T (set (se_objs P)) tw1 (?lw\<lparr>lw_daemon := d\<rparr>)" "same_mail (lw_daemon ?lw) d"
    "\<forall>h\<in>set (se_objs P). client_is (se_kind P h) (se_name P h) d (cl h)"
    using tcp_join_all [OF assms(1,3) sim mw order_refl, of "fresh_client P"] assms(3,4) by (auto simp: names_ok_def)
  have "session_ok (loop_session T te P) (cl, ?lw\<lparr>lw_daemon := d\<rparr>)"
    using loop_session_setup [OF assms(1)] j(4) mail_world_same [OF mw j(3)] by (simp add: session_ok_def)
  note ok = tcp_session_okI [OF assms(1) j(2) this]
  have "tcp_mail tw1 = tcp_mail tw"
    using ok j(3) by (simp add: tcp_mail_def loop_mail_def post_office_of_def same_mail_def)
  with tcp_client.run_refines [OF conjunct1 [OF ok], of cs t] assms(5) j(1) show ?thesis
    by (force simp: library_session_def session_events_def session_calls_ok_def may_call_def)
qed

definition singles :: "'b list \<Rightarrow> 'b list list list" where
  "singles x = (if x = [] then [] else [map (\<lambda>b. [b]) x])"

text \<open>A kernel that refuses once and then takes and gives single bytes, and the session of \<open>NSB_Session\<close> over it.\<close>

definition wit_tcp :: "nsbm tcp" where
  "wit_tcp = \<lparr>tc_env = fragment_env, tc_sfd = 3, tc_peer = (\<lambda>h. wit_fds (int (3 * h + 5))),
     tc_home = (\<lambda>f. if 5 \<le> f then Some (nat ((f - 5) div 3), f) else None),
     tc_room = (\<lambda>_ x. Again # map (\<lambda>_. Accept 1) x), tc_cut = (\<lambda>_ x. singles x), tc_pack = (\<lambda>_ x. singles x)\<rparr>"

definition wit_tcp_env :: "nat \<Rightarrow> (nsbm, nsbm tcp_world) client_env" where
  "wit_tcp_env h = \<lparr>pb = fragment_env, comm = tcp_comms wit_tcp h, sockname = sockname (wit_env (int (3 * h + 5))),
     redisConnect = (\<lambda>_ _. None), redisCommand = (\<lambda>_ w. (None, w)), clock = (\<lambda>_. 7), indeterminate = default_cfg\<rparr>"

definition wit_plan :: plan where
  "wit_plan = \<lparr>se_mode = SYSTEM_WIDE, se_objs = [0, 1, 2], se_kind = (\<lambda>h. if h = 2 then SIM_CLIENT else APP_CLIENT),
     se_name = (\<lambda>h. if h = 0 then ''a'' else if h = 1 then ''b'' else ''sim'')\<rparr>"

definition wit_tcp_world :: "nsbm tcp_world" where
  "wit_tcp_world = \<lparr>tw_server = (new_server (wit_daemon\<lparr>running := True\<rparr>))\<lparr>channel_fds := [5, 6, 7, 8, 9, 10, 11, 12, 13]\<rparr>,
     tw_socks = (\<lambda>h. \<lparr>conns = fold (\<lambda>ch. map_emplace ch (wit_fds (int (3 * h + 5)) ch)) Channels [], sk_send = (\<lambda>_. []),
       sk_wire = (\<lambda>_. []), sk_queue = (\<lambda>_. []), sk_rounds = (\<lambda>_. [])\<rparr>), tw_tick = 0\<rparr>"

lemma room_singles [simp]: "room (map (\<lambda>_. Accept (Suc 0)) x) = length x"
  by (induction x) simp_all

lemma concat_singles: "concat (map (\<lambda>b. [b]) x) = x"
  by (induction x) simp_all

lemma rounds_of_singles: "rounds_of x (singles x)"
  by (simp add: rounds_of_def pieces_of_def singles_def concat_singles image_iff)

lemma length_singles: "x \<noteq> [] \<Longrightarrow> length (singles x) = Suc 0"
  by (simp add: singles_def)

lemma wit_tcp_setup: "tcp_setup wit_tcp wit_tcp_env wit_plan"
proof -
  have "carries_plain fragment_env" "plain_names (sockname (wit_env b))" for b
    using wit_test_env [of b] by (simp_all add: test_env_def)
  then show ?thesis
    by (auto simp: tcp_setup_def tcp_ok_def links_ok_def kernel_ok_def speaks_def short_plain_def wit_tcp_def wit_tcp_env_def wit_plan_def
        rounds_of_singles whole_reads_def length_singles room_singles peers_read_def SerializeAsString_def fragment_env_def split: if_splits)
qed

lemma wit_tcp_conns: "map_find (conns (tw_socks wit_tcp_world h)) ch = Some (wit_fds (int (3 * h + 5)) ch)"
  by (cases ch) (simp_all add: wit_tcp_world_def Channels_def less_channel_def map_find_def)

lemma wit_tcp_end:
  assumes "h \<in> {0, 1, 2}"
  shows "end_ok wit_tcp (tw_socks wit_tcp_world) (\<lambda>_. []) h ch" "tc_peer wit_tcp h ch \<in> set (channel_fds (tw_server wit_tcp_world))"
proof -
  have "tc_home wit_tcp (tc_peer wit_tcp h ch) = Some (h, wit_fds (int (3 * h + 5)) ch)"
    using assms by (cases ch) (auto simp: wit_tcp_def wit_fds_def)
  moreover have "sk_queue (tw_socks wit_tcp_world h) f = []" "sk_rounds (tw_socks wit_tcp_world h) f = []" for f
    by (simp_all add: wit_tcp_world_def)
  ultimately show "end_ok wit_tcp (tw_socks wit_tcp_world) (\<lambda>_. []) h ch" by (simp add: end_ok_def wit_tcp_conns)
  show "tc_peer wit_tcp h ch \<in> set (channel_fds (tw_server wit_tcp_world))"
    using assms by (cases ch) (auto simp: wit_tcp_def wit_fds_def wit_tcp_world_def new_server_def)
qed

lemma wit_tcp_at_rest: "tcp_at_rest wit_tcp wit_plan wit_tcp_world"
  unfolding tcp_at_rest_def
proof (intro conjI ballI allI)
  fix h ch
  assume "h \<in> set (se_objs wit_plan)"
  then have "h \<in> {0, 1, 2}" by (simp add: wit_plan_def)
  then show "tc_peer wit_tcp h ch \<in> set (channel_fds (tw_server wit_tcp_world))" "end_ok wit_tcp (tw_socks wit_tcp_world) (\<lambda>_. []) h ch"
    by (rule wit_tcp_end)+
qed (auto simp: server_ready_def wit_tcp_world_def wit_tcp_def wit_plan_def new_server_def wit_daemon_def default_cfg_def fd_set_ok_def)

theorem tcp_refines_post_office_witness:
  "\<exists>cl tw'. library_session wit_tcp_env (fresh_client wit_plan) (se_objs wit_plan) 30 wit_calls wit_tcp_world =
     Inr ([(1, empty_entry), (2, mk_entry ''a'' ''b'' ''one'' 3), (1, mk_entry ''a'' ''b'' ''one'' 3),
       (2, mk_entry ''a'' ''b'' ''two'' 3), (2, empty_entry)], cl, tw')"
proof -
  have "names_ok wit_plan" "session_calls_ok wit_plan wit_calls" "room_for wit_plan (se_objs wit_plan) (sv_daemon (tw_server wit_tcp_world))"
    by (simp_all add: names_ok_def wit_plan_def plain_text_def session_calls_ok_def wit_calls_def room_for_def wit_tcp_world_def
        new_server_def wit_daemon_def)
  from tcp_refines_post_office [OF wit_tcp_setup wit_tcp_at_rest this(1,3,2), of 30]
  obtain rs cl tw' where "library_session wit_tcp_env (fresh_client wit_plan) (se_objs wit_plan) 30 wit_calls wit_tcp_world = Inr (shown_all rs, cl, tw')"
    "po_run (session_events wit_plan wit_calls) (tcp_mail wit_tcp_world) = (rs, tcp_mail tw')" by blast
  then show ?thesis
    by (auto simp: session_events_def wit_plan_def wit_calls_def tcp_mail_def post_office_of_def wit_tcp_world_def new_server_def wit_daemon_def
        serve_queue_def shown_all_def shown_def fetch_key_def int_of_size_def)
qed

section \<open>A message that comes in over several reads\<close>

text \<open>Rounds whose bytes do not parse leave the daemon as it was.\<close>

lemma serve_unparsed:
  assumes "g \<in> set (channel_fds s)" "server_ready T s"
    and "\<forall>cs\<in>set rs. cs \<noteq> [] \<and> [] \<notin> set cs \<and> parse (tc_env T) (concat cs) = None"
  shows "\<exists>s'. serve (tc_env T) (tc_sfd T) (map (\<lambda>cs. Activity (readable_at g cs) None) rs) s = Inr (False, s') \<and>
     sv_daemon s' = sv_daemon s \<and> sv_sent s' = sv_sent s"
  using assms
proof (induction rs arbitrary: s)
  case Nil
  then show ?case by (intro exI [of _ s]) (auto simp: server_ready_def serve_running)
next
  case (Cons cs rs)
  let ?bs = "concat cs" and ?s = "s\<lparr>sv_handled := sv_handled s @ [(g, concat cs)]\<rparr>"
  have cs: "cs \<noteq> []" "[] \<notin> set cs" "parse (tc_env T) ?bs = None" using Cons.prems(3) by simp_all
  then have p: "pieces_of ?bs cs" "?bs \<noteq> []" by (cases cs; auto simp: pieces_of_def)+
  have run: "running (sv_daemon s)" "\<forall>f\<in>set (tc_sfd T # channel_fds s). fd_set_ok f" "distinct (channel_fds s)"
    using Cons.prems(2) by (auto simp: server_ready_def)
  have "serve_read (tc_env T) g ?bs s = Inr ?s" using cs(3) by (simp add: serve_read_def handle_message_def)
  then have a: "serve_activity (tc_env T) (readable_at g cs) None s = Inr ?s"
    using serve_fds_one [OF run(3) read_all_pieces [OF p(1)] p(2), of "tc_env T" g s] Cons.prems(1)
    by (simp add: serve_activity_def accept_channel_def)
  have "g \<in> set (channel_fds ?s)" "server_ready T ?s" using Cons.prems(1,2) by (simp_all add: server_ready_def)
  from Cons.IH [OF this] Cons.prems(3) show ?case
    by (simp add: serve_running(4) [OF run(1,2)] a)
qed

text \<open>C27: Neither side of a connection marks where a message ends.  When the kernel hands a SEND to the daemon over more than one return
  of \<open>select\<close>, and none of the parts is itself the encoding of a message, the daemon drops each part: the call
  of the application returns as if all were well, the daemon sends nothing, and the mail at the daemon is what it was.  (In the same
  situation with one return of \<open>select\<close> the message is stored: \<open>tcp_refines_post_office\<close>.)\<close>

theorem split_message_lost:
  fixes T :: "'b tcp" and c :: client and dest pl :: string
  defines "m \<equiv> data_message SEND APP_CLIENT (clientId c) dest pl (set_payload pl)"
  assumes te: "pb ce = tc_env T" "comm ce = tcp_comms T h" and c: "\<not> USE_DB (c_cfg c)" "originIndicator c = Some APP_CLIENT"
    and T: "kernel_ok T" "server_ready T (tw_server tw)" "tc_peer T h SEND_CH \<in> set (channel_fds (tw_server tw))"
      "map_find (conns (tw_socks tw h)) SEND_CH = Some cf"
    and m: "serialize (tc_env T) m = Some bs" "bs \<noteq> []" "length bs \<le> int_max"
    and split: "\<forall>cs\<in>set (tc_cut T (Suc (tw_tick tw)) bs). parse (tc_env T) (concat cs) = None"
  shows "\<exists>tw'. app_send ce dest pl c tw = Inr ([], c, tw') \<and> tcp_mail tw' = tcp_mail tw \<and>
     sv_sent (tw_server tw') = sv_sent (tw_server tw)"
proof -
  let ?s = "tw_socks tw h" and ?n = "tw_tick tw" and ?sv = "tw_server tw"
  let ?u = "?s\<lparr>sk_send := (sk_send ?s)(cf := tc_room T ?n bs), sk_wire := (sk_wire ?s)(cf := [])\<rparr>"
  have k: "length bs \<le> room (tc_room T ?n bs)" "SendError \<notin> set (tc_room T ?n bs)" "rounds_of bs (tc_cut T (Suc ?n) bs)"
    using T(1) by (simp_all add: kernel_ok_def)
  obtain s1 where s1: "socket_send SEND_CH bs ?u = Inr (0, s1)" "sk_wire s1 cf = bs"
    using socket_send_all [of ?u SEND_CH cf bs] T(4) m(2,3) k(1,2) by auto
  let ?tw1 = "tw\<lparr>tw_socks := (tw_socks tw)(h := s1), tw_tick := Suc ?n\<rparr>"
  have "\<forall>cs\<in>set (tc_cut T (Suc ?n) bs). cs \<noteq> [] \<and> [] \<notin> set cs \<and> parse (tc_env T) (concat cs) = None"
    using k(3) split by (auto simp: rounds_of_def pieces_of_def)
  from serve_unparsed [OF T(3,2) this] obtain sv where
    "serve (tc_env T) (tc_sfd T) (map (\<lambda>cs. Activity (readable_at (tc_peer T h SEND_CH) cs) None) (tc_cut T (Suc ?n) bs)) ?sv = Inr (False, sv)"
    and sv: "sv_daemon sv = sv_daemon ?sv" "sv_sent sv = sv_sent ?sv" by blast
  then have "tcp_daemon T (tc_peer T h SEND_CH) bs ?tw1 = Inr (?tw1\<lparr>tw_server := sv, tw_tick := Suc (Suc ?n)\<rparr>)"
    by (simp add: tcp_daemon_def)
  with s1 T(4) m(2) have "tcp_send T h SEND_CH bs tw = Inr (0, ?tw1\<lparr>tw_server := sv, tw_tick := Suc (Suc ?n)\<rparr>)"
    by (simp add: tcp_send_def Let_def)
  then have "app_send ce dest pl c tw = Inr ([], c, ?tw1\<lparr>tw_server := sv, tw_tick := Suc (Suc ?n)\<rparr>)"
    using m(1) unfolding data_no_db(1) [OF c] te tcp_comms_sel m_def by (simp add: SerializeAsString_def)
  then show ?thesis using sv by (simp add: tcp_mail_def)
qed

text \<open>An encoding of two symbols, of which neither means anything alone, given to the daemon one by one.\<close>

definition two_symbols :: "nsbm option io_env" where
  "two_symbols = \<lparr>parse = (\<lambda>bs. case bs of [Some m, None] \<Rightarrow> Some m | _ \<Rightarrow> None), serialize = (\<lambda>m. Some [Some m, None]),
     alloc_ok = (\<lambda>_. True), writable = (\<lambda>_. True), select_fails = (\<lambda>_. False), peer_reads = (\<lambda>_ _. True), erase_resumes = True\<rparr>"

definition wit_split :: "nsbm option tcp" where
  "wit_split = \<lparr>tc_env = two_symbols, tc_sfd = 3, tc_peer = (\<lambda>h. wit_fds (int (3 * h + 5))), tc_home = (\<lambda>f. None),
     tc_room = (\<lambda>_ x. map (\<lambda>_. Accept 1) x), tc_cut = (\<lambda>_. map (\<lambda>b. [[b]])), tc_pack = (\<lambda>_. map (\<lambda>b. [[b]]))\<rparr>"

definition wit_split_world :: "nsbm option tcp_world" where
  "wit_split_world = \<lparr>tw_server = (new_server (wit_daemon\<lparr>running := True\<rparr>))\<lparr>channel_fds := [5, 6, 7]\<rparr>,
     tw_socks = (\<lambda>h. \<lparr>conns = fold (\<lambda>ch. map_emplace ch (wit_fds (int (3 * h + 5)) ch)) Channels [], sk_send = (\<lambda>_. []),
       sk_wire = (\<lambda>_. []), sk_queue = (\<lambda>_. []), sk_rounds = (\<lambda>_. [])\<rparr>), tw_tick = 0\<rparr>"

definition wit_split_env :: "(nsbm option, nsbm option tcp_world) client_env" where
  "wit_split_env = \<lparr>pb = two_symbols, comm = tcp_comms wit_split 0, sockname = (\<lambda>_. None),
     redisConnect = (\<lambda>_ _. None), redisCommand = (\<lambda>_ w. (None, w)), clock = (\<lambda>_. 7), indeterminate = default_cfg\<rparr>"

theorem split_message_lost_witness:
  "\<exists>tw'. app_send wit_split_env ''b'' ''one'' (new_app_client ''a'') wit_split_world = Inr ([], new_app_client ''a'', tw') \<and>
     tcp_mail tw' = tcp_mail wit_split_world \<and> transmits two_symbols (wit_send ''a'' ''b'' ''one'')"
proof -
  let ?m = "data_message SEND APP_CLIENT (clientId (new_app_client ''a'')) ''b'' ''one'' (set_payload ''one'')"
  have r: "rounds_of x (map (\<lambda>b. [[b]]) x)" for x :: "nsbm option list"
    by (induction x) (auto simp: rounds_of_def pieces_of_def)
  have k: "kernel_ok wit_split" using r by (auto simp: kernel_ok_def wit_split_def)
  have s: "server_ready wit_split (tw_server wit_split_world)"
    "tc_peer wit_split 0 SEND_CH \<in> set (channel_fds (tw_server wit_split_world))"
    by (auto simp: server_ready_def wit_split_world_def wit_split_def new_server_def wit_daemon_def default_cfg_def fd_set_ok_def wit_fds_def)
  have f: "map_find (conns (tw_socks wit_split_world 0)) SEND_CH = Some (wit_fds 5 SEND_CH)"
    by (simp add: wit_split_world_def Channels_def less_channel_def map_find_def)
  have "\<exists>tw'. app_send wit_split_env ''b'' ''one'' (new_app_client ''a'') wit_split_world = Inr ([], new_app_client ''a'', tw') \<and>
      tcp_mail tw' = tcp_mail wit_split_world \<and> sv_sent (tw_server tw') = sv_sent (tw_server wit_split_world)"
    by (rule split_message_lost [OF _ _ _ _ k s f, where bs = "[Some ?m, None]"])
      (simp_all add: wit_split_env_def wit_split_def two_symbols_def new_app_client_def new_client_def default_cfg_def)
  then show ?thesis by (auto simp: transmits_def two_symbols_def)
qed

end
