(* ===== verification/NSB_Std_String.thy ===== *)
theory NSB_Std_String
  imports NSB_Types
begin

text \<open>
  The operations of \<open>std::string\<close> that the simulator applications use on client identifiers:
  \<open>substr\<close>, \<open>std::stoi\<close>, and the naming scheme \<open>hostN\<close> shared by the examples, with its round
  trip.  The exceptions of the standard library are values.
\<close>

section \<open>Exceptions\<close>

text \<open>What ends a simulation event early: the exceptions of \<open>substr\<close> and \<open>stoi\<close>, an error of the
  simulator about something that does not exist (a gate, a node, an address), or one the program
  itself reports.\<close>

datatype sim_error = StdOutOfRange | StdInvalidArgument | SimError string

section \<open>substr and stoi\<close>

definition substr :: "nat \<Rightarrow> string \<Rightarrow> sim_error + string" where
  "substr pos s = (if length s < pos then Inl StdOutOfRange else Inr (drop pos s))"

definition is_space :: "char \<Rightarrow> bool" where
  "is_space c \<longleftrightarrow> c = CHR '' '' \<or> (9 \<le> (of_char c :: nat) \<and> (of_char c :: nat) \<le> 13)"

text \<open>\<open>strtol\<close>: white space, an optional sign, then the longest run of digits (\<open>None\<close> when it is
  empty); what follows is ignored.\<close>

definition strtol :: "string \<Rightarrow> int option" where
  "strtol s = (let t = dropWhile is_space s;
       neg = (t \<noteq> [] \<and> hd t = CHR ''-'');
       u = (if t \<noteq> [] \<and> (hd t = CHR ''-'' \<or> hd t = CHR ''+'') then tl t else t);
       ds = takeWhile is_digit u
     in if ds = [] then None else Some (if neg then - int (digits_val ds) else int (digits_val ds)))"

definition stoi :: "string \<Rightarrow> sim_error + int" where
  "stoi s = (case strtol s of None \<Rightarrow> Inl StdInvalidArgument
     | Some n \<Rightarrow> if - (2 ^ 31) \<le> n \<and> n < 2 ^ 31 then Inr n else Inl StdOutOfRange)"

text \<open>The idiom \<open>std::stoi(id.substr(4))\<close> on an identifier \<open>hostN\<close>.\<close>

definition host_index :: "string \<Rightarrow> sim_error + int" where
  "host_index ident = bind_res (substr 4 ident) stoi"

text \<open>\<open>"host" + std::to_string(n)\<close>.\<close>

definition host_name :: "int \<Rightarrow> string" where
  "host_name n = ''host'' @ to_string n"

section \<open>Round trip\<close>

lemma digit_not_space: "is_digit c \<Longrightarrow> \<not> is_space c"
  by (auto simp: is_digit_def is_space_def)

lemma digit_not_sign: "is_digit c \<Longrightarrow> c \<noteq> CHR ''-'' \<and> c \<noteq> CHR ''+''"
  by (auto simp: is_digit_def)

lemma nat_digits_Cons:
  obtains c cs where "nat_digits n = c # cs" "is_digit c"
  by (metis list.exhaust list.set_intros(1) nat_digits_all_digits nat_digits_nonempty)

lemma takeWhile_nat_digits: "(\<forall>c cs. t = c # cs \<longrightarrow> \<not> is_digit c) \<Longrightarrow> takeWhile is_digit (nat_digits n @ t) = nat_digits n"
  by (cases t) (auto simp: nat_digits_all_digits takeWhile_append2)

lemma strtol_digits:
  assumes "\<forall>c cs. t = c # cs \<longrightarrow> \<not> is_digit c"
  shows "strtol (nat_digits n @ t) = Some (int n)"
proof -
  obtain c cs where c: "nat_digits n = c # cs" "is_digit c" by (rule nat_digits_Cons)
  have "strtol (nat_digits n @ t) = Some (int (digits_val (takeWhile is_digit (nat_digits n @ t))))"
    using c digit_not_space [OF c(2)] digit_not_sign [OF c(2)] by (simp add: strtol_def)
  then show ?thesis by (simp only: takeWhile_nat_digits [OF assms] digits_val_nat_digits)
qed

lemma strtol_minus_digits:
  assumes "\<forall>c cs. t = c # cs \<longrightarrow> \<not> is_digit c"
  shows "strtol (CHR ''-'' # nat_digits n @ t) = Some (- int n)"
proof -
  obtain c cs where c: "nat_digits n = c # cs" "is_digit c" by (rule nat_digits_Cons)
  have "\<not> is_space CHR ''-''" by (simp add: is_space_def)
  then have "strtol (CHR ''-'' # nat_digits n @ t) = Some (- int (digits_val (takeWhile is_digit (nat_digits n @ t))))"
    using c by (simp add: strtol_def)
  then show ?thesis by (simp only: takeWhile_nat_digits [OF assms] digits_val_nat_digits)
qed

lemma strtol_to_string:
  "\<forall>c cs. t = c # cs \<longrightarrow> \<not> is_digit c \<Longrightarrow> strtol (to_string i @ t) = Some i"
  using strtol_digits [of t "nat i"] strtol_minus_digits [of t "nat (- i)"] by (simp add: to_string_def)

lemma stoi_to_string [simp]: "- (2 ^ 31) \<le> i \<Longrightarrow> i < 2 ^ 31 \<Longrightarrow> stoi (to_string i) = Inr i"
  using strtol_to_string [of "[]" i] by (simp add: stoi_def)

lemma substr_append [simp]: "length s = n \<Longrightarrow> substr n (s @ t) = Inr t"
  by (auto simp: substr_def)

lemma host_name_inj [simp]: "host_name m = host_name n \<longleftrightarrow> m = n"
  by (simp add: host_name_def)

lemma host_name_nonempty [simp]: "host_name n \<noteq> []"
  by (simp add: host_name_def)

lemma substr_host_name [simp]: "substr 4 (host_name i) = Inr (to_string i)"
  using substr_append [of "''host''" 4 "to_string i"] by (simp add: host_name_def)

lemma host_index_name [simp]: "- (2 ^ 31) \<le> i \<Longrightarrow> i < 2 ^ 31 \<Longrightarrow> host_index (host_name i) = Inr i"
  by (simp add: host_index_def)

lemma nat_digits_length: "n < 10 ^ k \<Longrightarrow> 0 < k \<Longrightarrow> length (nat_digits n) \<le> k"
proof (induction n arbitrary: k rule: nat_digits.induct)
  case (1 n)
  show ?case
  proof (cases "n < 10")
    case True
    with "1.prems" show ?thesis by (simp add: nat_digits.simps [of n])
  next
    case False
    then obtain j where j: "k = Suc j" "0 < j" using "1.prems" by (cases k; cases "k - 1") auto
    then have "n div 10 < 10 ^ j" using "1.prems"(1) by (simp add: less_mult_imp_div_less mult.commute)
    from "1.IH" [OF False this j(2)] show ?thesis using False j by (simp add: nat_digits.simps [of n])
  qed
qed

lemma nul_notin_to_string: "CHR 0x00 \<notin> set (to_string i)"
proof -
  have "\<not> is_digit CHR 0x00" by (simp add: is_digit_def)
  then show ?thesis using nat_digits_all_digits by (auto simp: to_string_def)
qed

lemma c_str_host_name [simp]: "c_str (host_name i) = host_name i"
  by (rule c_str_id) (simp add: host_name_def nul_notin_to_string)

text \<open>Identifiers that are not of this form.\<close>

lemma host_index_short: "length ident < 4 \<Longrightarrow> host_index ident = Inl StdOutOfRange"
  by (simp add: host_index_def substr_def)

lemma host_index_no_number:
  "4 \<le> length ident \<Longrightarrow> strtol (drop 4 ident) = None \<Longrightarrow> host_index ident = Inl StdInvalidArgument"
  by (simp add: host_index_def substr_def stoi_def)

lemma host_index_cases:
  "host_index ident = Inl StdOutOfRange \<or> host_index ident = Inl StdInvalidArgument \<or> (\<exists>i. host_index ident = Inr i)"
  by (auto simp: host_index_def substr_def stoi_def split: option.split)

end
