(* ===== verification/NSB_Log.thy ===== *)
theory NSB_Log
  imports NSB_Std_String
begin

text \<open>
  The line that \<open>NsbLogSink\<close> (\<open>cpp/include/nsb.h\<close>) writes for a log entry.  The civil time of the
  entry and the microseconds since its second are taken from Abseil.
\<close>

datatype log_severity = LogInfo | LogWarning | LogError | LogFatal | LogOther

definition severity_text :: "log_severity \<Rightarrow> string" where
  "severity_text s = (case s of LogInfo \<Rightarrow> ''(info)'' | LogWarning \<Rightarrow> ''(warning)'' | LogError \<Rightarrow> ''(error)''
     | LogFatal \<Rightarrow> ''(FATAL)'' | LogOther \<Rightarrow> ''(other)'')"

text \<open>\<open>setw\<close> and \<open>setfill\<close>, right-adjusted.\<close>

definition set_width :: "char \<Rightarrow> nat \<Rightarrow> string \<Rightarrow> string" where
  "set_width c n s = replicate (n - length s) c @ s"

record log_entry =
  le_hour :: nat
  le_minute :: nat
  le_second :: nat
  le_micros :: nat
  le_severity :: log_severity
  le_text :: string

definition log_line :: "log_entry \<Rightarrow> string" where
  "log_line e = ''['' @ set_width CHR ''0'' 2 (to_string (int (le_hour e))) @ '':'' @
     set_width CHR ''0'' 2 (to_string (int (le_minute e))) @ '':'' @
     set_width CHR ''0'' 2 (to_string (int (le_second e))) @ ''.'' @
     set_width CHR ''0'' 6 (to_string (int (le_micros e))) @ ''] '' @
     set_width CHR '' '' 9 (severity_text (le_severity e)) @ '' '' @ le_text e"

lemma set_width_length: "length (set_width c n s) = max n (length s)"
  by (simp add: set_width_def max_def)

lemma padded_number: "n < 10 ^ k \<Longrightarrow> 0 < k \<Longrightarrow> length (set_width c k (to_string (int n))) = k"
  using nat_digits_length [of n k] by (simp add: set_width_length to_string_def)

text \<open>The text starts in column 28 of every line.\<close>

lemma log_line_columns:
  assumes "le_hour e < 24" "le_minute e < 60" "le_second e < 61" "le_micros e < 1000000"
  shows "\<exists>pre. length pre = 28 \<and> log_line e = pre @ le_text e"
proof -
  have n: "length (set_width CHR ''0'' 2 (to_string (int (le_hour e)))) = 2"
    "length (set_width CHR ''0'' 2 (to_string (int (le_minute e)))) = 2"
    "length (set_width CHR ''0'' 2 (to_string (int (le_second e)))) = 2"
    "length (set_width CHR ''0'' 6 (to_string (int (le_micros e)))) = 6"
    using assms by (intro padded_number; simp)+
  moreover have "length (set_width CHR '' '' 9 (severity_text (le_severity e))) = 9"
    by (cases "le_severity e") (simp_all add: set_width_length severity_text_def)
  ultimately show ?thesis
    by (intro exI [of _ "''['' @ set_width CHR ''0'' 2 (to_string (int (le_hour e))) @ '':'' @
     set_width CHR ''0'' 2 (to_string (int (le_minute e))) @ '':'' @ set_width CHR ''0'' 2 (to_string (int (le_second e))) @ ''.'' @
     set_width CHR ''0'' 6 (to_string (int (le_micros e))) @ ''] '' @ set_width CHR '' '' 9 (severity_text (le_severity e)) @ '' ''"])
      (simp add: log_line_def)
qed

end
