(* ===== verification/NSB_OMNeT.thy ===== *)
theory NSB_OMNeT
  imports NSB_System NSB_Std_String
begin

text \<open>
  The OMNeT++ example (\<open>examples/omnet/nsb_omnet_basic\<close>): a fully connected network of hosts, each
  with its own simulator client.  A host fetches the messages of the application that has its
  name, sends each through the gate of the destination, and the host that a message arrives at
  posts it.  \<open>NSBMessage\<close> is the simulated packet.  The simulator itself is a parameter: its calls are
  values (\<open>om_call\<close>), and the network below runs the handlers in any order that keeps each
  connection first in, first out.
\<close>

section \<open>NSBMessage\<close>

record nsb_message =
  nm_srcId :: string
  nm_destId :: string
  nm_payload :: string

definition new_nsb_message :: nsb_message where
  "new_nsb_message = \<lparr>nm_srcId = [], nm_destId = [], nm_payload = []\<rparr>"

text \<open>The setters take a \<open>const char *\<close>, the getters return one: both cut at the first NUL.\<close>

definition setSrcId :: "string \<Rightarrow> nsb_message \<Rightarrow> nsb_message" where
  "setSrcId v m = m\<lparr>nm_srcId := c_str v\<rparr>"

definition setDestId :: "string \<Rightarrow> nsb_message \<Rightarrow> nsb_message" where
  "setDestId v m = m\<lparr>nm_destId := c_str v\<rparr>"

definition setPayload :: "string \<Rightarrow> nsb_message \<Rightarrow> nsb_message" where
  "setPayload v m = m\<lparr>nm_payload := c_str v\<rparr>"

definition getSrcId :: "nsb_message \<Rightarrow> string" where
  "getSrcId m = c_str (nm_srcId m)"

definition getDestId :: "nsb_message \<Rightarrow> string" where
  "getDestId m = c_str (nm_destId m)"

definition getPayload :: "nsb_message \<Rightarrow> string" where
  "getPayload m = c_str (nm_payload m)"

section \<open>NSBHost\<close>

text \<open>\<open>oh_gates\<close> is the size of the gate vector \<open>out\<close>; times are integers (\<open>simtime_t\<close>).\<close>

record om_host =
  oh_id :: string
  oh_client :: client
  oh_interval :: int
  oh_gates :: nat

datatype om_call = SendOut nat nsb_message | ScheduleAt int

datatype om_event = SelfMsg | Packet nsb_message

text \<open>\<open>send(msg, "out", k)\<close>: OMNeT++ reports an error when there is no such gate.\<close>

definition send_out :: "om_host \<Rightarrow> nsb_message \<Rightarrow> int \<Rightarrow> sim_error + om_call list" where
  "send_out h m k = (if 0 \<le> k \<and> k < int (oh_gates h) then Inr [SendOut (nat k) m] else Inl (SimError ''no such gate''))"

definition om_initialize :: "string \<Rightarrow> int \<Rightarrow> nat \<Rightarrow> client \<Rightarrow> int \<Rightarrow> om_host \<times> om_call list" where
  "om_initialize hostId interval gates c now =
     (\<lparr>oh_id = hostId, oh_client = c, oh_interval = interval, oh_gates = gates\<rparr>, [ScheduleAt (now + interval)])"

text \<open>A handler gives the simulator calls it makes, or the exception that ends it, with the host and
  the world; \<open>Inl\<close>: a call of the client does not return.\<close>

definition om_sendPacket :: "('b, 'w) client_env \<Rightarrow> om_host \<Rightarrow> 'w \<Rightarrow>
    io_stop + (sim_error + om_call list) \<times> om_host \<times> 'w" where
  "om_sendPacket env h w = bind_res (sim_fetch_any env DAEMON_RESPONSE_TIMEOUT (oh_client h) w)
     (\<lambda>(entry, c1, w1). Inr (if \<not> entry_exists entry then Inr []
        else let msg = setPayload (payload_obj entry) (setDestId (destination entry) (setSrcId (source entry) new_nsb_message))
          in bind_res (host_index (c_str (destination entry))) (send_out h msg),
        h\<lparr>oh_client := c1\<rparr>, w1))"

definition om_processPacket :: "('b, 'w) client_env \<Rightarrow> om_host \<Rightarrow> nsb_message \<Rightarrow> 'w \<Rightarrow>
    io_stop + (sim_error + om_call list) \<times> om_host \<times> 'w" where
  "om_processPacket env h msg w = (case host_index (getDestId msg) of
       Inl e \<Rightarrow> Inr (Inl e, h, w)
     | Inr k \<Rightarrow>
         (if getDestId msg = oh_id h
          then bind_res (sim_post env (getSrcId msg) (getDestId msg) (getPayload msg) (oh_client h) w)
                 (\<lambda>(_, c1, w1). Inr (Inr [], h\<lparr>oh_client := c1\<rparr>, w1))
          else Inr (send_out h msg k, h, w)))"

definition om_handleMessage :: "('b, 'w) client_env \<Rightarrow> int \<Rightarrow> om_event \<Rightarrow> om_host \<Rightarrow> 'w \<Rightarrow>
    io_stop + (sim_error + om_call list) \<times> om_host \<times> 'w" where
  "om_handleMessage env now ev h w = (case ev of
       SelfMsg \<Rightarrow> bind_res (om_sendPacket env h w)
         (\<lambda>(r, h1, w1). Inr (bind_res r (\<lambda>calls. Inr (calls @ [ScheduleAt (now + oh_interval h)])), h1, w1))
     | Packet msg \<Rightarrow> om_processPacket env h msg w)"

section \<open>The network\<close>

text \<open>Host \<open>i\<close> has the name \<open>hosti\<close>, and \<open>hosti.out[j]\<close> is connected to \<open>hostj.in[i]\<close>
  (\<open>NSBHostNetworkTenHosts.ned\<close>): \<open>on_links (i, j)\<close> holds the messages on that connection.  The world
  has the daemon; \<open>on_sent\<close> and \<open>on_received\<close> record what the applications sent and received.\<close>

record ('b, 's) om_net =
  on_hosts :: "nat \<Rightarrow> om_host"
  on_links :: "nat \<times> nat \<Rightarrow> nsb_message list"
  on_world :: "('b, 's) loop_world"
  on_sent :: "message_entry list"
  on_received :: "message_entry list"

definition om_route :: "nat \<Rightarrow> om_call list \<Rightarrow> (nat \<times> nat \<Rightarrow> nsb_message list) \<Rightarrow> nat \<times> nat \<Rightarrow> nsb_message list" where
  "om_route i calls links = fold (\<lambda>c l. case c of SendOut k m \<Rightarrow> l((i, k) := l (i, k) @ [m]) | ScheduleAt _ \<Rightarrow> l) calls links"

text \<open>What a message is when it has crossed the network: its payload cut at the first NUL, its size
  that of what is left.\<close>

definition cut_entry :: "message_entry \<Rightarrow> message_entry" where
  "cut_entry e = mk_entry (source e) (destination e) (c_str (payload_obj e)) (int_of_size (c_str (payload_obj e)))"

text \<open>The environment of the system: every party is on the same network with the daemon; host \<open>i\<close>
  uses \<open>es i\<close>.\<close>

record ('b, 's) om_env =
  oe_io :: "'b io_env"
  oe_exec :: "'s redis_exec"
  oe_host :: "nat \<Rightarrow> ('b, ('b, 's) loop_world) client_env"
  oe_host_fds :: "nat \<Rightarrow> channel \<Rightarrow> fd"
  oe_app :: "nat \<Rightarrow> ('b, ('b, 's) loop_world) client_env"
  oe_app_fds :: "nat \<Rightarrow> channel \<Rightarrow> fd"

text \<open>One step: an application sends, a timer fires, a packet arrives, an application receives.  A
  handler that ends in an exception is not a step (it ends the simulation).\<close>

inductive om_step :: "('b, 's) om_env \<Rightarrow> nat \<Rightarrow> ('b, 's) om_net \<Rightarrow> ('b, 's) om_net \<Rightarrow> bool" for oe n where
  Send: "i < n \<Longrightarrow> clientId ca = host_name (int i) \<Longrightarrow> ready APP_CLIENT (lw_daemon (on_world s)) ca \<Longrightarrow>
     app_send (oe_app oe i) (host_name (int j)) pl ca (on_world s) = Inr (key, ca', w) \<Longrightarrow>
     om_step oe n s (s\<lparr>on_world := w,
       on_sent := on_sent s @ [mk_entry (host_name (int i)) (host_name (int j)) pl (int_of_size pl)]\<rparr>)"
| Timer: "i < n \<Longrightarrow> om_handleMessage (oe_host oe i) now SelfMsg (on_hosts s i) (on_world s) = Inr (Inr calls, h, w) \<Longrightarrow>
     om_step oe n s (s\<lparr>on_hosts := (on_hosts s)(i := h), on_links := om_route i calls (on_links s), on_world := w\<rparr>)"
| Arrive: "i < n \<Longrightarrow> j < n \<Longrightarrow> on_links s (i, j) = m # ms \<Longrightarrow>
     om_handleMessage (oe_host oe j) now (Packet m) (on_hosts s j) (on_world s) = Inr (Inr calls, h, w) \<Longrightarrow>
     om_step oe n s (s\<lparr>on_hosts := (on_hosts s)(j := h),
       on_links := om_route j calls ((on_links s)((i, j) := ms)), on_world := w\<rparr>)"
| Receive: "j < n \<Longrightarrow> clientId cb = host_name (int j) \<Longrightarrow> ready APP_CLIENT (lw_daemon (on_world s)) cb \<Longrightarrow>
     app_receive (oe_app oe j) None t cb (on_world s) = Inr (e, cb', w) \<Longrightarrow>
     om_step oe n s (s\<lparr>on_world := w, on_received := on_received s @ (if entry_exists e then [e] else [])\<rparr>)"

inductive_cases om_stepE: "om_step oe n s s'"

definition om_reach :: "('b, 's) om_env \<Rightarrow> nat \<Rightarrow> ('b, 's) om_net \<Rightarrow> ('b, 's) om_net \<Rightarrow> bool" where
  "om_reach oe n = (om_step oe n)\<^sup>*\<^sup>*"

lemma om_reach_induct [consumes 1, case_names start step]:
  assumes "om_reach oe n s0 s" "P s0" "\<And>s s'. om_reach oe n s0 s \<Longrightarrow> P s \<Longrightarrow> om_step oe n s s' \<Longrightarrow> P s'"
  shows "P s"
  using assms(1) unfolding om_reach_def
proof (induction rule: rtranclp_induct)
  case base
  show ?case by (rule assms(2))
next
  case (step y z)
  then show ?case using assms(3) by (simp add: om_reach_def)
qed

text \<open>The start: nothing under way, the hosts named and configured, no exchange open, PULL mode, a
  simulator client per node, no database.\<close>

definition om_config :: "nat \<Rightarrow> ('b, 's) om_net \<Rightarrow> bool" where
  "om_config n s \<longleftrightarrow> (\<forall>i<n. oh_id (on_hosts s i) = host_name (int i) \<and> clientId (oh_client (on_hosts s i)) = host_name (int i) \<and>
       oh_gates (on_hosts s i) = n \<and> ready SIM_CLIENT (lw_daemon (on_world s)) (oh_client (on_hosts s i))) \<and>
     (\<forall>f. lw_inbox (on_world s) f = []) \<and> int n < 2 ^ 31 \<and>
     SYSTEM_MODE (d_cfg (lw_daemon (on_world s))) = PULL \<and> SIMULATOR_MODE (d_cfg (lw_daemon (on_world s))) = PER_NODE \<and>
     \<not> USE_DB (d_cfg (lw_daemon (on_world s)))"

definition om_start :: "nat \<Rightarrow> ('b, 's) om_net \<Rightarrow> bool" where
  "om_start n s \<longleftrightarrow> om_config n s \<and> on_links s = (\<lambda>_. []) \<and> on_sent s = [] \<and> on_received s = [] \<and>
     tx_buffer (lw_daemon (on_world s)) = [] \<and> rx_buffer (lw_daemon (on_world s)) = []"

end
