(* ===== verification/NSB_Parsim.thy ===== *)
theory NSB_Parsim
  imports NSB_Std_Map
begin

text \<open>
  The packing templates at the head of \<open>NSBMessage_m.cc\<close>, which serialise standard containers into the
  communication buffer of a parallel simulation, as functions of the packing of the elements.  The buffer is the
  library's: here a sequence of items, with the packing of an \<open>int\<close> as a parameter.  The locale
  \<open>packing\<close> says what a pair of functions owes each other; every container of packable elements is
  packable.
\<close>

section \<open>Elements\<close>

text \<open>Packing appends to the buffer; unpacking overwrites a variable, whose old value it gets, and takes what it
  read off the buffer.  \<open>None\<close>: it throws.\<close>

type_synonym ('a, 'i) packer = "'a \<Rightarrow> 'i list \<Rightarrow> 'i list"
type_synonym ('a, 'i) unpacker = "'a \<Rightarrow> 'i list \<Rightarrow> ('a \<times> 'i list) option"

text \<open>\<open>blank\<close> is a fresh variable, \<open>ok\<close> the values that the law speaks of.\<close>

locale packing =
  fixes pack :: "('a, 'i) packer"
    and unpack :: "('a, 'i) unpacker"
    and blank :: 'a
    and ok :: "'a \<Rightarrow> bool"
  assumes pack_appends: "pack x (buf @ more) = buf @ pack x more"
    and unpack_pack: "ok x \<Longrightarrow> unpack blank (pack x [] @ rest) = Some (x, rest)"
begin

lemma pack_append: "pack x buf = buf @ pack x []"
  using pack_appends [of x buf "[]"] by simp

end

section \<open>The templates\<close>

definition pack_all :: "('a, 'i) packer \<Rightarrow> 'a list \<Rightarrow> 'i list \<Rightarrow> 'i list" where
  "pack_all pk xs buf = fold pk xs buf"

text \<open>\<open>std::vector\<close>: the loop runs to \<open>n\<close>, the size as an \<open>int\<close>; \<open>resize\<close> keeps the elements that are there
  and throws for a negative number.\<close>

definition pack_vector :: "(i32, 'i) packer \<Rightarrow> ('a, 'i) packer \<Rightarrow> ('a list, 'i) packer" where
  "pack_vector wint pk v buf = (let n = int_of_size v in pack_all pk (take (nat (sint n)) v) (wint n buf))"

definition vector_resize :: "nat \<Rightarrow> 'a \<Rightarrow> 'a list \<Rightarrow> 'a list" where
  "vector_resize n blank v = take n (v @ replicate n blank)"

fun unpack_each :: "('a, 'i) unpacker \<Rightarrow> ('a list, 'i) unpacker" where
  "unpack_each un [] buf = Some ([], buf)"
| "unpack_each un (x # xs) buf = (case un x buf of None \<Rightarrow> None
     | Some (y, b1) \<Rightarrow> (case unpack_each un xs b1 of None \<Rightarrow> None | Some (ys, b2) \<Rightarrow> Some (y # ys, b2)))"

definition unpack_vector :: "(i32, 'i) unpacker \<Rightarrow> ('a, 'i) unpacker \<Rightarrow> 'a \<Rightarrow> ('a list, 'i) unpacker" where
  "unpack_vector rint un blank v buf = (case rint 0 buf of None \<Rightarrow> None
     | Some (n, b1) \<Rightarrow> if sint n < 0 then None else unpack_each un (vector_resize (nat (sint n)) blank v) b1)"

text \<open>\<open>std::list\<close>, \<open>std::set\<close> and \<open>std::map\<close>: every element is packed, and unpacking adds to what the container
  holds.\<close>

fun repeat_unpack :: "('c \<Rightarrow> 'i list \<Rightarrow> ('c \<times> 'i list) option) \<Rightarrow> nat \<Rightarrow> 'c \<Rightarrow> 'i list \<Rightarrow> ('c \<times> 'i list) option" where
  "repeat_unpack body 0 c buf = Some (c, buf)"
| "repeat_unpack body (Suc n) c buf = (case body c buf of None \<Rightarrow> None | Some (c1, b1) \<Rightarrow> repeat_unpack body n c1 b1)"

definition unpack_counted :: "(i32, 'i) unpacker \<Rightarrow> ('c \<Rightarrow> 'i list \<Rightarrow> ('c \<times> 'i list) option) \<Rightarrow> ('c, 'i) unpacker" where
  "unpack_counted rint body c buf = (case rint 0 buf of None \<Rightarrow> None | Some (n, b1) \<Rightarrow> repeat_unpack body (nat (sint n)) c b1)"

definition pack_list :: "(i32, 'i) packer \<Rightarrow> ('a, 'i) packer \<Rightarrow> ('a list, 'i) packer" where
  "pack_list wint pk l buf = pack_all pk l (wint (int_of_size l) buf)"

definition unpack_list :: "(i32, 'i) unpacker \<Rightarrow> ('a, 'i) unpacker \<Rightarrow> 'a \<Rightarrow> ('a list, 'i) unpacker" where
  "unpack_list rint un blank = unpack_counted rint
     (\<lambda>l b. case un blank b of None \<Rightarrow> None | Some (x, b1) \<Rightarrow> Some (l @ [x], b1))"

text \<open>A set is a map to the one-element type.\<close>

type_synonym 'k std_set = "('k, unit) std_map"

definition pack_set :: "(i32, 'i) packer \<Rightarrow> ('k, 'i) packer \<Rightarrow> ('k::linorder std_set, 'i) packer" where
  "pack_set wint pk s buf = pack_all (\<lambda>p. pk (fst p)) s (wint (int_of_size s) buf)"

definition unpack_set :: "(i32, 'i) unpacker \<Rightarrow> ('k, 'i) unpacker \<Rightarrow> 'k \<Rightarrow> ('k::linorder std_set, 'i) unpacker" where
  "unpack_set rint un blank = unpack_counted rint
     (\<lambda>s b. case un blank b of None \<Rightarrow> None | Some (x, b1) \<Rightarrow> Some (map_emplace x () s, b1))"

definition pack_map :: "(i32, 'i) packer \<Rightarrow> ('k, 'i) packer \<Rightarrow> ('v, 'i) packer \<Rightarrow> (('k::linorder, 'v) std_map, 'i) packer" where
  "pack_map wint pk pv m buf = pack_all (\<lambda>p b. pv (snd p) (pk (fst p) b)) m (wint (int_of_size m) buf)"

definition unpack_map :: "(i32, 'i) unpacker \<Rightarrow> ('k, 'i) unpacker \<Rightarrow> 'k \<Rightarrow> ('v, 'i) unpacker \<Rightarrow> 'v \<Rightarrow>
    (('k::linorder, 'v) std_map, 'i) unpacker" where
  "unpack_map rint uk bk uv bv = unpack_counted rint
     (\<lambda>m b. case uk bk b of None \<Rightarrow> None | Some (k, b1) \<Rightarrow>
        (case uv bv b1 of None \<Rightarrow> None | Some (v, b2) \<Rightarrow> Some (map_assign k v m, b2)))"

text \<open>Arrays: \<open>n\<close> elements, whose number the reader knows.  The default rule, chosen for a type without a rule of
  its own, throws.\<close>

definition pack_array :: "('a, 'i) packer \<Rightarrow> nat \<Rightarrow> ('a list, 'i) packer" where
  "pack_array pk n t buf = pack_all pk (take n t) buf"

definition unpack_array :: "('a, 'i) unpacker \<Rightarrow> nat \<Rightarrow> ('a list, 'i) unpacker" where
  "unpack_array un n t buf = (case unpack_each un (take n t) buf of None \<Rightarrow> None | Some (ys, b1) \<Rightarrow> Some (ys @ drop n t, b1))"

definition pack_default :: "'a \<Rightarrow> 'i list \<Rightarrow> 'i list option" where
  "pack_default x buf = None"

definition unpack_default :: "('a, 'i) unpacker" where
  "unpack_default x buf = None"

section \<open>Round trips\<close>

lemma pack_all_append:
  assumes "\<And>x buf more. pk x (buf @ more) = buf @ pk x more"
  shows "pack_all pk xs (buf @ more) = buf @ pack_all pk xs more"
  by (induction xs arbitrary: more) (simp_all add: pack_all_def assms)

lemma pack_all_Cons:
  assumes "\<And>x buf more. pk x (buf @ more) = buf @ pk x more"
  shows "pack_all pk (x # xs) [] = pk x [] @ pack_all pk xs []"
  using pack_all_append [of pk xs "pk x []" "[]", OF assms] by (simp add: pack_all_def)

lemma pack_all_Nil [simp]: "pack_all pk [] buf = buf"
  by (simp add: pack_all_def)

text \<open>A loop that unpacks one element and adds it.\<close>

lemma repeat_unpack_all:
  assumes "\<And>x buf more. pk x (buf @ more) = buf @ pk x more"
    and "\<And>c x rest. ok x \<Longrightarrow> body c (pk x [] @ rest) = Some (add x c, rest)"
  shows "\<forall>x\<in>set xs. ok x \<Longrightarrow> repeat_unpack body (length xs) c (pack_all pk xs [] @ rest) = Some (fold add xs c, rest)"
  by (induction xs arbitrary: c) (simp_all add: pack_all_Cons [of pk, OF assms(1)] assms(2))

text \<open>Containers that \<open>int\<close> can count, of elements that \<open>ok\<close> holds for.\<close>

definition all_ok :: "('a \<Rightarrow> bool) \<Rightarrow> 'a list \<Rightarrow> bool" where
  "all_ok ok xs \<longleftrightarrow> length xs \<le> int_max \<and> (\<forall>x\<in>set xs. ok x)"

lemma all_ok_size: "all_ok ok xs \<Longrightarrow> nat (sint (int_of_size xs)) = length xs \<and> \<not> sint (int_of_size xs) < 0"
  by (simp add: all_ok_def nsb_simps)

text \<open>A buffer that takes \<open>int\<close>s.\<close>

abbreviation int_buffer :: "(i32, 'i) packer \<Rightarrow> (i32, 'i) unpacker \<Rightarrow> bool" where
  "int_buffer wint rint \<equiv> packing wint rint 0 (\<lambda>_. True)"

text \<open>What list, set and map share: if the loop body adds an element, and adding all the elements to a fresh
  container gives the container back.\<close>

lemma counted_packing:
  assumes i: "int_buffer wint rint" and app: "\<And>x buf more. pk x (buf @ more) = buf @ pk x more"
    and add: "\<And>c x rest. ok x \<Longrightarrow> body c (pk x [] @ rest) = Some (add x c, rest)"
    and all: "\<And>xs. good xs \<Longrightarrow> all_ok ok xs \<and> fold add xs blank = xs"
  shows "packing (\<lambda>xs buf. pack_all pk xs (wint (int_of_size xs) buf)) (unpack_counted rint body) blank good"
proof
  fix xs :: "'b list" and buf more rest :: "'a list"
  show "pack_all pk xs (wint (int_of_size xs) (buf @ more)) = buf @ pack_all pk xs (wint (int_of_size xs) more)"
    by (simp add: packing.pack_appends [OF i] pack_all_append [of pk, OF app])
  assume g: "good xs"
  have "pack_all pk xs (wint (int_of_size xs) []) = wint (int_of_size xs) [] @ pack_all pk xs []"
    using pack_all_append [of pk xs "wint (int_of_size xs) []" "[]", OF app] by simp
  moreover have "repeat_unpack body (length xs) blank (pack_all pk xs [] @ rest) = Some (xs, rest)"
    using repeat_unpack_all [of pk ok body add xs blank rest, OF app add] all [OF g] by (auto simp: all_ok_def)
  ultimately show "unpack_counted rint body blank (pack_all pk xs (wint (int_of_size xs) []) @ rest) = Some (xs, rest)"
    using all [OF g] all_ok_size [of ok xs] by (simp add: unpack_counted_def packing.unpack_pack [OF i])
qed

lemma fold_append_one: "fold (\<lambda>x l. l @ [x]) xs c = c @ xs"
  by (induction xs arbitrary: c) auto

theorem pack_list_packing:
  assumes i: "int_buffer wint rint" and e: "packing pk un b ok"
  shows "packing (pack_list wint pk) (unpack_list rint un b) [] (all_ok ok)"
proof -
  have "packing (\<lambda>xs buf. pack_all pk xs (wint (int_of_size xs) buf))
      (unpack_counted rint (\<lambda>l b'. case un b b' of None \<Rightarrow> None | Some (x, b1) \<Rightarrow> Some (l @ [x], b1))) [] (all_ok ok)"
    by (rule counted_packing [OF i packing.pack_appends [OF e], where add = "\<lambda>x l. l @ [x]" and ok = ok])
      (simp_all add: packing.unpack_pack [OF e] fold_append_one)
  then show ?thesis by (simp add: pack_list_def [abs_def] unpack_list_def)
qed

text \<open>Inserting the elements of an ordered container in order rebuilds it.\<close>

lemma add_last:
  "map_ok (m @ [p]) \<Longrightarrow> map_emplace (fst p) (snd p) m = m @ [p]"
  "map_ok (m @ [p]) \<Longrightarrow> map_assign (fst p) (snd p) m = m @ [p]"
  by (induction m) (auto simp: map_ok_Cons)

lemma map_ok_prefix: "map_ok (m @ xs) \<Longrightarrow> map_ok m"
  by (simp add: map_ok_def sorted_wrt_append)

lemma fold_sorted:
  assumes "\<And>m p. map_ok (m @ [p]) \<Longrightarrow> f p m = m @ [p]"
  shows "map_ok (m @ xs) \<Longrightarrow> fold f xs m = m @ xs"
proof (induction xs arbitrary: m)
  case (Cons x xs)
  have "map_ok (m @ [x])" using Cons.prems map_ok_prefix [of "m @ [x]" xs] by simp
  with Cons show ?case using assms by simp
qed simp

theorem pack_map_packing:
  assumes i: "int_buffer wint rint" and k: "packing pk uk bk okk" and v: "packing pv uv bv okv"
  shows "packing (pack_map wint pk pv) (unpack_map rint uk bk uv bv) [] (\<lambda>m. map_ok m \<and> all_ok (\<lambda>p. okk (fst p) \<and> okv (snd p)) m)"
proof -
  have app: "pv (snd p) (pk (fst p) []) = pk (fst p) [] @ pv (snd p) []" for p
    using packing.pack_appends [OF v, of "snd p" "pk (fst p) []" "[]"] by simp
  have "packing (\<lambda>m buf. pack_all (\<lambda>p b. pv (snd p) (pk (fst p) b)) m (wint (int_of_size m) buf))
      (unpack_counted rint (\<lambda>m b. case uk bk b of None \<Rightarrow> None | Some (k, b1) \<Rightarrow>
        (case uv bv b1 of None \<Rightarrow> None | Some (v, b2) \<Rightarrow> Some (map_assign k v m, b2)))) []
      (\<lambda>m. map_ok m \<and> all_ok (\<lambda>p. okk (fst p) \<and> okv (snd p)) m)"
    by (rule counted_packing [OF i, where add = "\<lambda>p. map_assign (fst p) (snd p)" and ok = "\<lambda>p. okk (fst p) \<and> okv (snd p)"])
      (use fold_sorted [of "\<lambda>p. map_assign (fst p) (snd p)" "[]"] add_last(2) in
        \<open>auto simp: packing.pack_appends [OF k] packing.pack_appends [OF v] app packing.unpack_pack [OF k] packing.unpack_pack [OF v]\<close>)
  then show ?thesis by (simp add: pack_map_def [abs_def] unpack_map_def)
qed

lemma fold_emplace_set: "map_ok s \<Longrightarrow> fold (\<lambda>p. map_emplace (fst p) ()) s [] = s"
proof -
  have "map_emplace (fst p) () m = m @ [p]" if "map_ok (m @ [p])" for m and p :: "'a \<times> unit"
    using add_last(1) [OF that] by simp
  from fold_sorted [of "\<lambda>p. map_emplace (fst p) ()", OF this, of "[]" s] show "map_ok s \<Longrightarrow> ?thesis" by simp
qed

theorem pack_set_packing:
  assumes i: "int_buffer wint rint" and k: "packing pk un b ok"
  shows "packing (pack_set wint pk) (unpack_set rint un b) [] (\<lambda>s. map_ok s \<and> all_ok (\<lambda>p. ok (fst p)) s)"
proof -
  have "packing (\<lambda>s buf. pack_all (\<lambda>p. pk (fst p)) s (wint (int_of_size s) buf))
      (unpack_counted rint (\<lambda>s b'. case un b b' of None \<Rightarrow> None | Some (x, b1) \<Rightarrow> Some (map_emplace x () s, b1))) []
      (\<lambda>s. map_ok s \<and> all_ok (\<lambda>p. ok (fst p)) s)"
    by (rule counted_packing [OF i, where add = "\<lambda>p. map_emplace (fst p) ()" and ok = "\<lambda>p. ok (fst p)"])
      (simp_all add: packing.pack_appends [OF k] packing.unpack_pack [OF k] fold_emplace_set)
  then show ?thesis by (simp add: pack_set_def [abs_def] unpack_set_def)
qed

lemma unpack_each_blank:
  assumes "packing pk un b ok"
  shows "\<forall>x\<in>set xs. ok x \<Longrightarrow> unpack_each un (replicate (length xs) b) (pack_all pk xs [] @ rest) = Some (xs, rest)"
  by (induction xs)
    (simp_all add: pack_all_Cons [of pk, OF packing.pack_appends [OF assms]] packing.unpack_pack [OF assms])

theorem pack_vector_packing:
  assumes i: "int_buffer wint rint" and e: "packing pk un b ok"
  shows "packing (pack_vector wint pk) (unpack_vector rint un b) [] (all_ok ok)"
proof
  note app = packing.pack_appends [OF e]
  fix v buf more rest
  show "pack_vector wint pk v (buf @ more) = buf @ pack_vector wint pk v more"
    by (simp add: pack_vector_def Let_def packing.pack_appends [OF i] pack_all_append [of pk, OF app])
  assume g: "all_ok ok v"
  have "pack_vector wint pk v [] = wint (int_of_size v) [] @ pack_all pk v []"
    using pack_all_append [of pk v "wint (int_of_size v) []" "[]", OF app] all_ok_size [OF g]
    by (simp add: pack_vector_def Let_def)
  with g show "unpack_vector rint un b [] (pack_vector wint pk v [] @ rest) = Some (v, rest)"
    using all_ok_size [OF g] unpack_each_blank [OF e, of v rest]
    by (simp add: unpack_vector_def packing.unpack_pack [OF i] vector_resize_def all_ok_def)
qed

text \<open>Two reads into one list: the second appends, so what a container held before stays in front.\<close>

theorem unpack_list_appends:
  assumes "int_buffer wint rint" "packing pk un b ok" "all_ok ok xs"
  shows "unpack_list rint un b ys (pack_list wint pk xs [] @ rest) = Some (ys @ xs, rest)"
proof -
  note app = packing.pack_appends [OF assms(2)]
  have "pack_list wint pk xs [] = wint (int_of_size xs) [] @ pack_all pk xs []"
    using pack_all_append [of pk xs "wint (int_of_size xs) []" "[]", OF app] by (simp add: pack_list_def)
  moreover have "repeat_unpack (\<lambda>l b'. case un b b' of None \<Rightarrow> None | Some (x, b1) \<Rightarrow> Some (l @ [x], b1)) (length xs) ys
      (pack_all pk xs [] @ rest) = Some (ys @ xs, rest)"
    using repeat_unpack_all [of pk ok _ "\<lambda>x l. l @ [x]" xs ys rest, OF app] assms(3) packing.unpack_pack [OF assms(2)]
    by (simp add: fold_append_one all_ok_def)
  ultimately show ?thesis
    using all_ok_size [OF assms(3)] by (simp add: unpack_list_def unpack_counted_def packing.unpack_pack [OF assms(1)])
qed

text \<open>An array comes back when reader and writer agree on \<open>n\<close> and the elements are fresh.\<close>

theorem pack_array_roundtrip:
  assumes "packing pk un b ok" "\<forall>x\<in>set t. ok x"
  shows "unpack_array un (length t) (replicate (length t) b) (pack_array pk (length t) t [] @ rest) = Some (t, rest)"
  using unpack_each_blank [OF assms] by (simp add: pack_array_def unpack_array_def)

section \<open>A buffer of items\<close>

text \<open>The simplest buffer with these laws holds the items themselves.\<close>

datatype parsim_item = PInt i32 | PString string

definition item_int :: "(i32, parsim_item) packer" where "item_int n buf = buf @ [PInt n]"
definition item_string :: "(string, parsim_item) packer" where "item_string s buf = buf @ [PString s]"

fun read_int :: "(i32, parsim_item) unpacker" where
  "read_int _ (PInt n # b) = Some (n, b)"
| "read_int _ _ = None"

fun read_string :: "(string, parsim_item) unpacker" where
  "read_string _ (PString s # b) = Some (s, b)"
| "read_string _ _ = None"

interpretation items_int: packing item_int read_int 0 "\<lambda>_. True"
  by unfold_locales (simp_all add: item_int_def)

interpretation items_string: packing item_string read_string "[]" "\<lambda>_. True"
  by unfold_locales (simp_all add: item_string_def)

interpretation items_map: packing "pack_map item_int item_string (pack_vector item_int item_int)"
  "unpack_map read_int read_string [] (unpack_vector read_int read_int 0) []" "[]"
  "\<lambda>m. map_ok m \<and> all_ok (\<lambda>p. True \<and> all_ok (\<lambda>_. True) (snd p)) m"
  by (rule pack_map_packing [OF items_int.packing_axioms items_string.packing_axioms
      pack_vector_packing [OF items_int.packing_axioms items_int.packing_axioms]])

end
