(* ===== verification/NSB_OMNeT_Message.thy ===== *)
theory NSB_OMNeT_Message
  imports NSB_OMNeT NSB_Parsim
begin

text \<open>
  The message class that is checked in with the OMNeT++ example (\<open>NSBMessage_m.cc\<close>): construction, copying, packing
  for parallel simulation, and the class descriptor through which the simulator's inspectors read
  and edit the fields.  The base class \<open>cMessage\<close> and its descriptor are parameters; a message is
  its base part and its own fields.
\<close>

section \<open>Construction, copy and packing\<close>

text \<open>\<open>copy\<close>: the fields of the other message.  The copy constructor and \<open>operator=\<close> first copy the base part
  (\<open>copy_base\<close>: the copy constructor of \<open>cMessage\<close>); \<open>operator=\<close> does nothing when both are one object.  \<open>dup\<close> is the
  copy constructor.\<close>

definition nsb_copy :: "nsb_message \<Rightarrow> nsb_message \<Rightarrow> nsb_message" where
  "nsb_copy other this = this\<lparr>nm_srcId := nm_srcId other, nm_destId := nm_destId other, nm_payload := nm_payload other\<rparr>"

definition nsb_copy_constructor :: "('o \<Rightarrow> 'o) \<Rightarrow> 'o \<times> nsb_message \<Rightarrow> 'o \<times> nsb_message" where
  "nsb_copy_constructor copy_base other = (copy_base (fst other), nsb_copy (snd other) new_nsb_message)"

definition nsb_assign :: "('o \<Rightarrow> 'o \<Rightarrow> 'o) \<Rightarrow> bool \<Rightarrow> 'o \<times> nsb_message \<Rightarrow> 'o \<times> nsb_message \<Rightarrow> 'o \<times> nsb_message" where
  "nsb_assign assign_base same other this = (if same then this
     else (assign_base (fst other) (fst this), nsb_copy (snd other) (snd this)))"

definition nsb_dup :: "('o \<Rightarrow> 'o) \<Rightarrow> 'o \<times> nsb_message \<Rightarrow> 'o \<times> nsb_message" where
  "nsb_dup copy_base this = nsb_copy_constructor copy_base this"

text \<open>\<open>packb\<close>, \<open>unpackb\<close> are those of the base class, \<open>packs\<close>, \<open>unpacks\<close> the simulator's for \<open>opp_string\<close>.\<close>

definition parsimPack :: "('o, 'i) packer \<Rightarrow> (string, 'i) packer \<Rightarrow> ('o \<times> nsb_message, 'i) packer" where
  "parsimPack packb packs obj buf =
     packs (nm_payload (snd obj)) (packs (nm_destId (snd obj)) (packs (nm_srcId (snd obj)) (packb (fst obj) buf)))"

definition parsimUnpack :: "('o, 'i) unpacker \<Rightarrow> (string, 'i) unpacker \<Rightarrow> ('o \<times> nsb_message, 'i) unpacker" where
  "parsimUnpack unpackb unpacks obj buf = (case unpackb (fst obj) buf of None \<Rightarrow> None
     | Some (o1, b1) \<Rightarrow> (case unpacks (nm_srcId (snd obj)) b1 of None \<Rightarrow> None
     | Some (s, b2) \<Rightarrow> (case unpacks (nm_destId (snd obj)) b2 of None \<Rightarrow> None
     | Some (d, b3) \<Rightarrow> (case unpacks (nm_payload (snd obj)) b3 of None \<Rightarrow> None
     | Some (p, b4) \<Rightarrow> Some ((o1, \<lparr>nm_srcId = s, nm_destId = d, nm_payload = p\<rparr>), b4)))))"

text \<open>A message is packable when its base part and strings are.\<close>

theorem parsim_packing:
  assumes b: "packing packb unpackb blank ok" and s: "packing packs unpacks [] (\<lambda>_. True)"
  shows "packing (parsimPack packb packs) (parsimUnpack unpackb unpacks) (blank, new_nsb_message) (\<lambda>obj. ok (fst obj))"
proof
  fix obj :: "'a \<times> nsb_message" and buf more rest
  show "parsimPack packb packs obj (buf @ more) = buf @ parsimPack packb packs obj more"
    by (simp add: parsimPack_def packing.pack_appends [OF b] packing.pack_appends [OF s])
  have str: "packs x ys = ys @ packs x []" for x ys using packing.pack_appends [OF s, of x ys "[]"] by simp
  assume "ok (fst obj)"
  moreover have "parsimPack packb packs obj [] = packb (fst obj) [] @ packs (nm_srcId (snd obj)) [] @
      packs (nm_destId (snd obj)) [] @ packs (nm_payload (snd obj)) []"
    unfolding parsimPack_def by (metis str append.assoc)
  ultimately show "parsimUnpack unpackb unpacks (blank, new_nsb_message) (parsimPack packb packs obj [] @ rest) = Some (obj, rest)"
    by (cases obj) (simp add: parsimUnpack_def new_nsb_message_def packing.unpack_pack [OF b] packing.unpack_pack [OF s])
qed

interpretation nsb_parsim: packing "parsimPack item_int item_string" "parsimUnpack read_int read_string" "(0, new_nsb_message)" "\<lambda>_. True"
  using parsim_packing [OF items_int.packing_axioms items_string.packing_axioms] by simp

text \<open>What \<open>dup\<close> gives is packed as the original is.\<close>

lemma dup_packs_alike:
  assumes "copy_base (fst obj) = fst obj"
  shows "parsimPack packb packs (nsb_dup copy_base obj) buf = parsimPack packb packs obj buf"
  using assms by (simp add: parsimPack_def nsb_dup_def nsb_copy_constructor_def nsb_copy_def)

section \<open>The descriptor\<close>

text \<open>The descriptor of the base class.  Values of fields are the library's \<open>cValue\<close>s, of type \<open>'v\<close>; pointers to
  structures are \<open>'p option\<close>.\<close>

record ('o, 'v, 'p) base_descriptor =
  bd_property_names :: "string list"
  bd_property :: "string \<Rightarrow> string option"
  bd_count :: int
  bd_name :: "int \<Rightarrow> string option"
  bd_find :: "string \<Rightarrow> int"
  bd_flags :: "int \<Rightarrow> nat"
  bd_type :: "int \<Rightarrow> string option"
  bd_field_property_names :: "int \<Rightarrow> string list option"
  bd_field_property :: "int \<Rightarrow> string \<Rightarrow> string option"
  bd_array_size :: "'o \<Rightarrow> int \<Rightarrow> int"
  bd_set_array_size :: "'o \<Rightarrow> int \<Rightarrow> int \<Rightarrow> sim_error + 'o"
  bd_dynamic_type :: "'o \<Rightarrow> int \<Rightarrow> int \<Rightarrow> string option"
  bd_get :: "'o \<Rightarrow> int \<Rightarrow> int \<Rightarrow> string"
  bd_set :: "'o \<Rightarrow> int \<Rightarrow> int \<Rightarrow> string \<Rightarrow> sim_error + 'o"
  bd_get_value :: "'o \<Rightarrow> int \<Rightarrow> int \<Rightarrow> sim_error + 'v"
  bd_set_value :: "'o \<Rightarrow> int \<Rightarrow> int \<Rightarrow> 'v \<Rightarrow> sim_error + 'o"
  bd_struct_name :: "int \<Rightarrow> string option"
  bd_struct_pointer :: "'o \<Rightarrow> int \<Rightarrow> int \<Rightarrow> 'p option"
  bd_set_struct_pointer :: "'o \<Rightarrow> int \<Rightarrow> int \<Rightarrow> 'p option \<Rightarrow> sim_error + 'o"

text \<open>An object that the simulator hands to the descriptor: its base part, and the fields of \<open>NSBMessage\<close> if it is one.\<close>

type_synonym 'o sim_object = "'o \<times> nsb_message option"

definition doesSupport :: "'o sim_object option \<Rightarrow> bool" where
  "doesSupport obj = (case obj of None \<Rightarrow> False | Some (_, own) \<Rightarrow> own \<noteq> None)"

definition fromAnyPtr :: "'o sim_object \<Rightarrow> sim_error + nsb_message" where
  "fromAnyPtr obj = (case snd obj of None \<Rightarrow> Inl (SimError ''check_and_cast: cannot cast'') | Some m \<Rightarrow> Inr m)"

text \<open>The property names are computed once and kept; \<open>merge\<close> is the library's \<open>mergeLists\<close>.\<close>

record nsb_descriptor = propertyNames :: "string list option"

definition new_nsb_descriptor :: nsb_descriptor where
  "new_nsb_descriptor = \<lparr>propertyNames = None\<rparr>"

definition getPropertyNames :: "(string list option \<Rightarrow> string list \<Rightarrow> string list) \<Rightarrow> ('o, 'v, 'p) base_descriptor option \<Rightarrow>
    nsb_descriptor \<Rightarrow> string list \<times> nsb_descriptor" where
  "getPropertyNames merge base st = (case propertyNames st of Some l \<Rightarrow> (l, st)
     | None \<Rightarrow> let l = merge (map_option bd_property_names base) [] in (l, st\<lparr>propertyNames := Some l\<rparr>))"

definition getProperty :: "('o, 'v, 'p) base_descriptor option \<Rightarrow> string \<Rightarrow> string option" where
  "getProperty base name = (case base of None \<Rightarrow> None | Some b \<Rightarrow> bd_property b name)"

definition base_count :: "('o, 'v, 'p) base_descriptor option \<Rightarrow> int" where
  "base_count base = (case base of None \<Rightarrow> 0 | Some b \<Rightarrow> bd_count b)"

text \<open>Every accessor first hands the fields of the base class on; the rest are counted from 0.\<close>

definition on_field :: "('o, 'v, 'p) base_descriptor option \<Rightarrow> int \<Rightarrow> (('o, 'v, 'p) base_descriptor \<Rightarrow> 'x) \<Rightarrow> (int \<Rightarrow> 'x) \<Rightarrow> 'x" where
  "on_field base field inherited own = (case base of None \<Rightarrow> own field
     | Some b \<Rightarrow> if field < bd_count b then inherited b else own (field - bd_count b))"

definition own_table :: "'x list \<Rightarrow> 'x \<Rightarrow> int \<Rightarrow> 'x" where
  "own_table xs d k = (if 0 \<le> k \<and> k < int (length xs) then xs ! nat k else d)"

definition getFieldCount :: "('o, 'v, 'p) base_descriptor option \<Rightarrow> int" where
  "getFieldCount base = 3 + base_count base"

text \<open>\<open>editable\<close> is the simulator's constant \<open>FD_ISEDITABLE\<close>.\<close>

definition getFieldTypeFlags :: "nat \<Rightarrow> ('o, 'v, 'p) base_descriptor option \<Rightarrow> int \<Rightarrow> nat" where
  "getFieldTypeFlags editable base f = on_field base f (\<lambda>b. bd_flags b f) (own_table [editable, editable, editable] 0)"

definition getFieldName :: "('o, 'v, 'p) base_descriptor option \<Rightarrow> int \<Rightarrow> string option" where
  "getFieldName base f = on_field base f (\<lambda>b. bd_name b f) (own_table [Some ''srcId'', Some ''destId'', Some ''payload''] None)"

definition findField :: "('o, 'v, 'p) base_descriptor option \<Rightarrow> string \<Rightarrow> int" where
  "findField base name = (if name = ''srcId'' then base_count base
     else if name = ''destId'' then base_count base + 1
     else if name = ''payload'' then base_count base + 2
     else case base of None \<Rightarrow> -1 | Some b \<Rightarrow> bd_find b name)"

definition getFieldTypeString :: "('o, 'v, 'p) base_descriptor option \<Rightarrow> int \<Rightarrow> string option" where
  "getFieldTypeString base f = on_field base f (\<lambda>b. bd_type b f) (own_table [Some ''string'', Some ''string'', Some ''string''] None)"

definition getFieldPropertyNames :: "('o, 'v, 'p) base_descriptor option \<Rightarrow> int \<Rightarrow> string list option" where
  "getFieldPropertyNames base f = on_field base f (\<lambda>b. bd_field_property_names b f) (\<lambda>_. None)"

definition getFieldProperty :: "('o, 'v, 'p) base_descriptor option \<Rightarrow> int \<Rightarrow> string \<Rightarrow> string option" where
  "getFieldProperty base f name = on_field base f (\<lambda>b. bd_field_property b f name) (\<lambda>_. None)"

text \<open>The accessors of objects: own fields are no arrays, so their index \<open>i\<close> is not looked at.  A setter gives the changed
  object.\<close>

definition getFieldArraySize :: "('o, 'v, 'p) base_descriptor option \<Rightarrow> 'o sim_object \<Rightarrow> int \<Rightarrow> sim_error + int" where
  "getFieldArraySize base obj f = on_field base f (\<lambda>b. Inr (bd_array_size b (fst obj) f))
     (\<lambda>_. bind_res (fromAnyPtr obj) (\<lambda>pp. Inr 0))"

definition with_base :: "'o sim_object \<Rightarrow> sim_error + 'o \<Rightarrow> sim_error + 'o sim_object" where
  "with_base obj r = bind_res r (\<lambda>o1. Inr (o1, snd obj))"

definition setFieldArraySize :: "('o, 'v, 'p) base_descriptor option \<Rightarrow> 'o sim_object \<Rightarrow> int \<Rightarrow> int \<Rightarrow> sim_error + 'o sim_object" where
  "setFieldArraySize base obj f n = on_field base f (\<lambda>b. with_base obj (bd_set_array_size b (fst obj) f n))
     (\<lambda>_. bind_res (fromAnyPtr obj) (\<lambda>pp. Inl (SimError ''Cannot set array size of field of class NSBMessage'')))"

definition getFieldDynamicTypeString :: "('o, 'v, 'p) base_descriptor option \<Rightarrow> 'o sim_object \<Rightarrow> int \<Rightarrow> int \<Rightarrow> sim_error + string option" where
  "getFieldDynamicTypeString base obj f i = on_field base f (\<lambda>b. Inr (bd_dynamic_type b (fst obj) f i))
     (\<lambda>_. bind_res (fromAnyPtr obj) (\<lambda>pp. Inr None))"

definition getFieldValueAsString :: "('o, 'v, 'p) base_descriptor option \<Rightarrow> 'o sim_object \<Rightarrow> int \<Rightarrow> int \<Rightarrow> sim_error + string" where
  "getFieldValueAsString base obj f i = on_field base f (\<lambda>b. Inr (bd_get b (fst obj) f i))
     (\<lambda>k. bind_res (fromAnyPtr obj) (\<lambda>pp. Inr (own_table [getSrcId pp, getDestId pp, getPayload pp] [] k)))"

definition put_own :: "'o sim_object \<Rightarrow> (string \<Rightarrow> nsb_message \<Rightarrow> nsb_message) \<Rightarrow> string \<Rightarrow> sim_error + 'o sim_object" where
  "put_own obj put v = bind_res (fromAnyPtr obj) (\<lambda>pp. Inr (fst obj, Some (put v pp)))"

definition setFieldValueAsString :: "('o, 'v, 'p) base_descriptor option \<Rightarrow> 'o sim_object \<Rightarrow> int \<Rightarrow> int \<Rightarrow> string \<Rightarrow> sim_error + 'o sim_object" where
  "setFieldValueAsString base obj f i v = on_field base f (\<lambda>b. with_base obj (bd_set b (fst obj) f i v))
     (\<lambda>k. bind_res (fromAnyPtr obj) (\<lambda>pp. own_table
        [put_own obj setSrcId v, put_own obj setDestId v, put_own obj setPayload v]
        (Inl (SimError ''Cannot set field of class NSBMessage'')) k))"

text \<open>The same with \<open>cValue\<close>s: \<open>of_cstr\<close> makes one of a C string, \<open>stringValue\<close> throws when it holds something else.\<close>

definition getFieldValue :: "(string \<Rightarrow> 'v) \<Rightarrow> ('o, 'v, 'p) base_descriptor option \<Rightarrow> 'o sim_object \<Rightarrow> int \<Rightarrow> int \<Rightarrow> sim_error + 'v" where
  "getFieldValue of_cstr base obj f i = on_field base f (\<lambda>b. bd_get_value b (fst obj) f i)
     (\<lambda>k. bind_res (fromAnyPtr obj) (\<lambda>pp. own_table
        [Inr (of_cstr (getSrcId pp)), Inr (of_cstr (getDestId pp)), Inr (of_cstr (getPayload pp))]
        (Inl (SimError ''Cannot return field of class NSBMessage'')) k))"

definition setFieldValue :: "('v \<Rightarrow> sim_error + string) \<Rightarrow> ('o, 'v, 'p) base_descriptor option \<Rightarrow> 'o sim_object \<Rightarrow> int \<Rightarrow> int \<Rightarrow> 'v \<Rightarrow>
    sim_error + 'o sim_object" where
  "setFieldValue stringValue base obj f i v = on_field base f (\<lambda>b. with_base obj (bd_set_value b (fst obj) f i v))
     (\<lambda>k. bind_res (fromAnyPtr obj) (\<lambda>pp. own_table
        [bind_res (stringValue v) (put_own obj setSrcId), bind_res (stringValue v) (put_own obj setDestId),
         bind_res (stringValue v) (put_own obj setPayload)]
        (Inl (SimError ''Cannot set field of class NSBMessage'')) k))"

definition getFieldStructName :: "('o, 'v, 'p) base_descriptor option \<Rightarrow> int \<Rightarrow> string option" where
  "getFieldStructName base f = on_field base f (\<lambda>b. bd_struct_name b f) (\<lambda>_. None)"

definition getFieldStructValuePointer :: "('o, 'v, 'p) base_descriptor option \<Rightarrow> 'o sim_object \<Rightarrow> int \<Rightarrow> int \<Rightarrow> sim_error + 'p option" where
  "getFieldStructValuePointer base obj f i = on_field base f (\<lambda>b. Inr (bd_struct_pointer b (fst obj) f i))
     (\<lambda>_. bind_res (fromAnyPtr obj) (\<lambda>pp. Inr None))"

definition setFieldStructValuePointer :: "('o, 'v, 'p) base_descriptor option \<Rightarrow> 'o sim_object \<Rightarrow> int \<Rightarrow> int \<Rightarrow> 'p option \<Rightarrow>
    sim_error + 'o sim_object" where
  "setFieldStructValuePointer base obj f i ptr = on_field base f (\<lambda>b. with_base obj (bd_set_struct_pointer b (fst obj) f i ptr))
     (\<lambda>_. bind_res (fromAnyPtr obj) (\<lambda>pp. Inl (SimError ''Cannot set field of class NSBMessage'')))"

section \<open>Laws of the descriptor\<close>

lemma own_fields:
  assumes "base_count base \<le> f" "f < getFieldCount base"
  shows "f = base_count base \<or> f = base_count base + 1 \<or> f = base_count base + 2"
  using assms by (auto simp: getFieldCount_def)

lemma on_field_own: "0 \<le> k \<Longrightarrow> on_field base (base_count base + k) inherited own = own k"
  by (simp add: on_field_def base_count_def split: option.split)

lemma on_field_own0: "on_field base (base_count base) inherited own = own 0"
  using on_field_own [of 0] by simp

lemma own_table3 [simp]:
  "own_table [x, y, z] d 0 = x" "own_table [x, y, z] d 1 = y" "own_table [x, y, z] d 2 = z"
  by (simp_all add: own_table_def)

lemmas own_access = on_field_own [of 1] on_field_own [of 2] on_field_own0

lemmas field_defs = setSrcId_def setDestId_def setPayload_def getSrcId_def getDestId_def getPayload_def

lemma doesSupport_cast: "doesSupport (Some obj) \<longleftrightarrow> (\<exists>m. fromAnyPtr obj = Inr m)"
  by (cases obj) (auto simp: doesSupport_def fromAnyPtr_def split: option.split)

lemma other_own_fields:
  "(\<forall>g. base_count base \<le> g \<and> g < getFieldCount base \<and> g \<noteq> f \<longrightarrow> P g) \<longleftrightarrow>
     (\<forall>k\<in>{0, 1, 2}. base_count base + k \<noteq> f \<longrightarrow> P (base_count base + k))"
  using own_fields by (fastforce simp: getFieldCount_def)

text \<open>C25: The descriptor of \<open>NSBMessage\<close> is consistent: each own field has a name by which it is found, and a
  string or \<open>cValue\<close> set through the descriptor is read back, cut at its first NUL, without a change to the other
  fields or to the base part.  On an object of another class the same calls end in an error.\<close>

theorem descriptor_roundtrip:
  assumes "base_count base \<le> f" "f < getFieldCount base" "stringValue cv = Inr v"
  shows "(\<exists>name. getFieldName base f = Some name \<and> findField base name = f) \<and>
     (\<exists>m'. setFieldValueAsString base (o1, Some m) f i v = Inr (o1, Some m') \<and>
        setFieldValue stringValue base (o1, Some m) f i cv = Inr (o1, Some m') \<and>
        getFieldValueAsString base (o1, Some m') f i = Inr (c_str v) \<and> getFieldValue of_cstr base (o1, Some m') f i = Inr (of_cstr (c_str v)) \<and>
        (\<forall>g. base_count base \<le> g \<and> g < getFieldCount base \<and> g \<noteq> f \<longrightarrow>
           getFieldValueAsString base (o1, Some m') g i = getFieldValueAsString base (o1, Some m) g i)) \<and>
     (\<exists>e. setFieldValueAsString base (o1, None) f i v = Inl e \<and> setFieldValue stringValue base (o1, None) f i cv = Inl e \<and>
        getFieldValueAsString base (o1, None) f i = Inl e \<and> getFieldValue of_cstr base (o1, None) f i = Inl e)"
proof -
  have cc: "c_str (c_str v) = c_str v" by (simp add: c_str_def takeWhile_idem)
  from own_fields [OF assms(1,2)] show ?thesis
    unfolding other_own_fields
    by (elim disjE)
      (simp_all add: getFieldName_def findField_def setFieldValueAsString_def getFieldValueAsString_def setFieldValue_def
        getFieldValue_def own_access field_defs cc put_own_def fromAnyPtr_def assms(3))
qed

theorem descriptor_roundtrip_witness:
  "\<exists>m'. setFieldValueAsString (None :: (unit, string, unit) base_descriptor option) ((), Some new_nsb_message) 1 0 ''host3'' = Inr ((), Some m') \<and>
     getFieldValueAsString (None :: (unit, string, unit) base_descriptor option) ((), Some m') 1 0 = Inr ''host3''"
proof -
  have "c_str ''host3'' = ''host3''" by (simp add: c_str_def)
  with descriptor_roundtrip [of "None :: (unit, string, unit) base_descriptor option" 1 Inr "''host3''" "''host3''" "()" new_nsb_message 0]
  show ?thesis by (auto simp: base_count_def getFieldCount_def)
qed

text \<open>No own field is an array or a structure: what one may ask of such fields has the default answer, what one may do to
  them is an error.\<close>

lemma own_fields_are_plain:
  assumes "base_count base \<le> f"
  shows "getFieldArraySize base (o1, Some m) f = Inr 0" "getFieldStructName base f = None" "getFieldPropertyNames base f = None"
    "getFieldProperty base f name = None" "getFieldDynamicTypeString base (o1, Some m) f i = Inr None"
    "getFieldStructValuePointer base (o1, Some m) f i = Inr None" "\<exists>e. setFieldArraySize base (o1, Some m) f n = Inl e"
    "\<exists>e. setFieldStructValuePointer base (o1, Some m) f i ptr = Inl e"
  using assms
  by (cases base; simp add: getFieldArraySize_def getFieldStructName_def getFieldPropertyNames_def getFieldProperty_def
      getFieldDynamicTypeString_def getFieldStructValuePointer_def setFieldArraySize_def setFieldStructValuePointer_def
      on_field_def base_count_def fromAnyPtr_def)+

text \<open>The property names are merged once: a later call gives the same list and leaves the descriptor as it is.\<close>

lemma getPropertyNames_cached:
  assumes "getPropertyNames merge base st = (l, st')"
  shows "getPropertyNames merge' base' st' = (l, st')"
  using assms by (auto simp: getPropertyNames_def Let_def split: option.splits)

end
