(* ===== verification/NSB_OMNeT_Facts.thy ===== *)
theory NSB_OMNeT_Facts
  imports NSB_OMNeT
begin

text \<open>
  The OMNeT++ hosts together with daemon and applications: in every interleaving the messages
  between two hosts arrive in order, each once, changed only by the cut of the payload, and no
  handler ends in an exception when the destinations are hosts of the network.
\<close>

section \<open>Requests that find nothing\<close>

lemma handle_response_none:
  assumes "bs \<noteq> []" "parse (pb ce) bs = Some (entry_reply d opn empty_entry out)"
  shows "handle_response ce opn bs c w = Inr (empty_entry, c, w)"
  using assms by (simp add: handle_response_def nsb_simps)

lemma sim_fetch_loop_none:
  assumes "on_loop env fds exec ce" "originIndicator c = Some og"
    "SYSTEM_MODE (c_cfg c) = PULL" "SYSTEM_MODE (d_cfg (lw_daemon w)) = PULL"
    and "take_keyed source True (src_id (metadata (fetch_request c og k))) (tx_buffer (lw_daemon w)) = (None, tx)"
    and "transmits env (fetch_request c og k)"
    and "transmits env (entry_reply (lw_daemon w) FETCH empty_entry response_template)" "lw_inbox w (fds RECV_CH) = []"
  shows "sim_fetch ce k t c w = Inr (empty_entry, c, w\<lparr>lw_daemon := (lw_daemon w)\<lparr>tx_buffer := tx\<rparr>\<rparr>)"
proof -
  have "dispatch env (fetch_request c og k) (lw_daemon w) =
      Inr ((lw_daemon w)\<lparr>tx_buffer := tx\<rparr>, entry_reply (lw_daemon w) FETCH empty_entry response_template, True, [])"
    using dispatch_fetch [OF assms(5)] by (simp add: nsb_simps)
  from loop_request [OF assms(6) this assms(7), of fds RECV_CH "Some t"] assms
  show ?thesis
    using handle_response_none [of _ ce "lw_daemon w" FETCH response_template c]
    by (auto simp: sim_fetch_def pull_or_wait_def on_loop_def)
qed

lemma app_receive_loop_none:
  assumes "on_loop env fds exec ce" "originIndicator c = Some og"
    "SYSTEM_MODE (c_cfg c) = PULL" "SYSTEM_MODE (d_cfg (lw_daemon w)) = PULL"
    and "take_keyed destination True (dest_id (metadata (receive_request c og k))) (rx_buffer (lw_daemon w)) = (None, rx)"
    and "transmits env (receive_request c og k)"
    and "transmits env (entry_reply (lw_daemon w) RECEIVE empty_entry response_template)" "lw_inbox w (fds RECV_CH) = []"
  shows "app_receive ce k t c w = Inr (empty_entry, c, w\<lparr>lw_daemon := (lw_daemon w)\<lparr>rx_buffer := rx\<rparr>\<rparr>)"
proof -
  have "dispatch env (receive_request c og k) (lw_daemon w) =
      Inr ((lw_daemon w)\<lparr>rx_buffer := rx\<rparr>, entry_reply (lw_daemon w) RECEIVE empty_entry response_template, True, [])"
    using dispatch_receive [OF assms(5)] by (simp add: nsb_simps)
  from loop_request [OF assms(6) this assms(7), of fds RECV_CH "Some t"] assms
  show ?thesis
    using handle_response_none [of _ ce "lw_daemon w" RECEIVE response_template c]
    by (auto simp: app_receive_def pull_or_wait_def on_loop_def)
qed

section \<open>Packets\<close>

definition packet_of :: "message_entry \<Rightarrow> nsb_message" where
  "packet_of e = setPayload (payload_obj e) (setDestId (destination e) (setSrcId (source e) new_nsb_message))"

definition entry_of_packet :: "nsb_message \<Rightarrow> message_entry" where
  "entry_of_packet m = mk_entry (getSrcId m) (getDestId m) (getPayload m) (int_of_size (getPayload m))"

lemma c_str_idem [simp]: "c_str (c_str s) = c_str s"
  by (simp add: c_str_def takeWhile_idem)

lemma packet_of_sel [simp]:
  "getSrcId (packet_of e) = c_str (source e)" "getDestId (packet_of e) = c_str (destination e)"
  "getPayload (packet_of e) = c_str (payload_obj e)"
  by (simp_all add: packet_of_def setPayload_def setDestId_def setSrcId_def new_nsb_message_def
      getSrcId_def getDestId_def getPayload_def)

lemma cut_entry_sel [simp]:
  "source (cut_entry e) = source e" "destination (cut_entry e) = destination e"
  "payload_obj (cut_entry e) = c_str (payload_obj e)"
  by (simp_all add: cut_entry_def)

text \<open>A message between two hosts, and one from host \<open>i\<close> to host \<open>j\<close>.\<close>

definition host_entry :: "nat \<Rightarrow> message_entry \<Rightarrow> bool" where
  "host_entry n e \<longleftrightarrow> (\<exists>i<n. source e = host_name (int i)) \<and> (\<exists>j<n. destination e = host_name (int j))"

definition between :: "nat \<Rightarrow> nat \<Rightarrow> message_entry \<Rightarrow> bool" where
  "between i j e \<longleftrightarrow> source e = host_name (int i) \<and> destination e = host_name (int j)"

lemma between_cut [simp]: "between i j (cut_entry e) = between i j e"
  by (simp add: between_def)

lemma between_unique: "between i j e \<Longrightarrow> between i' j' e \<longleftrightarrow> i' = i \<and> j' = j"
  by (auto simp: between_def)

lemma host_entry_between: "host_entry n e \<longleftrightarrow> (\<exists>i<n. \<exists>j<n. between i j e)"
  by (auto simp: host_entry_def between_def)

lemma entry_of_packet_of: "between i j e \<Longrightarrow> entry_of_packet (packet_of e) = cut_entry e"
  by (simp add: entry_of_packet_def cut_entry_def between_def)

text \<open>Taking by key preserves what matches a predicate that implies the key.\<close>

lemma filter_take_keyed:
  assumes "take_keyed key True k l = (r, l')" "k \<noteq> []" "\<And>x. q x \<Longrightarrow> key x = k"
  shows "filter q l = filter q (case r of None \<Rightarrow> [] | Some e \<Rightarrow> [e]) @ filter q l'"
proof -
  have f: "find_erase (\<lambda>x. key x = k) l = (r, l')" using assms(1,2) by (simp add: take_keyed_def)
  show ?thesis
  proof (cases r)
    case None
    with f show ?thesis by (simp add: find_erase_None)
  next
    case (Some e)
    with f obtain us vs where s: "l = us @ e # vs" "l' = us @ vs" "\<forall>u\<in>set us. key u \<noteq> k"
      by (auto elim: find_erase_SomeD)
    then have "filter q us = []" using assms(3) by (auto simp: filter_empty_conv)
    with s Some show ?thesis by simp
  qed
qed

lemma filter_take_keyed_other:
  assumes "take_keyed key True k l = (r, l')" "k \<noteq> []" "\<And>x. q x \<Longrightarrow> key x \<noteq> k"
  shows "filter q l' = filter q l"
  using assms filter_find_erase_other [of "\<lambda>x. key x = k" l r l' q] by (auto simp: take_keyed_def)

lemma take_keyed_key: "take_keyed key True k l = (Some e, l') \<Longrightarrow> k \<noteq> [] \<Longrightarrow> key e = k"
  by (auto simp: take_keyed_def elim: find_erase_SomeD)

section \<open>The handlers on the network\<close>

text \<open>What the wire has to carry: the requests of hosts and applications, responses without a message,
  and per message the four forms it takes.\<close>

definition om_wire :: "('b, 's) om_env \<Rightarrow> nat \<Rightarrow> daemon \<Rightarrow> bool" where
  "om_wire oe n d \<longleftrightarrow> (\<forall>i<n. on_loop (oe_io oe) (oe_host_fds oe i) (oe_exec oe) (oe_host oe i) \<and>
       on_loop (oe_io oe) (oe_app_fds oe i) (oe_exec oe) (oe_app oe i)) \<and>
     (\<forall>c. \<forall>i<n. clientId c = host_name (int i) \<longrightarrow>
       transmits (oe_io oe) (fetch_request c SIM_CLIENT None) \<and> transmits (oe_io oe) (receive_request c APP_CLIENT None)) \<and>
     (\<forall>opn. transmits (oe_io oe) (entry_reply d opn empty_entry response_template))"

definition om_sendable :: "'b io_env \<Rightarrow> daemon \<Rightarrow> message_entry \<Rightarrow> bool" where
  "om_sendable env d e \<longleftrightarrow> deliverable env d e \<and> deliverable env d (cut_entry e) \<and>
     transmits env (data_message SEND APP_CLIENT (source e) (destination e) (payload_obj e) (set_payload (payload_obj e))) \<and>
     transmits env (data_message POST SIM_CLIENT (source e) (destination e) (c_str (payload_obj e)) (set_payload (c_str (payload_obj e))))"

lemma om_sendable_cong: "d_cfg d = d_cfg d' \<Longrightarrow> om_sendable env d = om_sendable env d'"
  by (simp add: om_sendable_def fun_eq_iff deliverable_cong [of d d'])

lemma om_wire_cong: "d_cfg d = d_cfg d' \<Longrightarrow> om_wire oe n d = om_wire oe n d'"
  by (simp add: om_wire_def entry_reply_cfg [of d d'])

lemma entry_of_data:
  "\<not> USE_DB (d_cfg d) \<Longrightarrow> entry_of_msg d (data_message opn og src dest pl (set_payload pl)) = mk_entry src dest pl (int_of_size pl)"
  by (simp add: entry_of_msg_def msg_get_payload_obj_def nsb_simps)

text \<open>A configuration in which a step happens.\<close>

definition om_good :: "('b, 's) om_env \<Rightarrow> nat \<Rightarrow> ('b, 's) om_net \<Rightarrow> bool" where
  "om_good oe n s \<longleftrightarrow> om_config n s \<and> om_wire oe n (lw_daemon (on_world s)) \<and>
     (\<forall>e\<in>set (tx_buffer (lw_daemon (on_world s))). om_sendable (oe_io oe) (lw_daemon (on_world s)) e \<and> host_entry n e) \<and>
     (\<forall>e\<in>set (rx_buffer (lw_daemon (on_world s))). deliverable (oe_io oe) (lw_daemon (on_world s)) e) \<and>
     (\<forall>i j. \<forall>m\<in>set (on_links s (i, j)). i < n \<and> j < n \<and> (\<exists>e. m = packet_of e \<and> between i j e \<and>
        om_sendable (oe_io oe) (lw_daemon (on_world s)) e))"

lemma om_goodD:
  assumes "om_good oe n s" "i < n"
  shows "oh_id (on_hosts s i) = host_name (int i)" "clientId (oh_client (on_hosts s i)) = host_name (int i)"
    "oh_gates (on_hosts s i) = n" "ready SIM_CLIENT (lw_daemon (on_world s)) (oh_client (on_hosts s i))"
    "lw_inbox (on_world s) f = []" "int n < 2 ^ 31" "SYSTEM_MODE (d_cfg (lw_daemon (on_world s))) = PULL"
    "SIMULATOR_MODE (d_cfg (lw_daemon (on_world s))) = PER_NODE" "\<not> USE_DB (d_cfg (lw_daemon (on_world s)))"
    "on_loop (oe_io oe) (oe_host_fds oe i) (oe_exec oe) (oe_host oe i)"
    "on_loop (oe_io oe) (oe_app_fds oe i) (oe_exec oe) (oe_app oe i)"
    "clientId c = host_name (int i) \<Longrightarrow> transmits (oe_io oe) (fetch_request c SIM_CLIENT None)"
    "clientId c = host_name (int i) \<Longrightarrow> transmits (oe_io oe) (receive_request c APP_CLIENT None)"
    "transmits (oe_io oe) (entry_reply (lw_daemon (on_world s)) opn empty_entry response_template)"
  using assms by (auto simp: om_good_def om_config_def om_wire_def)

text \<open>A timer: the oldest message of the host's application, if there is one, goes to its gate.\<close>

lemma om_timer:
  assumes good: "om_good oe n s" and i: "i < n"
    and tk: "take_keyed source True (host_name (int i)) (tx_buffer (lw_daemon (on_world s))) = (r, tx)"
  shows "\<exists>calls. om_handleMessage (oe_host oe i) now SelfMsg (on_hosts s i) (on_world s) =
       Inr (Inr calls, on_hosts s i, (on_world s)\<lparr>lw_daemon := (lw_daemon (on_world s))\<lparr>tx_buffer := tx\<rparr>\<rparr>) \<and>
     (case r of None \<Rightarrow> calls = [ScheduleAt (now + oh_interval (on_hosts s i))]
        | Some e \<Rightarrow> \<exists>j<n. between i j e \<and> om_sendable (oe_io oe) (lw_daemon (on_world s)) e \<and>
            calls = [SendOut j (packet_of e), ScheduleAt (now + oh_interval (on_hosts s i))])"
proof -
  let ?h = "on_hosts s i" and ?w = "on_world s"
  let ?c = "oh_client ?h" and ?d = "lw_daemon ?w"
  note g = om_goodD [OF good i]
  have c: "originIndicator ?c = Some SIM_CLIENT" "\<not> USE_DB (c_cfg ?c)" "SYSTEM_MODE (c_cfg ?c) = PULL"
    "SIMULATOR_MODE (c_cfg ?c) = PER_NODE" using g(4,7,8,9) by (simp_all add: ready_def)
  have tk': "take_keyed source True (src_id (metadata (fetch_request ?c SIM_CLIENT None))) (tx_buffer ?d) = (r, tx)"
    using tk c(4) g(2) by (simp add: nsb_simps)
  have any: "sim_fetch_any (oe_host oe i) t ?c ?w = sim_fetch (oe_host oe i) None t ?c ?w" for t
    using c(3) by (simp add: sim_fetch_any_def by_mode_def)
  have h: "?h\<lparr>oh_client := ?c\<rparr> = ?h" by simp
  show ?thesis
  proof (cases r)
    case None
    have "sim_fetch (oe_host oe i) None t ?c ?w = Inr (empty_entry, ?c, ?w\<lparr>lw_daemon := ?d\<lparr>tx_buffer := tx\<rparr>\<rparr>)" for t
      by (rule sim_fetch_loop_none [OF g(10) c(1,3) g(7) _ g(12) [OF g(2)] g(14) g(5)]) (use tk' None in simp)
    with None any h show ?thesis by (simp add: om_handleMessage_def om_sendPacket_def)
  next
    case (Some e)
    have "e \<in> set (tx_buffer ?d)" using take_keyed_subset [OF tk] Some by blast
    with good have e: "om_sendable (oe_io oe) ?d e" "host_entry n e" by (auto simp: om_good_def)
    have src: "source e = host_name (int i)" using take_keyed_key tk Some by fastforce
    from e(2) obtain j where j: "j < n" "destination e = host_name (int j)" by (auto simp: host_entry_def)
    have ex: "entry_exists e" "transmits (oe_io oe) (entry_reply ?d FETCH e response_template)"
      using e(1) by (auto simp: om_sendable_def deliverable_def)
    have "sim_fetch (oe_host oe i) None t ?c ?w = Inr (e, ?c, ?w\<lparr>lw_daemon := ?d\<lparr>tx_buffer := tx\<rparr>\<rparr>)" for t
      by (rule sim_fetch_loop [OF g(10) c(1,2,3) g(7,9) _ ex(1) g(12) [OF g(2)] ex(2) g(5)]) (use tk' Some in simp)
    moreover have "host_index (c_str (destination e)) = Inr (int j)" using j g(6) by simp
    moreover have "send_out ?h (packet_of e) (int j) = Inr [SendOut j (packet_of e)]" using j g(3) by (simp add: send_out_def)
    moreover have "between i j e" using src j by (simp add: between_def)
    moreover have "setPayload (payload_obj e) (setDestId (host_name (int j)) (setSrcId (source e) new_nsb_message)) = packet_of e"
      by (simp add: packet_of_def j)
    ultimately show ?thesis using Some ex(1) any h j e(1)
      by (simp add: om_handleMessage_def om_sendPacket_def)
  qed
qed

text \<open>An arrival: the packet is for this host, which posts it.\<close>

lemma om_arrival:
  assumes good: "om_good oe n s" and i: "i < n" "j < n" and m: "on_links s (i, j) = m # ms"
  shows "om_handleMessage (oe_host oe j) now (Packet m) (on_hosts s j) (on_world s) =
       Inr (Inr [], on_hosts s j, (on_world s)\<lparr>lw_daemon := (lw_daemon (on_world s))\<lparr>rx_buffer :=
         rx_buffer (lw_daemon (on_world s)) @ [entry_of_packet m]\<rparr>\<rparr>)"
    and "\<exists>e. m = packet_of e \<and> between i j e \<and> om_sendable (oe_io oe) (lw_daemon (on_world s)) e"
proof -
  let ?h = "on_hosts s j" and ?w = "on_world s"
  let ?c = "oh_client ?h" and ?d = "lw_daemon ?w"
  note g = om_goodD [OF good i(2)]
  have "m \<in> set (on_links s (i, j))" by (simp add: m)
  with good show e: "\<exists>e. m = packet_of e \<and> between i j e \<and> om_sendable (oe_io oe) ?d e"
    unfolding om_good_def by blast
  then obtain e where e: "m = packet_of e" "between i j e" "om_sendable (oe_io oe) ?d e" by blast
  have c: "originIndicator ?c = Some SIM_CLIENT" "\<not> USE_DB (c_cfg ?c)" using g(4,9) by (simp_all add: ready_def)
  have id: "getDestId m = host_name (int j)" "getSrcId m = source e" "getPayload m = c_str (payload_obj e)" "destination e = host_name (int j)"
    using e(1,2) by (simp_all add: between_def)
  have t: "transmits (oe_io oe) (data_message POST SIM_CLIENT (source e) (destination e) (c_str (payload_obj e)) (set_payload (c_str (payload_obj e))))"
    using e(3) by (simp add: om_sendable_def)
  have "sim_post (oe_host oe j) (source e) (destination e) (c_str (payload_obj e)) ?c ?w =
      Inr ([], ?c, ?w\<lparr>lw_daemon := ?d\<lparr>rx_buffer := rx_buffer ?d @ [entry_of_packet m]\<rparr>\<rparr>)"
    using sim_post_loop [OF g(10) c t refl g(7)] entry_of_data [OF g(9)] id by (simp add: entry_of_packet_def)
  with id g(1,6) i(2) show "om_handleMessage (oe_host oe j) now (Packet m) ?h ?w =
       Inr (Inr [], ?h, ?w\<lparr>lw_daemon := ?d\<lparr>rx_buffer := rx_buffer ?d @ [entry_of_packet m]\<rparr>\<rparr>)"
    by (simp add: om_handleMessage_def om_processPacket_def)
qed

section \<open>The invariant\<close>

abbreviation om_tx :: "('b, 's) om_net \<Rightarrow> message_entry list" where
  "om_tx s \<equiv> tx_buffer (lw_daemon (on_world s))"

abbreviation om_rx :: "('b, 's) om_net \<Rightarrow> message_entry list" where
  "om_rx s \<equiv> rx_buffer (lw_daemon (on_world s))"

text \<open>Where the messages from host \<open>i\<close> to host \<open>j\<close> are, oldest first.\<close>

definition om_flow :: "('b, 's) om_net \<Rightarrow> nat \<Rightarrow> nat \<Rightarrow> message_entry list" where
  "om_flow s i j = filter (between i j) (on_received s @ om_rx s) @ map entry_of_packet (on_links s (i, j)) @
     map cut_entry (filter (between i j) (om_tx s))"

definition om_inv :: "('b, 's) om_env \<Rightarrow> nat \<Rightarrow> daemon \<Rightarrow> ('b, 's) om_net \<Rightarrow> bool" where
  "om_inv oe n d s \<longleftrightarrow> om_good oe n s \<and> d_cfg (lw_daemon (on_world s)) = d_cfg d \<and>
     (\<forall>i j. map cut_entry (filter (between i j) (on_sent s)) = om_flow s i j)"

lemma om_good_update:
  assumes good: "om_good oe n s" and h: "on_hosts s' = on_hosts s"
    and w: "on_world s' = (on_world s)\<lparr>lw_daemon := (lw_daemon (on_world s))\<lparr>tx_buffer := tx, rx_buffer := rx\<rparr>\<rparr>"
    and tx: "\<forall>e\<in>set tx. om_sendable (oe_io oe) (lw_daemon (on_world s)) e \<and> host_entry n e"
    and rx: "\<forall>e\<in>set rx. deliverable (oe_io oe) (lw_daemon (on_world s)) e"
    and l: "\<forall>i j. \<forall>m\<in>set (on_links s' (i, j)). m \<in> set (on_links s (i, j)) \<or> (i < n \<and> j < n \<and> (\<exists>e. m = packet_of e \<and>
        between i j e \<and> om_sendable (oe_io oe) (lw_daemon (on_world s)) e))"
  shows "om_good oe n s' \<and> d_cfg (lw_daemon (on_world s')) = d_cfg (lw_daemon (on_world s))"
proof -
  let ?d = "lw_daemon (on_world s)" and ?d' = "lw_daemon (on_world s')"
  have c: "d_cfg ?d' = d_cfg ?d" "om_tx s' = tx" "om_rx s' = rx" "lw_inbox (on_world s') = lw_inbox (on_world s)"
    by (simp_all add: w)
  have "om_config n s'" using good c h by (auto simp: om_good_def om_config_def ready_def)
  moreover have "om_wire oe n ?d'" using good om_wire_cong [OF c(1), of oe n] by (simp add: om_good_def)
  ultimately show ?thesis
    using tx rx l good c om_sendable_cong [OF c(1), of "oe_io oe"] deliverable_cong [OF c(1), of "oe_io oe"]
    unfolding om_good_def by (auto 0 4)
qed

lemma om_flow_send:
  assumes "on_received s' = on_received s" "on_links s' = on_links s" "om_rx s' = om_rx s" "om_tx s' = om_tx s @ [e]"
  shows "om_flow s' i j = om_flow s i j @ (if between i j e then [cut_entry e] else [])"
  using assms by (simp add: om_flow_def)

lemma om_flow_timer_none:
  assumes "on_received s' = on_received s" "on_links s' = on_links s" "om_rx s' = om_rx s"
    "take_keyed source True (host_name (int k)) (om_tx s) = (None, om_tx s')"
  shows "om_flow s' i j = om_flow s i j"
proof -
  have "om_tx s' = om_tx s" using assms(4) by (simp add: take_keyed_def find_erase_None)
  with assms show ?thesis by (simp add: om_flow_def)
qed

lemma om_flow_timer_some:
  assumes "on_received s' = on_received s" "om_rx s' = om_rx s"
    "take_keyed source True (host_name (int k)) (om_tx s) = (Some e, om_tx s')" "between k l e"
    "on_links s' = (on_links s)((k, l) := on_links s (k, l) @ [packet_of e])"
  shows "om_flow s' i j = om_flow s i j"
proof (cases "i = k")
  case True
  then have "filter (between i j) (om_tx s) = filter (between i j) [e] @ filter (between i j) (om_tx s')"
    using filter_take_keyed [OF assms(3), of "between i j"] by (simp add: between_def)
  with True assms entry_of_packet_of [OF assms(4)] between_unique [OF assms(4), of i j] show ?thesis
    by (auto simp: om_flow_def)
next
  case False
  then have "filter (between i j) (om_tx s') = filter (between i j) (om_tx s)"
    using filter_take_keyed_other [OF assms(3), of "between i j"] by (simp add: between_def)
  with False assms show ?thesis by (simp add: om_flow_def)
qed

lemma om_flow_arrive:
  assumes "on_received s' = on_received s" "om_tx s' = om_tx s" "om_rx s' = om_rx s @ [entry_of_packet m]"
    "on_links s (k, l) = m # ms" "on_links s' = (on_links s)((k, l) := ms)" "m = packet_of e" "between k l e"
  shows "om_flow s' i j = om_flow s i j"
  using assms entry_of_packet_of [OF assms(7)] between_unique [OF assms(7), of i j]
  by (auto simp: om_flow_def)

lemma om_flow_receive:
  assumes "on_links s' = on_links s" "om_tx s' = om_tx s"
    "take_keyed destination True (host_name (int k)) (om_rx s) = (r, om_rx s')"
    "on_received s' = on_received s @ (case r of None \<Rightarrow> [] | Some e \<Rightarrow> [e])"
  shows "om_flow s' i j = om_flow s i j"
proof -
  have "filter (between i j) (om_rx s) = filter (between i j) (case r of None \<Rightarrow> [] | Some e \<Rightarrow> [e]) @ filter (between i j) (om_rx s')"
  proof (cases "j = k")
    case True
    then show ?thesis using filter_take_keyed [OF assms(3), of "between i j"] by (simp add: between_def)
  next
    case False
    then have "filter (between i j) (om_rx s') = filter (between i j) (om_rx s)"
      using filter_take_keyed_other [OF assms(3), of "between i j"] by (simp add: between_def)
    moreover have "r = Some e \<Longrightarrow> \<not> between i j e" for e
      using take_keyed_key [of destination "host_name (int k)" "om_rx s"] assms(3) False by (auto simp: between_def)
    ultimately show ?thesis by (auto split: option.split)
  qed
  with assms show ?thesis by (simp add: om_flow_def)
qed

text \<open>Every step keeps the invariant.\<close>

lemma om_inv_send:
  assumes inv: "om_inv oe n d s" and i: "i < n" and c: "clientId ca = host_name (int i)" "ready APP_CLIENT (lw_daemon (on_world s)) ca"
    and snd: "app_send (oe_app oe i) (host_name (int j)) pl ca (on_world s) = Inr (key, ca', w)"
    and s': "s' = s\<lparr>on_world := w, on_sent := on_sent s @ [mk_entry (host_name (int i)) (host_name (int j)) pl (int_of_size pl)]\<rparr>"
    and ok: "\<forall>e\<in>set (on_sent s'). om_sendable (oe_io oe) d e \<and> host_entry n e"
  shows "om_inv oe n d s'"
proof -
  let ?e = "mk_entry (host_name (int i)) (host_name (int j)) pl (int_of_size pl)"
  let ?d = "lw_daemon (on_world s)"
  have good: "om_good oe n s" and cfg: "d_cfg ?d = d_cfg d" using inv by (simp_all add: om_inv_def)
  note g = om_goodD [OF good i]
  have e: "om_sendable (oe_io oe) ?d ?e" "host_entry n ?e" using ok s' om_sendable_cong [OF cfg, of "oe_io oe"] by simp_all
  have "originIndicator ca = Some APP_CLIENT" "\<not> USE_DB (c_cfg ca)" using c(2) g(9) by (simp_all add: ready_def)
  moreover have "transmits (oe_io oe) (data_message SEND APP_CLIENT (clientId ca) (host_name (int j)) pl (set_payload pl))"
    using e(1) c(1) by (simp add: om_sendable_def)
  ultimately have w: "w = (on_world s)\<lparr>lw_daemon := ?d\<lparr>tx_buffer := tx_buffer ?d @ [?e]\<rparr>\<rparr>"
    using app_send_loop [OF g(11) _ _ _ refl g(7)] snd entry_of_data [OF g(9)] c(1) by fastforce
  have u: "om_good oe n s' \<and> d_cfg (lw_daemon (on_world s')) = d_cfg ?d"
  proof (rule om_good_update [OF good])
    show "on_world s' = (on_world s)\<lparr>lw_daemon := ?d\<lparr>tx_buffer := om_tx s @ [?e], rx_buffer := om_rx s\<rparr>\<rparr>"
      by (simp add: s' w)
  qed (use good e s' in \<open>auto simp: om_good_def\<close>)
  have "om_flow s' i' j' = om_flow s i' j' @ (if between i' j' ?e then [cut_entry ?e] else [])" for i' j'
    by (rule om_flow_send) (simp_all add: s' w)
  with inv u cfg s' show ?thesis by (simp add: om_inv_def)
qed

lemma om_inv_timer:
  assumes inv: "om_inv oe n d s" and i: "i < n"
    and t: "om_handleMessage (oe_host oe i) now SelfMsg (on_hosts s i) (on_world s) = Inr (Inr calls, h, w)"
    and s': "s' = s\<lparr>on_hosts := (on_hosts s)(i := h), on_links := om_route i calls (on_links s), on_world := w\<rparr>"
  shows "om_inv oe n d s'"
proof -
  let ?d = "lw_daemon (on_world s)"
  have good: "om_good oe n s" and cfg: "d_cfg ?d = d_cfg d" using inv by (simp_all add: om_inv_def)
  obtain r tx where tk: "take_keyed source True (host_name (int i)) (om_tx s) = (r, tx)" by fastforce
  have w: "h = on_hosts s i" "w = (on_world s)\<lparr>lw_daemon := ?d\<lparr>tx_buffer := tx\<rparr>\<rparr>"
    and r: "case r of None \<Rightarrow> calls = [ScheduleAt (now + oh_interval (on_hosts s i))]
        | Some e \<Rightarrow> \<exists>j<n. between i j e \<and> om_sendable (oe_io oe) ?d e \<and>
            calls = [SendOut j (packet_of e), ScheduleAt (now + oh_interval (on_hosts s i))]"
    using om_timer [OF good i tk, of now] t by auto
  have sub: "set tx \<subseteq> set (om_tx s)" using take_keyed_subset [OF tk] by blast
  have upd: "om_good oe n s' \<and> d_cfg (lw_daemon (on_world s')) = d_cfg ?d"
    if l: "\<forall>i j. \<forall>m\<in>set (on_links s' (i, j)). m \<in> set (on_links s (i, j)) \<or> (i < n \<and> j < n \<and> (\<exists>e. m = packet_of e \<and>
        between i j e \<and> om_sendable (oe_io oe) ?d e))"
    by (rule om_good_update [OF good, where tx = tx and rx = "om_rx s"])
      (use good sub s' w l in \<open>auto simp: om_good_def\<close>)
  show ?thesis
  proof (cases r)
    case None
    with r have l: "on_links s' = on_links s" by (simp add: s' om_route_def)
    have "om_flow s' i' j' = om_flow s i' j'" for i' j'
      by (rule om_flow_timer_none [where k = i]) (use tk None l in \<open>simp_all add: s' w\<close>)
    with inv upd l cfg show ?thesis by (auto simp: om_inv_def s')
  next
    case (Some e)
    with r obtain j where j: "j < n" "between i j e" "om_sendable (oe_io oe) ?d e"
      and l: "on_links s' = (on_links s)((i, j) := on_links s (i, j) @ [packet_of e])"
      by (auto simp: s' om_route_def)
    have "om_flow s' i' j' = om_flow s i' j'" for i' j'
      by (rule om_flow_timer_some [where k = i, OF _ _ _ j(2) l]) (use tk Some in \<open>simp_all add: s' w\<close>)
    moreover have "om_good oe n s' \<and> d_cfg (lw_daemon (on_world s')) = d_cfg ?d"
      by (rule upd) (use i j l in auto)
    ultimately show ?thesis using inv cfg by (simp add: om_inv_def s')
  qed
qed

lemma om_inv_arrive:
  assumes inv: "om_inv oe n d s" and i: "i < n" "j < n" and m: "on_links s (i, j) = m # ms"
    and t: "om_handleMessage (oe_host oe j) now (Packet m) (on_hosts s j) (on_world s) = Inr (Inr calls, h, w)"
    and s': "s' = s\<lparr>on_hosts := (on_hosts s)(j := h), on_links := om_route j calls ((on_links s)((i, j) := ms)), on_world := w\<rparr>"
  shows "om_inv oe n d s'"
proof -
  let ?d = "lw_daemon (on_world s)"
  have good: "om_good oe n s" and cfg: "d_cfg ?d = d_cfg d" using inv by (simp_all add: om_inv_def)
  obtain e where e: "m = packet_of e" "between i j e" "om_sendable (oe_io oe) ?d e"
    using om_arrival(2) [OF good i m] by blast
  have w: "h = on_hosts s j" "calls = []" "w = (on_world s)\<lparr>lw_daemon := ?d\<lparr>rx_buffer := om_rx s @ [entry_of_packet m]\<rparr>\<rparr>"
    using om_arrival(1) [OF good i m, of now] t by auto
  have l: "on_links s' = (on_links s)((i, j) := ms)" by (simp add: s' w om_route_def)
  have "deliverable (oe_io oe) ?d (entry_of_packet m)"
    using e entry_of_packet_of [OF e(2)] by (simp add: om_sendable_def)
  then have "om_good oe n s' \<and> d_cfg (lw_daemon (on_world s')) = d_cfg ?d"
    by (intro om_good_update [OF good, where tx = "om_tx s" and rx = "om_rx s @ [entry_of_packet m]"])
      (use good m l s' w in \<open>auto simp: om_good_def\<close>)
  moreover have "om_flow s' i' j' = om_flow s i' j'" for i' j'
    by (rule om_flow_arrive [OF _ _ _ m l e(1,2)]) (simp_all add: s' w)
  ultimately show ?thesis using inv cfg by (simp add: om_inv_def s')
qed

lemma om_inv_receive:
  assumes inv: "om_inv oe n d s" and j: "j < n" and c: "clientId cb = host_name (int j)" "ready APP_CLIENT (lw_daemon (on_world s)) cb"
    and rc: "app_receive (oe_app oe j) None t cb (on_world s) = Inr (e, cb', w)"
    and s': "s' = s\<lparr>on_world := w, on_received := on_received s @ (if entry_exists e then [e] else [])\<rparr>"
  shows "om_inv oe n d s'"
proof -
  let ?d = "lw_daemon (on_world s)"
  have good: "om_good oe n s" and cfg: "d_cfg ?d = d_cfg d" using inv by (simp_all add: om_inv_def)
  note g = om_goodD [OF good j]
  have cb: "originIndicator cb = Some APP_CLIENT" "\<not> USE_DB (c_cfg cb)" "SYSTEM_MODE (c_cfg cb) = PULL"
    using c(2) g(7,9) by (simp_all add: ready_def)
  obtain r rx where tk: "take_keyed destination True (host_name (int j)) (om_rx s) = (r, rx)" by fastforce
  then have tk': "take_keyed destination True (dest_id (metadata (receive_request cb APP_CLIENT None))) (om_rx s) = (r, rx)"
    using c(1) by (simp add: nsb_simps)
  have x: "w = (on_world s)\<lparr>lw_daemon := ?d\<lparr>rx_buffer := rx\<rparr>\<rparr>"
    "(if entry_exists e then [e] else []) = (case r of None \<Rightarrow> [] | Some e \<Rightarrow> [e])"
  proof -
    have "w = (on_world s)\<lparr>lw_daemon := ?d\<lparr>rx_buffer := rx\<rparr>\<rparr> \<and>
      (if entry_exists e then [e] else []) = (case r of None \<Rightarrow> [] | Some e \<Rightarrow> [e])"
    proof (cases r)
      case None
      with app_receive_loop_none [OF g(11) cb(1,3) g(7) _ g(13) [OF c(1)] g(14) g(5), of rx t] tk' rc show ?thesis by simp
    next
      case (Some e1)
      then have "e1 \<in> set (om_rx s)" using take_keyed_subset [OF tk] by blast
      with good have "entry_exists e1" "transmits (oe_io oe) (entry_reply ?d RECEIVE e1 response_template)"
        by (auto simp: om_good_def deliverable_def)
      with app_receive_loop [OF g(11) cb g(7,9) _ _ g(13) [OF c(1)] _ g(5), of e1 rx t] tk' Some rc show ?thesis by simp
    qed
    then show "w = (on_world s)\<lparr>lw_daemon := ?d\<lparr>rx_buffer := rx\<rparr>\<rparr>"
      "(if entry_exists e then [e] else []) = (case r of None \<Rightarrow> [] | Some e \<Rightarrow> [e])" by blast+
  qed
  have "set rx \<subseteq> set (om_rx s)" using take_keyed_subset [OF tk] by blast
  then have "om_good oe n s' \<and> d_cfg (lw_daemon (on_world s')) = d_cfg ?d"
    by (intro om_good_update [OF good, where tx = "om_tx s" and rx = rx]) (use good s' x(1) in \<open>auto simp: om_good_def\<close>)
  moreover have "om_flow s' i' j' = om_flow s i' j'" for i' j'
    by (rule om_flow_receive [where k = j and r = r]) (use tk x in \<open>simp_all add: s'\<close>)
  ultimately show ?thesis using inv cfg by (simp add: om_inv_def s')
qed

lemma om_inv_step:
  assumes "om_step oe n s s'" "om_inv oe n d s" "\<forall>e\<in>set (on_sent s'). om_sendable (oe_io oe) d e \<and> host_entry n e"
  shows "om_inv oe n d s'"
  using assms(1)
proof (cases rule: om_step.cases)
  case (Send i ca j pl key ca' w)
  with assms show ?thesis by (blast intro: om_inv_send)
next
  case (Timer i now calls h w)
  with assms show ?thesis by (blast intro: om_inv_timer)
next
  case (Arrive i j m ms now calls h w)
  with assms show ?thesis by (blast intro: om_inv_arrive)
next
  case (Receive j cb t e cb' w)
  with assms show ?thesis by (blast intro: om_inv_receive)
qed

lemma om_inv_start: "om_start n s \<Longrightarrow> om_wire oe n (lw_daemon (on_world s)) \<Longrightarrow> om_inv oe n (lw_daemon (on_world s)) s"
  by (simp add: om_inv_def om_start_def om_good_def om_flow_def)

lemma om_sent_mono: "om_step oe n s s' \<Longrightarrow> set (on_sent s) \<subseteq> set (on_sent s')"
  by (erule om_stepE) auto

lemma om_reach_inv:
  assumes "om_reach oe n s0 s" "om_start n s0" "om_wire oe n (lw_daemon (on_world s0))"
  shows "\<forall>e\<in>set (on_sent s). om_sendable (oe_io oe) (lw_daemon (on_world s0)) e \<and> host_entry n e \<Longrightarrow>
    om_inv oe n (lw_daemon (on_world s0)) s"
  using assms(1)
proof (induction rule: om_reach_induct)
  case start
  show ?case by (rule om_inv_start [OF assms(2,3)])
next
  case (step s s')
  with om_sent_mono [OF step.hyps(2)] show ?case by (blast intro: om_inv_step)
qed

section \<open>Properties\<close>

text \<open>C13: The OMNeT++ network with its daemon (PULL, a simulator client per node): in every interleaving of
  sends, timers, arrivals and receives, the messages that the application of host \<open>i\<close> has sent to
  host \<open>j\<close> are, in order, those received, those waiting at the daemon for host \<open>j\<close>, those on the
  connection from \<open>i\<close> to \<open>j\<close> and those not yet fetched; in the network a payload is cut at its
  first NUL byte and its size becomes that of what is left.\<close>

theorem omnet_delivery:
  assumes "om_reach oe n s0 s" "om_start n s0" "om_wire oe n (lw_daemon (on_world s0))"
    and "\<forall>e\<in>set (on_sent s). om_sendable (oe_io oe) (lw_daemon (on_world s0)) e \<and> host_entry n e"
  shows "map cut_entry (filter (between i j) (on_sent s)) =
     filter (between i j) (on_received s @ rx_buffer (lw_daemon (on_world s))) @ map entry_of_packet (on_links s (i, j)) @
     map cut_entry (filter (between i j) (tx_buffer (lw_daemon (on_world s))))"
  using om_reach_inv [OF assms(1-3)] assms(4) unfolding om_inv_def om_flow_def by blast

text \<open>Two hosts; the application of the first sends to the second, with a NUL in the payload.\<close>

definition wit_om_env :: "(nsbm, string \<Rightarrow> string option) om_env" where
  "wit_om_env = \<lparr>oe_io = fragment_env, oe_exec = map_server, oe_host = (\<lambda>i. wit_env (100 + 3 * int i)),
     oe_host_fds = (\<lambda>i. wit_fds (100 + 3 * int i)), oe_app = (\<lambda>i. wit_env (200 + 3 * int i)),
     oe_app_fds = (\<lambda>i. wit_fds (200 + 3 * int i))\<rparr>"

definition wit_om_cfg :: cfg where
  "wit_om_cfg = default_cfg\<lparr>SIMULATOR_MODE := PER_NODE\<rparr>"

definition wit_om_net :: "(nsbm, string \<Rightarrow> string option) om_net" where
  "wit_om_net = \<lparr>on_hosts = (\<lambda>i. \<lparr>oh_id = host_name (int i), oh_client = (new_sim_client (host_name (int i)))\<lparr>c_cfg := wit_om_cfg\<rparr>,
       oh_interval = 2, oh_gates = 2\<rparr>), on_links = (\<lambda>_. []),
     on_world = wit_world\<lparr>lw_daemon := wit_daemon\<lparr>d_cfg := wit_om_cfg\<rparr>\<rparr>, on_sent = [], on_received = []\<rparr>"

definition wit_om_entry :: message_entry where
  "wit_om_entry = mk_entry (host_name 0) (host_name 1) [CHR ''h'', CHR 0x00, CHR ''i''] 3"

definition wit_om_sent :: "(nsbm, string \<Rightarrow> string option) om_net" where
  "wit_om_sent = wit_om_net\<lparr>on_world := wit_world\<lparr>lw_daemon := wit_daemon\<lparr>d_cfg := wit_om_cfg, tx_buffer := [wit_om_entry]\<rparr>\<rparr>,
     on_sent := [wit_om_entry]\<rparr>"

lemma wit_om_start: "om_start 2 wit_om_net"
  by (simp add: om_start_def om_config_def wit_om_net_def wit_world_def wit_daemon_def wit_om_cfg_def default_cfg_def
      ready_def new_sim_client_def new_client_def)

lemma wit_om_wire: "om_wire wit_om_env n d"
  by (simp add: om_wire_def wit_om_env_def)

lemma wit_om_reach: "om_reach wit_om_env 2 wit_om_net wit_om_sent"
proof -
  let ?ca = "(new_app_client (host_name 0))\<lparr>c_cfg := wit_om_cfg\<rparr>"
  have ca: "originIndicator ?ca = Some APP_CLIENT" "\<not> USE_DB (c_cfg ?ca)" "clientId ?ca = host_name (int 0)"
    by (simp_all add: new_app_client_def new_client_def wit_om_cfg_def default_cfg_def)
  have r: "ready APP_CLIENT (lw_daemon (on_world wit_om_net)) ?ca"
    by (simp add: ready_def wit_om_net_def wit_world_def wit_daemon_def wit_om_cfg_def default_cfg_def new_app_client_def new_client_def)
  have p: "SYSTEM_MODE (d_cfg (lw_daemon (on_world wit_om_net))) = PULL" "\<not> USE_DB (d_cfg (lw_daemon (on_world wit_om_net)))"
    by (simp_all add: wit_om_net_def wit_om_cfg_def default_cfg_def)
  have "app_send (oe_app wit_om_env 0) (host_name (int 1)) [CHR ''h'', CHR 0x00, CHR ''i''] ?ca (on_world wit_om_net) =
      Inr ([], ?ca, on_world wit_om_sent)"
    using app_send_loop [OF wit_env_on_loop ca(1,2) _ refl p(1)] entry_of_data [OF p(2)] ca(3)
    by (simp add: wit_om_env_def wit_om_net_def wit_om_sent_def wit_om_entry_def wit_world_def wit_daemon_def int_of_size_def)
  from om_step.Send [OF _ ca(3) r this, of 2] have "om_step wit_om_env 2 wit_om_net wit_om_sent"
    by (simp add: wit_om_sent_def wit_om_net_def wit_om_entry_def int_of_size_def)
  then show ?thesis by (simp add: om_reach_def)
qed

lemma wit_om_ok: "\<forall>e\<in>set (on_sent wit_om_sent). om_sendable (oe_io wit_om_env) d e \<and> host_entry 2 e"
  by (auto simp: wit_om_sent_def wit_om_entry_def wit_om_env_def om_sendable_def host_entry_def cut_entry_def c_str_def
      intro: exI [of _ "0::nat"] exI [of _ "1::nat"])

theorem omnet_delivery_witness:
  "map cut_entry (filter (between 0 1) (on_sent wit_om_sent)) =
     filter (between 0 1) (on_received wit_om_sent @ rx_buffer (lw_daemon (on_world wit_om_sent))) @
     map entry_of_packet (on_links wit_om_sent (0, 1)) @ map cut_entry (filter (between 0 1) (tx_buffer (lw_daemon (on_world wit_om_sent))))"
  by (rule omnet_delivery [OF wit_om_reach wit_om_start wit_om_wire wit_om_ok])

text \<open>C21: In the same system, as long as all messages that the applications have sent are from hosts of the network to
  hosts of the network and fit the wire (\<open>host_entry\<close>, \<open>om_sendable\<close>; any other destination ends a handler in an exception,
  \<open>omnet_bad_destination\<close>), no handler ends in an exception: whenever a timer fires or a packet
  arrives, the handler completes, a timer sets the next one, and the host posts what arrives.\<close>

theorem omnet_handlers_complete:
  assumes "om_reach oe n s0 s" "om_start n s0" "om_wire oe n (lw_daemon (on_world s0))"
    and "\<forall>e\<in>set (on_sent s). om_sendable (oe_io oe) (lw_daemon (on_world s0)) e \<and> host_entry n e" "j < n"
  shows "(\<exists>calls w. om_handleMessage (oe_host oe j) now SelfMsg (on_hosts s j) (on_world s) = Inr (Inr calls, on_hosts s j, w) \<and>
       last calls = ScheduleAt (now + oh_interval (on_hosts s j))) \<and>
     (\<forall>i<n. \<forall>m ms. on_links s (i, j) = m # ms \<longrightarrow>
       (\<exists>w. om_handleMessage (oe_host oe j) now (Packet m) (on_hosts s j) (on_world s) = Inr (Inr [], on_hosts s j, w) \<and>
         rx_buffer (lw_daemon w) = rx_buffer (lw_daemon (on_world s)) @ [entry_of_packet m]))"
proof -
  have good: "om_good oe n s" using om_reach_inv [OF assms(1-3)] assms(4) by (simp add: om_inv_def)
  obtain r tx where "take_keyed source True (host_name (int j)) (om_tx s) = (r, tx)" by fastforce
  from om_timer [OF good assms(5) this, of now] om_arrival(1) [OF good _ assms(5), of _ _ _ now]
  show ?thesis by (auto split: option.splits)
qed

text \<open>After the timer of the first host its message is on the link to the second.\<close>

lemma wit_om_link:
  "\<exists>s. om_reach wit_om_env 2 wit_om_net s \<and> on_sent s = on_sent wit_om_sent \<and> on_links s (0, 1) = [packet_of wit_om_entry] \<and>
     rx_buffer (lw_daemon (on_world s)) = []"
proof -
  let ?s = wit_om_sent
  let ?w = "(on_world ?s)\<lparr>lw_daemon := (lw_daemon (on_world ?s))\<lparr>tx_buffer := []\<rparr>\<rparr>"
  have good: "om_good wit_om_env 2 ?s"
    using om_reach_inv [OF wit_om_reach wit_om_start wit_om_wire] wit_om_ok by (simp add: om_inv_def)
  have b: "between 0 1 wit_om_entry" by (simp add: between_def wit_om_entry_def)
  have "take_keyed source True (host_name (int 0)) (tx_buffer (lw_daemon (on_world ?s))) = (Some wit_om_entry, [])"
    using b by (simp add: take_keyed_def wit_om_sent_def between_def)
  from om_timer [OF good _ this, of 3] obtain calls j where
    h: "om_handleMessage (oe_host wit_om_env 0) 3 SelfMsg (on_hosts ?s 0) (on_world ?s) = Inr (Inr calls, on_hosts ?s 0, ?w)"
    and j: "between 0 j wit_om_entry" "calls = [SendOut j (packet_of wit_om_entry), ScheduleAt (3 + oh_interval (on_hosts ?s 0))]" by auto
  have "j = 1" using j(1) b between_unique [OF b, of 0 j] by simp
  let ?s' = "?s\<lparr>on_hosts := (on_hosts ?s)(0 := on_hosts ?s 0), on_links := om_route 0 calls (on_links ?s), on_world := ?w\<rparr>"
  have "om_step wit_om_env 2 ?s ?s'" by (rule om_step.Timer [OF _ h]) simp
  with wit_om_reach have "om_reach wit_om_env 2 wit_om_net ?s'"
    unfolding om_reach_def by (rule rtranclp.rtrancl_into_rtrancl)
  moreover have "on_links ?s' (0, 1) = [packet_of wit_om_entry]"
    by (simp add: om_route_def j(2) \<open>j = 1\<close> wit_om_sent_def wit_om_net_def)
  moreover have "rx_buffer (lw_daemon ?w) = []" by (simp add: wit_om_sent_def wit_world_def wit_daemon_def)
  ultimately show ?thesis by (intro exI [of _ ?s']) simp
qed

theorem omnet_handlers_complete_witness:
  "\<exists>(s :: (nsbm, string \<Rightarrow> string option) om_net) calls w w'. on_links s (0, 1) = [packet_of wit_om_entry] \<and>
     om_handleMessage (oe_host wit_om_env 0) 4 SelfMsg (on_hosts s 0) (on_world s) = Inr (Inr calls, on_hosts s 0, w) \<and>
     last calls = ScheduleAt (4 + oh_interval (on_hosts s 0)) \<and>
     om_handleMessage (oe_host wit_om_env 1) 4 (Packet (packet_of wit_om_entry)) (on_hosts s 1) (on_world s) = Inr (Inr [], on_hosts s 1, w') \<and>
     rx_buffer (lw_daemon w') = [entry_of_packet (packet_of wit_om_entry)]"
proof -
  obtain s where s: "om_reach wit_om_env 2 wit_om_net s" "on_sent s = on_sent wit_om_sent"
    "on_links s (0, 1) = [packet_of wit_om_entry]" "rx_buffer (lw_daemon (on_world s)) = []"
    using wit_om_link by blast
  note c = omnet_handlers_complete [OF s(1) wit_om_start wit_om_wire wit_om_ok [folded s(2)], where now = 4]
  from conjunct1 [OF c [of 0]] obtain calls w where
    1: "om_handleMessage (oe_host wit_om_env 0) 4 SelfMsg (on_hosts s 0) (on_world s) = Inr (Inr calls, on_hosts s 0, w)"
      "last calls = ScheduleAt (4 + oh_interval (on_hosts s 0))" by auto
  have "\<exists>w'. om_handleMessage (oe_host wit_om_env 1) 4 (Packet (packet_of wit_om_entry)) (on_hosts s 1) (on_world s) = Inr (Inr [], on_hosts s 1, w') \<and>
      rx_buffer (lw_daemon w') = [entry_of_packet (packet_of wit_om_entry)]"
    using conjunct2 [OF c [of 1]] s(3,4) by fastforce
  then obtain w' where
    2: "om_handleMessage (oe_host wit_om_env 1) 4 (Packet (packet_of wit_om_entry)) (on_hosts s 1) (on_world s) = Inr (Inr [], on_hosts s 1, w')"
      "rx_buffer (lw_daemon w') = [entry_of_packet (packet_of wit_om_entry)]" by blast
  show ?thesis by (intro exI conjI) (rule s(3) 1 2)+
qed

text \<open>A destination that is not a host of the network (no number after four characters, a number
  without a gate) ends the timer's handler in an exception, which stops the simulation, after the
  daemon has handed the message out: it is lost, and no further timer is set.\<close>

theorem omnet_bad_destination:
  assumes "om_wire oe n (lw_daemon w)" "i < n" "oh_client h = c" "clientId c = host_name (int i)" "ready SIM_CLIENT (lw_daemon w) c"
    and "SYSTEM_MODE (d_cfg (lw_daemon w)) = PULL" "SIMULATOR_MODE (d_cfg (lw_daemon w)) = PER_NODE" "\<not> USE_DB (d_cfg (lw_daemon w))"
    and "lw_inbox w = (\<lambda>_. [])" "deliverable (oe_io oe) (lw_daemon w) e"
    and "take_keyed source True (host_name (int i)) (tx_buffer (lw_daemon w)) = (Some e, tx)"
    and "case host_index (c_str (destination e)) of Inl x \<Rightarrow> err = x
       | Inr k \<Rightarrow> (k < 0 \<or> int (oh_gates h) \<le> k) \<and> err = SimError ''no such gate''"
  shows "om_handleMessage (oe_host oe i) now SelfMsg h w =
     Inr (Inl err, h, w\<lparr>lw_daemon := (lw_daemon w)\<lparr>tx_buffer := tx\<rparr>\<rparr>)"
proof -
  let ?d = "lw_daemon w"
  have c: "originIndicator c = Some SIM_CLIENT" "\<not> USE_DB (c_cfg c)" "SYSTEM_MODE (c_cfg c) = PULL"
    "SIMULATOR_MODE (c_cfg c) = PER_NODE" using assms(5-8) by (simp_all add: ready_def)
  have tk: "take_keyed source True (src_id (metadata (fetch_request c SIM_CLIENT None))) (tx_buffer ?d) = (Some e, tx)"
    using assms(4,11) c(4) by (simp add: nsb_simps)
  have ex: "entry_exists e" "transmits (oe_io oe) (entry_reply ?d FETCH e response_template)"
    using assms(10) by (auto simp: deliverable_def)
  have wire: "on_loop (oe_io oe) (oe_host_fds oe i) (oe_exec oe) (oe_host oe i)" "transmits (oe_io oe) (fetch_request c SIM_CLIENT None)"
    using assms(1,2,4) by (auto simp: om_wire_def)
  have "sim_fetch_any (oe_host oe i) t c w = Inr (e, c, w\<lparr>lw_daemon := ?d\<lparr>tx_buffer := tx\<rparr>\<rparr>)" for t
    using sim_fetch_loop [OF wire(1) c(1-3) assms(6,8) tk ex(1) wire(2) ex(2)] assms(9) c(3)
    by (simp add: sim_fetch_any_def by_mode_def)
  moreover have "bind_res (host_index (c_str (destination e))) (send_out h m) = Inl err" for m
    using assms(12) by (auto simp: send_out_def split: sum.splits)
  moreover have "h\<lparr>oh_client := c\<rparr> = h" using assms(3) by auto
  ultimately show ?thesis using ex(1) assms(3) by (simp add: om_handleMessage_def om_sendPacket_def)
qed

theorem omnet_bad_destination_witness:
  "om_handleMessage (oe_host wit_om_env 0) 4 SelfMsg (on_hosts wit_om_net 0)
     (wit_world\<lparr>lw_daemon := wit_daemon\<lparr>d_cfg := wit_om_cfg, tx_buffer := [mk_entry (host_name 0) ''sink'' ''x'' 1]\<rparr>\<rparr>) =
   Inr (Inl StdInvalidArgument, on_hosts wit_om_net 0, wit_world\<lparr>lw_daemon := wit_daemon\<lparr>d_cfg := wit_om_cfg\<rparr>\<rparr>)"
proof -
  let ?d = "wit_daemon\<lparr>d_cfg := wit_om_cfg, tx_buffer := [mk_entry (host_name 0) ''sink'' ''x'' 1]\<rparr>"
  let ?w = "wit_world\<lparr>lw_daemon := ?d\<rparr>"
  let ?c = "(new_sim_client (host_name 0))\<lparr>c_cfg := wit_om_cfg\<rparr>"
  have h: "oh_client (on_hosts wit_om_net 0) = ?c" "oh_gates (on_hosts wit_om_net 0) = 2" by (simp_all add: wit_om_net_def)
  have c: "clientId ?c = host_name (int 0)" "ready SIM_CLIENT (lw_daemon ?w) ?c"
    by (simp_all add: ready_def new_sim_client_def new_client_def wit_om_cfg_def default_cfg_def)
  have m: "SYSTEM_MODE (d_cfg (lw_daemon ?w)) = PULL" "SIMULATOR_MODE (d_cfg (lw_daemon ?w)) = PER_NODE"
    "\<not> USE_DB (d_cfg (lw_daemon ?w))" "lw_inbox ?w = (\<lambda>_. [])"
    by (simp_all add: wit_om_cfg_def default_cfg_def wit_world_def)
  have d: "deliverable (oe_io wit_om_env) (lw_daemon ?w) (mk_entry (host_name 0) ''sink'' ''x'' 1)" by (simp add: wit_om_env_def)
  have k: "take_keyed source True (host_name (int 0)) (tx_buffer (lw_daemon ?w)) = (Some (mk_entry (host_name 0) ''sink'' ''x'' 1), [])"
    by (simp add: take_keyed_def)
  have "host_index (c_str ''sink'') = Inl StdInvalidArgument"
    by (simp add: c_str_def host_index_def substr_def stoi_def strtol_def)
  then have "case host_index (c_str (destination (mk_entry (host_name 0) ''sink'' ''x'' 1))) of Inl x \<Rightarrow> StdInvalidArgument = x
     | Inr j \<Rightarrow> (j < 0 \<or> int (oh_gates (on_hosts wit_om_net 0)) \<le> j) \<and> StdInvalidArgument = SimError ''no such gate''" by simp
  from omnet_bad_destination [OF wit_om_wire [of 2] _ h(1) c m d k this, of 4] show ?thesis by (simp add: wit_daemon_def)
qed

end
