(* ===== verification/NSB_INET.thy ===== *)
theory NSB_INET
  imports NSB_OMNeT_Facts
begin

text \<open>
  The INET applications (\<open>examples/omnet/nsb_omnet_inet/INETAppFiles\<close>).  \<open>nsbBasicApp\<close> fetches messages
  and sends each as a UDP packet \<open>[length][source][length][destination][payload]\<close>; \<open>nsbAppSink\<close> parses
  a packet and posts it.  INET is a parameter: the calls to it are values (\<open>inet_call\<close>), \<open>resolve\<close>
  is \<open>L3AddressResolver\<close>.  Simulation times are integers.
\<close>

section \<open>The packet format\<close>

text \<open>A \<open>uint16_t\<close> in memory, low byte first (the writer and the reader run in one process).\<close>

definition u16_bytes :: "16 word \<Rightarrow> string" where
  "u16_bytes w = [char_of (unat w mod 256), char_of (unat w div 256)]"

definition u16_of_bytes :: "string \<Rightarrow> 16 word" where
  "u16_of_bytes bs = of_nat (of_char (bs ! 0) + 256 * of_char (bs ! 1))"

definition u16_of_size :: "string \<Rightarrow> 16 word" where
  "u16_of_size s = of_nat (length s)"

text \<open>\<open>write(s.data(), len)\<close> with the length as reduced to 16 bits.\<close>

definition frame_string :: "string \<Rightarrow> string" where
  "frame_string s = (let len = u16_of_size s in u16_bytes len @ take (unat len) s)"

definition inet_frame :: "string \<Rightarrow> string \<Rightarrow> string \<Rightarrow> string" where
  "inet_frame src dest pl = frame_string src @ frame_string dest @ pl"

text \<open>\<open>std::istringstream\<close>: what is left, and whether the stream is still good.  A read from a failed
  stream does nothing; a short read takes what there is and fails the stream.\<close>

record istream =
  is_rest :: string
  is_good :: bool

definition stream_read :: "nat \<Rightarrow> istream \<Rightarrow> string \<times> istream" where
  "stream_read n s = (if \<not> is_good s then ([], s)
     else (take n (is_rest s), \<lparr>is_rest = drop n (is_rest s), is_good = (n \<le> length (is_rest s))\<rparr>))"

text \<open>A length is read over an uninitialised variable (\<open>ind\<close>: its two bytes), a string over NULs.\<close>

definition read_u16 :: "string \<Rightarrow> istream \<Rightarrow> 16 word \<times> istream" where
  "read_u16 ind s = (let (got, s1) = stream_read 2 s in (u16_of_bytes (got @ drop (length got) ind), s1))"

definition read_string :: "nat \<Rightarrow> istream \<Rightarrow> string \<times> istream" where
  "read_string n s = (let (got, s1) = stream_read n s in (got @ replicate (n - length got) CHR 0x00, s1))"

definition read_field :: "string \<Rightarrow> istream \<Rightarrow> string \<times> istream" where
  "read_field ind s = (let (len, s1) = read_u16 ind s in read_string (unat len) s1)"

definition sink_parse :: "string \<Rightarrow> string \<Rightarrow> string \<Rightarrow> string \<times> string \<times> string" where
  "sink_parse ind1 ind2 raw =
     (let (srcId, s1) = read_field ind1 \<lparr>is_rest = raw, is_good = True\<rparr>;
          (destId, s2) = read_field ind2 s1
      in (srcId, destId, is_rest s2))"

section \<open>nsbBasicApp\<close>

datatype 'a sock_opt = TimeToLive int | Dscp int | Tos int | MulticastInterface int | Broadcast | JoinLocalGroups
  | JoinGroup 'a | SetCallback

datatype 'a inet_call = Bind "'a option" | SetOption "'a sock_opt" | SendTo string 'a | SetDontFragment | ScheduleSelf int
  | CancelSelf | CloseSocket | DestroySocket | LeaveGroup 'a | DelayFinish | FinishOrExtraTime

text \<open>The parameters of the module that are read at the start; \<open>pr_interface\<close> is the node's interface
  table, \<open>pr_destAddresses\<close> the words of \<open>destAddresses\<close>.\<close>

record basic_pars =
  pr_localAddress :: string
  pr_timeToLive :: int
  pr_dscp :: int
  pr_tos :: int
  pr_multicastInterface :: string
  pr_interface :: "string \<Rightarrow> int option"
  pr_receiveBroadcast :: bool
  pr_joinLocal :: bool
  pr_destAddresses :: "string list"

text \<open>\<open>SelfMsgKinds\<close>.\<close>

definition START :: int where "START = 1"
definition SEND_KIND :: int where "SEND_KIND = 2"
definition BASIC_STOP :: int where "BASIC_STOP = 3"
definition SINK_STOP :: int where "SINK_STOP = 2"

record basic_app =
  ba_client :: client
  ba_startTime :: int
  ba_stopTime :: int
  ba_kind :: int
  ba_numSent :: i32
  ba_numReceived :: i32
  ba_dontFragment :: bool
  ba_pars :: basic_pars
  ba_dests :: "string list"

type_synonym ('a, 'w) app_result = "io_stop + (sim_error + 'a inet_call list) \<times> basic_app \<times> 'w"

definition ba_initialize :: "client \<Rightarrow> int \<Rightarrow> int \<Rightarrow> bool \<Rightarrow> basic_pars \<Rightarrow> sim_error + basic_app" where
  "ba_initialize c startTime stopTime dontFragment pars =
     (if stopTime \<ge> 0 \<and> stopTime < startTime then Inl (SimError ''Invalid startTime/stopTime parameters'')
      else Inr \<lparr>ba_client = c, ba_startTime = startTime, ba_stopTime = stopTime, ba_kind = 0, ba_numSent = 0,
        ba_numReceived = 0, ba_dontFragment = dontFragment, ba_pars = pars, ba_dests = []\<rparr>)"

text \<open>The tag that forbids fragmentation is added when the packet has already been sent.\<close>

definition ba_sendPacket :: "(string \<Rightarrow> 'a option) \<Rightarrow> ('b, 'w) client_env \<Rightarrow> basic_app \<Rightarrow> 'w \<Rightarrow> ('a, 'w) app_result" where
  "ba_sendPacket resolve env app w = bind_res (sim_fetch_any env DAEMON_RESPONSE_TIMEOUT (ba_client app) w)
     (\<lambda>(e, c1, w1). let app1 = app\<lparr>ba_client := c1\<rparr> in
        Inr (if \<not> entry_exists e then (Inr [], app1, w1)
          else let raw = inet_frame (source e) (destination e) (payload_obj e) in
            case resolve (c_str (destination e)) of
              None \<Rightarrow> (Inl (SimError ''cannot resolve''), app1, w1)
            | Some a \<Rightarrow> (Inr (SendTo raw a # (if ba_dontFragment app then [SetDontFragment] else [])),
                app1\<lparr>ba_numSent := ba_numSent app + 1\<rparr>, w1)))"

text \<open>\<open>d\<close> is the value that \<open>par("sendInterval")\<close> takes this time.\<close>

definition ba_processSend :: "(string \<Rightarrow> 'a option) \<Rightarrow> ('b, 'w) client_env \<Rightarrow> int \<Rightarrow> int \<Rightarrow> basic_app \<Rightarrow> 'w \<Rightarrow> ('a, 'w) app_result" where
  "ba_processSend resolve env d now app w = bind_res (ba_sendPacket resolve env app w)
     (\<lambda>(r, app1, w1). Inr (case r of Inl e \<Rightarrow> (Inl e, app1, w1)
        | Inr calls \<Rightarrow>
            if ba_stopTime app < 0 \<or> now + d < ba_stopTime app
            then (Inr (calls @ [ScheduleSelf (now + d)]), app1\<lparr>ba_kind := SEND_KIND\<rparr>, w1)
            else (Inr (calls @ [ScheduleSelf (ba_stopTime app)]), app1\<lparr>ba_kind := BASIC_STOP\<rparr>, w1)))"

definition ba_setSocketOptions :: "basic_pars \<Rightarrow> sim_error + 'a inet_call list" where
  "ba_setSocketOptions p = bind_res (if pr_multicastInterface p = [] then Inr []
       else case pr_interface p (pr_multicastInterface p) of None \<Rightarrow> Inl (SimError ''Wrong multicastInterface setting'')
         | Some k \<Rightarrow> Inr [SetOption (MulticastInterface k)])
     (\<lambda>output. Inr ((if pr_timeToLive p \<noteq> -1 then [SetOption (TimeToLive (pr_timeToLive p))] else []) @
        (if pr_dscp p \<noteq> -1 then [SetOption (Dscp (pr_dscp p))] else []) @
        (if pr_tos p \<noteq> -1 then [SetOption (Tos (pr_tos p))] else []) @ output @
        (if pr_receiveBroadcast p then [SetOption Broadcast] else []) @
        (if pr_joinLocal p then [SetOption JoinLocalGroups] else []) @ [SetOption SetCallback]))"

text \<open>\<open>processStart\<close>: the socket is bound and set up, the destinations are appended to those of an earlier
  start.\<close>

definition ba_open :: "(string \<Rightarrow> 'a option) \<Rightarrow> basic_pars \<Rightarrow> sim_error + 'a inet_call list" where
  "ba_open resolve p = bind_res (if pr_localAddress p = [] then Inr None
       else case resolve (pr_localAddress p) of None \<Rightarrow> Inl (SimError ''cannot resolve'') | Some a \<Rightarrow> Inr (Some a))
     (\<lambda>local. bind_res (ba_setSocketOptions p) (\<lambda>opts. Inr (Bind local # opts)))"

definition ba_processStart :: "(string \<Rightarrow> 'a option) \<Rightarrow> ('b, 'w) client_env \<Rightarrow> int \<Rightarrow> int \<Rightarrow> basic_app \<Rightarrow> 'w \<Rightarrow> ('a, 'w) app_result" where
  "ba_processStart resolve env d now app w = (case ba_open resolve (ba_pars app) of Inl e \<Rightarrow> Inr (Inl e, app, w)
     | Inr opened \<Rightarrow>
        (let app0 = app\<lparr>ba_dests := ba_dests app @ pr_destAddresses (ba_pars app)\<rparr> in
         if ba_dests app0 \<noteq> []
         then bind_res (ba_processSend resolve env d now (app0\<lparr>ba_kind := SEND_KIND\<rparr>) w)
           (\<lambda>(r, app1, w1). Inr (bind_res r (\<lambda>calls. Inr (opened @ calls)), app1, w1))
         else if ba_stopTime app0 \<ge> 0
         then Inr (Inr (opened @ [ScheduleSelf (ba_stopTime app0)]), app0\<lparr>ba_kind := BASIC_STOP\<rparr>, w)
         else Inr (Inr opened, app0, w)))"

definition ba_processStop :: "'a inet_call list" where
  "ba_processStop = [CloseSocket]"

definition ba_processPacket :: "basic_app \<Rightarrow> basic_app" where
  "ba_processPacket app = app\<lparr>ba_numReceived := ba_numReceived app + 1\<rparr>"

text \<open>\<open>handleMessageWhenUp\<close>: a self message by its kind (\<open>None\<close>), a packet (\<open>Some\<close>), which is dropped
  and counted.\<close>

definition ba_handleMessage :: "(string \<Rightarrow> 'a option) \<Rightarrow> ('b, 'w) client_env \<Rightarrow> int \<Rightarrow> int \<Rightarrow> string option \<Rightarrow> basic_app \<Rightarrow> 'w \<Rightarrow>
    ('a, 'w) app_result" where
  "ba_handleMessage resolve env d now pk app w = (case pk of
     Some _ \<Rightarrow> Inr (Inr [], ba_processPacket app, w)
   | None \<Rightarrow>
      (if ba_kind app = START then ba_processStart resolve env d now app w
       else if ba_kind app = SEND_KIND then ba_processSend resolve env d now app w
       else if ba_kind app = BASIC_STOP then Inr (Inr ba_processStop, app, w)
       else Inr (Inl (SimError ''Invalid kind in self message''), app, w)))"

definition starts_at :: "int \<Rightarrow> int \<Rightarrow> int \<Rightarrow> int option" where
  "starts_at startTime stopTime now = (let s = max startTime now in
     if stopTime < 0 \<or> s < stopTime \<or> (s = stopTime \<and> startTime = stopTime) then Some s else None)"

definition ba_handleStart :: "int \<Rightarrow> basic_app \<Rightarrow> 'a inet_call list \<times> basic_app" where
  "ba_handleStart now app = (case starts_at (ba_startTime app) (ba_stopTime app) now of None \<Rightarrow> ([], app)
     | Some s \<Rightarrow> ([ScheduleSelf s], app\<lparr>ba_kind := START\<rparr>))"

definition ba_handleStop :: "'a inet_call list" where
  "ba_handleStop = [CancelSelf, CloseSocket, DelayFinish]"

definition ba_handleCrash :: "'a inet_call list" where
  "ba_handleCrash = [CancelSelf, DestroySocket]"

text \<open>\<open>socketClosed\<close>, while the node is stopping or not (the sink has the same).\<close>

definition socketClosed :: "bool \<Rightarrow> 'a inet_call list" where
  "socketClosed stopping = (if stopping then [FinishOrExtraTime] else [])"

section \<open>nsbAppSink\<close>

text \<open>\<open>sk_groupAddr\<close> is the parameter \<open>multicastGroup\<close>, \<open>sk_group\<close> the member of that name, \<open>None\<close> for the
  unspecified address.\<close>

record 'a app_sink =
  sk_client :: client
  sk_startTime :: int
  sk_stopTime :: int
  sk_kind :: int
  sk_numReceived :: i32
  sk_receiveBroadcast :: bool
  sk_groupAddr :: string
  sk_group :: "'a option"

definition sk_initialize :: "client \<Rightarrow> int \<Rightarrow> int \<Rightarrow> bool \<Rightarrow> string \<Rightarrow> sim_error + 'a app_sink" where
  "sk_initialize c startTime stopTime broadcast groupAddr =
     (if stopTime \<ge> 0 \<and> stopTime < startTime then Inl (SimError ''Invalid startTime/stopTime parameters'')
      else Inr \<lparr>sk_client = c, sk_startTime = startTime, sk_stopTime = stopTime, sk_kind = 0, sk_numReceived = 0,
        sk_receiveBroadcast = broadcast, sk_groupAddr = groupAddr, sk_group = None\<rparr>)"

definition sk_processPacket :: "string \<Rightarrow> string \<Rightarrow> ('b, 'w) client_env \<Rightarrow> string \<Rightarrow> 'a app_sink \<Rightarrow> 'w \<Rightarrow> io_stop + 'a app_sink \<times> 'w" where
  "sk_processPacket ind1 ind2 env raw sk w = (let (srcId, destId, pl) = sink_parse ind1 ind2 raw in
     bind_res (sim_post env srcId destId pl (sk_client sk) w)
       (\<lambda>(_, c1, w1). Inr (sk\<lparr>sk_client := c1, sk_numReceived := sk_numReceived sk + 1\<rparr>, w1)))"

text \<open>\<open>groups\<close> resolves the parameter (\<open>None\<close>: to the unspecified address) and says which addresses are
  multicast.\<close>

definition sk_setSocketOptions :: "(string \<Rightarrow> sim_error + 'a option) \<times> ('a \<Rightarrow> bool) \<Rightarrow> 'a app_sink \<Rightarrow>
    (sim_error + 'a inet_call list) \<times> 'a app_sink" where
  "sk_setSocketOptions groups sk =
     (let opts = (if sk_receiveBroadcast sk then [SetOption Broadcast] else []) @ [SetOption JoinLocalGroups] in
      case fst groups (sk_groupAddr sk) of Inl e \<Rightarrow> (Inl e, sk)
      | Inr None \<Rightarrow> (Inr (opts @ [SetOption SetCallback]), sk\<lparr>sk_group := None\<rparr>)
      | Inr (Some a) \<Rightarrow>
          (if \<not> snd groups a then Inl (SimError ''Wrong multicastGroup setting'')
           else Inr (opts @ [SetOption (JoinGroup a), SetOption SetCallback]), sk\<lparr>sk_group := Some a\<rparr>))"

definition sk_processStart :: "(string \<Rightarrow> sim_error + 'a option) \<times> ('a \<Rightarrow> bool) \<Rightarrow> 'a app_sink \<Rightarrow>
    (sim_error + 'a inet_call list) \<times> 'a app_sink" where
  "sk_processStart groups sk = (case sk_setSocketOptions groups sk of (Inl e, sk1) \<Rightarrow> (Inl e, sk1)
     | (Inr opts, sk1) \<Rightarrow>
         if sk_stopTime sk1 \<ge> 0 then (Inr (Bind None # opts @ [ScheduleSelf (sk_stopTime sk1)]), sk1\<lparr>sk_kind := SINK_STOP\<rparr>)
         else (Inr (Bind None # opts), sk1))"

definition leave_group :: "'a app_sink \<Rightarrow> 'a inet_call list" where
  "leave_group sk = (case sk_group sk of None \<Rightarrow> [] | Some a \<Rightarrow> [LeaveGroup a])"

definition sk_processStop :: "'a app_sink \<Rightarrow> 'a inet_call list" where
  "sk_processStop sk = leave_group sk @ [CloseSocket]"

text \<open>What arrives: the self message, a packet on the gate \<open>socketIn\<close>, or something on another gate.\<close>

datatype sink_event = SinkSelf | SinkPacket string | OtherGate

definition sk_handleMessage :: "(string \<Rightarrow> sim_error + 'a option) \<times> ('a \<Rightarrow> bool) \<Rightarrow> string \<Rightarrow> string \<Rightarrow> ('b, 'w) client_env \<Rightarrow>
    sink_event \<Rightarrow> 'a app_sink \<Rightarrow> 'w \<Rightarrow> io_stop + (sim_error + 'a inet_call list) \<times> 'a app_sink \<times> 'w" where
  "sk_handleMessage groups ind1 ind2 env ev sk w = (case ev of
     SinkSelf \<Rightarrow> Inr (if sk_kind sk = START then (let (r, sk1) = sk_processStart groups sk in (r, sk1, w))
        else if sk_kind sk = SINK_STOP then (Inr (sk_processStop sk), sk, w)
        else (Inl (SimError ''Invalid kind in self message''), sk, w))
   | SinkPacket raw \<Rightarrow> bind_res (sk_processPacket ind1 ind2 env raw sk w) (\<lambda>(sk1, w1). Inr (Inr [], sk1, w1))
   | OtherGate \<Rightarrow> Inr (Inl (SimError ''Unknown incoming gate''), sk, w))"

definition sk_handleStart :: "int \<Rightarrow> 'a app_sink \<Rightarrow> 'a inet_call list \<times> 'a app_sink" where
  "sk_handleStart now sk = (case starts_at (sk_startTime sk) (sk_stopTime sk) now of None \<Rightarrow> ([], sk)
     | Some s \<Rightarrow> ([ScheduleSelf s], sk\<lparr>sk_kind := START\<rparr>))"

definition sk_handleStop :: "'a app_sink \<Rightarrow> 'a inet_call list" where
  "sk_handleStop sk = CancelSelf # leave_group sk @ [CloseSocket, DelayFinish]"

text \<open>A crash of the whole node (\<open>node\<close>) leaves the socket to the node.\<close>

definition sk_handleCrash :: "bool \<Rightarrow> 'a app_sink \<Rightarrow> 'a inet_call list" where
  "sk_handleCrash node sk = CancelSelf # (if node then [] else leave_group sk @ [DestroySocket])"

end
