(* ===== verification/NSB_INET_Facts.thy ===== *)
theory NSB_INET_Facts
  imports NSB_INET
begin

text \<open>
  The packet format of the INET applications is read back as it was written, up to the reduction
  of the lengths to 16 bits; a message crosses the simulated network byte for byte; and the
  schedule of \<open>nsbBasicApp\<close> keeps its times and ends.
\<close>

section \<open>The packet format\<close>

lemma u16_bytes_length [simp]: "length (u16_bytes w) = 2"
  by (simp add: u16_bytes_def)

lemma u16_of_bytes_u16_bytes [simp]: "u16_of_bytes (u16_bytes w @ t) = w"
proof -
  have "unat w < 65536" by (rule order_less_le_trans [OF unsigned_less]) simp
  then have "unat w div 256 < 256" by simp
  then have "unat w mod 256 + 256 * (unat w div 256 mod 256) = unat w" by simp
  then show ?thesis
    by (simp add: u16_of_bytes_def u16_bytes_def of_char_of del: of_nat_add of_nat_mult)
qed

lemma unat_u16_of_size: "unat (u16_of_size s) = length s mod 2 ^ 16"
  by (simp add: u16_of_size_def unat_of_nat)

lemma u16_le_length: "unat (u16_of_size s) \<le> length s"
  by (simp add: unat_u16_of_size)

lemma stream_read_prefix:
  "length bs = n \<Longrightarrow> stream_read n \<lparr>is_rest = bs @ t, is_good = True\<rparr> = (bs, \<lparr>is_rest = t, is_good = True\<rparr>)"
  by (simp add: stream_read_def)

lemma read_u16_frame:
  "read_u16 ind \<lparr>is_rest = u16_bytes w @ t, is_good = True\<rparr> = (w, \<lparr>is_rest = t, is_good = True\<rparr>)"
  by (simp add: read_u16_def stream_read_prefix)

lemma read_string_prefix:
  "length bs = n \<Longrightarrow> read_string n \<lparr>is_rest = bs @ t, is_good = True\<rparr> = (bs, \<lparr>is_rest = t, is_good = True\<rparr>)"
  by (simp add: read_string_def stream_read_prefix)

lemma read_field_frame:
  "read_field ind \<lparr>is_rest = frame_string s @ t, is_good = True\<rparr> =
     (take (unat (u16_of_size s)) s, \<lparr>is_rest = t, is_good = True\<rparr>)"
  using read_string_prefix [of "take (unat (u16_of_size s)) s"] u16_le_length [of s]
  by (simp add: read_field_def frame_string_def Let_def read_u16_frame min_def)

text \<open>C24: What \<open>nsbAppSink\<close> reads from a packet of \<open>nsbBasicApp\<close>, whatever the strings contain: the
  payload as it was, and of source and destination the first \<open>length mod 65536\<close> bytes, so
  identifiers below 64 KiB as they were.\<close>

theorem inet_frame_roundtrip:
  "sink_parse ind1 ind2 (inet_frame src dest pl) =
     (take (length src mod 2 ^ 16) src, take (length dest mod 2 ^ 16) dest, pl)"
  by (simp add: sink_parse_def inet_frame_def read_field_frame unat_u16_of_size)

text \<open>A packet that is cut within its first length (a fragment, or foreign traffic on the port) is not
  rejected: the sink makes source and destination out of NUL bytes, as many as uninitialised
  memory says, and goes on to post them.\<close>

theorem inet_short_packet:
  assumes "length raw < 2" "length ind1 = 2" "length ind2 = 2"
  shows "sink_parse ind1 ind2 raw =
     (replicate (unat (u16_of_bytes (raw @ drop (length raw) ind1))) CHR 0x00,
      replicate (unat (u16_of_bytes ind2)) CHR 0x00, [])"
proof -
  have 1: "read_field ind1 \<lparr>is_rest = raw, is_good = True\<rparr> =
      (replicate (unat (u16_of_bytes (raw @ drop (length raw) ind1))) CHR 0x00, \<lparr>is_rest = [], is_good = False\<rparr>)"
    using assms(1) by (simp add: read_field_def read_u16_def read_string_def stream_read_def)
  have 2: "read_field ind2 \<lparr>is_rest = [], is_good = False\<rparr> =
      (replicate (unat (u16_of_bytes ind2)) CHR 0x00, \<lparr>is_rest = [], is_good = False\<rparr>)"
    by (simp add: read_field_def read_u16_def read_string_def stream_read_def)
  show ?thesis by (simp add: sink_parse_def 1 2)
qed

theorem inet_short_packet_witness:
  "sink_parse [CHR 0x02, CHR 0x00] [CHR 0x01, CHR 0x00] [CHR 0x01] = ([CHR 0x00], [CHR 0x00], [])"
  using inet_short_packet [of "[CHR 0x01]" "[CHR 0x02, CHR 0x00]" "[CHR 0x01, CHR 0x00]"]
  by (simp add: u16_of_bytes_def)

section \<open>The schedule of nsbBasicApp\<close>

text \<open>The self message that the calls of a handler leave pending, and one event of the application:
  the pending self message is handled at its time, with any positive send interval.\<close>

fun self_time :: "'a inet_call list \<Rightarrow> int option" where
  "self_time [] = None"
| "self_time (ScheduleSelf t # cs) = Some t"
| "self_time (c # cs) = self_time cs"

inductive ba_fires :: "(string \<Rightarrow> 'a option) \<Rightarrow> ('b, 'w) client_env \<Rightarrow> int option \<times> basic_app \<times> 'w \<Rightarrow>
    int option \<times> basic_app \<times> 'w \<Rightarrow> bool" for resolve env where
  Fire: "0 < d \<Longrightarrow> ba_handleMessage resolve env d t None app w = Inr (Inr calls, app', w') \<Longrightarrow>
     ba_fires resolve env (Some t, app, w) (self_time calls, app', w')"

inductive_cases ba_firesE: "ba_fires resolve env x y"

lemma self_time_append: "self_time (cs @ ds) = (case self_time cs of None \<Rightarrow> self_time ds | Some t \<Rightarrow> Some t)"
  by (induction cs rule: self_time.induct) auto

lemma ba_open_time: "ba_open resolve p = Inr opened \<Longrightarrow> self_time opened = None"
  by (auto simp: ba_open_def ba_setSocketOptions_def bind_res_Inr self_time_append split: if_splits option.splits)

lemma ba_sendPacket_calls:
  assumes "ba_sendPacket resolve env app w = Inr (Inr calls, app', w')"
  shows "self_time calls = None" "ba_stopTime app' = ba_stopTime app" "ba_startTime app' = ba_startTime app"
  using assms by (auto simp: ba_sendPacket_def Let_def bind_res_Inr split: if_splits option.splits)

text \<open>What the next event is after each kind of self message.\<close>

definition ba_next :: "int \<Rightarrow> int \<Rightarrow> int \<Rightarrow> int option \<Rightarrow> int \<Rightarrow> bool" where
  "ba_next stopTime d now p kind \<longleftrightarrow>
     (if stopTime < 0 \<or> now + d < stopTime then p = Some (now + d) \<and> kind = SEND_KIND
      else p = Some stopTime \<and> kind = BASIC_STOP)"

lemma ba_processSend_next:
  assumes "ba_processSend resolve env d now app w = Inr (Inr calls, app', w')"
  shows "ba_next (ba_stopTime app) d now (self_time calls) (ba_kind app') \<and> ba_stopTime app' = ba_stopTime app"
proof -
  obtain r app1 w1 where s: "ba_sendPacket resolve env app w = Inr (r, app1, w1)"
    and r: "Inr (case r of Inl e \<Rightarrow> (Inl e, app1, w1)
        | Inr calls \<Rightarrow>
            if ba_stopTime app < 0 \<or> now + d < ba_stopTime app
            then (Inr (calls @ [ScheduleSelf (now + d)]), app1\<lparr>ba_kind := SEND_KIND\<rparr>, w1)
            else (Inr (calls @ [ScheduleSelf (ba_stopTime app)]), app1\<lparr>ba_kind := BASIC_STOP\<rparr>, w1)) = Inr (Inr calls, app', w')"
    using assms by (auto simp: ba_processSend_def bind_res_Inr)
  then obtain cs where cs: "r = Inr cs" by (cases r) auto
  from ba_sendPacket_calls [OF s [unfolded cs]] r cs show ?thesis by (auto simp: ba_next_def self_time_append split: if_splits)
qed

lemma ba_fires_next:
  assumes "ba_fires resolve env (p, app, w) (p', app', w')"
  shows "ba_stopTime app' = ba_stopTime app \<and> (\<exists>t d. p = Some t \<and> 0 < d \<and>
    (ba_kind app \<in> {START, SEND_KIND} \<and> (ba_next (ba_stopTime app) d t p' (ba_kind app') \<or>
       ba_kind app = START \<and> (if ba_stopTime app \<ge> 0 then p' = Some (ba_stopTime app) \<and> ba_kind app' = BASIC_STOP else p' = None)) \<or>
     ba_kind app = BASIC_STOP \<and> p' = None))"
proof -
  obtain d t calls where p: "p = Some t" "0 < d" "p' = self_time calls"
    "ba_handleMessage resolve env d t None app w = Inr (Inr calls, app', w')"
    using assms by (auto elim: ba_firesE)
  consider (start) "ba_kind app = START" | (send) "ba_kind app = SEND_KIND" "ba_kind app \<noteq> START"
    | (stop) "ba_kind app = BASIC_STOP" "calls = [CloseSocket]" "app' = app" "ba_kind app \<noteq> START" "ba_kind app \<noteq> SEND_KIND"
    using p(4) by (auto simp: ba_handleMessage_def ba_processStop_def split: if_splits)
  then show ?thesis
  proof cases
    case start
    with p(4) have h: "ba_processStart resolve env d t app w = Inr (Inr calls, app', w')" by (simp add: ba_handleMessage_def)
    let ?app = "app\<lparr>ba_dests := ba_dests app @ pr_destAddresses (ba_pars app)\<rparr>"
    obtain opened where o: "ba_open resolve (ba_pars app) = Inr opened" using h by (auto simp: ba_processStart_def split: sum.splits)
    show ?thesis
    proof (cases "ba_dests ?app = []")
      case True
      with h start p o ba_open_time [OF o] show ?thesis 
        by (auto simp: ba_processStart_def self_time_append split: if_splits, use p(2) in blast)
    next
      case False
      with h o obtain cs where "ba_processSend resolve env d t (?app\<lparr>ba_kind := SEND_KIND\<rparr>) w = Inr (Inr cs, app', w')" "calls = opened @ cs"
        by (auto simp: ba_processStart_def Let_def bind_res_Inr)
      with ba_processSend_next [of resolve env d t "?app\<lparr>ba_kind := SEND_KIND\<rparr>" w cs app' w'] start p ba_open_time [OF o]
      show ?thesis by (auto simp: self_time_append)
    qed
  next
    case send
    with p(4) have "ba_processSend resolve env d t app w = Inr (Inr calls, app', w')" by (simp add: ba_handleMessage_def)
    from ba_processSend_next [OF this] send p show ?thesis by auto
  next
    case stop
    with p show ?thesis by auto
  qed
qed

definition ba_measure :: "int option \<Rightarrow> basic_app \<Rightarrow> nat" where
  "ba_measure p app = (case p of None \<Rightarrow> 0 | Some t \<Rightarrow>
     if ba_kind app = BASIC_STOP then 1
     else nat (ba_stopTime app - t) + (if ba_kind app = SEND_KIND then 2 else 3))"

lemmas kind_defs = START_def SEND_KIND_def BASIC_STOP_def

lemma ba_fires_measure:
  assumes "ba_fires resolve env (p, app, w) (p', app', w')" "0 \<le> ba_stopTime app"
  shows "ba_measure p' app' < ba_measure p app"
  using ba_fires_next [OF assms(1)] assms(2)
  by (auto simp: ba_measure_def ba_next_def kind_defs split: if_splits)

definition ba_times_ok :: "int \<Rightarrow> int option \<Rightarrow> basic_app \<Rightarrow> bool" where
  "ba_times_ok b p app \<longleftrightarrow> (case p of None \<Rightarrow> True | Some t \<Rightarrow> b \<le> t \<and> t \<le> ba_stopTime app \<and>
     (ba_kind app = SEND_KIND \<longrightarrow> t < ba_stopTime app) \<and> (ba_kind app = BASIC_STOP \<longrightarrow> t = ba_stopTime app))"

lemma ba_fires_times:
  assumes "ba_fires resolve env (p, app, w) (p', app', w')" "0 \<le> ba_stopTime app" "ba_times_ok b p app"
  shows "ba_times_ok b p' app'"
  using ba_fires_next [OF assms(1)] assms(2,3)
  by (auto simp: ba_times_ok_def ba_next_def kind_defs split: if_splits)

text \<open>With a stop time, \<open>nsbBasicApp\<close> ends: from its start at \<open>b\<close> it handles at most \<open>stopTime - b + 3\<close>
  self messages, whatever (positive) send intervals are drawn and whatever it fetches; no self message is
  scheduled before the start or after the stop time, every later send is before the stop time, and
  the stop is at it.\<close>

theorem inet_app_ends:
  assumes "(ba_fires resolve env ^^ k) (Some b, app, w) (p, app', w')"
    and "ba_kind app = START" "0 \<le> ba_stopTime app" "b \<le> ba_stopTime app"
  shows "k \<le> nat (ba_stopTime app - b) + 3 \<and> ba_times_ok b p app'"
proof -
  have "ba_measure p app' + k \<le> ba_measure (Some b) app \<and> ba_stopTime app' = ba_stopTime app \<and> ba_times_ok b p app'"
    using assms(1)
  proof (induction k arbitrary: p app' w')
    case 0
    with assms show ?case by (auto simp: ba_times_ok_def kind_defs)
  next
    case (Suc k)
    then obtain p1 app1 w1 where 1: "(ba_fires resolve env ^^ k) (Some b, app, w) (p1, app1, w1)"
      "ba_fires resolve env (p1, app1, w1) (p, app', w')" by (metis relpowp_Suc_E prod_cases3)
    from Suc.IH [OF 1(1)] assms(3) ba_fires_measure [OF 1(2)] ba_fires_times [OF 1(2)] ba_fires_next [OF 1(2)]
    show ?case by fastforce
  qed
  moreover have "ba_measure (Some b) app \<le> nat (ba_stopTime app - b) + 3"
    by (simp add: ba_measure_def)
  ultimately show ?thesis by simp
qed

definition wit_app :: basic_app where
  "wit_app = \<lparr>ba_client = new_sim_client ''sim'', ba_startTime = 0, ba_stopTime = 1, ba_kind = START, ba_numSent = 0,
     ba_numReceived = 0, ba_dontFragment = False, 
     ba_pars = \<lparr>pr_localAddress = [], pr_timeToLive = -1, pr_dscp = -1, pr_tos = -1, pr_multicastInterface = [], pr_interface = (\<lambda>_. None),
       pr_receiveBroadcast = True, pr_joinLocal = False, pr_destAddresses = [''host1'']\<rparr>, ba_dests = []\<rparr>"

lemma wit_fetch_nothing:
  "sim_fetch_any (wit_env 8) t (new_sim_client ''sim'') wit_world = Inr (empty_entry, new_sim_client ''sim'', wit_world)"
proof -
  have c: "originIndicator (new_sim_client ''sim'') = Some SIM_CLIENT" "SYSTEM_MODE (c_cfg (new_sim_client ''sim'')) = PULL"
    "SYSTEM_MODE (d_cfg (lw_daemon wit_world)) = PULL" "tx_buffer (lw_daemon wit_world) = []" "lw_inbox wit_world f = []" for f
    by (simp_all add: new_sim_client_def new_client_def default_cfg_def wit_world_def wit_daemon_def)
  have "sim_fetch (wit_env 8) None t (new_sim_client ''sim'') wit_world =
      Inr (empty_entry, new_sim_client ''sim'', wit_world\<lparr>lw_daemon := (lw_daemon wit_world)\<lparr>tx_buffer := []\<rparr>\<rparr>)"
    by (rule sim_fetch_loop_none [OF wit_env_on_loop c(1-3)])
      (simp_all add: c(4,5) nsb_simps take_keyed_def new_sim_client_def new_client_def default_cfg_def)
  moreover have "wit_world\<lparr>lw_daemon := (lw_daemon wit_world)\<lparr>tx_buffer := []\<rparr>\<rparr> = wit_world"
    by (simp add: wit_world_def wit_daemon_def)
  ultimately show ?thesis using c(2) by (simp add: sim_fetch_any_def by_mode_def)
qed

theorem inet_app_ends_witness:
  "\<exists>app'. (ba_fires (\<lambda>_. Some ()) (wit_env 8) ^^ 2) (Some 0, wit_app, wit_world) (None, app', wit_world) \<and>
     ba_times_ok 0 None app'"
proof -
  let ?app = "wit_app\<lparr>ba_kind := BASIC_STOP, ba_dests := [''host1'']\<rparr>"
  have "ba_handleMessage (\<lambda>_. Some ()) (wit_env 8) 5 0 None wit_app wit_world =
      Inr (Inr [Bind None, SetOption Broadcast, SetOption SetCallback, ScheduleSelf 1], ?app, wit_world)"
    using wit_fetch_nothing
    by (simp add: ba_handleMessage_def ba_processStart_def ba_processSend_def ba_sendPacket_def ba_open_def ba_setSocketOptions_def
        Let_def wit_app_def kind_defs)
  from ba_fires.Fire [OF _ this] have 1: "ba_fires (\<lambda>_. Some ()) (wit_env 8) (Some 0, wit_app, wit_world) (Some 1, ?app, wit_world)" by simp
  have "ba_handleMessage (\<lambda>_. Some ()) (wit_env 8) 5 1 None ?app wit_world = Inr (Inr [CloseSocket], ?app, wit_world)"
    by (simp add: ba_handleMessage_def ba_processStop_def kind_defs)
  from ba_fires.Fire [OF _ this] have 2: "ba_fires (\<lambda>_. Some ()) (wit_env 8) (Some 1, ?app, wit_world) (None, ?app, wit_world)" by simp
  from 1 2 have k: "(ba_fires (\<lambda>_. Some ()) (wit_env 8) ^^ 2) (Some 0, wit_app, wit_world) (None, ?app, wit_world)"
    by (auto simp: numeral_2_eq_2)
  from inet_app_ends [OF k] have "ba_times_ok 0 None ?app" by (simp add: wit_app_def)
  with k show ?thesis by blast
qed

section \<open>A message through the simulated network\<close>

text \<open>The INET network is a parameter: \<open>net raw\<close> is what comes to the socket that a datagram \<open>raw\<close> is sent to, in order
  (nothing when it is lost).  What \<open>carries_datagrams\<close> asks of it is what UDP can do: a datagram of at most 65507 bytes arrives, once
  and as it was.\<close>

definition datagrams_at :: "(string \<Rightarrow> string list) \<Rightarrow> 'a \<Rightarrow> 'a inet_call list \<Rightarrow> string list" where
  "datagrams_at net home calls = concat (map (\<lambda>c. case c of SendTo raw a \<Rightarrow> if a = home then net raw else [] | _ \<Rightarrow> []) calls)"

definition carries_datagrams :: "(string \<Rightarrow> string list) \<Rightarrow> bool" where
  "carries_datagrams net \<longleftrightarrow> (\<forall>raw. length raw \<le> 65507 \<longrightarrow> net raw = [raw])"

text \<open>The sink takes the packets that arrive, one after the other.\<close>

fun sk_packets :: "string \<Rightarrow> string \<Rightarrow> ('b, 'w) client_env \<Rightarrow> string list \<Rightarrow> 'a app_sink \<Rightarrow> 'w \<Rightarrow> io_stop + 'a app_sink \<times> 'w" where
  "sk_packets ind1 ind2 env [] sk w = Inr (sk, w)"
| "sk_packets ind1 ind2 env (raw # raws) sk w =
     bind_res (sk_processPacket ind1 ind2 env raw sk w) (\<lambda>(sk1, w1). sk_packets ind1 ind2 env raws sk1 w1)"

text \<open>The application sends, \<open>nsbBasicApp\<close> of its node fetches and sends the packet to the resolved
  address, the network carries it or not, \<open>nsbAppSink\<close> at the address \<open>home\<close> posts what arrives there, the destination receives.\<close>

definition inet_relay :: "(string \<Rightarrow> 'a option) \<Rightarrow> (string \<Rightarrow> string list) \<Rightarrow> 'a \<Rightarrow> string \<Rightarrow> string \<Rightarrow> ('b, 'w) client_env \<Rightarrow> ('b, 'w) client_env \<Rightarrow>
    ('b, 'w) client_env \<Rightarrow> ('b, 'w) client_env \<Rightarrow> client \<Rightarrow> basic_app \<Rightarrow> 'a app_sink \<Rightarrow> client \<Rightarrow> string \<Rightarrow> string \<Rightarrow> i32 \<Rightarrow> 'w \<Rightarrow>
    io_stop + message_entry \<times> basic_app \<times> 'a app_sink \<times> 'w" where
  "inet_relay resolve net home ind1 ind2 ea en ek eb ca app sk cb dest pl t w =
     bind_res (app_send ea dest pl ca w) (\<lambda>(_, _, w1).
     bind_res (ba_sendPacket resolve en app w1) (\<lambda>(r, app1, w2).
     bind_res (sk_packets ind1 ind2 ek (case r of Inl _ \<Rightarrow> [] | Inr calls \<Rightarrow> datagrams_at net home calls) sk w2) (\<lambda>(sk1, w3).
     bind_res (app_receive eb None t cb w3) (\<lambda>(e, _, w4). Inr (e, app1, sk1, w4)))))"

text \<open>C23: End to end over the INET network (PULL mode, a simulator client per node, no database): when the daemon holds no mail of
  this source and none for this destination, the destination's name resolves to the address of its sink, the packet has at most
  65507 bytes and the network carries such datagrams, then what the application sends is what the destination
  receives, byte for byte with NULs; one packet is counted on each side and daemon and network are as before.\<close>

theorem inet_relay_delivers:
  fixes ca cb :: client and dest pl :: string and w :: "('b, 's) loop_world"
  defines "e \<equiv> mk_entry (clientId ca) dest pl (int_of_size pl)"
  assumes net: "on_loop env fa exec ea" "on_loop env fn exec en" "on_loop env fk exec ek" "on_loop env fb exec eb"
    and rdy: "ready APP_CLIENT (lw_daemon w) ca" "ready SIM_CLIENT (lw_daemon w) (ba_client app)"
      "ready SIM_CLIENT (lw_daemon w) (sk_client sk)" "ready APP_CLIENT (lw_daemon w) cb"
    and md: "SYSTEM_MODE (d_cfg (lw_daemon w)) = PULL" "SIMULATOR_MODE (d_cfg (lw_daemon w)) = PER_NODE"
      "\<not> USE_DB (d_cfg (lw_daemon w))"
    and id: "clientId (ba_client app) = clientId ca" "clientId cb = dest" "resolve (c_str dest) = Some home"
    and udp: "carries_datagrams net" "length (clientId ca) + length dest + length pl + 4 \<le> 65507"
    and dl: "deliverable env (lw_daemon w) e"
    and fresh: "\<forall>x\<in>set (tx_buffer (lw_daemon w)). source x \<noteq> clientId ca"
      "\<forall>x\<in>set (rx_buffer (lw_daemon w)). destination x \<noteq> dest"
    and box: "lw_inbox w (fn RECV_CH) = []" "lw_inbox w (fb RECV_CH) = []"
    and tr: "transmits env (data_message SEND APP_CLIENT (clientId ca) dest pl (set_payload pl))"
      "transmits env (data_message POST SIM_CLIENT (clientId ca) dest pl (set_payload pl))"
      "transmits env (fetch_request (ba_client app) SIM_CLIENT None)" "transmits env (receive_request cb APP_CLIENT None)"
  shows "inet_relay resolve net home ind1 ind2 ea en ek eb ca app sk cb dest pl t w =
     Inr (e, app\<lparr>ba_numSent := ba_numSent app + 1\<rparr>, sk\<lparr>sk_numReceived := sk_numReceived sk + 1\<rparr>, w)"
proof -
  let ?d = "lw_daemon w"
  let ?w1 = "w\<lparr>lw_daemon := ?d\<lparr>tx_buffer := tx_buffer ?d @ [e]\<rparr>\<rparr>"
  let ?w3 = "w\<lparr>lw_daemon := ?d\<lparr>rx_buffer := rx_buffer ?d @ [e]\<rparr>\<rparr>"
  have ex: "entry_exists e" "clientId ca \<noteq> []" "dest \<noteq> []" using dl by (auto simp: deliverable_def e_def)
  note rep = deliverable_transmits [OF dl]
  note ent = entry_of_data [OF md(3)]
  have 1: "app_send ea dest pl ca w = Inr ([], ca, ?w1)"
    using app_send_loop [OF net(1) _ _ tr(1) refl md(1)] rdy(1) md(3) ent by (simp add: ready_def e_def)
  have 2: "sim_fetch_any en t' (ba_client app) ?w1 = Inr (e, ba_client app, w)" for t'
  proof -
    have "take_keyed source True (src_id (metadata (fetch_request (ba_client app) SIM_CLIENT None)))
        (tx_buffer (lw_daemon ?w1)) = (Some e, tx_buffer ?d)"
      using take_keyed_appended [of "clientId ca" "tx_buffer ?d" source e] ex rdy(2) md(2) fresh(1) id(1)
      by (simp add: nsb_simps ready_def e_def)
    from sim_fetch_loop [OF net(2) _ _ _ _ _ this ex(1) tr(3), of t'] rdy(2) md box(1) rep [of "lw_daemon ?w1" FETCH]
    show ?thesis by (simp add: ready_def sim_fetch_any_def by_mode_def)
  qed
  let ?raw = "inet_frame (clientId ca) dest pl"
  have len: "length (clientId ca) < 2 ^ 16" "length dest < 2 ^ 16" "length ?raw \<le> 65507"
    using udp(2) by (simp_all add: inet_frame_def frame_string_def Let_def unat_u16_of_size)
  obtain cs where 3: "ba_sendPacket resolve en app ?w1 = Inr (Inr (SendTo ?raw home # cs), app\<lparr>ba_numSent := ba_numSent app + 1\<rparr>, w)"
    "cs = (if ba_dontFragment app then [SetDontFragment] else [])"
    using 2 ex(1) id(3) by (simp add: ba_sendPacket_def Let_def e_def)
  have at: "datagrams_at net home (SendTo ?raw home # cs) = [?raw]"
    using udp(1) len(3) 3(2) by (simp add: datagrams_at_def carries_datagrams_def)
  have "sim_post ek (clientId ca) dest pl (sk_client sk) w = Inr ([], sk_client sk, ?w3)"
    using sim_post_loop [OF net(3) _ _ tr(2) refl md(1)] rdy(3) md(3) ent by (simp add: ready_def e_def)
  then have 4: "sk_processPacket ind1 ind2 ek ?raw sk w = Inr (sk\<lparr>sk_numReceived := sk_numReceived sk + 1\<rparr>, ?w3)"
    using len(1,2) by (simp add: sk_processPacket_def inet_frame_def sink_parse_def read_field_frame unat_u16_of_size)
  have 5: "app_receive eb None t cb ?w3 = Inr (e, cb, w)"
  proof -
    have "take_keyed destination True (dest_id (metadata (receive_request cb APP_CLIENT None)))
        (rx_buffer (lw_daemon ?w3)) = (Some e, rx_buffer ?d)"
      using take_keyed_appended [of dest "rx_buffer ?d" destination e] ex id(2) fresh(2) by (simp add: nsb_simps e_def)
    from app_receive_loop [OF net(4) _ _ _ _ _ this ex(1) tr(4), of t] rdy(4) md box(2) rep [of "lw_daemon ?w3" RECEIVE]
    show ?thesis by (simp add: ready_def)
  qed
  show ?thesis by (simp add: inet_relay_def 1 3(1) at 4 5)
qed

definition wit_node_app :: basic_app where
  "wit_node_app = wit_app\<lparr>ba_client := (new_sim_client ''host0'')\<lparr>c_cfg := wit_om_cfg\<rparr>\<rparr>"

definition wit_sink :: "string app_sink" where
  "wit_sink = \<lparr>sk_client = (new_sim_client ''host1'')\<lparr>c_cfg := wit_om_cfg\<rparr>, sk_startTime = 0, sk_stopTime = -1, sk_kind = START,
     sk_numReceived = 0, sk_receiveBroadcast = False, sk_groupAddr = [], sk_group = None\<rparr>"

theorem inet_relay_delivers_witness:
  "inet_relay (\<lambda>i. Some (i @ ''.net'')) (\<lambda>raw. if length raw \<le> 65507 then [raw] else []) ''host1.net'' ''12'' ''34'' (wit_env 200) (wit_env 100) (wit_env 103) (wit_env 203)
     ((new_app_client ''host0'')\<lparr>c_cfg := wit_om_cfg\<rparr>) wit_node_app wit_sink ((new_app_client ''host1'')\<lparr>c_cfg := wit_om_cfg\<rparr>)
     ''host1'' [CHR ''h'', CHR 0x00, CHR ''i''] 30 (wit_world\<lparr>lw_daemon := wit_daemon\<lparr>d_cfg := wit_om_cfg\<rparr>\<rparr>) =
   Inr (mk_entry ''host0'' ''host1'' [CHR ''h'', CHR 0x00, CHR ''i''] 3,
     wit_node_app\<lparr>ba_numSent := 1\<rparr>, wit_sink\<lparr>sk_numReceived := 1\<rparr>, wit_world\<lparr>lw_daemon := wit_daemon\<lparr>d_cfg := wit_om_cfg\<rparr>\<rparr>)"
proof -
  let ?w = "wit_world\<lparr>lw_daemon := wit_daemon\<lparr>d_cfg := wit_om_cfg\<rparr>\<rparr>"
  let ?ca = "(new_app_client ''host0'')\<lparr>c_cfg := wit_om_cfg\<rparr>" and ?cb = "(new_app_client ''host1'')\<lparr>c_cfg := wit_om_cfg\<rparr>"
  have r: "ready APP_CLIENT (lw_daemon ?w) ?ca" "ready SIM_CLIENT (lw_daemon ?w) (ba_client wit_node_app)"
    "ready SIM_CLIENT (lw_daemon ?w) (sk_client wit_sink)" "ready APP_CLIENT (lw_daemon ?w) ?cb"
    by (simp_all add: ready_def new_app_client_def new_sim_client_def new_client_def wit_node_app_def wit_sink_def)
  have m: "SYSTEM_MODE (d_cfg (lw_daemon ?w)) = PULL" "SIMULATOR_MODE (d_cfg (lw_daemon ?w)) = PER_NODE" "\<not> USE_DB (d_cfg (lw_daemon ?w))"
    by (simp_all add: wit_om_cfg_def default_cfg_def)
  have i: "clientId ?ca = ''host0''" "clientId ?cb = ''host1''" "clientId (ba_client wit_node_app) = ''host0''"
    by (simp_all add: new_app_client_def new_sim_client_def new_client_def wit_node_app_def)
  have c: "c_str ''host1'' = ''host1''" by (simp add: c_str_def)
  have n: "ba_numSent wit_node_app = 0" "sk_numReceived wit_sink = 0" "tx_buffer wit_daemon = []" "rx_buffer wit_daemon = []" "lw_inbox ?w = (\<lambda>_. [])"
    by (simp_all add: wit_node_app_def wit_app_def wit_sink_def wit_daemon_def wit_world_def)
  from inet_relay_delivers [OF wit_env_on_loop [of 200] wit_env_on_loop [of 100] wit_env_on_loop [of 103] wit_env_on_loop [of 203] r m,
      where dest = "''host1''" and pl = "[CHR ''h'', CHR 0x00, CHR ''i'']" and resolve = "\<lambda>i. Some (i @ ''.net'')" and t = 30
        and home = "''host1.net''" and net = "\<lambda>raw. if length raw \<le> 65507 then [raw] else []" and ?ind1.0 = "''12''" and ?ind2.0 = "''34''"]
  show ?thesis by (simp add: i c n int_of_size_def carries_datagrams_def)
qed

end
