(* ===== verification/NSB_INET_Report.thy ===== *)
theory NSB_INET_Report
  imports NSB_INET_Facts
begin

text \<open>
  What the INET applications show and write (\<open>refreshDisplay\<close>, \<open>finish\<close>), and their small operations: \<open>chooseDestAddr\<close> and
  the callbacks of the socket.  Files are a map from names to contents.
\<close>

section \<open>The callbacks\<close>

text \<open>\<open>k\<close> is what \<open>intrand\<close> drew; \<open>tryResolve\<close> leaves its result alone when it fails; \<open>vague\<close>: unspecified or
  link-local.\<close>

definition chooseDestAddr :: "(string \<Rightarrow> 'a option) \<Rightarrow> ('a \<Rightarrow> bool) \<Rightarrow> nat \<Rightarrow> string list \<Rightarrow> 'a list \<Rightarrow> 'a \<times> 'a list" where
  "chooseDestAddr resolve vague k names addrs =
     (let addrs1 = (if vague (addrs ! k)
        then (case resolve (c_str (names ! k)) of None \<Rightarrow> addrs | Some a \<Rightarrow> addrs[k := a]) else addrs)
      in (addrs1 ! k, addrs1))"

definition socketDataArrived :: "basic_app \<Rightarrow> basic_app" where
  "socketDataArrived app = ba_processPacket app"

definition sk_socketDataArrived :: "string \<Rightarrow> string \<Rightarrow> ('b, 'w) client_env \<Rightarrow> string \<Rightarrow> 'a app_sink \<Rightarrow> 'w \<Rightarrow> io_stop + 'a app_sink \<times> 'w" where
  "sk_socketDataArrived ind1 ind2 env raw sk w = sk_processPacket ind1 ind2 env raw sk w"

text \<open>An error report is dropped, by both.\<close>

definition socketErrorArrived :: "'s \<Rightarrow> 's" where
  "socketErrorArrived app = app"

section \<open>The display\<close>

text \<open>What \<open>sprintf\<close> writes to the buffer, without the NUL at its end.\<close>

definition ba_display :: "basic_app \<Rightarrow> string" where
  "ba_display app = ''rcvd: '' @ to_string (sint (ba_numReceived app)) @ '' pks'' @ [CHR 0x0A] @ ''sent: '' @
     to_string (sint (ba_numSent app)) @ '' pks''"

definition sk_display :: "'a app_sink \<Rightarrow> string" where
  "sk_display sk = ''rcvd: '' @ to_string (sint (sk_numReceived sk)) @ '' pks''"

lemma to_string_length: "length (to_string (sint (x :: i32))) \<le> 11"
proof -
  have "- (2 ^ 31) \<le> sint x" "sint x < 2 ^ 31" using sint_range_size [of x] by (simp_all add: word_size)
  then have "nat \<bar>sint x\<bar> < 10 ^ 10" by simp
  then have "length (nat_digits (nat \<bar>sint x\<bar>)) \<le> 10" by (rule nat_digits_length) simp
  then show ?thesis by (auto simp: to_string_def abs_if split: if_splits)
qed

text \<open>The buffers of the two displays, 100 and 50 bytes, are never overrun, whatever the counters are.\<close>

lemma displays_fit: "length (ba_display app) + 1 \<le> 100" "length (sk_display sk) + 1 \<le> 50"
  using to_string_length [of "ba_numReceived app"] to_string_length [of "ba_numSent app"] to_string_length [of "sk_numReceived sk"]
  by (simp_all add: ba_display_def sk_display_def)

section \<open>finish\<close>

text \<open>\<open>std::fstream\<close>: its fail bit, which a new object does not have, and \<open>open\<close> on a file that can be written or not.\<close>

type_synonym files = "string \<Rightarrow> string option"

definition new_fstream :: bool where "new_fstream = False"

definition write_new :: "bool \<Rightarrow> string \<Rightarrow> string \<Rightarrow> bool \<times> files \<Rightarrow> bool \<times> files" where
  "write_new can_write name text sf = (if can_write then (False, (snd sf)(name \<mapsto> text)) else (True, snd sf))"

definition write_more :: "bool \<Rightarrow> string \<Rightarrow> string \<Rightarrow> bool \<times> files \<Rightarrow> bool \<times> files" where
  "write_more can_write name text sf = (if can_write
     then (False, (snd sf)(name \<mapsto> (case snd sf name of None \<Rightarrow> [] | Some old \<Rightarrow> old) @ text)) else (True, snd sf))"

text \<open>Header and row of a file of results: \<open>!file\<close> and \<open>file\<close> ask for the fail bit, not for the file.\<close>

definition write_results :: "bool \<Rightarrow> string \<Rightarrow> string \<Rightarrow> string \<Rightarrow> files \<Rightarrow> files" where
  "write_results can_write name header row fs =
     (let sf1 = (if new_fstream then write_new can_write name header (new_fstream, fs) else (new_fstream, fs));
          sf2 = (if \<not> fst sf1 then write_more can_write name row sf1 else sf1)
      in snd sf2)"

definition endl :: string where "endl = [CHR 0x0A]"

text \<open>The statement that would count the bytes is commented out, in the sink there is none: the two totals stay what
  they are set to.\<close>

definition bytesSent :: int where "bytesSent = 0"
definition bytesReceived :: int where "bytesReceived = 0"

definition csv_row :: "string \<Rightarrow> int \<Rightarrow> int \<Rightarrow> string" where
  "csv_row path packets bytes = path @ '','' @ to_string packets @ '','' @ to_string bytes @ '','' @ endl"

text \<open>The scalars that are recorded, the output, and the files.\<close>

definition ba_finish :: "string \<Rightarrow> bool \<Rightarrow> basic_app \<Rightarrow> files \<Rightarrow> (string \<times> int) list \<times> string \<times> files" where
  "ba_finish path can_write app fs =
     ([(''packets sent'', sint (ba_numSent app)), (''packets received'', sint (ba_numReceived app))],
      path @ '': sent '' @ to_string (sint (ba_numSent app)) @ '' packets'' @ endl @
      path @ '': sent '' @ to_string bytesSent @ '' bytes'' @ endl @ ''File exists so just append to it'' @ endl,
      write_results can_write ''SentResults.csv'' (''Host Name,Packets Sent,Bytes Sent'' @ endl)
        (csv_row path (sint (ba_numSent app)) bytesSent) fs)"

definition sk_finish :: "string \<Rightarrow> bool \<Rightarrow> 'a app_sink \<Rightarrow> files \<Rightarrow> string \<times> files" where
  "sk_finish path can_write sk fs =
     (path @ '': received '' @ to_string (sint (sk_numReceived sk)) @ '' packets'' @ endl @
      path @ '': received '' @ to_string bytesReceived @ '' bytes'' @ endl @ ''File exists so just append to it'' @ endl,
      write_results can_write ''RcvdResults.csv'' (''Host Name,Packets Received,Bytes Received'' @ endl)
        (csv_row path (sint (sk_numReceived sk)) bytesReceived) fs)"

text \<open>The header is never written: each run appends its one row, and a file that was not there begins with it.\<close>

lemma results_appended:
  "write_results True name header row fs = fs(name \<mapsto> (case fs name of None \<Rightarrow> [] | Some old \<Rightarrow> old) @ row)"
  by (simp add: write_results_def new_fstream_def write_more_def Let_def)

text \<open>The results file of a network whose sinks finish one after the other: their rows in this order.\<close>

lemma results_of_sinks:
  "fold (\<lambda>(path, sk) fs. snd (sk_finish path True sk fs)) hosts fs ''RcvdResults.csv'' =
     (if hosts = [] then fs ''RcvdResults.csv''
      else Some ((case fs ''RcvdResults.csv'' of None \<Rightarrow> [] | Some old \<Rightarrow> old) @
        concat (map (\<lambda>(path, sk). csv_row path (sint (sk_numReceived sk)) 0) hosts)))"
  by (induction hosts arbitrary: fs) (auto simp: sk_finish_def results_appended bytesReceived_def split: option.split)

text \<open>A destination is drawn from the list, and only its entry can change.\<close>

lemma chooseDestAddr_from_list:
  assumes "chooseDestAddr resolve vague k names addrs = (a, addrs1)" "k < length addrs"
  shows "a = addrs1 ! k \<and> length addrs1 = length addrs \<and> (\<forall>i. i \<noteq> k \<longrightarrow> addrs1 ! i = addrs ! i) \<and>
     (\<not> vague (addrs ! k) \<longrightarrow> addrs1 = addrs)"
  using assms by (auto simp: chooseDestAddr_def Let_def split: if_splits option.splits)

end
