(* ===== verification/NSB_NS3.thy ===== *)
theory NSB_NS3
  imports NSB_OMNeT_Facts NSB_Threads
begin

text \<open>
  The ns-3 examples (\<open>examples/ns3\<close>): \<open>nsb-testing.cc\<close> sends each fetched message in a UDP datagram,
  \<open>nsb-testing-tcp.cc\<close> over a TCP connection per message.  ns-3 is a parameter: its addresses
  (\<open>ip_lib\<close>), the answers of its sockets (\<open>GetTxAvailable\<close>, \<open>Send\<close>, \<open>Connect\<close>, the packets that
  \<open>RecvFrom\<close> returns).
\<close>

section \<open>Nodes and addresses\<close>

text \<open>\<open>Ipv4Address(const char *)\<close> (\<open>None\<close>: it aborts) and its output operator.\<close>

record 'a ip_lib =
  ipv4_of :: "string \<Rightarrow> 'a option"
  ip_text :: "'a \<Rightarrow> string"

definition BASE_IP_PREFIX :: string where
  "BASE_IP_PREFIX = ''10.1.1.''"

text \<open>The \<open>NodeMapping\<close> of node \<open>i\<close>, as \<open>main\<close> builds it.\<close>

record node_mapping =
  ipString :: string
  nodeIdString :: string

definition node_mapping_of :: "nat \<Rightarrow> node_mapping" where
  "node_mapping_of i = \<lparr>ipString = BASE_IP_PREFIX @ to_string (int i + 1), nodeIdString = ''node'' @ to_string (int i)\<rparr>"

definition node_addr :: "'a ip_lib \<Rightarrow> nat \<Rightarrow> 'a option" where
  "node_addr lib i = ipv4_of lib (ipString (node_mapping_of i))"

text \<open>The places that \<open>BuildNetworkTopology\<close> gives to the nodes, in metres (both programs).\<close>

definition NODES_PER_ROW :: nat where "NODES_PER_ROW = 10"
definition NODE_SPACING_METERS :: nat where "NODE_SPACING_METERS = 50"
definition WIFI_RANGE_METERS :: nat where "WIFI_RANGE_METERS = 500"

definition node_position :: "nat \<Rightarrow> int \<times> int" where
  "node_position i = (int (i mod NODES_PER_ROW * NODE_SPACING_METERS), int (i div NODES_PER_ROW * NODE_SPACING_METERS))"

text \<open>What is used of the addresses: a dotted address with octets below 255 is accepted and printed as
  it was written.\<close>

definition ip_laws :: "'a ip_lib \<Rightarrow> bool" where
  "ip_laws lib \<longleftrightarrow> (\<forall>k<255. \<exists>a. ipv4_of lib (BASE_IP_PREFIX @ to_string (int k)) = Some a \<and>
     ip_text lib a = BASE_IP_PREFIX @ to_string (int k))"

text \<open>\<open>NodeList::GetNode\<close> with the number of nodes, after the conversion to \<open>uint32_t\<close>.\<close>

definition get_node :: "nat \<Rightarrow> int \<Rightarrow> sim_error + nat" where
  "get_node n k = (if 0 \<le> k \<and> k < int n then Inr (nat k) else Inl (SimError ''no such node''))"

definition the_addr :: "'a ip_lib \<Rightarrow> string \<Rightarrow> sim_error + 'a" where
  "the_addr lib s = (case ipv4_of lib s of None \<Rightarrow> Inl (SimError ''invalid address'') | Some a \<Rightarrow> Inr a)"

text \<open>\<open>s.substr(s.find_last_of('.') + 1)\<close>, the whole string when there is no dot.\<close>

definition after_last_dot :: "string \<Rightarrow> string" where
  "after_last_dot s = rev (takeWhile (\<lambda>c. c \<noteq> CHR ''.'') (rev s))"

text \<open>The name of the host that an address belongs to.\<close>

definition host_of_addr :: "'a ip_lib \<Rightarrow> 'a \<Rightarrow> sim_error + string" where
  "host_of_addr lib a = bind_res (stoi (after_last_dot (ip_text lib a))) (\<lambda>k. Inr (host_name (k - 1)))"

section \<open>nsb-testing.cc: UDP\<close>

text \<open>A datagram from a node to an address, and the next poll.\<close>

datatype 'a udp_call = UdpSend nat 'a string | SchedulePoll

definition udp_PollToFetch :: "'a ip_lib \<Rightarrow> nat \<Rightarrow> ('b, 'w) client_env \<Rightarrow> client \<Rightarrow> 'w \<Rightarrow>
    io_stop + (sim_error + 'a udp_call list) \<times> client \<times> 'w" where
  "udp_PollToFetch lib n env c w = bind_res (sim_fetch_any env DAEMON_RESPONSE_TIMEOUT c w)
     (\<lambda>(entry, c1, w1). Inr (if \<not> entry_exists entry then Inr [SchedulePoll]
        else bind_res (substr 4 (destination entry)) (\<lambda>d.
             bind_res (the_addr lib (''10.1.1.'' @ d)) (\<lambda>a.
             bind_res (host_index (source entry)) (\<lambda>k.
             bind_res (get_node n k) (\<lambda>node. Inr [UdpSend node a (payload_obj entry), SchedulePoll])))),
        c1, w1))"

definition udp_ReceivePacket :: "'a ip_lib \<Rightarrow> ('b, 'w) client_env \<Rightarrow> nat \<Rightarrow> 'a \<Rightarrow> string \<Rightarrow> client \<Rightarrow> 'w \<Rightarrow>
    io_stop + (sim_error + unit) \<times> client \<times> 'w" where
  "udp_ReceivePacket lib env nodeId from pl c w = (case host_of_addr lib from of
       Inl e \<Rightarrow> Inr (Inl e, c, w)
     | Inr srcId \<Rightarrow> bind_res (sim_post env srcId (host_name (int nodeId)) pl c w)
         (\<lambda>(_, c1, w1). Inr (Inr (), c1, w1)))"

section \<open>nsb-testing-tcp.cc: state\<close>

record pending_transfer =
  pt_srcId :: string
  pt_destId :: string
  pt_payload :: string
  pt_sent :: "32 word"

record receive_buffer =
  rv_srcId :: string
  rv_destId :: string
  rv_data :: string

text \<open>The global state; sockets are numbers, \<open>ts_next\<close> the next one.  \<open>ts_conn\<close> holds the node and remote
  address of a connected socket, \<open>ts_written\<close> what \<open>Send\<close> has accepted on it, \<open>ts_closed\<close> the sockets
  closed.\<close>

record 'a tcp_state =
  ts_client :: client
  ts_next :: nat
  activeSends :: "nat \<Rightarrow> pending_transfer option"
  activeReceives :: "nat \<Rightarrow> receive_buffer option"
  messageQueue :: "message_entry list"
  ts_conn :: "nat \<Rightarrow> (nat \<times> 'a) option"
  ts_written :: "nat \<Rightarrow> string"
  ts_closed :: "nat list"

section \<open>Sending\<close>

text \<open>One pass of the loop asks \<open>GetTxAvailable\<close> and, if there is room, calls \<open>Send\<close>: the answer of the
  first, and how much the second would accept (negative: it fails; otherwise it accepts at most the
  packet).  \<open>None\<close>: the loop goes on when the answers have run out.\<close>

datatype write_end = SendFailed | LoopDone

definition chunk_of :: "nat \<Rightarrow> pending_transfer \<Rightarrow> string" where
  "chunk_of avail p = (let remaining = of_nat (length (pt_payload p)) - pt_sent p;
       toSend = min (unat remaining) avail
     in take toSend (drop (unat (pt_sent p)) (pt_payload p)))"

fun write_loop :: "(nat \<times> int) list \<Rightarrow> pending_transfer \<Rightarrow> string \<Rightarrow> (write_end \<times> pending_transfer \<times> string) option" where
  "write_loop evs p wr = (if unat (pt_sent p) < length (pt_payload p)
     then (case evs of [] \<Rightarrow> None
       | (avail, accepts) # es \<Rightarrow>
           (if avail = 0 then Some (LoopDone, p, wr)
            else if accepts < 0 then Some (SendFailed, p, wr)
            else let sent = min (nat accepts) (length (chunk_of avail p))
              in write_loop es (p\<lparr>pt_sent := pt_sent p + of_nat sent\<rparr>) (wr @ take sent (chunk_of avail p))))
     else Some (LoopDone, p, wr))"

declare write_loop.simps [simp del]

definition WriteUntilBufferFull :: "(nat \<times> int) list \<Rightarrow> nat \<Rightarrow> 'a tcp_state \<Rightarrow> 'a tcp_state option" where
  "WriteUntilBufferFull evs s st = (case activeSends st s of None \<Rightarrow> Some st
     | Some p \<Rightarrow> (case write_loop evs p (ts_written st s) of None \<Rightarrow> None
        | Some (e, p1, wr) \<Rightarrow>
            (let st1 = st\<lparr>activeSends := (activeSends st)(s \<mapsto> p1), ts_written := (ts_written st)(s := wr)\<rparr> in
             if e = LoopDone \<and> length (pt_payload p1) \<le> unat (pt_sent p1)
             then Some (st1\<lparr>activeSends := (activeSends st)(s := None), ts_closed := ts_closed st @ [s]\<rparr>)
             else Some st1)))"

text \<open>What \<open>PollToFetch\<close> does with a message.  It catches the exceptions of
  \<open>stoi\<close> (and \<open>substr\<close>), not the abortion of the simulator; \<open>ok\<close> is the answer of \<open>Connect\<close>.\<close>

definition transfer_target :: "'a ip_lib \<Rightarrow> nat \<Rightarrow> message_entry \<Rightarrow> sim_error + nat \<times> 'a" where
  "transfer_target lib n e =
     bind_res (host_index (destination e)) (\<lambda>destIndex.
     bind_res (the_addr lib (BASE_IP_PREFIX @ to_string (destIndex + 1))) (\<lambda>a.
     bind_res (host_index (source e)) (\<lambda>srcIndex.
     bind_res (get_node n srcIndex) (\<lambda>node. Inr (node, a)))))"

definition open_transfer :: "bool \<Rightarrow> (nat \<times> int) list \<Rightarrow> nat \<Rightarrow> 'a \<Rightarrow> message_entry \<Rightarrow> 'a tcp_state \<Rightarrow> 'a tcp_state option" where
  "open_transfer ok evs node a e st = (let s = ts_next st; st1 = st\<lparr>ts_next := s + 1\<rparr> in
     if \<not> ok then Some (st1\<lparr>ts_closed := ts_closed st @ [s]\<rparr>)
     else WriteUntilBufferFull evs s (st1\<lparr>ts_conn := (ts_conn st)(s \<mapsto> (node, a)),
       activeSends := (activeSends st)(s \<mapsto> \<lparr>pt_srcId = source e, pt_destId = destination e, pt_payload = payload_obj e, pt_sent = 0\<rparr>)\<rparr>))"

definition named_host :: "string \<Rightarrow> bool" where
  "named_host ident \<longleftrightarrow> take 4 ident = ''host''"

definition handle_entry :: "'a ip_lib \<Rightarrow> nat \<Rightarrow> bool \<Rightarrow> (nat \<times> int) list \<Rightarrow> message_entry \<Rightarrow> 'a tcp_state \<Rightarrow>
    sim_error + 'a tcp_state option" where
  "handle_entry lib n ok evs e st =
     (if source e = [] \<or> destination e = [] then Inr (Some st)
      else if \<not> named_host (source e) \<or> \<not> named_host (destination e) then Inr (Some st)
      else (case transfer_target lib n e of
          Inl (SimError x) \<Rightarrow> Inl (SimError x)
        | Inl _ \<Rightarrow> Inr (Some st)
        | Inr (node, a) \<Rightarrow> Inr (open_transfer ok evs node a e st)))"

text \<open>\<open>PollToFetch\<close>: an exception of \<open>fetch\<close> (\<open>at()\<close> on a closed channel, before anything is sent) is caught.
  Every path schedules the next poll, unless the simulator aborts.\<close>

definition tcp_PollToFetch :: "'a ip_lib \<Rightarrow> nat \<Rightarrow> ('b, 'w) client_env \<Rightarrow> bool \<Rightarrow> (nat \<times> int) list \<Rightarrow> 'a tcp_state \<Rightarrow> 'w \<Rightarrow>
    io_stop + (sim_error + 'a tcp_state option) \<times> 'w" where
  "tcp_PollToFetch lib n env ok evs st w = (case sim_fetch_any env DAEMON_RESPONSE_TIMEOUT (ts_client st) w of
       Inl OutOfRange \<Rightarrow> Inr (Inr (Some st), w)
     | Inl x \<Rightarrow> Inl x
     | Inr (entry, c1, w1) \<Rightarrow>
         (let st1 = st\<lparr>ts_client := c1\<rparr> in
          Inr (if \<not> entry_exists entry then Inr (Some st1) else handle_entry lib n ok evs entry st1, w1)))"

section \<open>The listener and its queue\<close>

text \<open>\<open>NSB_DAEMON_MODE == "PULL"\<close> selects the time-out of the listener's \<open>fetch\<close>.\<close>

definition ASYNC_FETCH_TIMEOUT_SEC :: i32 where
  "ASYNC_FETCH_TIMEOUT_SEC = 0"

definition listener_timeout :: "bool \<Rightarrow> i32" where
  "listener_timeout pull = (if pull then DAEMON_RESPONSE_TIMEOUT else ASYNC_FETCH_TIMEOUT_SEC)"

definition listener_pass :: "bool \<Rightarrow> ('b, 'w) client_env \<Rightarrow> 'a tcp_state \<Rightarrow> 'w \<Rightarrow> io_stop + 'a tcp_state \<times> 'w" where
  "listener_pass pull env st w = (case sim_fetch env None (listener_timeout pull) (ts_client st) w of
       Inl OutOfRange \<Rightarrow> Inr (st, w)
     | Inl x \<Rightarrow> Inl x
     | Inr (entry, c1, w1) \<Rightarrow>
         (let st1 = st\<lparr>ts_client := c1\<rparr> in
          Inr (if entry_exists entry then st1\<lparr>messageQueue := messageQueue st @ [entry]\<rparr> else st1, w1)))"

text \<open>The thread: one value read from \<open>listenerRunning\<close> before each pass.\<close>

fun AsyncListenerThread :: "bool \<Rightarrow> ('b, 'w) client_env \<Rightarrow> bool list \<Rightarrow> 'a tcp_state \<Rightarrow> 'w \<Rightarrow> io_stop + 'a tcp_state \<times> 'w" where
  "AsyncListenerThread pull env [] st w = Inl NoReturn"
| "AsyncListenerThread pull env (r # rs) st w = (if \<not> r then Inr (st, w)
     else bind_res (listener_pass pull env st w) (\<lambda>(st1, w1). AsyncListenerThread pull env rs st1 w1))"

text \<open>Start and stop of the thread, from any thread of the program, and the handler of SIGINT and SIGTERM:
  an exception that leaves it terminates the program, \<open>exit\<close> destroys the static thread object.\<close>

definition StartAsyncListener :: "worker \<Rightarrow> halted option \<times> worker" where
  "StartAsyncListener t = (if \<not> wk_flag t then spawn (t\<lparr>wk_flag := True\<rparr>) else (None, t))"

definition StopAsyncListener :: "bool \<Rightarrow> worker \<Rightarrow> halted option \<times> worker" where
  "StopAsyncListener self t = (if wk_flag t then join_worker self (t\<lparr>wk_flag := False\<rparr>) else (None, t))"

definition SignalHandler :: "bool \<Rightarrow> worker \<Rightarrow> halted option" where
  "SignalHandler self t = (case StopAsyncListener self t of (Some _, _) \<Rightarrow> Some Terminated
     | (None, t1) \<Rightarrow> drop_worker t1)"

interpretation ns3_listener: worker_object "\<lambda>t. t" "\<lambda>_ :: unit. StartAsyncListener" "StopAsyncListener False" "\<lambda>_ _. True"
proof
  fix t x e t'
  assume "in_step t" "StartAsyncListener t = (e, t')"
  then show "e \<noteq> Some Terminated \<and> in_step t'" by (auto simp: StartAsyncListener_def spawn_def in_step_def split: if_splits)
next
  fix t e t'
  assume "in_step t" "StopAsyncListener False t = (e, t')"
  then show "e = None \<and> in_step t' \<and> \<not> wk_flag t'"
    by (auto simp: StopAsyncListener_def join_worker_def in_step_def split: if_splits)
qed simp

lemma ns3_listener_safe: "life_safe act halt (\<lambda>_ _. True) cs s"
  by (induction cs arbitrary: s) simp_all

text \<open>A signal that any thread but the listener takes ends the program cleanly, whatever was started and stopped
  before; one that the listener takes terminates it.\<close>

lemma SignalHandler_other:
  assumes "life_run (\<lambda>_ :: unit. StartAsyncListener) (StopAsyncListener False) cs idle_worker = (es, t)"
  shows "SignalHandler False t = None"
proof -
  obtain e t1 where h: "StopAsyncListener False t = (e, t1)" by fastforce
  from ns3_listener.run_halt_drop [OF in_step_idle assms ns3_listener_safe h] h show ?thesis by (simp add: SignalHandler_def)
qed

lemma SignalHandler_listener: "wk_flag t \<Longrightarrow> in_step t \<Longrightarrow> SignalHandler True t = Some Terminated"
  by (simp add: SignalHandler_def StopAsyncListener_def join_worker_def in_step_def)

text \<open>\<open>main\<close> from the choice of the mode on: its status, the first event it schedules, and how the
  thread object ends.\<close>

datatype tcp_event = CheckQueue | Poll

definition tcp_main :: "string \<Rightarrow> int \<times> tcp_event list \<times> halted option" where
  "tcp_main mode = (if mode = ''PUSH''
     then (let (e1, t1) = StartAsyncListener idle_worker; (e2, t2) = StopAsyncListener False t1
       in (0, [CheckQueue], if e1 \<noteq> None then e1 else if e2 \<noteq> None then e2 else drop_worker t2))
     else if mode = ''PULL'' then (0, [Poll], drop_worker idle_worker)
     else (1, [], drop_worker idle_worker))"

lemma tcp_main_ends: "snd (snd (tcp_main mode)) = None"
  by (simp add: tcp_main_def StartAsyncListener_def StopAsyncListener_def spawn_def join_worker_def drop_worker_def
      idle_worker_def)

text \<open>\<open>ProcessQueuedMessages\<close>: takes from the front until the queue is empty; one answer of \<open>Connect\<close> and
  of the socket per message.  What it does with a message is a second copy of the body of \<open>PollToFetch\<close>.\<close>

definition queued_entry :: "'a ip_lib \<Rightarrow> nat \<Rightarrow> bool \<Rightarrow> (nat \<times> int) list \<Rightarrow> message_entry \<Rightarrow> 'a tcp_state \<Rightarrow>
    sim_error + 'a tcp_state option" where
  "queued_entry lib n ok evs entry st =
     (let srcId = source entry; destId = destination entry; pl = payload_obj entry in
      if srcId = [] \<or> destId = [] then Inr (Some st)
      else if take 4 srcId \<noteq> ''host'' \<or> take 4 destId \<noteq> ''host'' then Inr (Some st)
      else (case bind_res (host_index destId) (\<lambda>destIndex.
              bind_res (the_addr lib (BASE_IP_PREFIX @ to_string (destIndex + 1))) (\<lambda>destAddr.
              bind_res (host_index srcId) (\<lambda>srcIndex.
              bind_res (get_node n srcIndex) (\<lambda>srcNode. Inr (destAddr, srcNode))))) of
          Inl (SimError x) \<Rightarrow> Inl (SimError x)
        | Inl _ \<Rightarrow> Inr (Some st)
        | Inr (destAddr, srcNode) \<Rightarrow>
            (let socket = ts_next st; st1 = st\<lparr>ts_next := socket + 1\<rparr> in
             Inr (if \<not> ok then Some (st1\<lparr>ts_closed := ts_closed st1 @ [socket]\<rparr>)
               else (let transfer = \<lparr>pt_srcId = srcId, pt_destId = destId, pt_payload = pl, pt_sent = 0\<rparr>;
                         st2 = st1\<lparr>ts_conn := (ts_conn st1)(socket \<mapsto> (srcNode, destAddr)),
                           activeSends := (activeSends st1)(socket \<mapsto> transfer)\<rparr>
                     in WriteUntilBufferFull evs socket st2)))))"

fun process_entries :: "'a ip_lib \<Rightarrow> nat \<Rightarrow> (bool \<times> (nat \<times> int) list) list \<Rightarrow> message_entry list \<Rightarrow> 'a tcp_state \<Rightarrow>
    sim_error + 'a tcp_state option" where
  "process_entries lib n ans [] st = Inr (Some st)"
| "process_entries lib n ans (e # q) st = (case ans of [] \<Rightarrow> Inr None
     | (ok, evs) # as \<Rightarrow> bind_res (queued_entry lib n ok evs e (st\<lparr>messageQueue := q\<rparr>))
         (\<lambda>r. case r of None \<Rightarrow> Inr None | Some st1 \<Rightarrow> process_entries lib n as q st1))"

definition ProcessQueuedMessages :: "'a ip_lib \<Rightarrow> nat \<Rightarrow> (bool \<times> (nat \<times> int) list) list \<Rightarrow> 'a tcp_state \<Rightarrow> sim_error + 'a tcp_state option" where
  "ProcessQueuedMessages lib n ans st = process_entries lib n ans (messageQueue st) st"

section \<open>Receiving\<close>

text \<open>\<open>TcpReceiveCallback\<close> on node \<open>nodeId\<close>: the packets that \<open>RecvFrom\<close> returns before a null pointer,
  with the remote address.  The first one opens the buffer.\<close>

definition open_buffer :: "'a ip_lib \<Rightarrow> nat \<Rightarrow> 'a \<Rightarrow> sim_error + receive_buffer option" where
  "open_buffer lib nodeId from = (if CHR ''.'' \<notin> set (ip_text lib from) then Inr None
     else bind_res (host_of_addr lib from)
       (\<lambda>srcId. Inr (Some \<lparr>rv_srcId = srcId, rv_destId = host_name (int nodeId), rv_data = []\<rparr>)))"

fun TcpReceiveCallback :: "'a ip_lib \<Rightarrow> nat \<Rightarrow> nat \<Rightarrow> ('a \<times> string) list \<Rightarrow> 'a tcp_state \<Rightarrow> sim_error + 'a tcp_state" where
  "TcpReceiveCallback lib nodeId s [] st = Inr st"
| "TcpReceiveCallback lib nodeId s ((from, bytes) # ps) st =
     (if bytes = [] then Inr st
      else case activeReceives st s of
          Some buf \<Rightarrow> TcpReceiveCallback lib nodeId s ps
            (st\<lparr>activeReceives := (activeReceives st)(s \<mapsto> buf\<lparr>rv_data := rv_data buf @ bytes\<rparr>)\<rparr>)
        | None \<Rightarrow> bind_res (open_buffer lib nodeId from) (\<lambda>b. case b of None \<Rightarrow> Inr st
            | Some buf \<Rightarrow> TcpReceiveCallback lib nodeId s ps
                (st\<lparr>activeReceives := (activeReceives st)(s \<mapsto> buf\<lparr>rv_data := bytes\<rparr>)\<rparr>)))"

text \<open>\<open>TcpCloseCallback\<close>, installed for the normal close and for the close on an error.  An exception of
  \<open>post\<close> (\<open>at()\<close> in \<open>sendMessage\<close>) is caught; what \<open>post\<close> had stored by then stays.\<close>

definition post_state :: "('b, 'w) client_env \<Rightarrow> string \<Rightarrow> client \<Rightarrow> 'w \<Rightarrow> client \<times> 'w" where
  "post_state env pl c w = (case store_payload env pl c w of Inl _ \<Rightarrow> (c, w) | Inr (_, _, c1, w1) \<Rightarrow> (c1, w1))"

definition TcpCloseCallback :: "('b, 'w) client_env \<Rightarrow> nat \<Rightarrow> 'a tcp_state \<Rightarrow> 'w \<Rightarrow> io_stop + 'a tcp_state \<times> 'w" where
  "TcpCloseCallback env s st w = (case activeReceives st s of None \<Rightarrow> Inr (st, w)
     | Some buf \<Rightarrow>
         (let fin = (\<lambda>(c1, w1). Inr (st\<lparr>ts_client := c1, activeReceives := (activeReceives st)(s := None)\<rparr>, w1)) in
          case sim_post env (rv_srcId buf) (rv_destId buf) (rv_data buf) (ts_client st) w of
            Inr (_, c1, w1) \<Rightarrow> fin (c1, w1)
          | Inl OutOfRange \<Rightarrow> fin (post_state env (rv_data buf) (ts_client st) w)
          | Inl x \<Rightarrow> Inl x))"

end
