(* ===== verification/NSB_NS3_Facts.thy ===== *)
theory NSB_NS3_Facts
  imports NSB_NS3
begin

text \<open>
  The ns-3 programs: the TCP variant carries a message from host to host unchanged, however the
  sockets split it, and posts it under the right names, but posts what arrived of a broken
  transfer too; the UDP variant posts every message for the wrong host; the listener with its
  queue does what polling does.
\<close>

section \<open>Addresses\<close>

lemma dot_notin_to_string: "CHR ''.'' \<notin> set (to_string i)"
proof -
  have "\<not> is_digit CHR ''.''" by (simp add: is_digit_def)
  then show ?thesis using nat_digits_all_digits by (auto simp: to_string_def)
qed

lemma after_last_dot_append: "CHR ''.'' \<notin> set t \<Longrightarrow> after_last_dot (s @ CHR ''.'' # t) = t"
proof -
  assume t: "CHR ''.'' \<notin> set t"
  then have "takeWhile (\<lambda>c. c \<noteq> CHR ''.'') (rev t @ CHR ''.'' # rev s) = rev t"
    by (subst takeWhile_append2) auto
  then show ?thesis by (simp add: after_last_dot_def)
qed

lemma after_last_dot_ip: "after_last_dot (BASE_IP_PREFIX @ to_string k) = to_string k"
  using after_last_dot_append [OF dot_notin_to_string, of "''10.1.1''" k] by (simp add: BASE_IP_PREFIX_def)

lemma node_addr_ok:
  assumes "ip_laws lib" "i < 254"
  obtains a where "node_addr lib i = Some a" "ipv4_of lib (BASE_IP_PREFIX @ to_string (int i + 1)) = Some a"
    "ip_text lib a = BASE_IP_PREFIX @ to_string (int i + 1)" "host_of_addr lib a = Inr (host_name (int i))"
proof -
  have "i + 1 < 255" using assms(2) by simp
  with assms(1) obtain a where a: "ipv4_of lib (BASE_IP_PREFIX @ to_string (int (i + 1))) = Some a"
    "ip_text lib a = BASE_IP_PREFIX @ to_string (int (i + 1))" unfolding ip_laws_def by blast
  have e: "int (i + 1) = int i + 1" by simp
  note a = a [unfolded e]
  have "stoi (to_string (int i + 1)) = Inr (int i + 1)" using assms(2) by simp
  with a have "host_of_addr lib a = Inr (host_name (int i))"
    by (simp add: host_of_addr_def after_last_dot_ip)
  with a that show ?thesis by (simp add: node_addr_def node_mapping_of_def)
qed

section \<open>The loop of WriteUntilBufferFull\<close>

lemma unat_add_small: "unat (w :: 32 word) + k < 2 ^ 32 \<Longrightarrow> unat (w + of_nat k) = unat w + k"
  by (simp add: unat_word_ariths unat_of_nat)

lemma chunk_length:
  assumes "unat (pt_sent p) \<le> length (pt_payload p)" "length (pt_payload p) < 2 ^ 32"
  shows "length (chunk_of avail p) = min (length (pt_payload p) - unat (pt_sent p)) avail"
proof -
  have u: "unat (of_nat (length (pt_payload p)) :: 32 word) = length (pt_payload p)" using assms(2) by (simp add: unat_of_nat)
  have "unat (of_nat (length (pt_payload p)) - pt_sent p) = length (pt_payload p) - unat (pt_sent p)"
    using assms(1) u by (simp add: unat_sub word_le_nat_alt)
  then show ?thesis by (simp add: chunk_of_def Let_def)
qed

lemma take_of_take: "k \<le> length (take m xs) \<Longrightarrow> take k (take m xs) = take k xs"
  by simp

lemma take_chunk:
  "k \<le> length (chunk_of avail p) \<Longrightarrow> take k (chunk_of avail p) = take k (drop (unat (pt_sent p)) (pt_payload p))"
  unfolding chunk_of_def Let_def by (rule take_of_take)

text \<open>The state of a transfer: what has been written is what \<open>bytesSent\<close> says.\<close>

definition written_ok :: "string \<Rightarrow> pending_transfer \<Rightarrow> string \<Rightarrow> bool" where
  "written_ok pl p wr \<longleftrightarrow> pt_payload p = pl \<and> unat (pt_sent p) \<le> length pl \<and> wr = take (unat (pt_sent p)) pl"

lemma written_ok_send:
  assumes "written_ok pl p wr" "length pl < 2 ^ 32" "k \<le> length (chunk_of avail p)"
  shows "written_ok pl (p\<lparr>pt_sent := pt_sent p + of_nat k\<rparr>) (wr @ take k (chunk_of avail p))"
    and "unat (pt_sent p + of_nat k) = unat (pt_sent p) + k"
proof -
  have l: "unat (pt_sent p) \<le> length (pt_payload p)" "length (pt_payload p) < 2 ^ 32" using assms(1,2) by (simp_all add: written_ok_def)
  from chunk_length [OF this, of avail] assms(3) l have k: "unat (pt_sent p) + k \<le> length (pt_payload p)" by linarith
  with l show u: "unat (pt_sent p + of_nat k) = unat (pt_sent p) + k" by (intro unat_add_small) linarith
  from assms(1,3) k u take_chunk [OF assms(3)]
  show "written_ok pl (p\<lparr>pt_sent := pt_sent p + of_nat k\<rparr>) (wr @ take k (chunk_of avail p))"
    by (simp add: written_ok_def take_add)
qed

lemma write_loop_written:
  "write_loop evs p wr = Some (e, p', wr') \<Longrightarrow> written_ok pl p wr \<Longrightarrow> length pl < 2 ^ 32 \<Longrightarrow> written_ok pl p' wr'"
proof (induction evs arbitrary: p wr)
  case Nil
  then show ?case by (subst (asm) write_loop.simps) (auto split: if_splits)
next
  case (Cons ev evs)
  obtain avail accepts where ev: "ev = (avail, accepts)" by fastforce
  show ?case
  proof (cases "unat (pt_sent p) < length (pt_payload p) \<and> avail \<noteq> 0 \<and> 0 \<le> accepts")
    case True
    define k where "k = min (nat accepts) (length (chunk_of avail p))"
    have "write_loop (ev # evs) p wr = write_loop evs (p\<lparr>pt_sent := pt_sent p + of_nat k\<rparr>) (wr @ take k (chunk_of avail p))"
      using True ev by (subst write_loop.simps) (simp add: Let_def k_def)
    moreover have "k \<le> length (chunk_of avail p)" by (simp add: k_def)
    ultimately show ?thesis
      using Cons.IH Cons.prems written_ok_send(1) [OF Cons.prems(2,3), of k avail] by simp
  next
    case False
    with Cons.prems(1) ev have "p' = p \<and> wr' = wr"
      by (subst (asm) write_loop.simps) (auto split: if_splits)
    with Cons.prems(2) show ?thesis by simp
  qed
qed

text \<open>The loop ends, with everything written, when each pass finds some room and is given something:
  no more passes than bytes.\<close>

lemma write_loop_finishes:
  "written_ok pl p wr \<Longrightarrow> length pl < 2 ^ 32 \<Longrightarrow> \<forall>(avail, accepts)\<in>set evs. 0 < avail \<and> 0 < accepts \<Longrightarrow>
     length pl \<le> unat (pt_sent p) + length evs \<Longrightarrow> \<exists>p'. write_loop evs p wr = Some (LoopDone, p', pl) \<and> unat (pt_sent p') = length pl"
proof (induction evs arbitrary: p wr)
  case Nil
  then show ?case by (subst write_loop.simps) (auto simp: written_ok_def)
next
  case (Cons ev evs)
  obtain avail accepts where ev: "ev = (avail, accepts)" by fastforce
  show ?case
  proof (cases "unat (pt_sent p) < length (pt_payload p)")
    case True
    define k where "k = min (nat accepts) (length (chunk_of avail p))"
    have pl: "pt_payload p = pl" "unat (pt_sent p) \<le> length (pt_payload p)" using Cons.prems(1) by (simp_all add: written_ok_def)
    from chunk_length [OF pl(2), of avail] Cons.prems(2,3) True ev pl(1) have k: "0 < k" "k \<le> length (chunk_of avail p)"
      by (auto simp: k_def)
    note w = written_ok_send [OF Cons.prems(1,2) k(2)]
    have "write_loop (ev # evs) p wr = write_loop evs (p\<lparr>pt_sent := pt_sent p + of_nat k\<rparr>) (wr @ take k (chunk_of avail p))"
      using True Cons.prems(3) ev by (subst write_loop.simps) (simp add: Let_def k_def)
    with Cons.IH [OF w(1) Cons.prems(2)] Cons.prems(3,4) k(1) w(2) show ?thesis by simp
  next
    case False
    with Cons.prems(1) show ?thesis by (subst write_loop.simps) (auto simp: written_ok_def)
  qed
qed

section \<open>Transfers\<close>

text \<open>The send callbacks that follow, each on some socket.\<close>

fun run_callbacks :: "(nat \<times> (nat \<times> int) list) list \<Rightarrow> 'a tcp_state \<Rightarrow> 'a tcp_state option" where
  "run_callbacks [] st = Some st"
| "run_callbacks ((s, evs) # cs) st = (case WriteUntilBufferFull evs s st of None \<Rightarrow> None | Some st1 \<Rightarrow> run_callbacks cs st1)"

text \<open>Under way: a prefix has been written and the socket is open; done: all of it, and the socket is
  closed.\<close>

definition transfer_inv :: "nat \<Rightarrow> string \<Rightarrow> 'a tcp_state \<Rightarrow> bool" where
  "transfer_inv s pl st \<longleftrightarrow> (case activeSends st s of
     Some p \<Rightarrow> written_ok pl p (ts_written st s) \<and> s \<notin> set (ts_closed st)
   | None \<Rightarrow> ts_written st s = pl \<and> s \<in> set (ts_closed st))"

lemma WriteUntilBufferFull_frame:
  "WriteUntilBufferFull evs s st = Some st' \<Longrightarrow> ts_client st' = ts_client st \<and> ts_next st' = ts_next st \<and>
     activeReceives st' = activeReceives st \<and> messageQueue st' = messageQueue st \<and> ts_conn st' = ts_conn st"
  by (auto simp: WriteUntilBufferFull_def Let_def split: option.splits if_splits)

lemma WriteUntilBufferFull_other:
  "WriteUntilBufferFull evs s st = Some st' \<Longrightarrow> r \<noteq> s \<Longrightarrow> activeSends st' r = activeSends st r \<and>
     ts_written st' r = ts_written st r \<and> (r \<in> set (ts_closed st') \<longleftrightarrow> r \<in> set (ts_closed st))"
  by (auto simp: WriteUntilBufferFull_def Let_def split: option.splits if_splits)

lemma WriteUntilBufferFull_inv:
  assumes "WriteUntilBufferFull evs r st = Some st'" "transfer_inv s pl st" "length pl < 2 ^ 32"
  shows "transfer_inv s pl st'"
proof (cases "r = s \<and> activeSends st s \<noteq> None")
  case True
  then obtain p where p: "activeSends st s = Some p" and r: "r = s" by blast
  with assms(1) obtain e p1 wr where l: "write_loop evs p (ts_written st s) = Some (e, p1, wr)"
    by (auto simp: WriteUntilBufferFull_def split: option.splits)
  have w: "written_ok pl p1 wr" using write_loop_written [OF l _ assms(3)] assms(2) p by (simp add: transfer_inv_def)
  then have "length (pt_payload p1) \<le> unat (pt_sent p1) \<Longrightarrow> wr = pl" by (simp add: written_ok_def)
  with assms(1,2) p r l w show ?thesis
    by (auto simp: WriteUntilBufferFull_def Let_def transfer_inv_def split: if_splits)
next
  case False
  then have "r \<noteq> s \<or> st' = st" using assms(1) by (auto simp: WriteUntilBufferFull_def)
  with WriteUntilBufferFull_other [OF assms(1), of s] assms(2) show ?thesis
    by (auto simp: transfer_inv_def split: option.splits)
qed

lemma run_callbacks_inv:
  assumes "length pl < 2 ^ 32"
  shows "run_callbacks cs st = Some st' \<Longrightarrow> transfer_inv s pl st \<Longrightarrow>
     transfer_inv s pl st' \<and> ts_conn st' = ts_conn st \<and> ts_client st' = ts_client st \<and> activeReceives st' = activeReceives st"
proof (induction cs arbitrary: st)
  case (Cons c cs)
  obtain r evs where c: "c = (r, evs)" by fastforce
  with Cons.prems(1) obtain st1 where 1: "WriteUntilBufferFull evs r st = Some st1" "run_callbacks cs st1 = Some st'"
    by (auto split: option.splits)
  from Cons.IH [OF 1(2) WriteUntilBufferFull_inv [OF 1(1) Cons.prems(2) assms]] WriteUntilBufferFull_frame [OF 1(1)]
  show ?case by simp
qed simp

lemma open_transfer_inv:
  assumes "open_transfer True evs node a e st = Some st'" "length (payload_obj e) < 2 ^ 32"
    "ts_written st (ts_next st) = []" "ts_next st \<notin> set (ts_closed st)"
  shows "transfer_inv (ts_next st) (payload_obj e) st' \<and> ts_conn st' (ts_next st) = Some (node, a) \<and>
     ts_client st' = ts_client st \<and> activeReceives st' = activeReceives st"
proof -
  let ?s = "ts_next st"
  define st1 where "st1 = st\<lparr>ts_next := ?s + 1, ts_conn := (ts_conn st)(?s \<mapsto> (node, a)),
       activeSends := (activeSends st)(?s \<mapsto> \<lparr>pt_srcId = source e, pt_destId = destination e, pt_payload = payload_obj e, pt_sent = 0\<rparr>)\<rparr>"
  have w: "WriteUntilBufferFull evs ?s st1 = Some st'" using assms(1) by (simp add: open_transfer_def Let_def st1_def)
  have "transfer_inv ?s (payload_obj e) st1" using assms(3,4) by (simp add: transfer_inv_def st1_def written_ok_def)
  from WriteUntilBufferFull_inv [OF w this assms(2)] WriteUntilBufferFull_frame [OF w] show ?thesis by (simp add: st1_def)
qed

section \<open>Witness material\<close>

text \<open>Addresses that are their texts, an idle program, a message from host 0 to host 1.\<close>

definition wit_lib :: "string ip_lib" where
  "wit_lib = \<lparr>ipv4_of = Some, ip_text = id\<rparr>"

definition wit_tcp :: "string tcp_state" where
  "wit_tcp = \<lparr>ts_client = new_sim_client ''simulator'', ts_next = 7, activeSends = Map.empty, activeReceives = Map.empty,
     messageQueue = [], ts_conn = Map.empty, ts_written = (\<lambda>_. []), ts_closed = []\<rparr>"

definition wit_hello :: message_entry where
  "wit_hello = mk_entry (host_name (int 0)) (host_name (int 1)) ''hello'' (int_of_size ''hello'')"

definition wit_addr :: "nat \<Rightarrow> string" where
  "wit_addr i = ipString (node_mapping_of i)"

lemma wit_lib_laws: "ip_laws wit_lib"
  by (simp add: ip_laws_def wit_lib_def)

lemma wit_node_addr [simp]: "node_addr wit_lib i = Some (wit_addr i)"
  by (simp add: node_addr_def wit_lib_def wit_addr_def)

lemma wit_tcp_sel [simp]:
  "ts_written wit_tcp s = []" "ts_closed wit_tcp = []" "ts_next wit_tcp = 7" "activeReceives wit_tcp r = None"
  "messageQueue wit_tcp = []"
  by (simp_all add: wit_tcp_def)

lemma wit_hello_sel [simp]: "source wit_hello = host_name (int 0)" "destination wit_hello = host_name (int 1)"
  "payload_obj wit_hello = ''hello''"
  by (simp_all add: wit_hello_def)

lemma wit_tcp_world:
  "ready SIM_CLIENT (lw_daemon wit_world) (ts_client wit_tcp)" "SYSTEM_MODE (d_cfg (lw_daemon wit_world)) = PULL"
  "\<not> USE_DB (d_cfg (lw_daemon wit_world))" "rx_buffer (lw_daemon wit_world) = []" "SYSTEM_MODE (c_cfg (ts_client wit_tcp)) = PULL"
  by (simp_all add: ready_def wit_world_def wit_daemon_def wit_tcp_def new_sim_client_def new_client_def default_cfg_def)

section \<open>Properties of a transfer\<close>

text \<open>C26: A TCP transfer: from its start and through any sequence of send callbacks on any sockets, what
  \<open>Send\<close> has accepted on its socket is the payload up to \<open>bytesSent\<close> while it is under way, and
  exactly the payload, with the socket closed, once it has ended.\<close>

theorem tcp_send_stream:
  assumes "open_transfer True evs node a e st = Some st1" "run_callbacks cs st1 = Some st2"
    and "length (payload_obj e) < 2 ^ 32" "ts_written st s = []" "s \<notin> set (ts_closed st)" "s = ts_next st"
  shows "ts_conn st2 s = Some (node, a) \<and> (case activeSends st2 s of
     Some p \<Rightarrow> ts_written st2 s = take (unat (pt_sent p)) (payload_obj e) \<and> s \<notin> set (ts_closed st2)
   | None \<Rightarrow> ts_written st2 s = payload_obj e \<and> s \<in> set (ts_closed st2))"
proof -
  have "transfer_inv s (payload_obj e) st1 \<and> ts_conn st1 s = Some (node, a)"
    using open_transfer_inv [OF assms(1,3)] assms(4-6) by simp
  with run_callbacks_inv [OF assms(3,2), of s] show ?thesis
    by (auto simp: transfer_inv_def written_ok_def split: option.splits)
qed

theorem tcp_send_stream_witness:
  "\<exists>st1 st2 p. open_transfer True [(3, 2), (0, 0)] 0 (wit_addr 1) wit_hello wit_tcp = Some st1 \<and>
     run_callbacks [(7, [(2, 9), (0, 0)])] st1 = Some st2 \<and> activeSends st2 7 = Some p \<and>
     ts_written st2 7 = take (unat (pt_sent p)) ''hello'' \<and> unat (pt_sent p) = 4"
proof -
  define p where "p k = \<lparr>pt_srcId = host_name 0, pt_destId = host_name 1, pt_payload = ''hello'', pt_sent = k\<rparr>" for k
  define st1 where "st1 = wit_tcp\<lparr>ts_next := 8, ts_conn := [7 \<mapsto> (0, wit_addr 1)], activeSends := [7 \<mapsto> p 2], ts_written := (\<lambda>_. [])(7 := ''he'')\<rparr>"
  define st2 where "st2 = st1\<lparr>activeSends := [7 \<mapsto> p 4], ts_written := (\<lambda>_. [])(7 := ''hell'')\<rparr>"
  have p: "pt_sent (p k) = k" "pt_payload (p k) = ''hello''" "p j\<lparr>pt_sent := k\<rparr> = p k" for j k by (simp_all add: p_def)
  have c: "chunk_of 3 (p 0) = ''hel''" "chunk_of 2 (p 2) = ''ll''" by (simp_all add: p_def chunk_of_def)
  have stop: "write_loop [(0, 0)] (p k) wr = Some (LoopDone, p k, wr)" if "unat k < 5" for k wr
    using that by (subst write_loop.simps) (simp add: p)
  have l1: "write_loop [(3, 2), (0, 0)] (p 0) [] = Some (LoopDone, p 2, ''he'')"
    by (subst write_loop.simps) (simp add: p c stop Let_def)
  have l2: "write_loop [(2, 9), (0, 0)] (p 2) ''he'' = Some (LoopDone, p 4, ''hell'')"
    by (subst write_loop.simps) (simp add: p c stop Let_def)
  have p0: "\<lparr>pt_srcId = host_name 0, pt_destId = host_name 1, pt_payload = ''hello'', pt_sent = 0\<rparr> = p 0" by (simp add: p_def)
  have 1: "open_transfer True [(3, 2), (0, 0)] 0 (wit_addr 1) wit_hello wit_tcp = Some st1"
    using l1 by (simp add: open_transfer_def Let_def WriteUntilBufferFull_def st1_def p p0 wit_tcp_def)
  have 2: "run_callbacks [(7, [(2, 9), (0, 0)])] st1 = Some st2"
    using l2 by (simp add: Let_def WriteUntilBufferFull_def st1_def st2_def p)
  have 3: "activeSends st2 7 = Some (p 4)" by (simp add: st2_def)
  have "ts_written st2 7 = take (unat (pt_sent (p 4))) ''hello''"
  proof -
    have a: "length (payload_obj wit_hello) < 2 ^ 32" "ts_written wit_tcp 7 = []" "7 \<notin> set (ts_closed wit_tcp)" "7 = ts_next wit_tcp"
      by simp_all
    from tcp_send_stream [OF 1 2 a] show ?thesis by (simp only: 3 option.case wit_hello_sel)
  qed
  with 1 2 3 show ?thesis
    by - (rule exI [of _ st1], rule exI [of _ st2], rule exI [of _ "p 4"], simp add: p)
qed

text \<open>A transfer ends: if at each pass of the loop the socket has room and takes at least one byte, the first
  call writes the whole payload and closes the socket, in no more passes than the payload has bytes.\<close>

theorem tcp_transfer_completes:
  assumes "\<forall>(avail, accepts)\<in>set evs. 0 < avail \<and> 0 < accepts" "length (payload_obj e) \<le> length evs"
    and "length (payload_obj e) < 2 ^ 32" "ts_written st (ts_next st) = []"
  shows "\<exists>st1. open_transfer True evs node a e st = Some st1 \<and> activeSends st1 (ts_next st) = None \<and>
     ts_written st1 (ts_next st) = payload_obj e \<and> ts_closed st1 = ts_closed st @ [ts_next st]"
proof -
  define p where "p = \<lparr>pt_srcId = source e, pt_destId = destination e, pt_payload = payload_obj e, pt_sent = 0\<rparr>"
  have "written_ok (payload_obj e) p []" by (simp add: written_ok_def p_def)
  from write_loop_finishes [OF this assms(3,1)] assms(2) obtain p' where
    l: "write_loop evs p [] = Some (LoopDone, p', payload_obj e)" "unat (pt_sent p') = length (payload_obj e)"
    by (auto simp: p_def)
  from write_loop_written [OF l(1) _ assms(3)] have "pt_payload p' = payload_obj e" by (simp add: written_ok_def p_def)
  with l assms(4) show ?thesis
    by (simp add: open_transfer_def Let_def WriteUntilBufferFull_def p_def)
qed

theorem tcp_transfer_completes_witness:
  "\<exists>st1. open_transfer True (replicate 5 (3, 2)) 0 (wit_addr 1) wit_hello wit_tcp = Some st1 \<and> activeSends st1 7 = None \<and>
     ts_written st1 7 = ''hello'' \<and> ts_closed st1 = [7]"
  using tcp_transfer_completes [of "replicate 5 (3, 2)" wit_hello wit_tcp 0 "wit_addr 1"] by simp

lemma wit_transfer:
  "\<exists>st1. handle_entry wit_lib 2 True (replicate 5 (3, 2)) wit_hello wit_tcp = Inr (Some st1) \<and> activeSends st1 7 = None \<and>
     ts_written st1 7 = ''hello''"
proof -
  have w: "written_ok ''hello'' \<lparr>pt_srcId = host_name 0, pt_destId = host_name 1, pt_payload = ''hello'', pt_sent = 0\<rparr> []"
    by (simp add: written_ok_def)
  obtain p' where "write_loop (replicate 5 (3, 2)) \<lparr>pt_srcId = host_name 0, pt_destId = host_name 1, pt_payload = ''hello'', pt_sent = 0\<rparr> [] =
      Some (LoopDone, p', ''hello'')" "unat (pt_sent p') = 5"
    using write_loop_finishes [OF w, of "replicate 5 (3, 2)"] by auto
  moreover from write_loop_written [OF this(1) w] have "pt_payload p' = ''hello''" by (simp add: written_ok_def)
  moreover have "transfer_target wit_lib 2 wit_hello = Inr (0, wit_addr 1)"
    by (simp add: transfer_target_def get_node_def the_addr_def wit_lib_def wit_addr_def node_mapping_of_def)
  moreover have "named_host (host_name k)" for k by (simp add: named_host_def host_name_def)
  ultimately show ?thesis
    by (simp add: handle_entry_def open_transfer_def Let_def WriteUntilBufferFull_def)
qed

section \<open>Receiving\<close>

text \<open>The receive callbacks on a socket: each brings some packets.\<close>

fun run_receives :: "'a ip_lib \<Rightarrow> nat \<Rightarrow> nat \<Rightarrow> ('a \<times> string) list list \<Rightarrow> 'a tcp_state \<Rightarrow> sim_error + 'a tcp_state" where
  "run_receives lib k s [] st = Inr st"
| "run_receives lib k s (ps # pss) st = bind_res (TcpReceiveCallback lib k s ps st) (run_receives lib k s pss)"

lemma receive_buffered:
  "activeReceives st s = Some buf \<Longrightarrow> \<forall>p\<in>set ps. snd p \<noteq> [] \<Longrightarrow>
     TcpReceiveCallback lib k s ps st = Inr (st\<lparr>activeReceives := (activeReceives st)(s \<mapsto> buf\<lparr>rv_data := rv_data buf @ concat (map snd ps)\<rparr>)\<rparr>)"
proof (induction ps arbitrary: st buf)
  case Nil
  have "st\<lparr>activeReceives := (activeReceives st)(s \<mapsto> buf)\<rparr> = st" using Nil(1) by (simp add: fun_upd_idem)
  then show ?case by (simp del: fun_upd_apply)
next
  case (Cons p ps)
  obtain from' bytes where p: "p = (from', bytes)" by fastforce
  with Cons.prems Cons.IH [of "st\<lparr>activeReceives := (activeReceives st)(s \<mapsto> buf\<lparr>rv_data := rv_data buf @ bytes\<rparr>)\<rparr>"
      "buf\<lparr>rv_data := rv_data buf @ bytes\<rparr>"] show ?case by (simp add: fun_upd_same del: fun_upd_apply)
qed

lemma receives_buffered:
  "activeReceives st s = Some buf \<Longrightarrow> \<forall>ps\<in>set pss. \<forall>p\<in>set ps. snd p \<noteq> [] \<Longrightarrow>
     run_receives lib k s pss st = Inr (st\<lparr>activeReceives := (activeReceives st)(s \<mapsto> buf\<lparr>rv_data := rv_data buf @ concat (map snd (concat pss))\<rparr>)\<rparr>)"
proof (induction pss arbitrary: st buf)
  case Nil
  have "st\<lparr>activeReceives := (activeReceives st)(s \<mapsto> buf)\<rparr> = st" using Nil(1) by (simp add: fun_upd_idem)
  then show ?case by (simp del: fun_upd_apply)
next
  case (Cons ps pss)
  from receive_buffered [OF Cons.prems(1), of ps lib k] Cons.prems(2)
    Cons.IH [of "st\<lparr>activeReceives := (activeReceives st)(s \<mapsto> buf\<lparr>rv_data := rv_data buf @ concat (map snd ps)\<rparr>)\<rparr>"
      "buf\<lparr>rv_data := rv_data buf @ concat (map snd ps)\<rparr>"]
  show ?case by (simp add: fun_upd_same del: fun_upd_apply)
qed

lemma received_nonempty: "concat (map snd xs) \<noteq> [] \<Longrightarrow> xs \<noteq> []"
  by auto

text \<open>Any packets from one address, in any grouping, on a socket without a buffer.\<close>

lemma receives_collect:
  assumes "activeReceives st s = None" "concat pss \<noteq> []" "\<forall>ps\<in>set pss. \<forall>p\<in>set ps. snd p \<noteq> [] \<and> fst p = a"
    and "host_of_addr lib a = Inr src" "CHR ''.'' \<in> set (ip_text lib a)"
  shows "run_receives lib k s pss st = Inr (st\<lparr>activeReceives := (activeReceives st)(s \<mapsto>
     \<lparr>rv_srcId = src, rv_destId = host_name (int k), rv_data = concat (map snd (concat pss))\<rparr>)\<rparr>)"
  using assms(1-3)
proof (induction pss)
  case (Cons ps pss)
  show ?case
  proof (cases ps)
    case Nil
    with Cons show ?thesis by simp
  next
    case (Cons p ps')
    obtain bytes where p: "p = (a, bytes)" "bytes \<noteq> []" using Cons.prems(3) Cons by (cases p) auto
    define buf where "buf = \<lparr>rv_srcId = src, rv_destId = host_name (int k), rv_data = bytes\<rparr>"
    define st1 where "st1 = st\<lparr>activeReceives := (activeReceives st)(s \<mapsto> buf)\<rparr>"
    have a1: "activeReceives st1 s = Some buf" by (simp add: st1_def)
    have "TcpReceiveCallback lib k s ps st = TcpReceiveCallback lib k s ps' st1"
      using Cons p Cons.prems(1) assms(4,5) by (simp add: open_buffer_def st1_def buf_def)
    then have "run_receives lib k s (ps # pss) st = run_receives lib k s (ps' # pss) st1" by simp
    with receives_buffered [OF a1, of "ps' # pss" lib k] Cons.prems(3) Cons p show ?thesis
      by (auto simp: st1_def buf_def simp del: fun_upd_apply)
  qed
qed simp

section \<open>A message through the network\<close>

lemma sim_post_entry:
  assumes "on_loop env fds exec ce" "ready SIM_CLIENT (lw_daemon w) c" "SYSTEM_MODE (d_cfg (lw_daemon w)) = PULL"
    "\<not> USE_DB (d_cfg (lw_daemon w))" "transmits env (data_message POST SIM_CLIENT src dest pl (set_payload pl))"
  shows "sim_post ce src dest pl c w = Inr ([], c, w\<lparr>lw_daemon := (lw_daemon w)\<lparr>rx_buffer :=
      rx_buffer (lw_daemon w) @ [mk_entry src dest pl (int_of_size pl)]\<rparr>\<rparr>)"
  using sim_post_loop [OF assms(1) _ _ assms(5) refl assms(3)] assms(2,4) entry_of_data [OF assms(4)]
  by (simp add: ready_def)

lemma close_posts:
  assumes "on_loop env fds exec ce" "ready SIM_CLIENT (lw_daemon w) (ts_client st)" "SYSTEM_MODE (d_cfg (lw_daemon w)) = PULL"
    "\<not> USE_DB (d_cfg (lw_daemon w))" "activeReceives st r = Some \<lparr>rv_srcId = src, rv_destId = dest, rv_data = pl\<rparr>"
    "transmits env (data_message POST SIM_CLIENT src dest pl (set_payload pl))"
  shows "\<exists>st'. TcpCloseCallback ce r st w = Inr (st', w\<lparr>lw_daemon := (lw_daemon w)\<lparr>rx_buffer :=
      rx_buffer (lw_daemon w) @ [mk_entry src dest pl (int_of_size pl)]\<rparr>\<rparr>) \<and> activeReceives st' r = None"
  using sim_post_entry [OF assms(1-4,6)] assms(5) by (simp add: TcpCloseCallback_def Let_def)

lemma named_host_name [simp]: "named_host (host_name i)"
  by (simp add: named_host_def host_name_def)

lemma transfer_target_hosts:
  assumes "ip_laws lib" "n \<le> 254" "i < n" "j < n" "source e = host_name (int i)" "destination e = host_name (int j)"
    "node_addr lib j = Some a"
  shows "transfer_target lib n e = Inr (i, a)"
proof -
  have "j < 254" using assms(2,4) by simp
  then obtain a' where "node_addr lib j = Some a'" "ipv4_of lib (BASE_IP_PREFIX @ to_string (int j + 1)) = Some a'"
    using node_addr_ok [OF assms(1)] by blast
  with assms(7) have "the_addr lib (BASE_IP_PREFIX @ to_string (int j + 1)) = Inr a" by (simp add: the_addr_def)
  moreover have "host_index (host_name (int i)) = Inr (int i)" "host_index (host_name (int j)) = Inr (int j)"
    using assms(2-4) by simp_all
  ultimately show ?thesis using assms(3-6) by (simp add: transfer_target_def get_node_def)
qed

lemma node_addr_receive:
  assumes "ip_laws lib" "n \<le> 254" "i < n" "node_addr lib i = Some a"
  shows "host_of_addr lib a = Inr (host_name (int i))" "CHR ''.'' \<in> set (ip_text lib a)"
proof -
  have "i < 254" using assms(2,3) by simp
  then obtain a' where "node_addr lib i = Some a'" "ip_text lib a' = BASE_IP_PREFIX @ to_string (int i + 1)"
    "host_of_addr lib a' = Inr (host_name (int i))"
    using node_addr_ok [OF assms(1)] by blast
  with assms(4) have "host_of_addr lib a = Inr (host_name (int i)) \<and> ip_text lib a = BASE_IP_PREFIX @ to_string (int i + 1)"
    by simp
  then show "host_of_addr lib a = Inr (host_name (int i))" "CHR ''.'' \<in> set (ip_text lib a)"
    by (simp_all add: BASE_IP_PREFIX_def)
qed

text \<open>C22: The TCP program carries a message from host \<open>i\<close> to host \<open>j\<close> unchanged: the connection is from node
  \<open>i\<close> to the address of node \<open>j\<close>; once the transfer has ended, whatever packets and callbacks the
  bytes written arrive in there, the close posts exactly the message that was fetched.\<close>

theorem ns3_tcp_delivers:
  fixes w :: "('b, 's) loop_world"
  assumes lib: "ip_laws lib" "n \<le> 254" "i < n" "j < n"
    and e: "e = mk_entry (host_name (int i)) (host_name (int j)) pl (int_of_size pl)" "pl \<noteq> []" "length pl < 2 ^ 32"
    and snd: "handle_entry lib n True evs e st = Inr (Some st1)" "run_callbacks cs st1 = Some st2" "activeSends st2 s = None"
      "s = ts_next st" "ts_written st s = []" "s \<notin> set (ts_closed st)"
    and rcv: "concat (map snd (concat pss)) = ts_written st2 s" "\<forall>ps\<in>set pss. \<forall>p\<in>set ps. snd p \<noteq> [] \<and> node_addr lib i = Some (fst p)"
      "activeReceives st r = None"
    and net: "on_loop env fds exec ce" "ready SIM_CLIENT (lw_daemon w) (ts_client st)" "SYSTEM_MODE (d_cfg (lw_daemon w)) = PULL"
      "\<not> USE_DB (d_cfg (lw_daemon w))" "transmits env (data_message POST SIM_CLIENT (source e) (destination e) pl (set_payload pl))"
  shows "\<exists>a st3 st4. ts_conn st2 s = Some (i, a) \<and> node_addr lib j = Some a \<and> run_receives lib j r pss st2 = Inr st3 \<and>
     TcpCloseCallback ce r st3 w = Inr (st4, w\<lparr>lw_daemon := (lw_daemon w)\<lparr>rx_buffer := rx_buffer (lw_daemon w) @ [e]\<rparr>\<rparr>) \<and>
     activeReceives st4 r = None"
proof -
  have ij: "i < 254" "j < 254" using lib by simp_all
  obtain a where a: "node_addr lib j = Some a" using node_addr_ok [OF lib(1) ij(2)] by blast
  obtain b where b: "node_addr lib i = Some b" using node_addr_ok [OF lib(1) ij(1)] by blast
  have "open_transfer True evs i a e st = Some st1"
    using snd(1) transfer_target_hosts [OF lib _ _ a, of e] e(1) by (simp add: handle_entry_def)
  note op = open_transfer_inv [OF this]
  have w2: "ts_conn st2 s = Some (i, a)" "ts_written st2 s = pl" and st2: "ts_client st2 = ts_client st" "activeReceives st2 r = None"
    using op run_callbacks_inv [OF e(3) snd(2), of s] e snd(3-6) rcv(3) by (simp_all add: transfer_inv_def)
  define st3 where "st3 = st2\<lparr>activeReceives := (activeReceives st2)(r \<mapsto>
     \<lparr>rv_srcId = host_name (int i), rv_destId = host_name (int j), rv_data = pl\<rparr>)\<rparr>"
  have "concat pss \<noteq> []" by (rule received_nonempty) (simp only: rcv(1) w2(2) e(2) not_False_eq_True)
  moreover have "\<forall>ps\<in>set pss. \<forall>p\<in>set ps. snd p \<noteq> [] \<and> fst p = b" using rcv(2) b by auto
  ultimately have 3: "run_receives lib j r pss st2 = Inr st3"
    using receives_collect [OF st2(2) _ _ node_addr_receive [OF lib(1-3) b], of pss j] rcv(1) w2(2) by (simp add: st3_def)
  have "ts_client st3 = ts_client st" by (simp add: st3_def st2)
  with close_posts [OF net(1) _ net(3,4), of st3 r "host_name (int i)" "host_name (int j)" pl] net(2,5) e(1)
  show ?thesis using w2(1) a 3 by (auto simp: st3_def)
qed

theorem ns3_tcp_delivers_witness:
  "\<exists>st1 st3 st4. handle_entry wit_lib 2 True (replicate 5 (3, 2)) wit_hello wit_tcp = Inr (Some st1) \<and>
     run_receives wit_lib 1 9 [[(wit_addr 0, ''he'')], [(wit_addr 0, ''llo'')]] st1 = Inr st3 \<and>
     TcpCloseCallback (wit_env 100) 9 st3 wit_world = Inr (st4, wit_world\<lparr>lw_daemon := wit_daemon\<lparr>rx_buffer := [wit_hello]\<rparr>\<rparr>)"
proof -
  obtain st1 where st1: "handle_entry wit_lib 2 True (replicate 5 (3, 2)) wit_hello wit_tcp = Inr (Some st1)"
    "activeSends st1 7 = None" "ts_written st1 7 = ''hello''" using wit_transfer by blast
  have 0: "run_callbacks [] st1 = Some st1" by simp
  have d: "lw_daemon wit_world = wit_daemon" by (simp add: wit_world_def)
  from ns3_tcp_delivers [OF wit_lib_laws _ _ _ wit_hello_def _ _ st1(1) 0 st1(2) _ _ _ _ _ _ wit_env_on_loop [of 100] wit_tcp_world(1-3),
      of "[[(wit_addr 0, ''he'')], [(wit_addr 0, ''llo'')]]" 9] st1(1,3) wit_tcp_world(4) d
  show ?thesis by auto
qed

text \<open>The same callback is installed for a close on an error, and it does not know how much was to come: when
  a connection breaks, the part of the payload that has arrived is posted as if it were the
  message.\<close>

theorem ns3_tcp_posts_partial:
  fixes w :: "('b, 's) loop_world"
  assumes lib: "ip_laws lib" "n \<le> 254" "i < n" "j < n"
    and rcv: "concat (map snd (concat pss)) = take k pl" "\<forall>ps\<in>set pss. \<forall>p\<in>set ps. snd p \<noteq> [] \<and> node_addr lib i = Some (fst p)"
      "activeReceives st r = None" "0 < k" "k < length pl"
    and net: "on_loop env fds exec ce" "ready SIM_CLIENT (lw_daemon w) (ts_client st)" "SYSTEM_MODE (d_cfg (lw_daemon w)) = PULL"
      "\<not> USE_DB (d_cfg (lw_daemon w))"
      "transmits env (data_message POST SIM_CLIENT (host_name (int i)) (host_name (int j)) (take k pl) (set_payload (take k pl)))"
  shows "\<exists>st3 st4. run_receives lib j r pss st = Inr st3 \<and> TcpCloseCallback ce r st3 w = Inr (st4, w\<lparr>lw_daemon := (lw_daemon w)\<lparr>rx_buffer :=
       rx_buffer (lw_daemon w) @ [mk_entry (host_name (int i)) (host_name (int j)) (take k pl) (int_of_size (take k pl))]\<rparr>\<rparr>) \<and>
     take k pl \<noteq> pl"
proof -
  have "i < 254" using lib by simp
  then obtain b where b: "node_addr lib i = Some b" using node_addr_ok [OF lib(1)] by blast
  define st3 where "st3 = st\<lparr>activeReceives := (activeReceives st)(r \<mapsto>
     \<lparr>rv_srcId = host_name (int i), rv_destId = host_name (int j), rv_data = take k pl\<rparr>)\<rparr>"
  have pl: "take k pl \<noteq> []" "take k pl \<noteq> pl" using rcv(4,5) by auto
  have "concat pss \<noteq> []" by (rule received_nonempty) (simp only: rcv(1) pl(1) not_False_eq_True)
  moreover have "\<forall>ps\<in>set pss. \<forall>p\<in>set ps. snd p \<noteq> [] \<and> fst p = b" using rcv(2) b by auto
  ultimately have 3: "run_receives lib j r pss st = Inr st3"
    using receives_collect [OF rcv(3) _ _ node_addr_receive [OF lib(1-3) b], of pss j] rcv(1) by (simp add: st3_def)
  from close_posts [OF net(1) _ net(3,4), of st3 r] net(2,5) 3 pl(2) show ?thesis by (auto simp: st3_def)
qed

theorem ns3_tcp_posts_partial_witness:
  "\<exists>st3 st4. run_receives wit_lib 1 9 [[(wit_addr 0, ''he'')]] wit_tcp = Inr st3 \<and>
     TcpCloseCallback (wit_env 100) 9 st3 wit_world =
       Inr (st4, wit_world\<lparr>lw_daemon := wit_daemon\<lparr>rx_buffer := [mk_entry (host_name (int 0)) (host_name (int 1)) ''he'' 2]\<rparr>\<rparr>)"
proof -
  have d: "lw_daemon wit_world = wit_daemon" by (simp add: wit_world_def)
  from ns3_tcp_posts_partial [OF wit_lib_laws _ _ _ _ _ _ _ _ wit_env_on_loop [of 100] wit_tcp_world(1-3), of 2 0 1
      "[[(wit_addr 0, ''he'')]]" 2 "''hello''" 9] wit_tcp_world(4) d
  show ?thesis by (auto simp: int_of_size_def)
qed

text \<open>The UDP program posts for the wrong host: it sends a message for host \<open>j\<close> to the address that ends in
  \<open>j\<close>, which is node \<open>j - 1\<close>, and that node posts it for host \<open>j - 1\<close>; host \<open>j\<close> never gets it.\<close>

theorem ns3_udp_misdelivers:
  fixes w :: "('b, 's) loop_world"
  assumes lib: "ip_laws lib" "n \<le> 254" "i < n" "1 \<le> j" "j \<le> n"
    and e: "e = mk_entry (host_name (int i)) (host_name (int j)) pl (int_of_size pl)" "pl \<noteq> []"
    and fetched: "sim_fetch_any ce DAEMON_RESPONSE_TIMEOUT c w0 = Inr (e, c, w)"
    and net: "on_loop env fds exec ce" "ready SIM_CLIENT (lw_daemon w) c" "SYSTEM_MODE (d_cfg (lw_daemon w)) = PULL"
      "\<not> USE_DB (d_cfg (lw_daemon w))"
      "transmits env (data_message POST SIM_CLIENT (host_name (int i)) (host_name (int j - 1)) pl (set_payload pl))"
  shows "\<exists>a b. udp_PollToFetch lib n ce c w0 = Inr (Inr [UdpSend i a pl, SchedulePoll], c, w) \<and>
     node_addr lib (j - 1) = Some a \<and> node_addr lib i = Some b \<and>
     udp_ReceivePacket lib ce (j - 1) b pl c w = Inr (Inr (), c, w\<lparr>lw_daemon := (lw_daemon w)\<lparr>rx_buffer :=
       rx_buffer (lw_daemon w) @ [mk_entry (host_name (int i)) (host_name (int j - 1)) pl (int_of_size pl)]\<rparr>\<rparr>)"
proof -
  have ij: "i < 254" "j - 1 < 254" using lib by simp_all
  obtain a where a: "node_addr lib (j - 1) = Some a" "ipv4_of lib (BASE_IP_PREFIX @ to_string (int (j - 1) + 1)) = Some a"
    using node_addr_ok [OF lib(1) ij(2)] by blast
  obtain b where b: "node_addr lib i = Some b" "host_of_addr lib b = Inr (host_name (int i))"
    using node_addr_ok [OF lib(1) ij(1)] by blast
  have j: "int (j - 1) = int j - 1" using lib(4) by simp
  have "the_addr lib (''10.1.1.'' @ to_string (int j)) = Inr a" using a(2) j by (simp add: the_addr_def BASE_IP_PREFIX_def)
  moreover have "host_index (host_name (int i)) = Inr (int i)" using ij by simp
  ultimately have "udp_PollToFetch lib n ce c w0 = Inr (Inr [UdpSend i a pl, SchedulePoll], c, w)"
    using fetched e lib(3) by (simp add: udp_PollToFetch_def get_node_def)
  moreover have "udp_ReceivePacket lib ce (j - 1) b pl c w = Inr (Inr (), c, w\<lparr>lw_daemon := (lw_daemon w)\<lparr>rx_buffer :=
       rx_buffer (lw_daemon w) @ [mk_entry (host_name (int i)) (host_name (int j - 1)) pl (int_of_size pl)]\<rparr>\<rparr>)"
    using sim_post_entry [OF net] b(2) j by (simp add: udp_ReceivePacket_def)
  ultimately show ?thesis using a(1) b(1) by blast
qed

theorem ns3_udp_misdelivers_witness:
  "\<exists>w. udp_PollToFetch wit_lib 2 (wit_env 100) (ts_client wit_tcp) (wit_world\<lparr>lw_daemon := wit_daemon\<lparr>tx_buffer := [wit_hello]\<rparr>\<rparr>) =
       Inr (Inr [UdpSend 0 (wit_addr 0) ''hello'', SchedulePoll], ts_client wit_tcp, w) \<and>
     udp_ReceivePacket wit_lib (wit_env 100) 0 (wit_addr 0) ''hello'' (ts_client wit_tcp) w =
       Inr (Inr (), ts_client wit_tcp, wit_world\<lparr>lw_daemon := wit_daemon\<lparr>rx_buffer := [mk_entry (host_name 0) (host_name 0) ''hello'' 5]\<rparr>\<rparr>)"
proof -
  let ?w0 = "wit_world\<lparr>lw_daemon := wit_daemon\<lparr>tx_buffer := [wit_hello]\<rparr>\<rparr>" and ?c = "ts_client wit_tcp"
  have c: "originIndicator ?c = Some SIM_CLIENT" "\<not> USE_DB (c_cfg ?c)" "SYSTEM_MODE (c_cfg ?c) = PULL" "SIMULATOR_MODE (c_cfg ?c) = SYSTEM_WIDE"
    "SYSTEM_MODE (d_cfg (lw_daemon ?w0)) = PULL" "\<not> USE_DB (d_cfg (lw_daemon ?w0))" "lw_inbox ?w0 f = []" for f
    by (simp_all add: wit_tcp_def new_sim_client_def new_client_def default_cfg_def wit_world_def wit_daemon_def)
  have d: "lw_daemon wit_world = wit_daemon" "wit_world\<lparr>lw_daemon := wit_daemon\<lparr>tx_buffer := []\<rparr>\<rparr> = wit_world"
    by (simp_all add: wit_world_def wit_daemon_def)
  have "sim_fetch (wit_env 100) None t ?c ?w0 = Inr (wit_hello, ?c, ?w0\<lparr>lw_daemon := (lw_daemon ?w0)\<lparr>tx_buffer := []\<rparr>\<rparr>)" for t
    by (rule sim_fetch_loop [OF wit_env_on_loop c(1-3,5,6)])
      (simp_all add: c(4) nsb_simps take_keyed_def wit_hello_def wit_world_def)
  then have f: "sim_fetch_any (wit_env 100) DAEMON_RESPONSE_TIMEOUT ?c ?w0 = Inr (wit_hello, ?c, wit_world)"
    using c(3) d(2) by (simp add: sim_fetch_any_def by_mode_def)
  from ns3_udp_misdelivers [OF wit_lib_laws _ _ _ _ wit_hello_def _ f wit_env_on_loop [of 100] wit_tcp_world(1-3), of 2]
    wit_tcp_world(4) d(1)
  show ?thesis by (auto simp: int_of_size_def)
qed

section \<open>Listener and queue\<close>

text \<open>The two copies of the code that handles a message agree.\<close>

lemma queued_entry_eq: "queued_entry lib n ok evs e st = handle_entry lib n ok evs e st"
proof -
  have "bind_res (bind_res r f) g = bind_res r (\<lambda>x. bind_res (f x) g)" for r :: "sim_error + 'x" and f :: "'x \<Rightarrow> sim_error + 'y" and g :: "'y \<Rightarrow> sim_error + 'z"
    by (cases r) simp_all
  show ?thesis
    by (auto simp: queued_entry_def handle_entry_def transfer_target_def named_host_def open_transfer_def Let_def bind_res_def
        split: sum.splits sim_error.splits prod.splits)
qed

text \<open>So the two ways to take messages agree: one pass of the listener thread with the processing of its queue
  does what \<open>PollToFetch\<close> does, with the same answers of daemon and sockets, when \<open>NSB_DAEMON_MODE\<close> is the mode that
  the daemon has given the client.\<close>

theorem listener_equals_poll:
  assumes "SYSTEM_MODE (c_cfg (ts_client st)) \<in> {PULL, PUSH}" "messageQueue st = []"
  shows "tcp_PollToFetch lib n env ok evs st w =
     bind_res (AsyncListenerThread (SYSTEM_MODE (c_cfg (ts_client st)) = PULL) env [True, False] st w)
       (\<lambda>(st1, w1). Inr (ProcessQueuedMessages lib n [(ok, evs)] st1, w1))"
proof -
  let ?pull = "SYSTEM_MODE (c_cfg (ts_client st)) = PULL"
  have f: "sim_fetch_any env DAEMON_RESPONSE_TIMEOUT (ts_client st) w = sim_fetch env None (listener_timeout ?pull) (ts_client st) w"
    using assms(1) by (auto simp: sim_fetch_any_def by_mode_def listener_timeout_def ASYNC_FETCH_TIMEOUT_SEC_def)
  show ?thesis
  proof (cases "sim_fetch env None (listener_timeout ?pull) (ts_client st) w")
    case (Inl x)
    with f assms(2) show ?thesis
      by (cases x) (simp_all add: tcp_PollToFetch_def listener_pass_def ProcessQueuedMessages_def queued_entry_eq)
  next
    case (Inr y)
    obtain e c1 w1 where y: "y = (e, c1, w1)" by (cases y) auto
    have q: "st\<lparr>ts_client := c1, messageQueue := []\<rparr> = st\<lparr>ts_client := c1\<rparr>" using assms(2) by (cases st) simp
    show ?thesis
    proof (cases "handle_entry lib n ok evs e (st\<lparr>ts_client := c1\<rparr>)")
      case (Inl x)
      with Inr f y assms(2) show ?thesis
        by (simp add: tcp_PollToFetch_def listener_pass_def ProcessQueuedMessages_def queued_entry_eq Let_def q)
    next
      case (Inr r)
      with \<open>sim_fetch env None (listener_timeout ?pull) (ts_client st) w = Inr y\<close> f y assms(2) show ?thesis
        by (cases r) (simp_all add: tcp_PollToFetch_def listener_pass_def ProcessQueuedMessages_def queued_entry_eq Let_def q)
    qed
  qed
qed

theorem listener_equals_poll_witness:
  "tcp_PollToFetch wit_lib 2 (wit_env 100) True [] wit_tcp wit_world =
     bind_res (AsyncListenerThread True (wit_env 100) [True, False] wit_tcp wit_world)
       (\<lambda>(st1, w1). Inr (ProcessQueuedMessages wit_lib 2 [(True, [])] st1, w1))"
  using listener_equals_poll [of wit_tcp wit_lib 2 "wit_env 100" True "[]" wit_world] wit_tcp_world(5) by simp

end
