(* ===== verification/NSB_NS3_Setup.thy ===== *)
theory NSB_NS3_Setup
  imports NSB_NS3_Facts
begin

text \<open>
  What the three ns-3 programs (\<open>nsb-testing.cc\<close>, \<open>nsb-testing-tcp.cc\<close>, \<open>ns3Simple-testing.cc\<close>) build before
  the simulation runs: the addresses, the radio network, the sockets, the traffic that two of them
  generate, and \<open>main\<close>.  The network is the value that the calls of the simulator's helpers describe.
\<close>

section \<open>Node mappings\<close>

record 'a sim_mapping = node_mapping +
  ipv4Addr :: 'a
  nodePtr :: "nat option"
  wifiDeviceIndex :: nat

text \<open>The loop of \<open>main\<close>: \<open>Ipv4Address\<close> aborts on text that is no address.\<close>

primrec node_mappings :: "'a ip_lib \<Rightarrow> nat \<Rightarrow> sim_error + 'a sim_mapping list" where
  "node_mappings lib 0 = Inr []"
| "node_mappings lib (Suc i) = bind_res (node_mappings lib i) (\<lambda>ms. bind_res (the_addr lib (ipString (node_mapping_of i)))
     (\<lambda>a. Inr (ms @ [node_mapping.extend (node_mapping_of i) \<lparr>ipv4Addr = a, nodePtr = None, wifiDeviceIndex = 0\<rparr>])))"

text \<open>The loop after the network is built.\<close>

definition assign_nodes :: "'a sim_mapping list \<Rightarrow> 'a sim_mapping list" where
  "assign_nodes ms = map (\<lambda>i. (ms ! i)\<lparr>nodePtr := Some i, wifiDeviceIndex := i\<rparr>) [0..<length ms]"

section \<open>The network\<close>

record wifi_setup =
  ws_delay :: string
  ws_loss :: string
  ws_range :: nat
  ws_mac :: string
  ws_standard :: string
  ws_manager :: string
  ws_data_mode :: string
  ws_control_mode :: string

datatype socket_handler = CallReceivePacket | CallTcpAccept

record sim_socket =
  so_tcp :: bool
  so_port :: nat
  so_listens :: bool
  so_handler :: socket_handler

text \<open>A node with its place, radio device, routing and address; sockets are bound to any address.\<close>

record 'a sim_node =
  sn_place :: "int \<times> int"
  sn_mobility :: string
  sn_routing :: string
  sn_device :: nat
  sn_address :: 'a
  sn_mask :: string
  sn_metric :: nat
  sn_up :: bool
  sn_sockets :: "sim_socket list"

record 'a sim_net =
  net_wifi :: wifi_setup
  net_nodes :: "'a sim_node list"
  net_interfaces :: "nat list"

definition adhoc_wifi :: "nat \<Rightarrow> wifi_setup" where
  "adhoc_wifi rng = \<lparr>ws_delay = ''ns3::ConstantSpeedPropagationDelayModel'', ws_loss = ''ns3::RangePropagationLossModel'',
     ws_range = rng, ws_mac = ''ns3::AdhocWifiMac'', ws_standard = ''WIFI_STANDARD_80211b'',
     ws_manager = ''ns3::ConstantRateWifiManager'', ws_data_mode = ''DsssRate1Mbps'', ws_control_mode = ''DsssRate1Mbps''\<rparr>"

text \<open>The three programs have a copy each of \<open>BuildNetworkTopology\<close>, the TCP program with named constants: range, nodes
  in a row and their distance are the arguments here.\<close>

definition grid_place :: "nat \<Rightarrow> nat \<Rightarrow> nat \<Rightarrow> int \<times> int" where
  "grid_place row spacing i = (int (i mod row * spacing), int (i div row * spacing))"

definition build_topology :: "nat \<Rightarrow> nat \<Rightarrow> nat \<Rightarrow> 'a sim_mapping list \<Rightarrow> 'a sim_net option" where
  "build_topology rng row spacing ms = (if ms = [] then None
     else Some \<lparr>net_wifi = adhoc_wifi rng,
       net_nodes = map (\<lambda>i. \<lparr>sn_place = grid_place row spacing i, sn_mobility = ''ns3::ConstantPositionMobilityModel'', sn_routing = ''aodv'',
          sn_device = i, sn_address = ipv4Addr (ms ! i), sn_mask = ''255.255.255.0'', sn_metric = 1, sn_up = True, sn_sockets = []\<rparr>)
          [0..<length ms],
       net_interfaces = [0..<length ms]\<rparr>)"

definition BuildNetworkTopology :: "'a sim_mapping list \<Rightarrow> 'a sim_net option" where
  "BuildNetworkTopology ms = build_topology WIFI_RANGE_METERS NODES_PER_ROW NODE_SPACING_METERS ms"

definition udp_BuildNetworkTopology :: "'a sim_mapping list \<Rightarrow> 'a sim_net option" where
  "udp_BuildNetworkTopology ms = build_topology 500 10 50 ms"

definition simple_BuildNetworkTopology :: "'a sim_mapping list \<Rightarrow> 'a sim_net option" where
  "simple_BuildNetworkTopology ms = build_topology 500 10 50 ms"

lemma topologies_agree:
  "simple_BuildNetworkTopology ms = BuildNetworkTopology ms" "udp_BuildNetworkTopology ms = BuildNetworkTopology ms"
  "grid_place NODES_PER_ROW NODE_SPACING_METERS i = node_position i"
  by (simp_all add: simple_BuildNetworkTopology_def udp_BuildNetworkTopology_def BuildNetworkTopology_def NODES_PER_ROW_def
      NODE_SPACING_METERS_def WIFI_RANGE_METERS_def grid_place_def node_position_def)

text \<open>One socket on each of the first \<open>k\<close> nodes.\<close>

definition setup_sockets :: "nat \<Rightarrow> sim_socket \<Rightarrow> 'a sim_net \<Rightarrow> 'a sim_net" where
  "setup_sockets k so net = net\<lparr>net_nodes := map (\<lambda>nd. nd\<lparr>sn_sockets := sn_sockets nd @ [so]\<rparr>) (take k (net_nodes net)) @ drop k (net_nodes net)\<rparr>"

definition TCP_PORT :: nat where "TCP_PORT = 5000"

definition udp_socket :: sim_socket where
  "udp_socket = \<lparr>so_tcp = False, so_port = 5000, so_listens = False, so_handler = CallReceivePacket\<rparr>"

definition SetupUdpReceiveSockets :: "'a sim_mapping list \<Rightarrow> 'a sim_net \<Rightarrow> 'a sim_net" where
  "SetupUdpReceiveSockets ms net = setup_sockets (length ms) udp_socket net"

definition simple_SetupUdpReceiveSockets :: "'a sim_mapping list \<Rightarrow> 'a sim_net \<Rightarrow> 'a sim_net" where
  "simple_SetupUdpReceiveSockets ms net = setup_sockets (length ms) udp_socket net"

definition SetupTcpReceiveSockets :: "'a sim_mapping list \<Rightarrow> 'a sim_net \<Rightarrow> 'a sim_net" where
  "SetupTcpReceiveSockets ms net = setup_sockets (length ms)
     \<lparr>so_tcp = True, so_port = TCP_PORT, so_listens = True, so_handler = CallTcpAccept\<rparr> net"

text \<open>The two halves of the accept callback: every connection is taken, and the new socket gets its callbacks.\<close>

definition TcpAcceptCallback :: "nat \<Rightarrow> 'a \<Rightarrow> bool" where
  "TcpAcceptCallback s from = True"

datatype conn_callback = OnReceive | OnClose | OnError
datatype callback_code = CallTcpReceive | CallTcpClose

definition TcpNewConnectionCallback :: "(conn_callback \<Rightarrow> callback_code option) \<Rightarrow> conn_callback \<Rightarrow> callback_code option" where
  "TcpNewConnectionCallback cbs = cbs(OnReceive \<mapsto> CallTcpReceive, OnClose \<mapsto> CallTcpClose, OnError \<mapsto> CallTcpClose)"

section \<open>Generated traffic\<close>

text \<open>A datagram at a time: from a node to an address.\<close>

type_synonym 'a traffic = "(nat \<times> nat option \<times> 'a \<times> string) list"

definition SendGeneratedMessage :: "nat \<Rightarrow> 'a \<Rightarrow> string \<Rightarrow> 'a udp_call" where
  "SendGeneratedMessage node dest message = UdpSend node dest message"

definition simple_SendGeneratedMessage :: "nat \<Rightarrow> 'a \<Rightarrow> string \<Rightarrow> 'a udp_call" where
  "simple_SendGeneratedMessage node dest message = UdpSend node dest message"

function generate_from :: "nat \<Rightarrow> 'a sim_mapping list \<Rightarrow> 'a traffic" where
  "generate_from i ms = (if i + 1 < length ms
     then (2 + i, nodePtr (ms ! i), ipv4Addr (ms ! (i + 1)), ''Hello from '' @ nodeIdString (ms ! i))
        # (3 + i, nodePtr (ms ! (i + 1)), ipv4Addr (ms ! i), ''Reply from '' @ nodeIdString (ms ! (i + 1)))
        # generate_from (i + 2) ms
     else [])"
  by pat_completeness auto

termination
  by (relation "measure (\<lambda>(i, ms). length ms - i)") auto

declare generate_from.simps [simp del]

definition GenerateTraffic :: "'a sim_mapping list \<Rightarrow> 'a traffic" where
  "GenerateTraffic ms = generate_from 0 ms"

definition simple_GenerateTraffic :: "'a sim_mapping list \<Rightarrow> 'a traffic" where
  "simple_GenerateTraffic ms = generate_from 0 ms"

section \<open>The log directory\<close>

text \<open>What \<open>mkdir\<close> gave (\<open>MkdirFails\<close> with the text of the error), and the line that is written when there is a
  log; \<open>now\<close> is the simulated time as it is printed.\<close>

datatype mkdir_result = MkdirOk | MkdirExists | MkdirFails string

definition CreateLogDirectory :: "string \<Rightarrow> mkdir_result \<Rightarrow> bool \<Rightarrow> string \<Rightarrow> string" where
  "CreateLogDirectory path r main_log now = (if \<not> main_log then []
     else case r of
       MkdirOk \<Rightarrow> now @ ''s [INFO] Created log directory '' @ [CHR 0x27] @ path @ [CHR 0x27] @ ''.'' @ [CHR 0x0A]
     | MkdirExists \<Rightarrow> now @ ''s [INFO] Log directory '' @ [CHR 0x27] @ path @ [CHR 0x27] @ '' already exists.'' @ [CHR 0x0A]
     | MkdirFails e \<Rightarrow> now @ ''s [WARN] Error creating log directory: '' @ e @ [CHR 0x0A])"

section \<open>main\<close>

text \<open>The simulation as \<open>Simulator::Run\<close> finds it; \<open>rn_stop\<close> is the time of \<open>Simulator::Stop\<close>.  A program's value is its
  status and the simulation it ran, if it came to that.\<close>

datatype first_event = PollEvent | CheckQueueEvent

record 'a simulation =
  rn_net :: "'a sim_net"
  rn_traffic :: "'a traffic"
  rn_events :: "first_event list"
  rn_stop :: "nat option"

text \<open>\<open>ns3Simple-testing.cc\<close>; \<open>log_ok\<close>: the log file could be opened.\<close>

definition simple_main :: "'a ip_lib \<Rightarrow> bool \<Rightarrow> i32 \<Rightarrow> sim_error + int \<times> 'a simulation option" where
  "simple_main lib log_ok numHosts = (if \<not> log_ok then Inr (1, None)
     else bind_res (node_mappings lib (nat (sint numHosts))) (\<lambda>ms.
       case simple_BuildNetworkTopology ms of None \<Rightarrow> Inr (1, None)
       | Some net \<Rightarrow> Inr (0, Some \<lparr>rn_net = simple_SetupUdpReceiveSockets (assign_nodes ms) net,
           rn_traffic = simple_GenerateTraffic (assign_nodes ms), rn_events = [], rn_stop = Some 20\<rparr>)))"

text \<open>\<open>ReceivePacket\<close> of that program: what it prints.\<close>

definition simple_ReceivePacket :: "string \<Rightarrow> string" where
  "simple_ReceivePacket packet = ''Received packet of size: '' @ to_string (int (length packet)) @ '' bytes'' @ [CHR 0x0A]"

text \<open>\<open>nsb-testing.cc\<close>: the client is constructed, and so registered as the simulator, before the log is looked at.\<close>

definition udp_main :: "'a ip_lib \<Rightarrow> ('b, 'w) client_env \<Rightarrow> bool \<Rightarrow> i32 \<Rightarrow> 'w \<Rightarrow>
    io_stop + (sim_error + int \<times> 'a simulation option) \<times> client \<times> 'w" where
  "udp_main lib env log_ok numHosts w = bind_res (initialize env (new_sim_client ''simulator'') w) (\<lambda>(c, w1).
     Inr (if \<not> log_ok then Inr (1, None)
       else bind_res (node_mappings lib (nat (sint numHosts))) (\<lambda>ms.
         case udp_BuildNetworkTopology ms of None \<Rightarrow> Inr (1, None)
         | Some net \<Rightarrow> Inr (0, Some \<lparr>rn_net = SetupUdpReceiveSockets (assign_nodes ms) net,
             rn_traffic = GenerateTraffic (assign_nodes ms), rn_events = [PollEvent], rn_stop = None\<rparr>)),
       c, w1))"

text \<open>\<open>nsb-testing-tcp.cc\<close>: \<open>tcp_main\<close> is \<open>main\<close> from the choice of the mode on.\<close>

definition tcp_program :: "'a ip_lib \<Rightarrow> ('b, 'w) client_env \<Rightarrow> string \<Rightarrow> i32 \<Rightarrow> 'w \<Rightarrow>
    io_stop + (sim_error + int \<times> 'a simulation option) \<times> client \<times> 'w" where
  "tcp_program lib env mode numHosts w = bind_res (initialize env (new_sim_client ''simulator'') w) (\<lambda>(c, w1).
     Inr (bind_res (node_mappings lib (nat (sint numHosts))) (\<lambda>ms.
         case BuildNetworkTopology ms of None \<Rightarrow> Inr (1, None)
         | Some net \<Rightarrow> (case tcp_main mode of (status, evs, _) \<Rightarrow> Inr (status, if status \<noteq> 0 then None
             else Some \<lparr>rn_net = SetupTcpReceiveSockets (assign_nodes ms) net, rn_traffic = [],
               rn_events = map (\<lambda>ev. case ev of CheckQueue \<Rightarrow> CheckQueueEvent | Poll \<Rightarrow> PollEvent) evs, rn_stop = None\<rparr>))),
       c, w1))"

section \<open>What main has built\<close>

lemma node_mappings_ok:
  assumes "ip_laws lib"
  shows "n \<le> 254 \<Longrightarrow> \<exists>ms. node_mappings lib n = Inr ms \<and> length ms = n \<and>
     (\<forall>i<n. node_addr lib i = Some (ipv4Addr (ms ! i)) \<and> nodeIdString (ms ! i) = ''node'' @ to_string (int i))"
proof (induction n)
  case (Suc n)
  then obtain ms where ms: "node_mappings lib n = Inr ms" "length ms = n"
    "\<forall>i<n. node_addr lib i = Some (ipv4Addr (ms ! i)) \<and> nodeIdString (ms ! i) = ''node'' @ to_string (int i)" by auto
  have "n < 254" using Suc.prems by simp
  then obtain a where "node_addr lib n = Some a" using node_addr_ok [OF assms] by blast
  with ms show ?case
    by (simp add: the_addr_def node_addr_def nth_append less_Suc_eq node_mapping_of_def node_mapping.defs)
qed simp

definition mapped :: "'a ip_lib \<Rightarrow> 'a sim_mapping list \<Rightarrow> bool" where
  "mapped lib ms \<longleftrightarrow> (\<forall>i<length ms. node_addr lib i = Some (ipv4Addr (ms ! i)) \<and> nodePtr (ms ! i) = Some i \<and>
     nodeIdString (ms ! i) = ''node'' @ to_string (int i))"

lemma assign_nodes_mapped:
  assumes "\<forall>i<length ms. node_addr lib i = Some (ipv4Addr (ms ! i)) \<and> nodeIdString (ms ! i) = ''node'' @ to_string (int i)"
  shows "mapped lib (assign_nodes ms)" "length (assign_nodes ms) = length ms" "ipv4Addr (assign_nodes ms ! i) = ipv4Addr (ms ! i) \<or> \<not> i < length ms"
  using assms by (auto simp: mapped_def assign_nodes_def)

text \<open>Addresses tell nodes apart.\<close>

lemma node_addr_inj:
  assumes "ip_laws lib" "i < 254" "j < 254" "node_addr lib i = Some a" "node_addr lib j = Some a"
  shows "i = j"
proof -
  have "host_of_addr lib a = Inr (host_name (int i))" using node_addr_ok [OF assms(1,2)] assms(4) by (metis option.inject)
  moreover have "host_of_addr lib a = Inr (host_name (int j))" using node_addr_ok [OF assms(1,3)] assms(5) by (metis option.inject)
  ultimately have "host_index (host_name (int i)) = host_index (host_name (int j))" by simp
  with assms(2,3) show ?thesis by simp
qed

text \<open>The neighbour in the generated traffic.\<close>

definition partner :: "nat \<Rightarrow> nat" where
  "partner j = (if even j then j + 1 else j - 1)"

definition greeting :: "nat \<Rightarrow> string" where
  "greeting j = (if even j then ''Reply from node'' else ''Hello from node'') @ to_string (int (partner j))"

definition datagram_for :: "'a sim_mapping list \<Rightarrow> nat \<Rightarrow> nat \<times> nat option \<times> 'a \<times> string" where
  "datagram_for ms j = (if even j then 3 + j else j + 1, Some (partner j), ipv4Addr (ms ! j), greeting j)"

lemma generate_from_addr:
  assumes "mapped lib ms" "\<And>i. i < length ms \<Longrightarrow> ipv4Addr (ms ! i) = ipv4Addr (ms ! j) \<longleftrightarrow> i = j" "j < length ms"
  shows "even i \<Longrightarrow> filter (\<lambda>(t, nd, a, m). a = ipv4Addr (ms ! j)) (generate_from i ms) =
     (if i \<le> j \<and> partner j < length ms then [datagram_for ms j] else [])"
proof (induction "length ms - i" arbitrary: i rule: less_induct)
  case less
  show ?case
  proof (cases "i + 1 < length ms")
    case True
    note m = assms(1) [unfolded mapped_def, rule_format]
    have rest: "filter (\<lambda>(t, nd, a, m). a = ipv4Addr (ms ! j)) (generate_from (i + 2) ms) =
        (if i + 2 \<le> j \<and> partner j < length ms then [datagram_for ms j] else [])"
      using less.hyps [of "i + 2"] less.prems True by simp
    have gen: "generate_from i ms = (2 + i, Some i, ipv4Addr (ms ! (i + 1)), ''Hello from node'' @ to_string (int i))
        # (3 + i, Some (i + 1), ipv4Addr (ms ! i), ''Reply from node'' @ to_string (int (i + 1))) # generate_from (i + 2) ms"
      using True m [of i] m [of "i + 1"] by (subst generate_from.simps) simp
    have a: "ipv4Addr (ms ! (i + 1)) = ipv4Addr (ms ! j) \<longleftrightarrow> i + 1 = j" "ipv4Addr (ms ! i) = ipv4Addr (ms ! j) \<longleftrightarrow> i = j"
      using assms(2) True by simp_all
    consider "j < i" | "j = i" | "j = i + 1" | "i + 2 \<le> j" by linarith
    then show ?thesis
      unfolding gen
      by cases (use rest a less.prems True in \<open>auto simp: partner_def datagram_for_def greeting_def\<close>)
  next
    case False
    have "i \<le> j \<Longrightarrow> j = i" using False assms(3) by simp
    with False have "\<not> (i \<le> j \<and> partner j < length ms)" using less.prems by (auto simp: partner_def)
    with False show ?thesis by (subst generate_from.simps) auto
  qed
qed

lemma generate_from_to: "mapped lib ms \<Longrightarrow> x \<in> set (generate_from i ms) \<Longrightarrow> \<exists>j<length ms. fst (snd (snd x)) = ipv4Addr (ms ! j)"
proof (induction "length ms - i" arbitrary: i rule: less_induct)
  case less
  from less.prems(2) less.hyps [of "i + 2"] less.prems(1) show ?case
    by (subst (asm) generate_from.simps) (auto split: if_splits intro: exI [of _ i] exI [of _ "i + 1"])
qed

lemma generate_from_times: "(t, x) \<in> set (generate_from i ms) \<Longrightarrow> t \<le> length ms + 1"
proof (induction "length ms - i" arbitrary: i rule: less_induct)
  case less
  from less.prems less.hyps [of "i + 2"] show ?case
    by (subst (asm) generate_from.simps) (auto split: if_splits)
qed

text \<open>What \<open>main\<close> of \<open>ns3Simple-testing.cc\<close> has scheduled, for at most 19 hosts: to the address of every host that has a neighbour exactly
  one datagram, its neighbour's, and all of them before the simulation is stopped.\<close>

lemma simple_main_schedules:
  assumes "ip_laws lib" "0 < n" "n \<le> 19"
  shows "\<exists>r. simple_main lib True (of_nat n) = Inr (0, Some r) \<and> rn_stop r = Some 20 \<and> (\<forall>x\<in>set (rn_traffic r). fst x \<le> 20) \<and>
     (\<forall>j<n. partner j < n \<longrightarrow> (\<exists>t. filter (\<lambda>(t, nd, a, m). Some a = node_addr lib j) (rn_traffic r) =
          [(t, Some (partner j), the (node_addr lib j), greeting j)]))"
proof -
  have n: "nat (sint (of_nat n :: i32)) = n" using assms(3) by (simp add: signed_of_nat signed_take_bit_int_eq_self)
  obtain ms where ms: "node_mappings lib n = Inr ms" "length ms = n"
    "\<forall>i<length ms. node_addr lib i = Some (ipv4Addr (ms ! i)) \<and> nodeIdString (ms ! i) = ''node'' @ to_string (int i)"
    using node_mappings_ok [OF assms(1), of n] assms(3) by auto
  let ?as = "assign_nodes ms"
  have as: "mapped lib ?as" "length ?as = n" using assign_nodes_mapped [of ms lib] ms by auto
  have addr: "node_addr lib j = Some (ipv4Addr (?as ! j))" if "j < n" for j using as that by (simp add: mapped_def)
  have inj: "ipv4Addr (?as ! i) = ipv4Addr (?as ! j) \<longleftrightarrow> i = j" if "i < n" "j < n" for i j
    using node_addr_inj [OF assms(1), of i j] that assms(3) addr by auto
  obtain net where net: "build_topology 500 10 50 ms = Some net" using ms(2) assms(2) by (auto simp: build_topology_def)
  let ?r = "\<lparr>rn_net = simple_SetupUdpReceiveSockets ?as net, rn_traffic = simple_GenerateTraffic ?as, rn_events = [], rn_stop = Some 20\<rparr>"
  have main: "simple_main lib True (of_nat n) = Inr (0, Some ?r)" using ms(1) net n by (simp add: simple_main_def simple_BuildNetworkTopology_def)
  have times: "\<forall>x\<in>set (rn_traffic ?r). fst x \<le> 20"
    using generate_from_times [of _ _ 0 ?as] as(2) assms(3) by (fastforce simp: simple_GenerateTraffic_def)
  have "filter (\<lambda>(t, nd, a, m). Some a = node_addr lib j) (rn_traffic ?r) = [datagram_for ?as j]"
    if "j < n" "partner j < n" for j
    using generate_from_addr [OF as(1), of j 0] inj [OF _ that(1)] that as(2) addr [OF that(1)]
    by (simp add: simple_GenerateTraffic_def)
  then have "\<exists>t. filter (\<lambda>(t, nd, a, m). Some a = node_addr lib j) (rn_traffic ?r) =
      [(t, Some (partner j), the (node_addr lib j), greeting j)]" if "j < n" "partner j < n" for j
    unfolding datagram_for_def using that addr [OF that(1)] by (metis option.sel)
  with main times show ?thesis by (intro exI [of _ ?r]) simp
qed

text \<open>With 20 hosts the last reply is scheduled after the end of the simulation.\<close>

lemma simple_traffic_cut:
  assumes "length ms = 20"
  shows "\<exists>x\<in>set (simple_GenerateTraffic ms). fst x = 21"
proof -
  have more: "set (generate_from (i + 2) ms) \<subseteq> set (generate_from i ms)" for i
  proof (cases "i + 1 < length ms")
    case True
    then show ?thesis by (subst (2) generate_from.simps) auto
  next
    case False
    then show ?thesis by (subst generate_from.simps) simp
  qed
  have "\<exists>x\<in>set (generate_from (18 - 2 * k) ms). fst x = 21" if "k \<le> 9" for k
    using that
  proof (induction k)
    case 0
    then show ?case using assms by (subst generate_from.simps) auto
  next
    case (Suc k)
    then have "18 - 2 * Suc k + 2 = 18 - 2 * k" by simp
    with more [of "18 - 2 * Suc k"] have "set (generate_from (18 - 2 * k) ms) \<subseteq> set (generate_from (18 - 2 * Suc k) ms)" by simp
    with Suc.IH Suc.prems show ?case by (blast dest: Suc_leD)
  qed
  from this [of 9] show ?thesis by (simp add: simple_GenerateTraffic_def)
qed

text \<open>In \<open>nsb-testing.cc\<close> the same datagrams are taken for messages of applications: what host \<open>j\<close> receives of its neighbour's
  greeting it posts to the daemon.\<close>

lemma generated_traffic_is_posted:
  assumes "ip_laws lib" "mapped lib ms" "length ms \<le> 254" "j < length ms" "partner j < length ms"
  shows "udp_ReceivePacket lib env j (ipv4Addr (ms ! partner j)) text c w =
     bind_res (sim_post env (host_name (int (partner j))) (host_name (int j)) text c w) (\<lambda>(_, c1, w1). Inr (Inr (), c1, w1))"
proof -
  have "node_addr lib (partner j) = Some (ipv4Addr (ms ! partner j))" using assms(2,5) by (simp add: mapped_def)
  then have "host_of_addr lib (ipv4Addr (ms ! partner j)) = Inr (host_name (int (partner j)))"
    using node_addr_ok [OF assms(1), of "partner j"] assms(3,5) by (metis less_le_trans option.inject)
  then show ?thesis by (simp add: udp_ReceivePacket_def)
qed

text \<open>The UDP program registers as the simulator even when it then cannot open its log and ends: the daemon keeps the
  registration, and no later simulator is accepted.\<close>

lemma udp_main_registers_before_log:
  assumes "initialize env (new_sim_client ''simulator'') w = Inr (c, w1)"
  shows "udp_main lib env False n w = Inr (Inr (1, None), c, w1)"
  using assms by (simp add: udp_main_def)

end
