(* ===== verification/Spec2Isabelle.thy ===== *)
theory Spec2Isabelle
  imports NSB_Typing NSB_Push NSB_Interop NSB_Stored NSB_Transport NSB_Log NSB_Tests NSB_Examples NSB_OMNeT_Message NSB_INET_Report NSB_NS3_Setup
begin

text \<open>
  A verification library for the C++ code of the Network Simulation Bridge (NSB).

  \<^bold>\<open>The program.\<close>  NSB connects applications with a network simulator.  A daemon (\<open>cpp/src/nsb_daemon.cc\<close>)
  accepts three TCP connections (CTRL, SEND, RECV) from every client and serves seven operations:
  INIT registers a client and returns the configuration, PING is answered, EXIT stops the daemon;
  SEND and POST hand in a message, FETCH and RECEIVE ask for one.  In PULL mode the daemon keeps
  the messages of the applications in \<open>tx_buffer\<close> until the simulator fetches them and the
  messages of the simulator in \<open>rx_buffer\<close> until the applications receive them; in PUSH mode
  it forwards each message at once.  The client library (\<open>cpp/src/nsb.cc\<close>, \<open>cpp/src/nsb_client.cc\<close>)
  has a socket interface, a Redis connector for payloads kept outside the messages, and the clients
  \<open>NSBAppClient\<close> (send, receive) and \<open>NSBSimClient\<close> (fetch, post).  \<open>cpp/rabbit\<close> holds a variant over
  RabbitMQ (interface, clients, a small daemon) and a unified client that runs on either transport.
  \<open>examples\<close> holds the simulator's side: hosts of an OMNeT++ network, two applications for INET and two
  ns-3 programs, each a loop that fetches a message, carries it over the simulated network and posts it (and a third
  ns-3 program without the bridge).  \<open>cpp/nsb_test.cc\<close> and \<open>cpp/rabbit/examples\<close> are small programs over the libraries.

  \<^bold>\<open>Parameters.\<close>  What is not in the repository is an argument of the model.  \<open>io_env\<close> (\<open>NSB_Types\<close>) is the
  generated Protobuf code with the allocation of buffers, the writability of descriptors (\<open>writable\<close>, \<open>select_fails\<close>), peers
  that have gone when they are written to (\<open>peer_reads\<close>, otherwise \<open>SIGPIPE\<close>) and what \<open>erase\<close> leaves of an iterator
  (\<open>erase_resumes\<close>; the language leaves it undefined);
  \<open>faithful\<close> says that what is sent arrives as it was, if it arrives; \<open>transmits\<close> that it is sent and arrives; \<open>codec\<close>
  that every message with a manifest is \<open>faithful\<close>.  \<open>redis_exec\<close> is hiredis with the server
  (\<open>redis_laws\<close>: SET, GET and GETDEL as documented), \<open>amqp\<close> SimpleAmqpClient with the broker (\<open>amqp_laws\<close>,
  \<open>prompt\<close>; \<open>amqp_admin\<close> deletes), \<open>yaml_doc\<close> a parsed configuration file.  The kernel's answers to system calls are lists
  of events: \<open>server_event\<close> for the daemon (\<open>select\<close>, \<open>recv\<close>, \<open>accept\<close>), \<open>attempt\<close>, \<open>send_event\<close> and \<open>round\<close> for
  the clients' sockets.  A loop that would go on when its events have run out yields \<open>NoReturn\<close> or
  \<open>Blocks\<close> (in the daemon's loop: the state so far, still serving); theorems that an operation
  returns say how many events are enough.  The simulators are parameters too: their calls are values
  (\<open>om_call\<close>, \<open>inet_call\<close>, \<open>udp_call\<close>), the answers of ns-3's sockets are lists, \<open>resolve\<close> is
  \<open>L3AddressResolver\<close>, the network of INET a function from what is sent to the datagrams that arrive
  (\<open>carries_datagrams\<close>: those of at most 65507 bytes do), \<open>inet\<close> is \<open>inet_addr\<close> (\<open>inet_addr_law\<close>: it reads numbers only), \<open>ip_lib\<close> the class \<open>Ipv4Address\<close> (\<open>ip_laws\<close>: a dotted address is printed as it was
  written) and \<open>base_descriptor\<close> the descriptor of \<open>cMessage\<close>.  Witnesses instantiate the parameters with
  \<open>fragment_env\<close> (a message is one symbol), \<open>map_server\<close> and \<open>map_broker\<close> (and \<open>eager_broker\<close>).

  \<^bold>\<open>Theories.\<close>
  \<^item> \<open>NSB_Prelude\<close>: decimal notation (\<open>std::to_string\<close>), C strings, \<open>int_of_size\<close> (the cast of a size to a
    32-bit \<open>int\<close>), the results \<open>io_stop\<close> and \<open>bind_res\<close>, the collection \<open>nsb_simps\<close>.
  \<^item> \<open>NSB_Std_Map\<close>: \<open>std::map\<close> as an ordered association list; the laws of
    emplace, assignment and lookup (locales \<open>registry_table\<close>, \<open>assignable_table\<close>), interpreted on it.
  \<^item> \<open>NSB_Proto\<close>: \<open>proto/nsb.proto\<close> with presence, the oneof, accessors and \<open>MergeFrom\<close>.
  \<^item> \<open>NSB_Types\<close>: \<open>Config\<close>, \<open>MessageEntry\<close> and \<open>Channel\<close> of \<open>cpp/include/nsb.h\<close>; \<open>io_env\<close>.
  \<^item> \<open>NSB_Buffer\<close>: the operations on \<open>std::list<MessageEntry>\<close> and the locale \<open>keyed_fifo\<close>, whose
    conservation law (what was pushed is what was taken followed by what is left, per key and,
    without keys, as a whole) is interpreted on them.
  \<^item> \<open>NSB_Daemon\<close>: the state of \<open>NSBDaemon\<close>, its configuration and handlers.  \<open>NSB_Daemon_Facts\<close>: every message
    acts on the buffers as at most one operation of the contract (locale \<open>mailbox\<close>, interpreted
    for SEND/FETCH and POST/RECEIVE).  \<open>NSB_Server\<close>: \<open>start\<close> and the loop of \<open>start_server\<close>.
  \<^item> \<open>NSB_Socket\<close>: \<open>SocketInterface\<close>.  \<open>NSB_Redis\<close>: \<open>DBConnector\<close> and \<open>RedisConnector\<close>.  \<open>NSB_Client\<close>: the clients.
  \<^item> \<open>NSB_Delivery\<close>: delivery through the server loop over arbitrary schedules in PULL mode.
    \<open>NSB_Registry\<close>: invariants of the daemon's tables (locale \<open>daemon_invariant\<close>), PUSH forwarding, what the daemon reads
    of a schedule until it stops, and how it faults.
  \<^item> \<open>NSB_System\<close>: clients and daemon connected by \<open>loop_comms\<close>; initialisation, ping and a message from
    application to application, with and without the database.
  \<^item> \<open>NSB_Network\<close>: any number of clients and the daemon as a step relation (\<open>net_step\<close>): a client writes,
    the daemon reads; \<open>fair_reads\<close> is fairness.  \<open>NSB_Typing\<close>: the shapes of the daemon's messages
    (\<open>msg_type\<close>, \<open>reply_type\<close>) and which of them answer which request.  \<open>NSB_Spec\<close>: an abstract post office
    (\<open>po_step\<close>: one queue for each source and each destination) and the refinement of it by the daemon in PULL
    mode.  \<open>NSB_Push\<close>: the daemon in PUSH mode, connected to clients and in the network.
  \<^item> \<open>NSB_Session\<close>: what a program that uses the client library sees.  Any number of client objects are constructed and
    make any calls in any order (\<open>library_session\<close>); the locale \<open>mail_library\<close> is the contract of the calls
    over the post office, and follows any sequence of them.  It is interpreted four times: on \<open>NSBClient\<close>
    over \<open>loop_comms\<close> (there), on \<open>NSBClient\<close> and unified clients together (\<open>NSB_Interop\<close>), on \<open>NSBClient\<close> with the
    payloads in Redis (\<open>NSB_Stored\<close>: the invariant is that the keys held by the daemon are different and present), and on
    \<open>NSBClient\<close> over bytes (\<open>NSB_Transport\<close>: the loops of \<open>SocketInterface\<close> and of the daemon's \<open>select\<close>, between them a
    kernel that cuts what is written into rounds of \<open>select\<close> and each round into pieces; the connected system of \<open>NSB_System\<close> is
    simulated by it as long as a message is read in one round, \<open>whole_reads\<close>; \<open>split_message_lost\<close> is the other case).
  \<^item> \<open>NSB_Threads\<close>: objects with a \<open>std::thread\<close> and its flag, and what ends the program, a fault of the thread included
    (locale \<open>worker_object\<close>), interpreted on the listener and the daemon of \<open>NSB_RMQ_Lifecycle\<close> (construction, start, stop,
    polls of the thread, destruction) and on the ns-3 listener.
  \<^item> \<open>NSB_RMQ\<close>: the RabbitMQ variant.  \<open>NSB_Unified\<close>: the unified client.  \<open>NSB_Channel\<close>: the contract of the
    receiving sides (locale \<open>byte_channel\<close>) with its interpretations on \<open>SocketInterface\<close> and
    \<open>SocketBackend\<close>.  \<open>NSB_Unified_Facts\<close>: the unified client against either daemon.
  \<^item> \<open>NSB_Std_String\<close>: \<open>substr\<close>, \<open>stoi\<close> and the names \<open>hostN\<close>.  \<open>NSB_OMNeT\<close>: \<open>NSBHost\<close> and the network of
    hosts (\<open>om_step\<close>: an application sends, a timer fires, a packet arrives, an application receives).
    \<open>NSB_OMNeT_Facts\<close>: delivery through it.  \<open>NSB_Parsim\<close>: the packing templates of the message compiler
    (locale \<open>packing\<close>, interpreted on numbers, strings and maps); \<open>NSB_OMNeT_Message\<close>: \<open>NSBMessage_m.cc\<close>, the class with its
    packing and its descriptor.
  \<^item> \<open>NSB_INET\<close>: \<open>nsbBasicApp\<close>, \<open>nsbAppSink\<close> and their packet format.  \<open>NSB_INET_Facts\<close>: its round trip, the
    life of the application, a message end to end.  \<open>NSB_INET_Report\<close>: displays, result files, the other callbacks.
  \<^item> \<open>NSB_NS3\<close>: \<open>nsb-testing.cc\<close> (UDP) and \<open>nsb-testing-tcp.cc\<close> (TCP).  \<open>NSB_NS3_Facts\<close>: transfers, delivery, the
    listener.  \<open>NSB_NS3_Setup\<close>: what the three ns-3 programs build before they run (addresses, radio network, sockets,
    generated traffic) and their \<open>main\<close>.
  \<^item> \<open>NSB_Log\<close>: the lines of \<open>NsbLogSink\<close>.  \<open>NSB_Tests\<close>: \<open>cpp/nsb_test.cc\<close>; messages with a manifest and short ASCII text
    (\<open>carries_plain\<close>).  \<open>NSB_Examples\<close>: the programs of \<open>cpp/rabbit/examples\<close>, their constructors included.

  \<^bold>\<open>What is shown.\<close>  In PULL mode, for any schedule, any clients and any bytes: the messages are delivered once, in order
  per key, and nothing else is delivered; the daemon handles every read until an EXIT, unless it uses an erased iterator or
  answers a client that has gone; its tables stay well-formed, and the first simulator that asks is the one that is registered.
  With the clients' writes as part of the state, and one message to each read: what was written is what was handed out, what is
  held and what is in flight, and under fairness everything written arrives.  The daemon sends
  messages of five types only, and a client understands those that answer it.
  All this is summed up by the refinement: to its clients the daemon is a post office of independent queues.
  The library keeps the same contract for the programs that use it: in any session of any number of clients no constructor and no
  call fails or waits for ever, and every answer is that of the post office, for either client library, over bytes,
  and with the payloads in Redis; so each application gets what is posted for it in order, once.
  In PUSH mode: what is forwarded to whom, that everything written is forwarded or in flight, in order, and exactly when
  the daemon faults.  For the
  interfaces: which bytes are on the wire when a send returns, that reads neither lose nor reorder
  bytes, when operations return.  For the stores: round trips and distinctness of keys.  End to
  end: a message arrives as it was sent, directly, pushed, and through the simulated networks of the examples; the test
  program passes against a per-node daemon, and each example ends as its theorem says.  The theorems of kind error record executions in
  which the code does not do what it means to (coalesced and split reads, blank entries, stale
  registrations, hosts given by name, closed peers, unanswered pings, wrong hosts, and others).

  \<^bold>\<open>Bounds.\<close>  Integers of the code are words of 32 bits (\<open>i32\<close>) where it computes with them: message sizes,
  ports, the counter of the keys.  The time stamp in a key is the low 32 bits of the clock.
  Descriptors are integers, and \<open>FD_SETSIZE\<close> is 1024.  Lengths in an INET packet are words of 16 bits,
  \<open>bytesSent\<close> of a TCP transfer one of 32 bits; simulation times are integers.
  Sessions use texts of at most 1000 ASCII characters (\<open>plain_text\<close>); Protobuf is assumed to carry the messages made of them
  that have a manifest (\<open>carries_plain\<close>), and every \<open>fetch\<close> names a source.  With the database the
  session is shorter than \<open>2 ^ 20\<close> calls, the range of the counter in a key (after it a key could come again within
  one tick of the clock), identifiers have at most 900 characters, and payloads no NUL byte.  In \<open>NSB_Transport\<close> the kernel has room
  for a message (\<open>kernel_ok\<close>), and a message and what the daemon answers reach the other side before the next one
  is sent there: coalesced messages are merged by the daemon (\<open>coalesced_sends_lose_the_first\<close>).

  Nodes of the ns-3 networks have at most 254 addresses; with more than 19 hosts some of the traffic of
  \<open>ns3Simple-testing.cc\<close> is scheduled after its end (\<open>simple_traffic_cut\<close>).

  \<^bold>\<open>Not modelled.\<close>  The interleaving of threads within a process (the loops of listener and worker threads run over the
  values they read from their flags); what deleting the exchange does to the bindings of other clients; how much of a
  message the kernel takes from the daemon's \<open>send\<close> (\<open>sv_sent\<close> is what is handed to it).
  Of the simulators only the calls: the network of an ns-3 program is the value that the calls of the helpers
  describe, and what radio and routing make of it is the simulator's.  The registration macros of OMNeT++, console output
  (other than what a program prints of a message), command lines (taken as parsed).  The Python libraries, which are the same
  system in another language.
\<close>

end
